(* ===== verification/Prelude.thy ===== *)
theory Prelude
  imports Complex_Main "HOL-Library.Sublist" "HOL-Library.Char_ord" "HOL-Library.List_Lexorder"
begin

text \<open>
  What every component of the development shares: the exceptions of the modelled Python
  code, the sequencing of computations that may raise, loops over lists that stop at the
  first exception, decimal numerals, splitting and joining of strings, and the
  recognition of hexadecimal identities.

  Python's \<open>bytes\<close> and \<open>str\<close> are both \<^typ>\<open>string\<close>, a list of bytes. A \<open>str\<close> is
  represented by its UTF-8 encoding (a lone surrogate by the three bytes that the
  \<open>surrogatepass\<close> handler gives), so that a \<open>str\<close> that cannot be encoded is a list of
  bytes that is not valid UTF-8. Comparing code points and comparing these bytes give the
  same order, which is the order Python sorts strings by.
\<close>

section \<open>Exceptions\<close>

text \<open>
  One constructor per exception class of the code and of the standard library that a
  handler of the code distinguishes. The argument is the message, or the errno.
\<close>

datatype exn =
    ReviewError string
  | ValueError string
  | KeyError
  | TypeError
  | AttributeError
  | IndexError
  | OverflowError
  | StopIteration
  | FilterError string
  | IncompleteInventory string
  | ContractError string
  | VersionError string
  | HandoffError string
  | StaleEvidenceError string
  | JSONDecodeError
  | UnicodeDecodeError
  | UnicodeEncodeError
  | OSError
  | YAMLError

named_theorems run_simps \<open>defining equations, to evaluate the model on concrete inputs\<close>

named_theorems result_simps \<open>equations that decide a computation with a result\<close>

section \<open>Computations that may raise\<close>

text \<open>\<open>Inl e\<close> is the exception, \<open>Inr x\<close> the value.\<close>

definition bindE :: "'e + 'a \<Rightarrow> ('a \<Rightarrow> 'e + 'b) \<Rightarrow> 'e + 'b" where
  "bindE m f = (case m of Inl e \<Rightarrow> Inl e | Inr x \<Rightarrow> f x)"

text \<open>\<open>require(condition, code)\<close>, with the exception it raises.\<close>

definition requireE :: "bool \<Rightarrow> 'e \<Rightarrow> 'e + unit" where
  "requireE c e = (if c then Inr () else Inl e)"

text \<open>
  A run of consecutive checks: the first one that fails names the exception. Conditions
  after the first failing one do not influence the result.
\<close>

fun checks :: "(bool \<times> 'e) list \<Rightarrow> 'e + unit" where
  "checks [] = Inr ()"
| "checks ((c, e) # cs) = (if c then checks cs else Inl e)"

text \<open>A \<open>for\<close> loop over a state, and a comprehension whose element may raise.\<close>

fun foldE :: "('s \<Rightarrow> 'a \<Rightarrow> 'e + 's) \<Rightarrow> 's \<Rightarrow> 'a list \<Rightarrow> 'e + 's" where
  "foldE f s [] = Inr s"
| "foldE f s (x # xs) = bindE (f s x) (\<lambda>s'. foldE f s' xs)"

fun mapE :: "('a \<Rightarrow> 'e + 'b) \<Rightarrow> 'a list \<Rightarrow> 'e + 'b list" where
  "mapE f [] = Inr []"
| "mapE f (x # xs) = bindE (f x) (\<lambda>y. bindE (mapE f xs) (\<lambda>ys. Inr (y # ys)))"

fun forE :: "('a \<Rightarrow> 'e + unit) \<Rightarrow> 'a list \<Rightarrow> 'e + unit" where
  "forE f [] = Inr ()"
| "forE f (x # xs) = bindE (f x) (\<lambda>_. forE f xs)"

text \<open>\<open>try: m except <caught> as exc: raise error from exc\<close>\<close>

definition rescue :: "('e \<Rightarrow> bool) \<Rightarrow> 'e \<Rightarrow> 'e + 'a \<Rightarrow> 'e + 'a" where
  "rescue caught error m = (case m of Inl e \<Rightarrow> Inl (if caught e then error else e) | Inr x \<Rightarrow> Inr x)"

definition is_ok :: "'e + 'a \<Rightarrow> bool" where
  "is_ok r = (case r of Inl _ \<Rightarrow> False | Inr _ \<Rightarrow> True)"

lemma bindE_simps [simp]:
  "bindE (Inl e) f = Inl e"
  "bindE (Inr x) f = f x"
  by (simp_all add: bindE_def)

lemma rescue_simps [simp]: "rescue c e (Inr x) = Inr x" "rescue c e (Inl d) = Inl (if c d then e else d)"
  by (simp_all add: rescue_def)

lemma rescue_eq_Inr [simp]: "rescue c e m = Inr x \<longleftrightarrow> m = Inr x"
  by (simp add: rescue_def split: sum.splits)

lemma bindE_cong [fundef_cong]:
  "m = m' \<Longrightarrow> (\<And>x. m' = Inr x \<Longrightarrow> f x = g x) \<Longrightarrow> bindE m f = bindE m' g"
  by (simp add: bindE_def split: sum.splits)

text \<open>For evaluation: what follows is looked at once the first computation has a result.\<close>

lemma bindE_weak_cong: "m = m' \<Longrightarrow> bindE m f = bindE m' f"
  by simp

lemma bindE_eq_Inr [result_simps]:
  "bindE m f = Inr y \<longleftrightarrow> (\<exists>x. m = Inr x \<and> f x = Inr y)"
  by (simp add: bindE_def split: sum.splits)

lemma bindE_eq_Inl [result_simps]:
  "bindE m f = Inl e \<longleftrightarrow> m = Inl e \<or> (\<exists>x. m = Inr x \<and> f x = Inl e)"
  by (auto simp add: bindE_def split: sum.splits)

lemma bindE_assoc: "bindE (bindE m f) g = bindE m (\<lambda>x. bindE (f x) g)"
  by (simp add: bindE_def split: sum.splits)

lemma requireE_eq_Inr [simp]: "requireE c e = Inr u \<longleftrightarrow> c"
  by (simp add: requireE_def)

lemma requireE_eq_Inl [simp]: "requireE c e = Inl e' \<longleftrightarrow> \<not> c \<and> e' = e"
  by (auto simp add: requireE_def)

lemma requireE_True [simp]: "requireE True e = Inr ()"
  by (simp add: requireE_def)

lemma requireE_False [simp]: "requireE False e = Inl e"
  by (simp add: requireE_def)

lemma if_Inl_eq_Inr [simp]:
  "(if c then x else Inl e) = Inr u \<longleftrightarrow> c \<and> x = Inr u"
  "(if c then Inl e else x) = Inr u \<longleftrightarrow> \<not> c \<and> x = Inr u"
  by auto

lemma checks_eq_Inr: "checks cs = Inr u \<longleftrightarrow> (\<forall>(c, e) \<in> set cs. c)"
  by (induction cs rule: checks.induct) auto

lemma checks_Inl_mem: "checks cs = Inl e \<Longrightarrow> (False, e) \<in> set cs"
  by (induction cs rule: checks.induct) (auto split: if_splits)

lemma forE_eq_Inr: "forE f xs = Inr u \<longleftrightarrow> (\<forall>x \<in> set xs. f x = Inr ())"
  by (induction xs) (auto simp: bindE_eq_Inr)

lemma mapE_eq_Inr: "mapE f xs = Inr ys \<longleftrightarrow> list_all2 (\<lambda>x y. f x = Inr y) xs ys"
proof (induction xs arbitrary: ys)
  case (Cons x xs)
  then show ?case by (cases ys) (auto simp: bindE_eq_Inr)
qed auto

lemma mapE_result: "mapE f xs = Inr ys \<Longrightarrow> y \<in> set ys \<Longrightarrow> \<exists>x \<in> set xs. f x = Inr y"
  by (induction xs arbitrary: ys) (auto simp: bindE_eq_Inr)

lemma mapE_argument: "mapE f xs = Inr ys \<Longrightarrow> x \<in> set xs \<Longrightarrow> \<exists>y \<in> set ys. f x = Inr y"
  by (induction xs arbitrary: ys) (auto simp: bindE_eq_Inr)

lemma foldE_append: "foldE f s (xs @ ys) = bindE (foldE f s xs) (\<lambda>s'. foldE f s' ys)"
  by (induction xs arbitrary: s) (simp_all add: bindE_assoc)

text \<open>The loop rule: an invariant that every successful iteration keeps.\<close>

lemma foldE_invariant:
  assumes "foldE f s xs = Inr s'" and "I s"
    and "\<And>x s t. x \<in> set xs \<Longrightarrow> I s \<Longrightarrow> f s x = Inr t \<Longrightarrow> I t"
  shows "I s'"
  using assms
proof (induction xs arbitrary: s)
  case (Cons x xs)
  then obtain t where "f s x = Inr t" and "foldE f t xs = Inr s'"
    by (auto simp: bindE_eq_Inr)
  with Cons show ?case by (metis list.set_intros(1,2))
qed simp

lemma is_ok_simps [simp]: "is_ok (Inr x)" "\<not> is_ok (Inl e)"
  by (simp_all add: is_ok_def)

lemma is_ok_iff: "is_ok r \<longleftrightarrow> (\<exists>x. r = Inr x)"
  by (cases r) auto

text \<open>Case analysis on an \<open>if\<close>/\<open>elif\<close>/\<open>else\<close> chain.\<close>

lemma if_chain_cases:
  assumes "e = (if A then x else if B then y else z)"
  obtains "A" "e = x" | "B" "e = y" | "e = z"
  using assms by (auto split: if_splits)

lemma take_drop_hd: "take k (drop n xs) = a # r \<Longrightarrow> n < length xs \<and> xs ! n = a"
proof (cases "drop n xs")
  case (Cons b ys)
  assume "take k (drop n xs) = a # r"
  with Cons have "b = a" by (cases k) auto
  with Cons show ?thesis by (metis drop_all list.distinct(1) not_le nth_via_drop)
qed simp

section \<open>Characters and numerals\<close>

abbreviation byte :: "char \<Rightarrow> nat" where
  "byte c \<equiv> of_char c"

definition is_digit :: "char \<Rightarrow> bool" where
  "is_digit c \<longleftrightarrow> 48 \<le> byte c \<and> byte c \<le> 57"

definition is_hex :: "char \<Rightarrow> bool" where
  "is_hex c \<longleftrightarrow> is_digit c \<or> (97 \<le> byte c \<and> byte c \<le> 102)"

definition is_octal :: "char \<Rightarrow> bool" where
  "is_octal c \<longleftrightarrow> 48 \<le> byte c \<and> byte c \<le> 55"

text \<open>\<open>[A-Za-z0-9_.-]\<close>, the alphabet of a repository owner or name.\<close>

definition is_name_char :: "char \<Rightarrow> bool" where
  "is_name_char c \<longleftrightarrow> is_digit c \<or> (65 \<le> byte c \<and> byte c \<le> 90) \<or> (97 \<le> byte c \<and> byte c \<le> 122)
     \<or> byte c = 95 \<or> byte c = 46 \<or> byte c = 45"

text \<open>\<open>[0-9a-f]{n}\<close>\<close>

definition hex_id :: "nat \<Rightarrow> string \<Rightarrow> bool" where
  "hex_id n s \<longleftrightarrow> length s = n \<and> list_all is_hex s"

definition newline :: char where "newline = CHR 0x0A"

abbreviation oid :: "string \<Rightarrow> bool" where
  "oid \<equiv> hex_id 40"

definition digit_char :: "nat \<Rightarrow> char" where
  "digit_char d = char_of (48 + d)"

text \<open>\<open>str(n)\<close> for a number that is not negative, and \<open>int(s)\<close> on a string of digits.\<close>

fun dec :: "nat \<Rightarrow> string" where
  "dec n = (if n < 10 then [digit_char n] else dec (n div 10) @ [digit_char (n mod 10)])"

declare dec.simps [simp del, run_simps]

definition digits_val :: "string \<Rightarrow> nat" where
  "digits_val s = foldl (\<lambda>a c. 10 * a + (byte c - 48)) 0 s"

definition dec_int :: "int \<Rightarrow> string" where
  "dec_int i = (if i < 0 then CHR ''-'' # dec (nat (- i)) else dec (nat i))"

text \<open>
  \<open>int()\<close> refuses a decimal string of more than 4300 digits (the interpreter's default
  limit) with a \<^const>\<open>ValueError\<close>.
\<close>

definition int_digits :: "string \<Rightarrow> exn + nat" where
  "int_digits s = (if length s \<le> 4300 then Inr (digits_val s) else Inl (ValueError ''int-digits''))"

lemmas [run_simps] = is_digit_def is_hex_def is_octal_def is_name_char_def hex_id_def newline_def
  digit_char_def digits_val_def dec_int_def int_digits_def

lemma byte_less [simp]: "byte c < (256 :: nat)"
  by (metis of_char_mod_256 mod_less_divisor zero_less_numeral)

lemma byte_digit_char [simp]: "d < 10 \<Longrightarrow> byte (digit_char d) = 48 + d"
  by (simp add: digit_char_def)

lemma is_digit_digit_char [simp]: "d < 10 \<Longrightarrow> is_digit (digit_char d)"
  by (simp add: is_digit_def)

lemma digits_val_snoc [simp]: "digits_val (s @ [c]) = 10 * digits_val s + (byte c - 48)"
  by (simp add: digits_val_def)

lemma digits_val_single [simp]: "digits_val [c] = byte c - 48"
  by (simp add: digits_val_def)

lemma dec_not_Nil [simp]: "dec n \<noteq> []"
  by (subst dec.simps) simp

lemma dec_digits: "list_all is_digit (dec n)"
proof (induction n rule: dec.induct)
  case (1 n)
  then show ?case by (cases "n < 10") (simp_all add: dec.simps [of n])
qed

lemma digits_val_dec [simp]: "digits_val (dec n) = n"
proof (induction n rule: dec.induct)
  case (1 n)
  then show ?case by (cases "n < 10") (simp_all add: dec.simps [of n])
qed

lemma dec_inject [simp]: "dec m = dec n \<longleftrightarrow> m = n"
  by (metis digits_val_dec)

lemma char_of_zero [simp]: "char_of (48 :: nat) = CHR ''0''"
  by code_simp

lemma dec_digits_val:
  assumes "s \<noteq> []" "list_all is_digit s" "s = ''0'' \<or> hd s \<noteq> CHR ''0''"
  shows "dec (digits_val s) = s"
  using assms
proof (induction s rule: rev_induct)
  case (snoc c s)
  have c: "48 \<le> byte c" "byte c \<le> (57 :: nat)" using snoc.prems(2) by (simp_all add: is_digit_def)
  have char: "digit_char (byte c - 48) = c"
    using c by (simp add: digit_char_def)
  show ?case
  proof (cases "s = []")
    case True
    with c char show ?thesis by (subst dec.simps) simp
  next
    case False
    with snoc.prems have "dec (digits_val s) = s" and nz: "hd s \<noteq> CHR ''0''" by (auto intro!: snoc.IH)
    moreover have "digits_val s \<noteq> 0"
    proof
      assume "digits_val s = 0"
      with \<open>dec (digits_val s) = s\<close> have "s = dec 0" by simp
      with nz show False by (simp add: dec.simps [of 0] digit_char_def)
    qed
    moreover have "byte c - 48 < (10 :: nat)" using c by linarith
    then have "(10 * digits_val s + (byte c - 48)) div 10 = digits_val s"
      "(10 * digits_val s + (byte c - 48)) mod 10 = byte c - 48" by (simp_all only: mod_mult_self4 mod_less div_mult_self4)
    ultimately show ?thesis using char by (subst dec.simps) simp
  qed
qed simp

lemma dec_length: "n < 10 ^ k \<Longrightarrow> 0 < k \<Longrightarrow> length (dec n) \<le> k"
proof (induction k arbitrary: n)
  case (Suc k)
  show ?case
  proof (cases "n < 10")
    case False
    with Suc.prems have "n div 10 < 10 ^ k" "0 < k" by (cases k; auto)+
    with Suc.IH False show ?thesis by (subst dec.simps) simp
  qed (subst dec.simps, simp)
qed simp

section \<open>Splitting and joining\<close>

text \<open>\<open>s.split(c)\<close> for a separator of one byte, and \<open>c.join(xs)\<close>.\<close>

fun split_on :: "char \<Rightarrow> string \<Rightarrow> string list" where
  "split_on c [] = [[]]"
| "split_on c (x # xs) =
     (if x = c then [] # split_on c xs
      else (case split_on c xs of [] \<Rightarrow> [[x]] | y # ys \<Rightarrow> (x # y) # ys))"

fun join_with :: "string \<Rightarrow> string list \<Rightarrow> string" where
  "join_with sep [] = []"
| "join_with sep [x] = x"
| "join_with sep (x # y # zs) = x @ sep @ join_with sep (y # zs)"

lemma split_on_not_Nil [simp]: "split_on c s \<noteq> []"
  by (induction s) (auto split: list.splits)

lemma join_split [simp]: "join_with [c] (split_on c s) = s"
proof (induction s)
  case (Cons x xs)
  then show ?case
    by (cases "split_on c xs"; cases "tl (split_on c xs)")
       (auto split: list.splits)
qed simp

lemma split_on_no_sep: "p \<in> set (split_on c s) \<Longrightarrow> c \<notin> set p"
proof (induction s arbitrary: p)
  case (Cons x xs)
  then show ?case by (cases "split_on c xs") (auto split: if_splits)
qed simp

lemma split_on_id: "c \<notin> set s \<Longrightarrow> split_on c s = [s]"
  by (induction s) (auto split: list.splits)

lemma split_join: "xs \<noteq> [] \<Longrightarrow> (\<And>x. x \<in> set xs \<Longrightarrow> c \<notin> set x) \<Longrightarrow> split_on c (join_with [c] xs) = xs"
proof (induction "[c]" xs rule: join_with.induct)
  case (3 x y zs)
  have "split_on c (x @ c # s) = x # split_on c s" if "c \<notin> set x" for s x
    using that by (induction x) auto
  with 3 show ?case by simp
qed (simp_all add: split_on_id)

lemma dec_no_char: "\<not> is_digit c \<Longrightarrow> c \<notin> set (dec n)"
  using dec_digits [of n] by (auto simp: list_all_iff)

lemma not_digits [simp]: "\<not> is_digit (CHR ''.'')" "\<not> is_digit (CHR 0x2F)"
  by (simp_all add: is_digit_def)

text \<open>\<open>s.removesuffix(suf)\<close>\<close>

definition removesuffix :: "string \<Rightarrow> string \<Rightarrow> string" where
  "removesuffix suf s = (if suffix suf s then take (length s - length suf) s else s)"

text \<open>\<open>re.match(cls*)\<close>: the longest prefix in a character class and the rest.\<close>

definition span :: "('a \<Rightarrow> bool) \<Rightarrow> 'a list \<Rightarrow> 'a list \<times> 'a list" where
  "span p s = (takeWhile p s, dropWhile p s)"

lemmas [run_simps] = span_def removesuffix_def

lemma span_append: "span p s = (a, b) \<Longrightarrow> s = a @ b"
  by (auto simp: span_def)

lemma join_with_all: "\<forall>s \<in> set ss. list_all P s \<Longrightarrow> list_all P sep \<Longrightarrow> list_all P (join_with sep ss)"
  by (induction sep ss rule: join_with.induct) auto

lemma join_with_length: "length (join_with sep ss) \<le> sum_list (map (\<lambda>s. length s + length sep) ss)"
  by (induction sep ss rule: join_with.induct) auto

text \<open>Sums do not depend on the order.\<close>

lemma sum_list_sort_key: "sum_list (map (f :: 'a \<Rightarrow> 'b :: comm_monoid_add) (sort_key g xs)) = sum_list (map f xs)"
proof -
  have "sum_list (map f (insort_key g x ys)) = f x + sum_list (map f ys)" for x ys
    by (induction ys) (simp_all add: ac_simps)
  then show ?thesis by (induction xs) simp_all
qed

end
