(* ===== verification/Py_Value.thy ===== *)
theory Py_Value
  imports Prelude
begin

text \<open>
  The dynamically typed values the scripts exchange: what \<open>json.loads\<close> returns and
  \<open>json.dumps\<close> accepts. The operations of the language on them (subscription,
  \<open>dict.get\<close>, \<open>==\<close>, truth, exact type tests) and the canonical JSON text
  (\<open>json.dumps(v, sort_keys=True, ensure_ascii=True, separators=(",", ":"))\<close>).

  A float carries its exact value and its \<open>repr\<close>; infinities and NaN are no values of
  this type. A dictionary is the list of its items in insertion order.
\<close>

section \<open>Values\<close>

datatype py =
    PNone
  | PBool bool
  | PInt int
  | PFloat rat string
  | PStr string
  | PList "py list"
  | PDict "(string \<times> py) list"

fun keys_of :: "py \<Rightarrow> string list" where
  "keys_of (PDict kvs) = map fst kvs"
| "keys_of _ = []"

fun is_int :: "py \<Rightarrow> bool" where
  "is_int (PInt _) = True"
| "is_int _ = False"

fun is_str :: "py \<Rightarrow> bool" where
  "is_str (PStr _) = True"
| "is_str _ = False"

fun is_list :: "py \<Rightarrow> bool" where
  "is_list (PList _) = True"
| "is_list _ = False"

fun is_dict :: "py \<Rightarrow> bool" where
  "is_dict (PDict _) = True"
| "is_dict _ = False"

fun is_bool :: "py \<Rightarrow> bool" where
  "is_bool (PBool _) = True"
| "is_bool _ = False"

text \<open>The contents, used after a type test; the default is never read.\<close>

fun the_int :: "py \<Rightarrow> int" where
  "the_int (PInt i) = i"
| "the_int _ = 0"

fun the_str :: "py \<Rightarrow> string" where
  "the_str (PStr s) = s"
| "the_str _ = []"

fun the_list :: "py \<Rightarrow> py list" where
  "the_list (PList xs) = xs"
| "the_list _ = []"

fun the_items :: "py \<Rightarrow> (string \<times> py) list" where
  "the_items (PDict kvs) = kvs"
| "the_items _ = []"

text \<open>The well-formed values: no key of a dictionary twice.\<close>

fun py_wf :: "py \<Rightarrow> bool" and py_wf_list :: "py list \<Rightarrow> bool"
  and py_wf_items :: "(string \<times> py) list \<Rightarrow> bool" where
  "py_wf (PList xs) = py_wf_list xs"
| "py_wf (PDict kvs) = (distinct (map fst kvs) \<and> py_wf_items kvs)"
| "py_wf _ = True"
| "py_wf_list [] = True"
| "py_wf_list (x # xs) = (py_wf x \<and> py_wf_list xs)"
| "py_wf_items [] = True"
| "py_wf_items ((k, v) # kvs) = (py_wf v \<and> py_wf_items kvs)"

section \<open>Operations of the language\<close>

text \<open>\<open>d[k]\<close> with a string key: only a dictionary can be subscripted with a string.\<close>

definition py_index :: "py \<Rightarrow> string \<Rightarrow> exn + py" where
  "py_index d k = (case d of
     PDict kvs \<Rightarrow> (case map_of kvs k of None \<Rightarrow> Inl KeyError | Some v \<Rightarrow> Inr v)
   | _ \<Rightarrow> Inl TypeError)"

text \<open>\<open>d.get(k, default)\<close>: only a dictionary has the attribute.\<close>

definition py_get :: "py \<Rightarrow> string \<Rightarrow> py \<Rightarrow> exn + py" where
  "py_get d k dflt = (case d of
     PDict kvs \<Rightarrow> Inr (case map_of kvs k of None \<Rightarrow> dflt | Some v \<Rightarrow> v)
   | _ \<Rightarrow> Inl AttributeError)"

text \<open>The same on a value already known to be a dictionary.\<close>

definition get_or :: "py \<Rightarrow> string \<Rightarrow> py \<Rightarrow> py" where
  "get_or d k dflt = (case map_of (the_items d) k of None \<Rightarrow> dflt | Some v \<Rightarrow> v)"

definition has_key :: "py \<Rightarrow> string \<Rightarrow> bool" where
  "has_key d k \<longleftrightarrow> map_of (the_items d) k \<noteq> None"

text \<open>\<open>dict.update\<close> and \<open>dict.pop\<close> on the items.\<close>

fun dict_put :: "string \<Rightarrow> py \<Rightarrow> (string \<times> py) list \<Rightarrow> (string \<times> py) list" where
  "dict_put k v [] = [(k, v)]"
| "dict_put k v ((k', w) # kvs) = (if k' = k then (k', v) # kvs else (k', w) # dict_put k v kvs)"

definition dict_update :: "(string \<times> py) list \<Rightarrow> (string \<times> py) list \<Rightarrow> (string \<times> py) list" where
  "dict_update kvs new = foldl (\<lambda>d (k, v). dict_put k v d) kvs new"

definition dict_pop :: "string \<Rightarrow> (string \<times> py) list \<Rightarrow> (string \<times> py) list" where
  "dict_pop k kvs = filter (\<lambda>(k', _). k' \<noteq> k) kvs"

lemma map_of_dict_put [simp]: "map_of (dict_put k v kvs) = (map_of kvs)(k \<mapsto> v)"
  by (induction kvs rule: dict_put.induct) auto

lemma map_of_dict_pop [simp]: "map_of (dict_pop k kvs) = (map_of kvs)(k := None)"
  by (induction kvs) (auto simp: dict_pop_def)

text \<open>\<open>bool(v)\<close>\<close>

fun py_truth :: "py \<Rightarrow> bool" where
  "py_truth PNone = False"
| "py_truth (PBool b) = b"
| "py_truth (PInt i) = (i \<noteq> 0)"
| "py_truth (PFloat r _) = (r \<noteq> 0)"
| "py_truth (PStr s) = (s \<noteq> [])"
| "py_truth (PList xs) = (xs \<noteq> [])"
| "py_truth (PDict kvs) = (kvs \<noteq> [])"

text \<open>
  \<open>==\<close>: booleans, integers and floats are equal when their exact values are, dictionaries
  when they have the same keys with equal values, in any order.
\<close>

fun num_of :: "py \<Rightarrow> rat option" where
  "num_of (PBool b) = Some (if b then 1 else 0)"
| "num_of (PInt i) = Some (of_int i)"
| "num_of (PFloat r _) = Some r"
| "num_of _ = None"

fun py_eq :: "py \<Rightarrow> py \<Rightarrow> bool" and py_eq_list :: "py list \<Rightarrow> py list \<Rightarrow> bool"
  and py_eq_items :: "(string \<times> py) list \<Rightarrow> (string \<times> py) list \<Rightarrow> bool" where
  "py_eq PNone b = (case b of PNone \<Rightarrow> True | _ \<Rightarrow> False)"
| "py_eq (PStr s) b = (case b of PStr t \<Rightarrow> s = t | _ \<Rightarrow> False)"
| "py_eq (PList xs) b = (case b of PList ys \<Rightarrow> py_eq_list xs ys | _ \<Rightarrow> False)"
| "py_eq (PDict xs) b = (case b of PDict ys \<Rightarrow> length xs = length ys \<and> py_eq_items xs ys | _ \<Rightarrow> False)"
| "py_eq (PBool v) b = (num_of b = Some (if v then 1 else 0))"
| "py_eq (PInt i) b = (num_of b = Some (of_int i))"
| "py_eq (PFloat r s) b = (num_of b = Some r)"
| "py_eq_list [] ys = (ys = [])"
| "py_eq_list (x # xs) ys = (case ys of [] \<Rightarrow> False | y # ys' \<Rightarrow> py_eq x y \<and> py_eq_list xs ys')"
| "py_eq_items [] ys = True"
| "py_eq_items ((k, v) # xs) ys =
     (case map_of ys k of None \<Rightarrow> False | Some w \<Rightarrow> py_eq v w \<and> py_eq_items xs ys)"

lemma py_eq_PStr [simp]: "py_eq v (PStr s) \<longleftrightarrow> v = PStr s"
  by (cases v) auto

lemma py_eq_PNone [simp]: "py_eq v PNone \<longleftrightarrow> v = PNone"
  by (cases v) auto

lemma py_eq_nil [simp]: "py_eq v (PList []) \<longleftrightarrow> v = PList []"
  by (cases v; simp) (metis list.exhaust py_eq_list.simps(1) py_eq_list.simps(2) list.simps(4))

lemma py_eq_items_refl:
  assumes "distinct (map fst kvs)" and "set xs \<subseteq> set kvs"
    and "\<And>k v. (k, v) \<in> set xs \<Longrightarrow> py_eq v v"
  shows "py_eq_items xs kvs"
  using assms
proof (induction xs)
  case (Cons x xs)
  obtain k v where x: "x = (k, v)" by (cases x)
  with Cons.prems have "map_of kvs k = Some v" by (simp add: map_of_is_SomeI)
  with x Cons show ?case by fastforce
qed simp

lemma py_eq_refl: "py_wf v \<Longrightarrow> py_eq v v"
  and py_eq_list_refl: "py_wf_list xs \<Longrightarrow> py_eq_list xs xs"
  and py_wf_items_refl: "py_wf_items kvs \<Longrightarrow> \<forall>(k, v) \<in> set kvs. py_eq v v"
  by (induction v and xs and kvs rule: py_wf_py_wf_list_py_wf_items.induct)
     (auto intro!: py_eq_items_refl)

lemma py_index_eq_Inr: "py_index d k = Inr v \<longleftrightarrow> (\<exists>kvs. d = PDict kvs \<and> map_of kvs k = Some v)"
  by (cases d) (auto simp: py_index_def split: option.splits)

lemma is_int_iff: "is_int v \<longleftrightarrow> (\<exists>i. v = PInt i)" by (cases v) auto
lemma is_str_iff: "is_str v \<longleftrightarrow> (\<exists>s. v = PStr s)" by (cases v) auto
lemma is_list_iff: "is_list v \<longleftrightarrow> (\<exists>xs. v = PList xs)" by (cases v) auto
lemma is_dict_iff: "is_dict v \<longleftrightarrow> (\<exists>kvs. v = PDict kvs)" by (cases v) auto
lemma is_bool_iff: "is_bool v \<longleftrightarrow> (\<exists>b. v = PBool b)" by (cases v) auto

lemmas py_type_iffs = is_int_iff is_str_iff is_list_iff is_dict_iff is_bool_iff

section \<open>UTF-8\<close>

definition is_cont :: "char \<Rightarrow> bool" where
  "is_cont c \<longleftrightarrow> 128 \<le> byte c \<and> byte c \<le> 191"

text \<open>
  How many bytes the strict decoder consumes at the start of a string, or \<open>None\<close> where it
  raises: no overlong forms, no surrogates, nothing above U+10FFFF.
\<close>

definition in_range :: "nat \<Rightarrow> nat \<Rightarrow> char \<Rightarrow> bool" where
  "in_range lo hi c \<longleftrightarrow> lo \<le> byte c \<and> byte c \<le> hi"

fun utf8_valid :: "string \<Rightarrow> bool" where
  "utf8_valid [] = True"
| "utf8_valid (a # r) =
     (if byte a \<le> 127 then utf8_valid r
      else if in_range 194 223 a then
        (case r of b # r' \<Rightarrow> is_cont b \<and> utf8_valid r' | _ \<Rightarrow> False)
      else if in_range 224 239 a then
        (case r of b # c # r' \<Rightarrow>
           in_range (if byte a = 224 then 160 else 128) (if byte a = 237 then 159 else 191) b
           \<and> is_cont c \<and> utf8_valid r'
         | _ \<Rightarrow> False)
      else if in_range 240 244 a then
        (case r of b # c # d # r' \<Rightarrow>
           in_range (if byte a = 240 then 144 else 128) (if byte a = 244 then 143 else 191) b
           \<and> is_cont c \<and> is_cont d \<and> utf8_valid r'
         | _ \<Rightarrow> False)
      else False)"

declare utf8_valid.simps(2) [simp del, run_simps]

lemma utf8_one: "byte a \<le> (127 :: nat) \<Longrightarrow> utf8_valid (a # r) = utf8_valid r"
  by (simp add: utf8_valid.simps(2))

lemma utf8_two:
  "in_range 194 223 a \<Longrightarrow> utf8_valid (a # r) \<longleftrightarrow> (\<exists>b r'. r = b # r' \<and> is_cont b \<and> utf8_valid r')"
  by (subst utf8_valid.simps(2)) (auto simp: in_range_def split: list.splits)

definition second_of_three :: "char \<Rightarrow> char \<Rightarrow> bool" where
  "second_of_three a = in_range (if byte a = (224 :: nat) then 160 else 128) (if byte a = (237 :: nat) then 159 else 191)"

definition second_of_four :: "char \<Rightarrow> char \<Rightarrow> bool" where
  "second_of_four a = in_range (if byte a = (240 :: nat) then 144 else 128) (if byte a = (244 :: nat) then 143 else 191)"

lemma utf8_three:
  "in_range 224 239 a \<Longrightarrow> utf8_valid (a # r) \<longleftrightarrow>
     (\<exists>b c r'. r = b # c # r' \<and> second_of_three a b \<and> is_cont c \<and> utf8_valid r')"
  by (subst utf8_valid.simps(2)) (auto simp: in_range_def second_of_three_def split: list.splits)

lemma utf8_four:
  "in_range 240 244 a \<Longrightarrow> utf8_valid (a # r) \<longleftrightarrow>
     (\<exists>b c d r'. r = b # c # d # r' \<and> second_of_four a b \<and> is_cont c \<and> is_cont d \<and> utf8_valid r')"
  by (subst utf8_valid.simps(2)) (auto simp: in_range_def second_of_four_def split: list.splits)

lemma utf8_lead:
  "utf8_valid (a # r) \<Longrightarrow>
     byte a \<le> (127 :: nat) \<or> in_range 194 223 a \<or> in_range 224 239 a \<or> in_range 240 244 a"
  by (simp only: utf8_valid.simps split: if_splits) simp_all

lemma second_is_cont: "second_of_three a b \<Longrightarrow> is_cont b" "second_of_four a b \<Longrightarrow> is_cont b"
  by (auto simp: second_of_three_def second_of_four_def in_range_def is_cont_def split: if_splits)

text \<open>\<open>len(s)\<close> of a \<open>str\<close>: the bytes that start a code point.\<close>

definition str_len :: "string \<Rightarrow> nat" where
  "str_len s = length (filter (\<lambda>c. \<not> is_cont c) s)"

section \<open>Canonical JSON\<close>

definition hex_digit :: "nat \<Rightarrow> char" where
  "hex_digit d = (if d < 10 then char_of (48 + d) else char_of (87 + d))"

definition u_escape :: "nat \<Rightarrow> string" where
  "u_escape n = [CHR 0x5C, CHR ''u'', hex_digit (n div 4096 mod 16), hex_digit (n div 256 mod 16),
     hex_digit (n div 16 mod 16), hex_digit (n mod 16)]"

text \<open>One code point of a JSON string under \<open>ensure_ascii\<close>, an astral one as a surrogate pair.\<close>

definition escape_code :: "nat \<Rightarrow> string" where
  "escape_code n =
     (if n = 34 then [CHR 0x5C, CHR 0x22] else if n = 92 then [CHR 0x5C, CHR 0x5C]
      else if n = 10 then [CHR 0x5C, CHR ''n''] else if n = 13 then [CHR 0x5C, CHR ''r'']
      else if n = 9 then [CHR 0x5C, CHR ''t''] else if n = 8 then [CHR 0x5C, CHR ''b'']
      else if n = 12 then [CHR 0x5C, CHR ''f'']
      else if 32 \<le> n \<and> n \<le> 126 then [char_of n]
      else if n < 65536 then u_escape n
      else u_escape (55296 + (n - 65536) div 1024) @ u_escape (56320 + (n - 65536) mod 1024))"

text \<open>The code points of a string, from the UTF-8 bytes that represent it.\<close>

fun code_points :: "string \<Rightarrow> nat list" where
  "code_points [] = []"
| "code_points (a # r) =
     (if byte a \<le> 127 then byte a # code_points r
      else if byte a \<le> 223 then
        (case r of b # r' \<Rightarrow> ((byte a - 192) * 64 + (byte b - 128)) # code_points r' | _ \<Rightarrow> [])
      else if byte a \<le> 239 then
        (case r of b # c # r' \<Rightarrow>
           ((byte a - 224) * 4096 + (byte b - 128) * 64 + (byte c - 128)) # code_points r'
         | _ \<Rightarrow> [])
      else
        (case r of b # c # d # r' \<Rightarrow>
           ((byte a - 240) * 262144 + (byte b - 128) * 4096 + (byte c - 128) * 64 + (byte d - 128))
           # code_points r'
         | _ \<Rightarrow> []))"

definition json_string :: "string \<Rightarrow> string" where
  "json_string s = CHR 0x22 # concat (map escape_code (code_points s)) @ [CHR 0x22]"

fun canonical :: "py \<Rightarrow> string" and canonical_list :: "py list \<Rightarrow> string list"
  and canonical_items :: "(string \<times> py) list \<Rightarrow> (string \<times> string) list" where
  "canonical PNone = ''null''"
| "canonical (PBool b) = (if b then ''true'' else ''false'')"
| "canonical (PInt i) = dec_int i"
| "canonical (PFloat r s) = s"
| "canonical (PStr s) = json_string s"
| "canonical (PList xs) = ''['' @ join_with '','' (canonical_list xs) @ '']''"
| "canonical (PDict kvs) = ''{'' @ join_with '',''
     (map (\<lambda>(k, v). json_string k @ '':'' @ v) (sort_key fst (canonical_items kvs))) @ ''}''"
| "canonical_list [] = []"
| "canonical_list (x # xs) = canonical x # canonical_list xs"
| "canonical_items [] = []"
| "canonical_items ((k, v) # kvs) = (k, canonical v) # canonical_items kvs"

text \<open>
  \<open>json.loads(canonical(v))\<close>: a copy of the value that shares nothing with it, its
  dictionaries in the order of their keys.
\<close>

fun detach :: "py \<Rightarrow> py" and detach_list :: "py list \<Rightarrow> py list"
  and detach_items :: "(string \<times> py) list \<Rightarrow> (string \<times> py) list" where
  "detach (PList xs) = PList (detach_list xs)"
| "detach (PDict kvs) = PDict (sort_key fst (detach_items kvs))"
| "detach v = v"
| "detach_list [] = []"
| "detach_list (x # xs) = detach x # detach_list xs"
| "detach_items [] = []"
| "detach_items ((k, v) # kvs) = (k, detach v) # detach_items kvs"

lemmas [run_simps] = py_index_def py_get_def get_or_def has_key_def dict_update_def dict_pop_def is_cont_def in_range_def str_len_def
  hex_digit_def u_escape_def escape_code_def json_string_def

lemma canonical_list_map: "canonical_list xs = map canonical xs"
  by (induction xs) auto

lemma canonical_items_map: "canonical_items kvs = map (\<lambda>(k, v). (k, canonical v)) kvs"
  by (induction kvs) auto

lemma detach_list_map: "detach_list xs = map detach xs"
  by (induction xs) auto

lemma detach_items_map: "detach_items kvs = map (\<lambda>(k, v). (k, detach v)) kvs"
  by (induction kvs) auto

lemma fst_detach_items [simp]: "map fst (detach_items kvs) = map fst kvs"
  by (induction kvs) auto

lemma insort_key_map_val:
  "map (\<lambda>(k, v). (k, f v)) (insort_key fst x kvs) = insort_key fst (case x of (k, v) \<Rightarrow> (k, f v)) (map (\<lambda>(k, v). (k, f v)) kvs)"
  by (induction kvs) (auto split: prod.splits)

lemma sort_key_map_val:
  "map (\<lambda>(k, v). (k, f v)) (sort_key fst kvs) = sort_key fst (map (\<lambda>(k, v). (k, f v)) kvs)"
  by (induction kvs) (auto simp: insort_key_map_val)

lemma sort_key_twice [simp]: "sort_key f (sort_key f xs) = sort_key f xs"
  by (rule sort_key_id_if_sorted) simp

text \<open>The copy has the same canonical text, and sorting it a second time changes nothing.\<close>

lemma canonical_detach [simp]: "canonical (detach v) = canonical v"
  and "canonical_list (detach_list xs) = canonical_list xs"
  and "canonical_items (detach_items kvs) = canonical_items kvs"
proof (induction v and xs and kvs rule: detach_detach_list_detach_items.induct)
  case (2 kvs)
  then show ?case
    by (simp add: canonical_items_map sort_key_map_val sort_key_twice)
qed auto

lemma map_of_filter_key: "map_of (filter (\<lambda>x. fst x = k) kvs) k = map_of kvs k"
  by (induction kvs) auto

lemma map_of_sort_key: "map_of (sort_key fst kvs) k = map_of kvs k"
  by (metis map_of_filter_key sort_key_stable)

lemma map_of_detach_items: "map_of (detach_items kvs) k = map_option detach (map_of kvs k)"
  by (induction kvs) auto

text \<open>Copying commutes with looking a key up.\<close>

lemma get_or_detach: "get_or (detach d) k PNone = detach (get_or d k PNone)"
  by (cases d) (simp_all add: get_or_def map_of_sort_key map_of_detach_items split: option.splits)

lemma detach_eq_PInt [simp]: "detach v = PInt i \<longleftrightarrow> v = PInt i"
  by (cases v) auto

lemma the_int_detach [simp]: "the_int (detach v) = the_int v"
  by (cases v) auto

end
