(* ===== verification/Diff_Inventory.thy ===== *)
theory Diff_Inventory
  imports Py_Value
begin

text \<open>
  The byte-level part of \<open>scripts/bounded_review.py\<close>: the text boundary, Git's C-quoted
  paths (\<open>validate_path\<close>, \<open>path_value\<close>) and the complete parser of a full-index diff
  (\<open>inventory\<close>). The index \<open>i\<close> into \<open>lines\<close> is represented by the remaining lines
  \<open>lines[i:]\<close> together with their byte offset \<open>starts[i]\<close>.
\<close>

section \<open>Limits and the text boundary\<close>

definition MAX_UNIT_BYTES :: nat where "MAX_UNIT_BYTES = 199999"

definition MAX_UNITS :: nat where "MAX_UNITS = 64"

definition MAX_TOTAL_BYTES :: nat where "MAX_TOTAL_BYTES = MAX_UNITS * MAX_UNIT_BYTES"

text \<open>\<open>text(payload)\<close>\<close>

definition text_bytes :: "string \<Rightarrow> exn + unit" where
  "text_bytes payload = checks
     [(CHR 0x00 \<notin> set payload, ReviewError ''binary-input''),
      (utf8_valid payload, ReviewError ''non-utf8-input'')]"

section \<open>Paths\<close>

definition slash :: char where "slash = CHR 0x2F"

definition validate_path :: "string \<Rightarrow> exn + unit" where
  "validate_path name =
     bindE (checks
       [(utf8_valid name, ReviewError ''non-utf8-path''),
        (0 < length name \<and> length name \<le> 32768, ReviewError ''path-length'')]) (\<lambda>_.
     bindE (text_bytes name) (\<lambda>_.
     requireE
       (\<not> prefix [slash] name
        \<and> list_all (\<lambda>part. part \<notin> set ['''', ''.'', ''..'', ''.git'']) (split_on slash name))
       (ReviewError ''unsafe-path'')))"

text \<open>The dictionary \<open>escapes\<close>, by the byte after the backslash.\<close>

fun escape_value :: "char \<Rightarrow> char option" where
  "escape_value c =
     (if c = CHR ''a'' then Some (char_of (7 :: nat))
      else if c = CHR ''b'' then Some (char_of (8 :: nat))
      else if c = CHR ''t'' then Some (char_of (9 :: nat))
      else if c = CHR ''n'' then Some (char_of (10 :: nat))
      else if c = CHR ''v'' then Some (char_of (11 :: nat))
      else if c = CHR ''f'' then Some (char_of (12 :: nat))
      else if c = CHR ''r'' then Some (char_of (13 :: nat))
      else if c = CHR 0x22 then Some (CHR 0x22)
      else if c = CHR 0x5C then Some (CHR 0x5C)
      else None)"

declare escape_value.simps [simp del, run_simps]

text \<open>The loop over \<open>source\<close> of \<open>path_value\<close>; the octal form is \<open>[0-3][0-7]{2}\<close>.\<close>

definition octal_value :: "char \<Rightarrow> char \<Rightarrow> char \<Rightarrow> exn + char" where
  "octal_value a b c =
     (if is_octal a \<and> byte a \<le> (51 :: nat) \<and> is_octal b \<and> is_octal c
      then Inr (char_of (64 * (byte a - 48) + 8 * (byte b - 48) + (byte c - 48) :: nat))
      else Inl (ReviewError ''path-escape''))"

fun unquote :: "string \<Rightarrow> exn + string" where
  "unquote [] = Inr []"
| "unquote (x # r) =
     (if x \<noteq> CHR 0x5C then bindE (unquote r) (\<lambda>s. Inr (x # s))
      else (case r of
        [] \<Rightarrow> Inl (ReviewError ''path-escape'')
      | e # r1 \<Rightarrow>
          (case escape_value e of
            Some v \<Rightarrow> bindE (unquote r1) (\<lambda>s. Inr (v # s))
          | None \<Rightarrow>
              (case r1 of
                b # c # r2 \<Rightarrow>
                  bindE (octal_value e b c) (\<lambda>v. bindE (unquote r2) (\<lambda>s. Inr (v # s)))
              | _ \<Rightarrow> Inl (ReviewError ''path-escape'')))))"

definition path_value :: "string \<Rightarrow> string \<Rightarrow> exn + string" where
  "path_value raw pre =
     bindE (requireE (0 < length raw \<and> length raw \<le> 32768) (ReviewError ''path-length'')) (\<lambda>_.
     bindE (if prefix [CHR 0x22] raw
            then bindE (requireE (suffix [CHR 0x22] raw) (ReviewError ''path-quote''))
                   (\<lambda>_. unquote (butlast (tl raw)))
            else Inr raw) (\<lambda>decoded.
     bindE (requireE (prefix pre decoded) (ReviewError ''path-prefix'')) (\<lambda>_.
     let name = drop (length pre) decoded in
     bindE (text_bytes name) (\<lambda>_.
     bindE (validate_path name) (\<lambda>_. Inr name)))))"

section \<open>Records of a diff\<close>

datatype operation = Modify | Add | Delete

fun operation_name :: "operation \<Rightarrow> string" where
  "operation_name Modify = ''modify''"
| "operation_name Add = ''add''"
| "operation_name Delete = ''delete''"

record hunk =
  hk_start :: nat
  hk_end :: nat
  old_start :: nat
  old_count :: nat
  new_start :: nat
  new_count :: nat

record diff_file =
  fl_path :: string
  fl_operation :: operation
  old_blob :: string
  new_blob :: string
  old_mode :: "string option"
  new_mode :: "string option"
  fl_start :: nat
  fl_end :: nat
  fl_hunks :: "hunk list"

definition zero_blob :: string where "zero_blob = replicate 40 CHR ''0''"

definition empty_blob :: string where
  "empty_blob = ''e69de29bb2d1d6434b8b29ae775ad8c2e48c5391''"

text \<open>\<open>lines = [line + b"\n" for line in payload.split(b"\n")[:-1]]\<close>\<close>

definition diff_lines :: "string \<Rightarrow> string list" where
  "diff_lines payload = map (\<lambda>l. l @ [newline]) (butlast (split_on newline payload))"

section \<open>Line grammars\<close>

text \<open>\<open>line[n:-1]\<close>\<close>

definition line_body :: "nat \<Rightarrow> string \<Rightarrow> string" where
  "line_body n line = butlast (drop n line)"

text \<open>\<open>INDEX.fullmatch\<close>: both blobs and the mode, when there is one.\<close>

definition match_index :: "string \<Rightarrow> (string \<times> string \<times> string option) option" where
  "match_index line =
     (let b1 = take 40 (drop 6 line); b2 = take 40 (drop 48 line); rest = drop 88 line in
      if prefix ''index '' line \<and> oid b1 \<and> take 2 (drop 46 line) = ''..'' \<and> oid b2
      then (if rest = [newline] then Some (b1, b2, None)
            else if rest = '' 100644'' @ [newline] then Some (b1, b2, Some ''100644'')
            else if rest = '' 100755'' @ [newline] then Some (b1, b2, Some ''100755'')
            else None)
      else None)"

text \<open>\<open>(\d+)(?:,(\d+))?\<close> at the start of a string: both groups and the rest.\<close>

definition match_range :: "string \<Rightarrow> (string \<times> string option \<times> string) option" where
  "match_range s =
     (let (a, r) = span is_digit s in
      if a = [] then None
      else (case r of
        c # r1 \<Rightarrow>
          if c = CHR '','' then
            (let (b, r2) = span is_digit r1 in if b = [] then None else Some (a, Some b, r2))
          else Some (a, None, r)
      | [] \<Rightarrow> Some (a, None, r)))"

text \<open>\<open>HUNK.fullmatch\<close>: the four groups.\<close>

definition match_hunk :: "string \<Rightarrow> (string \<times> string option \<times> string \<times> string option) option" where
  "match_hunk line =
     (if \<not> prefix ''@@ -'' line then None
      else (case match_range (drop 4 line) of
        None \<Rightarrow> None
      | Some (a, b, r) \<Rightarrow>
          if \<not> prefix '' +'' r then None
          else (case match_range (drop 2 r) of
            None \<Rightarrow> None
          | Some (c, d, r') \<Rightarrow>
              if prefix '' @@'' r' \<and> suffix [newline] (drop 3 r') \<and> newline \<notin> set (butlast (drop 3 r'))
              then Some (a, b, c, d) else None)))"

text \<open>\<open>int(group or b"1")\<close>\<close>

definition int_or_one :: "string option \<Rightarrow> exn + nat" where
  "int_or_one g = int_digits (case g of None \<Rightarrow> ''1'' | Some s \<Rightarrow> s)"

section \<open>Hunks\<close>

definition no_newline_line :: string where
  "no_newline_line = CHR 0x5C # '' No newline at end of file'' @ [newline]"

text \<open>The counters after one line, by its first byte.\<close>

definition count_line :: "int \<Rightarrow> int \<Rightarrow> string \<Rightarrow> exn + int \<times> int" where
  "count_line old_left new_left line =
     (let tag = take 1 line;
          old' = old_left - (if tag \<in> set ['' '', ''-''] then 1 else 0);
          new' = new_left - (if tag \<in> set ['' '', ''+''] then 1 else 0)
      in bindE (checks
           [(tag \<in> set ['' '', ''-'', ''+''], ReviewError ''malformed-hunk-line''),
            (0 \<le> old' \<and> 0 \<le> new', ReviewError ''hunk-count'')]) (\<lambda>_.
         Inr (old', new')))"

definition skip_marker :: "string list \<Rightarrow> nat \<Rightarrow> string list \<times> nat" where
  "skip_marker ls off = (case ls of
     m # r \<Rightarrow> if m = no_newline_line then (r, off + length m) else (ls, off)
   | [] \<Rightarrow> (ls, off))"

lemma skip_marker_shrinks: "skip_marker ls off = (r, off') \<Longrightarrow> length r \<le> length ls"
  by (auto simp: skip_marker_def split: list.splits if_splits)

text \<open>The inner loop: it consumes the announced numbers of old and new lines.\<close>

function hunk_body :: "int \<Rightarrow> int \<Rightarrow> string list \<Rightarrow> nat \<Rightarrow> exn + string list \<times> nat" where
  "hunk_body old_left new_left ls off =
     (if old_left = 0 \<and> new_left = 0 then Inr (ls, off)
      else (case ls of
        [] \<Rightarrow> Inl (ReviewError ''truncated-hunk'')
      | line # r \<Rightarrow>
          bindE (count_line old_left new_left line) (\<lambda>(old', new').
          let (r', off') = skip_marker r (off + length line) in hunk_body old' new' r' off')))"
  by pat_completeness auto
termination
  by (relation "measure (\<lambda>(o_left, n_left, ls, off). length ls)")
     (auto dest: skip_marker_shrinks split: prod.splits)

declare hunk_body.simps [simp del, run_simps]

lemma hunk_body_done [simp]: "hunk_body 0 0 ls off = Inr (ls, off)"
  by (simp add: hunk_body.simps)

lemma hunk_body_eq_Inr:
  "hunk_body o_left n_left ls off = Inr res \<longleftrightarrow>
     (if o_left = 0 \<and> n_left = 0 then res = (ls, off)
      else (\<exists>line r old' new' r' off'. ls = line # r \<and> count_line o_left n_left line = Inr (old', new')
             \<and> skip_marker r (off + length line) = (r', off') \<and> hunk_body old' new' r' off' = Inr res))"
proof (cases ls)
  case (Cons line r)
  obtain r' off' where sk: "skip_marker r (off + length line) = (r', off')" by fastforce
  show ?thesis
    by (subst hunk_body.simps) (auto simp: Cons sk bindE_eq_Inr)
qed (auto simp: hunk_body.simps)

definition hunk_counts :: "string \<Rightarrow> exn + nat \<times> nat \<times> nat \<times> nat" where
  "hunk_counts line =
     (case match_hunk line of
       None \<Rightarrow> Inl (ReviewError ''malformed-hunk'')
     | Some (a, b, c, d) \<Rightarrow>
         bindE (int_digits a) (\<lambda>os. bindE (int_or_one b) (\<lambda>oc.
         bindE (int_digits c) (\<lambda>ns. bindE (int_or_one d) (\<lambda>nc. Inr (os, oc, ns, nc))))))"

text \<open>One iteration of the loop over hunk headers.\<close>

definition parse_hunk :: "int \<Rightarrow> int \<Rightarrow> string \<Rightarrow> string list \<Rightarrow> nat \<Rightarrow> exn + hunk \<times> string list \<times> nat" where
  "parse_hunk previous_old previous_new line r off =
     bindE (hunk_counts line) (\<lambda>(os, oc, ns, nc).
     bindE (checks
       [(previous_old \<le> int os \<and> previous_new \<le> int ns, ReviewError ''hunk-order''),
        (0 < oc + nc, ReviewError ''empty-hunk'')]) (\<lambda>_.
     bindE (hunk_body (int oc) (int nc) r (off + length line)) (\<lambda>(r', off').
     Inr (\<lparr>hk_start = off, hk_end = off', old_start = os, old_count = oc,
            new_start = ns, new_count = nc\<rparr>, r', off'))))"

lemma hunk_body_shrinks: "hunk_body o_left n_left ls off = Inr (r, off') \<Longrightarrow> length r \<le> length ls"
proof (induction o_left n_left ls off rule: hunk_body.induct)
  case (1 o_left n_left ls off)
  then show ?case
    by (subst (asm) (2) hunk_body_eq_Inr)
       (fastforce dest: skip_marker_shrinks split: if_splits)
qed

lemma parse_hunk_shrinks: "parse_hunk po pn line r off = Inr (h, r', off') \<Longrightarrow> length r' \<le> length r"
  by (auto simp: parse_hunk_def bindE_eq_Inr dest: hunk_body_shrinks)

text \<open>\<open>while i < len(lines) and lines[i].startswith(b"@@ ")\<close>\<close>

function parse_hunks :: "int \<Rightarrow> int \<Rightarrow> string list \<Rightarrow> nat \<Rightarrow> exn + hunk list \<times> string list \<times> nat" where
  "parse_hunks previous_old previous_new ls off =
     (case ls of
       [] \<Rightarrow> Inr ([], [], off)
     | line # r \<Rightarrow>
         if \<not> prefix ''@@ '' line then Inr ([], ls, off)
         else bindE (parse_hunk previous_old previous_new line r off) (\<lambda>(h, r', off').
              bindE (parse_hunks (int (old_start h + old_count h)) (int (new_start h + new_count h)) r' off')
                (\<lambda>(hs, ls', off''). Inr (h # hs, ls', off''))))"
  by pat_completeness auto
termination
  by (relation "measure (\<lambda>(po, pn, ls, off). length ls)")
     (auto dest!: parse_hunk_shrinks)

declare parse_hunks.simps [simp del, run_simps]

section \<open>File headers\<close>

text \<open>The record's first line: both encoded paths, equal up to their prefixes.\<close>

definition header_path :: "string \<Rightarrow> exn + string" where
  "header_path line =
     bindE (requireE (prefix ''diff --git '' line) (ReviewError ''malformed-file-header'')) (\<lambda>_.
     let header = line_body 11 line; midpoint = length header div 2 in
     bindE (requireE (length header mod 2 = 1 \<and> take 1 (drop midpoint header) = '' '')
              (ReviewError ''malformed-path-header'')) (\<lambda>_.
     bindE (path_value (take midpoint header) ''a/'') (\<lambda>old_path.
     bindE (path_value (drop (midpoint + 1) header) ''b/'') (\<lambda>new_path.
     bindE (requireE (old_path = new_path) (ReviewError ''rename-record'')) (\<lambda>_.
     Inr old_path)))))"

datatype mode_field = FOld | FNew | FAdd | FDelete

definition mode_markers :: "(string \<times> mode_field) list" where
  "mode_markers =
     [(''old mode '', FOld), (''new mode '', FNew),
      (''new file mode '', FAdd), (''deleted file mode '', FDelete)]"

record mode_state =
  ms_lines :: "string list"
  ms_off :: nat
  ms_fields :: "mode_field list"
  ms_old :: "string option"
  ms_new :: "string option"
  ms_operation :: operation

text \<open>One iteration of the loop over the four markers.\<close>

definition mode_step :: "mode_state \<Rightarrow> string \<times> mode_field \<Rightarrow> exn + mode_state" where
  "mode_step s mf = (case mf of (marker, field) \<Rightarrow>
     (case ms_lines s of
       [] \<Rightarrow> Inr s
     | line # r \<Rightarrow>
         if \<not> prefix marker line then Inr s
         else
           let mode = line_body (length marker) line in
           bindE (requireE (mode \<in> set [''100644'', ''100755'']) (ReviewError ''unsupported-mode'')) (\<lambda>_.
           Inr (s\<lparr>ms_lines := r, ms_off := ms_off s + length line,
                 ms_fields := ms_fields s @ [field],
                 ms_old := (if field \<in> set [FOld, FDelete] then Some mode else ms_old s),
                 ms_new := (if field \<in> set [FOld, FDelete] then ms_new s else Some mode),
                 ms_operation := (case field of FAdd \<Rightarrow> Add | FDelete \<Rightarrow> Delete | _ \<Rightarrow> ms_operation s)\<rparr>))))"

text \<open>The mode headers and the \<open>index\<close> line: blobs, modes and operation of the record.\<close>

definition parse_modes :: "string list \<Rightarrow> nat \<Rightarrow> exn + mode_state" where
  "parse_modes ls off =
     bindE (foldE mode_step \<lparr>ms_lines = ls, ms_off = off, ms_fields = [], ms_old = None,
                             ms_new = None, ms_operation = Modify\<rparr> mode_markers) (\<lambda>s.
     bindE (checks
       [(ms_fields s \<in> set [[], [FOld, FNew], [FAdd], [FDelete]],
           ReviewError ''contradictory-mode-headers''),
        (ms_fields s \<noteq> [FOld, FNew] \<or> ms_old s \<noteq> ms_new s, ReviewError ''unchanged-mode-headers'')])
       (\<lambda>_. Inr s))"

definition parse_index :: "mode_state \<Rightarrow> exn + (string \<times> string) \<times> mode_state" where
  "parse_index s = (case ms_lines s of
     [] \<Rightarrow> Inl (ReviewError ''missing-index'')
   | line # r \<Rightarrow>
       (case match_index line of
         None \<Rightarrow> Inl (ReviewError ''missing-full-index-or-unsupported-change'')
       | Some (b1, b2, mode) \<Rightarrow>
           bindE (requireE (mode = None \<or> (ms_old s = None \<and> ms_new s = None))
                    (ReviewError ''ambiguous-mode'')) (\<lambda>_.
           let s1 = (if mode = None then s else s\<lparr>ms_old := mode, ms_new := mode\<rparr>);
               opn = ms_operation s in
           bindE (checks
             [((ms_old s1 \<noteq> None \<or> opn = Add) \<and> (ms_new s1 \<noteq> None \<or> opn = Delete),
                 ReviewError ''missing-mode''),
              ((b1 = zero_blob) = (opn = Add) \<and> (b2 = zero_blob) = (opn = Delete),
                 ReviewError ''blob-operation-mismatch'')]) (\<lambda>_.
           Inr ((b1, b2), s1\<lparr>ms_lines := r, ms_off := ms_off s + length line\<rparr>)))))"

text \<open>One of the two \<open>---\<close>/\<open>+++\<close> markers against the path of the header.\<close>

definition check_marker :: "string \<Rightarrow> string \<Rightarrow> bool \<Rightarrow> string \<Rightarrow> exn + unit" where
  "check_marker marker_line pre absent old_path =
     (if absent
      then requireE (marker_line = ''/dev/null'') (ReviewError ''file-marker-path'')
      else bindE (path_value (removesuffix [CHR 0x09] marker_line) pre) (\<lambda>p.
           requireE (p = old_path) (ReviewError ''file-marker-path'')))"

text \<open>The hunks of a record, or none for Git's empty additions and deletions.\<close>

definition parse_body ::
  "string \<Rightarrow> operation \<Rightarrow> string \<times> string \<Rightarrow> string list \<Rightarrow> nat \<Rightarrow> exn + hunk list \<times> string list \<times> nat" where
  "parse_body old_path opn blobs ls off =
     (if ls \<noteq> [] \<and> prefix ''--- '' (hd ls) then
        bindE (requireE (tl ls \<noteq> [] \<and> prefix ''+++ '' (hd (tl ls))) (ReviewError ''file-markers'')) (\<lambda>_.
        let m1 = hd ls; m2 = hd (tl ls) in
        bindE (check_marker (line_body 4 m1) ''a/'' (opn = Add) old_path) (\<lambda>_.
        bindE (check_marker (line_body 4 m2) ''b/'' (opn = Delete) old_path) (\<lambda>_.
        bindE (parse_hunks (-1) (-1) (tl (tl ls)) (off + length m1 + length m2)) (\<lambda>(hs, r, off').
        bindE (requireE (hs \<noteq> []) (ReviewError ''missing-hunk'')) (\<lambda>_.
        Inr (hs, r, off'))))))
      else
        bindE (requireE
          ((opn = Add \<and> snd blobs = empty_blob) \<or> (opn = Delete \<and> fst blobs = empty_blob))
          (ReviewError ''binary-or-unsupported-record'')) (\<lambda>_.
        Inr ([], ls, off)))"

text \<open>One iteration of the outer loop: a complete record at the front of the lines.\<close>

definition parse_file :: "string list \<Rightarrow> string list \<Rightarrow> nat \<Rightarrow> exn + diff_file \<times> string list \<times> nat" where
  "parse_file seen ls off = (case ls of
     [] \<Rightarrow> Inl IndexError
   | line # r \<Rightarrow>
       bindE (header_path line) (\<lambda>old_path.
       bindE (requireE (old_path \<notin> set seen) (ReviewError ''duplicate-path'')) (\<lambda>_.
       bindE (parse_modes r (off + length line)) (\<lambda>s0.
       bindE (parse_index s0) (\<lambda>(blobs, s).
       bindE (parse_body old_path (ms_operation s) blobs (ms_lines s) (ms_off s)) (\<lambda>(hs, r', off').
       bindE (requireE (r' = [] \<or> prefix ''diff --git '' (hd r'))
                (ReviewError ''binary-or-trailing-record'')) (\<lambda>_.
       Inr (\<lparr>fl_path = old_path, fl_operation = ms_operation s,
              old_blob = fst blobs, new_blob = snd blobs, old_mode = ms_old s, new_mode = ms_new s,
              fl_start = off, fl_end = off', fl_hunks = hs\<rparr>, r', off'))))))))"

lemma parse_hunks_shrinks:
  "parse_hunks po pn ls off = Inr (hs, r, off') \<Longrightarrow> length r \<le> length ls"
proof (induction po pn ls off arbitrary: hs r off' rule: parse_hunks.induct)
  case (1 po pn ls off)
  then show ?case
    by (subst (asm) (2) parse_hunks.simps)
       (fastforce simp: bindE_eq_Inr dest: parse_hunk_shrinks split: list.splits if_splits)
qed

lemma mode_step_shrinks: "mode_step s mf = Inr t \<Longrightarrow> length (ms_lines t) \<le> length (ms_lines s)"
  by (auto simp: mode_step_def Let_def bindE_eq_Inr split: prod.splits list.splits if_splits)

lemma parse_modes_shrinks: "parse_modes ls off = Inr s \<Longrightarrow> length (ms_lines s) \<le> length ls"
  by (auto simp: parse_modes_def mode_markers_def bindE_eq_Inr dest!: mode_step_shrinks)

lemma parse_index_shrinks: "parse_index s = Inr (b, t) \<Longrightarrow> length (ms_lines t) \<le> length (ms_lines s)"
  by (auto simp: parse_index_def Let_def bindE_eq_Inr split: list.splits option.splits)

lemma parse_body_shrinks: "parse_body p opn b ls off = Inr (hs, r, off') \<Longrightarrow> length r \<le> length ls"
  by (fastforce simp: parse_body_def Let_def bindE_eq_Inr dest: parse_hunks_shrinks split: if_splits)

lemma parse_file_shrinks: "parse_file seen ls off = Inr (f, r, off') \<Longrightarrow> length r < length ls"
  by (fastforce simp: parse_file_def bindE_eq_Inr
      dest: parse_modes_shrinks parse_index_shrinks parse_body_shrinks split: list.splits)

text \<open>\<open>while i < len(lines)\<close>\<close>

function parse_files :: "string list \<Rightarrow> string list \<Rightarrow> nat \<Rightarrow> exn + diff_file list" where
  "parse_files seen ls off =
     (if ls = [] then Inr []
      else bindE (parse_file seen ls off) (\<lambda>(f, r, off').
           bindE (parse_files (fl_path f # seen) r off') (\<lambda>fs. Inr (f # fs))))"
  by pat_completeness auto
termination
  by (relation "measure (\<lambda>(seen, ls, off). length ls)") (auto dest: parse_file_shrinks)

declare parse_files.simps [simp del, run_simps]

definition inventory :: "string \<Rightarrow> exn + diff_file list" where
  "inventory payload =
     bindE (text_bytes payload) (\<lambda>_.
     bindE (requireE (0 < length payload \<and> length payload \<le> MAX_TOTAL_BYTES \<and> suffix [newline] payload)
              (ReviewError ''diff-boundary'')) (\<lambda>_.
     parse_files [] (diff_lines payload) 0))"

lemma zero_blob_text: "zero_blob = ''0000000000000000000000000000000000000000''"
  by code_simp

lemmas [run_simps] = text_bytes_def slash_def validate_path_def octal_value_def path_value_def
  zero_blob_text empty_blob_def suffix_to_prefix diff_lines_def line_body_def match_index_def match_range_def match_hunk_def
  int_or_one_def no_newline_line_def count_line_def skip_marker_def hunk_counts_def parse_hunk_def
  header_path_def mode_markers_def mode_step_def parse_modes_def parse_index_def check_marker_def
  parse_body_def parse_file_def inventory_def MAX_UNIT_BYTES_def MAX_UNITS_def MAX_TOTAL_BYTES_def Let_def

section \<open>Every stage consumes a prefix of the lines\<close>

definition total :: "string list \<Rightarrow> nat" where
  "total ls = sum_list (map length ls)"

definition advances :: "string list \<Rightarrow> nat \<Rightarrow> string list \<Rightarrow> nat \<Rightarrow> bool" where
  "advances ls off ls' off' \<longleftrightarrow> (\<exists>xs. ls = xs @ ls' \<and> off' = off + total xs)"

named_theorems adv \<open>the parser's stages advance along the lines\<close>

lemma total_simps [simp]: "total [] = 0" "total (l # ls) = length l + total ls" "total (xs @ ys) = total xs + total ys"
  by (simp_all add: total_def)

lemma advances_refl [simp]: "advances ls off ls off"
  by (simp add: advances_def)

lemma advances_trans: "advances a i b j \<Longrightarrow> advances b j c k \<Longrightarrow> advances a i c k"
  by (auto simp: advances_def)

lemma advances_Cons: "advances r (i + length l) c k \<Longrightarrow> advances (l # r) i c k"
  by (auto simp: advances_def intro: exI [of _ "l # _"])

lemma advances_total: "advances a i b j \<Longrightarrow> i + total a = j + total b"
  by (auto simp: advances_def)

lemma advances_le: "advances a i b j \<Longrightarrow> i \<le> j"
  by (auto simp: advances_def)

lemma skip_marker_advances [adv]: "skip_marker ls off = (r, off') \<Longrightarrow> advances ls off r off'"
  by (auto simp: skip_marker_def advances_def split: list.splits if_splits)

lemma hunk_body_advances [adv]: "hunk_body ol nl ls off = Inr (r, off') \<Longrightarrow> advances ls off r off'"
proof (induction ol nl ls off rule: hunk_body.induct)
  case (1 ol nl ls off)
  show ?case
  proof (cases "ol = 0 \<and> nl = 0")
    case False
    with 1(2) obtain line rest ol' nl' r1 o1 where ls: "ls = line # rest"
      and c: "count_line ol nl line = Inr (ol', nl')"
      and sk: "skip_marker rest (off + length line) = (r1, o1)"
      and rec: "hunk_body ol' nl' r1 o1 = Inr (r, off')"
      by (subst (asm) hunk_body_eq_Inr) auto
    from 1(1) [OF False ls c refl sk [symmetric] refl rec] skip_marker_advances [OF sk]
    show ?thesis unfolding ls by (blast intro: advances_Cons advances_trans)
  qed (use 1(2) in simp)
qed

lemma parse_hunk_advances:
  "parse_hunk po pn line r off = Inr (h, r', off') \<Longrightarrow>
     hk_start h = off \<and> hk_end h = off' \<and> advances (line # r) off r' off'"
  by (auto simp: parse_hunk_def bindE_eq_Inr intro!: advances_Cons dest: hunk_body_advances)

lemma mode_step_advances: "mode_step s mf = Inr t \<Longrightarrow> advances (ms_lines s) (ms_off s) (ms_lines t) (ms_off t)"
  by (auto simp: mode_step_def Let_def bindE_eq_Inr intro!: advances_Cons
      split: prod.splits list.splits if_splits)

lemma parse_modes_advances [adv]:
  assumes "parse_modes ls off = Inr s"
  shows "advances ls off (ms_lines s) (ms_off s)"
proof -
  let ?s = "\<lparr>ms_lines = ls, ms_off = off, ms_fields = [], ms_old = None, ms_new = None, ms_operation = Modify\<rparr>"
  from assms have "foldE mode_step ?s mode_markers = Inr s"
    by (auto simp: parse_modes_def bindE_eq_Inr)
  then show ?thesis
    by (rule foldE_invariant) (auto dest!: mode_step_advances elim: advances_trans)
qed

lemma parse_index_advances [adv]:
  "parse_index s = Inr (b, t) \<Longrightarrow> advances (ms_lines s) (ms_off s) (ms_lines t) (ms_off t)"
  by (auto simp: parse_index_def Let_def bindE_eq_Inr intro!: advances_Cons split: list.splits option.splits)

text \<open>Adjacent non-empty ranges from \<open>a\<close> to \<open>b\<close>.\<close>

fun tiles :: "nat \<Rightarrow> (nat \<times> nat) list \<Rightarrow> nat \<Rightarrow> bool" where
  "tiles a [] b \<longleftrightarrow> a = b"
| "tiles a ((s, e) # r) b \<longleftrightarrow> s = a \<and> s < e \<and> tiles e r b"

abbreviation hunk_range :: "hunk \<Rightarrow> nat \<times> nat" where
  "hunk_range h \<equiv> (hk_start h, hk_end h)"

abbreviation file_range :: "diff_file \<Rightarrow> nat \<times> nat" where
  "file_range f \<equiv> (fl_start f, fl_end f)"

lemma tiles_le: "tiles a rs b \<Longrightarrow> a \<le> b"
  by (induction a rs b rule: tiles.induct) auto

lemma tiles_bounds: "tiles a rs b \<Longrightarrow> (s, e) \<in> set rs \<Longrightarrow> a \<le> s \<and> s < e \<and> e \<le> b"
  by (induction a rs b rule: tiles.induct) (auto dest: tiles_le)

lemma prefix_hd_nonempty: "prefix p line \<Longrightarrow> p \<noteq> [] \<Longrightarrow> 0 < length line"
  by (auto simp: prefix_def)

lemma parse_hunks_tiles:
  "parse_hunks po pn ls off = Inr (hs, r, off') \<Longrightarrow>
     advances ls off r off' \<and> tiles off (map hunk_range hs) off'"
proof (induction po pn ls off arbitrary: hs r off' rule: parse_hunks.induct)
  case (1 po pn ls off)
  show ?case
  proof (cases "ls \<noteq> [] \<and> prefix ''@@ '' (hd ls)")
    case True
    then obtain line rest where ls: "ls = line # rest" and pre: "prefix ''@@ '' line"
      by (cases ls) auto
    with 1(2) obtain h r1 o1 hs' where
      h: "parse_hunk po pn line rest off = Inr (h, r1, o1)"
      and rec: "parse_hunks (int (old_start h + old_count h)) (int (new_start h + new_count h)) r1 o1 = Inr (hs', r, off')"
      and hs: "hs = h # hs'"
      by (subst (asm) parse_hunks.simps) (auto simp: bindE_eq_Inr)
    from h have hh: "hk_start h = off" "hk_end h = o1" "advances (line # rest) off r1 o1"
      by (auto dest: parse_hunk_advances)
    have IH: "advances r1 o1 r off' \<and> tiles o1 (map hunk_range hs') off'"
      using 1(1) [of line rest "(h, r1, o1)" h "(r1, o1)" r1 o1] ls pre h rec by simp
    from hh(3) parse_hunk_shrinks [OF h] have "off + length line \<le> o1"
      by (auto simp: advances_def Cons_eq_append_conv)
    moreover have "0 < length line" using pre by (rule prefix_hd_nonempty) simp
    ultimately have "off < o1" by linarith
    with IH hh hs ls show ?thesis by (auto elim: advances_trans)
  next
    case False
    with 1(2) show ?thesis
      by (subst (asm) parse_hunks.simps) (auto split: list.splits)
  qed
qed

lemma parse_body_tiles:
  assumes "parse_body p opn b ls off = Inr (hs, r, off')"
  shows "advances ls off r off' \<and> (hs \<noteq> [] \<longrightarrow> (\<exists>s > off. tiles s (map hunk_range hs) off'))"
proof (cases "ls \<noteq> [] \<and> prefix ''--- '' (hd ls)")
  case True
  with assms obtain m1 m2 rest where ls: "ls = m1 # m2 # rest" and m1: "prefix ''--- '' m1"
    and ph: "parse_hunks (-1) (-1) rest (off + length m1 + length m2) = Inr (hs, r, off')"
    by (cases ls; cases "tl ls") (auto simp: parse_body_def Let_def bindE_eq_Inr)
  with parse_hunks_tiles [OF ph] prefix_hd_nonempty [OF m1]
  show ?thesis by (auto intro!: advances_Cons exI [of _ "off + length m1 + length m2"])
qed (use assms in \<open>auto simp: parse_body_def bindE_eq_Inr\<close>)

text \<open>What one record says of its place in the diff.\<close>

definition file_placed :: "diff_file \<Rightarrow> bool" where
  "file_placed f \<longleftrightarrow> fl_start f < fl_end f \<and>
     (fl_hunks f \<noteq> [] \<longrightarrow> (\<exists>s > fl_start f. tiles s (map hunk_range (fl_hunks f)) (fl_end f)))"

lemma parse_file_placed:
  assumes "parse_file seen ls off = Inr (f, r, off')"
  shows "advances ls off r off' \<and> fl_start f = off \<and> fl_end f = off' \<and> file_placed f
    \<and> fl_path f \<notin> set seen"
proof -
  from assms obtain line rest s0 b s where ls: "ls = line # rest"
    and m: "parse_modes rest (off + length line) = Inr s0" and i: "parse_index s0 = Inr (b, s)"
    and bd: "parse_body (fl_path f) (ms_operation s) b (ms_lines s) (ms_off s) = Inr (fl_hunks f, r, off')"
    and f: "fl_start f = off" "fl_end f = off'" "fl_path f \<notin> set seen"
    and h: "prefix ''diff --git '' line"
    by (auto simp: parse_file_def header_path_def Let_def bindE_eq_Inr split: list.splits prod.splits)
  have a: "advances rest (off + length line) (ms_lines s) (ms_off s)"
    using advances_trans [OF parse_modes_advances [OF m] parse_index_advances [OF i]] .
  have b: "advances (ms_lines s) (ms_off s) r off'"
    and t: "fl_hunks f \<noteq> [] \<Longrightarrow> \<exists>s' > ms_off s. tiles s' (map hunk_range (fl_hunks f)) off'"
    using parse_body_tiles [OF bd] by auto
  have "0 < length line" using h by (rule prefix_hd_nonempty) simp
  with advances_le [OF a] have "off < ms_off s" by linarith
  with t advances_le [OF b] have "file_placed f"
    unfolding file_placed_def f(1,2) by (meson dual_order.strict_trans order_less_le_trans)
  moreover have "advances ls off r off'"
    unfolding ls by (rule advances_Cons [OF advances_trans [OF a b]])
  ultimately show ?thesis using f by simp
qed

lemma parse_files_placed:
  "parse_files seen ls off = Inr fs \<Longrightarrow>
     tiles off (map file_range fs) (off + total ls) \<and> list_all file_placed fs
     \<and> distinct (map fl_path fs) \<and> set (map fl_path fs) \<inter> set seen = {}"
proof (induction seen ls off arbitrary: fs rule: parse_files.induct)
  case (1 seen ls off)
  show ?case
  proof (cases "ls = []")
    case False
    with 1(2) obtain f r off' fs' where pf: "parse_file seen ls off = Inr (f, r, off')"
      and rec: "parse_files (fl_path f # seen) r off' = Inr fs'" and fs: "fs = f # fs'"
      by (subst (asm) parse_files.simps) (auto simp: bindE_eq_Inr)
    note p = parse_file_placed [OF pf]
    have IH: "tiles off' (map file_range fs') (off' + total r) \<and> list_all file_placed fs'
       \<and> distinct (map fl_path fs') \<and> set (map fl_path fs') \<inter> set (fl_path f # seen) = {}"
      using 1(1) [OF False pf] rec by simp
    from p have "off' + total r = off + total ls" by (auto dest: advances_total)
    moreover from p have "fl_start f < fl_end f" by (auto simp: file_placed_def)
    ultimately show ?thesis using p IH fs by auto
  qed (use 1(2) in \<open>simp add: parse_files.simps\<close>)
qed

lemma length_join_newline:
  "xs \<noteq> [] \<Longrightarrow> length (join_with [c] xs) + 1 = total (map (\<lambda>l. l @ [c]) xs)"
  by (induction "[c]" xs rule: join_with.induct) auto

lemma diff_lines_concat: "suffix [newline] payload \<Longrightarrow> concat (diff_lines payload) = payload"
proof -
  assume "suffix [newline] payload"
  then obtain q where q: "payload = q @ [newline]" by (auto simp: suffix_def)
  have sp: "split_on c (q @ [c]) = split_on c q @ [[]]" for c
    by (induction q) (auto split: list.splits)
  have cc: "xs \<noteq> [] \<Longrightarrow> concat (map (\<lambda>l. l @ [c]) xs) = join_with [c] xs @ [c]" for xs and c :: char
    by (induction "[c]" xs rule: join_with.induct) auto
  show ?thesis by (simp add: diff_lines_def q sp cc)
qed

lemma total_concat: "total ls = length (concat ls)"
  by (induction ls) auto

text \<open>The files of an accepted diff tile it, in order, from the first byte to the last.\<close>

lemma inventory_placed:
  assumes "inventory payload = Inr files"
  shows "tiles 0 (map file_range files) (length payload) \<and> list_all file_placed files
    \<and> distinct (map fl_path files)"
proof -
  from assms have "suffix [newline] payload" and "parse_files [] (diff_lines payload) 0 = Inr files"
    by (auto simp: inventory_def bindE_eq_Inr)
  from parse_files_placed [OF this(2)] diff_lines_concat [OF this(1)]
  show ?thesis by (simp add: total_concat)
qed

section \<open>Every hunk holds the lines it announces\<close>

definition old_lines :: "string list \<Rightarrow> nat" where
  "old_lines ls = length (filter (\<lambda>l. take 1 l \<in> {'' '', ''-''}) ls)"

definition new_lines :: "string list \<Rightarrow> nat" where
  "new_lines ls = length (filter (\<lambda>l. take 1 l \<in> {'' '', ''+''}) ls)"

text \<open>A hunk lies at its offsets in the lines \<open>ls\<close> that start at offset \<open>off\<close>.\<close>

definition hunk_at :: "string list \<Rightarrow> nat \<Rightarrow> hunk \<Rightarrow> bool" where
  "hunk_at ls off h \<longleftrightarrow> (\<exists>pre line xs post. ls = pre @ line # xs @ post \<and> prefix ''@@ -'' line
     \<and> hk_start h = off + total pre \<and> hk_end h = hk_start h + length line + total xs
     \<and> old_lines xs = old_count h \<and> new_lines xs = new_count h)"

lemma hunk_at_advances: "advances ls off ls' off' \<Longrightarrow> hunk_at ls' off' h \<Longrightarrow> hunk_at ls off h"
proof -
  assume "advances ls off ls' off'" and "hunk_at ls' off' h"
  then obtain ys pre line xs post where "ls = (ys @ pre) @ line # xs @ post" "prefix ''@@ -'' line"
    "hk_start h = off + total (ys @ pre)" "hk_end h = hk_start h + length line + total xs"
    "old_lines xs = old_count h" "new_lines xs = new_count h"
    by (auto simp: advances_def hunk_at_def)
  then show ?thesis unfolding hunk_at_def by blast
qed

lemma line_count_simps [simp]:
  "old_lines [] = 0" "new_lines [] = 0"
  "old_lines (l # ls) = (if take 1 l \<in> {'' '', ''-''} then 1 else 0) + old_lines ls"
  "new_lines (l # ls) = (if take 1 l \<in> {'' '', ''+''} then 1 else 0) + new_lines ls"
  "old_lines (xs @ ys) = old_lines xs + old_lines ys" "new_lines (xs @ ys) = new_lines xs + new_lines ys"
  by (simp_all add: old_lines_def new_lines_def)

lemma count_line_eq:
  assumes "count_line ol nl line = Inr (ol', nl')"
  shows "ol = ol' + int (old_lines [line]) \<and> nl = nl' + int (new_lines [line]) \<and> 0 \<le> ol' \<and> 0 \<le> nl'"
  using assms by (auto simp: count_line_def Let_def bindE_eq_Inr split: if_splits)

lemma skip_marker_eq:
  assumes "skip_marker ls off = (r, off')"
  shows "\<exists>xs. ls = xs @ r \<and> off' = off + total xs \<and> old_lines xs = 0 \<and> new_lines xs = 0"
  using assms
  by (fastforce simp: skip_marker_def no_newline_line_def split: list.splits if_splits
      intro: exI [of _ "[]"] exI [of _ "[no_newline_line]"])

lemma hunk_body_lines:
  "hunk_body ol nl ls off = Inr (r, off') \<Longrightarrow> 0 \<le> ol \<Longrightarrow> 0 \<le> nl \<Longrightarrow>
     \<exists>xs. ls = xs @ r \<and> off' = off + total xs \<and> int (old_lines xs) = ol \<and> int (new_lines xs) = nl"
proof (induction ol nl ls off rule: hunk_body.induct)
  case (1 ol nl ls off)
  show ?case
  proof (cases "ol = 0 \<and> nl = 0")
    case False
    with 1(2) obtain line rest ol' nl' r1 o1 where ls: "ls = line # rest"
      and c: "count_line ol nl line = Inr (ol', nl')"
      and sk: "skip_marker rest (off + length line) = (r1, o1)"
      and rec: "hunk_body ol' nl' r1 o1 = Inr (r, off')"
      by (subst (asm) hunk_body_eq_Inr) auto
    note cl = count_line_eq [OF c]
    from skip_marker_eq [OF sk] obtain ms where ms: "rest = ms @ r1" "o1 = off + length line + total ms"
      "old_lines ms = 0" "new_lines ms = 0" by blast
    from 1(1) [OF False ls c refl sk [symmetric] refl rec] cl obtain xs where
      "r1 = xs @ r" "off' = o1 + total xs" "int (old_lines xs) = ol'" "int (new_lines xs) = nl'" by blast
    with ms cl ls show ?thesis by (intro exI [of _ "line # ms @ xs"]) auto
  qed (use 1(2) in simp)
qed

lemma parse_hunk_at:
  assumes "parse_hunk po pn line r off = Inr (h, r', off')"
  shows "hunk_at (line # r) off h"
proof -
  from assms obtain os oc ns nc where c: "hunk_counts line = Inr (os, oc, ns, nc)"
    and b: "hunk_body (int oc) (int nc) r (off + length line) = Inr (r', off')"
    and h: "h = \<lparr>hk_start = off, hk_end = off', old_start = os, old_count = oc, new_start = ns, new_count = nc\<rparr>"
    by (auto simp: parse_hunk_def bindE_eq_Inr)
  from c have "prefix ''@@ -'' line" by (auto simp: hunk_counts_def match_hunk_def split: if_splits)
  moreover from hunk_body_lines [OF b] obtain xs where "r = xs @ r'" "off' = off + length line + total xs"
    "old_lines xs = oc" "new_lines xs = nc" by auto
  ultimately show ?thesis
    unfolding hunk_at_def h by (intro exI [of _ "[]"] exI [of _ line] exI [of _ xs] exI [of _ r']) simp
qed

lemma parse_hunks_at:
  "parse_hunks po pn ls off = Inr (hs, r, off') \<Longrightarrow> h \<in> set hs \<Longrightarrow> hunk_at ls off h"
proof (induction po pn ls off arbitrary: hs r off' rule: parse_hunks.induct)
  case (1 po pn ls off)
  from 1(2,3) obtain line rest h1 r1 o1 hs' where ls: "ls = line # rest" and pre: "prefix ''@@ '' line"
    and ph: "parse_hunk po pn line rest off = Inr (h1, r1, o1)"
    and rec: "parse_hunks (int (old_start h1 + old_count h1)) (int (new_start h1 + new_count h1)) r1 o1 = Inr (hs', r, off')"
    and hs: "hs = h1 # hs'"
    by (subst (asm) parse_hunks.simps) (auto simp: bindE_eq_Inr split: list.splits if_splits)
  show ?case
  proof (cases "h = h1")
    case True
    with parse_hunk_at [OF ph] ls show ?thesis by simp
  next
    case False
    with 1(3) hs have "h \<in> set hs'" by simp
    with 1(1) [of line rest "(h1, r1, o1)" h1 "(r1, o1)" r1 o1] ls pre ph rec have "hunk_at r1 o1 h" by simp
    moreover from ph have "advances ls off r1 o1" by (auto simp: ls dest: parse_hunk_advances)
    ultimately show ?thesis by (rule hunk_at_advances [rotated])
  qed
qed

lemma parse_body_at:
  assumes "parse_body p opn b ls off = Inr (hs, r, off')" and "h \<in> set hs"
  shows "hunk_at ls off h"
proof -
  from assms obtain m1 m2 rest where ls: "ls = m1 # m2 # rest"
    and ph: "parse_hunks (-1) (-1) rest (off + length m1 + length m2) = Inr (hs, r, off')"
    by (cases ls; cases "tl ls") (auto simp: parse_body_def Let_def bindE_eq_Inr split: if_splits)
  have "advances ls off rest (off + length m1 + length m2)" by (auto simp: ls intro!: advances_Cons)
  from hunk_at_advances [OF this parse_hunks_at [OF ph assms(2)]] show ?thesis .
qed

lemma path_value_valid: "path_value raw pre = Inr p \<Longrightarrow> validate_path p = Inr ()"
  by (auto simp: path_value_def Let_def bindE_eq_Inr)

lemma parse_file_checked:
  assumes "parse_file seen ls off = Inr (f, r, off')"
  shows "validate_path (fl_path f) = Inr () \<and> (\<forall>h \<in> set (fl_hunks f). hunk_at ls off h)"
proof -
  from assms obtain line rest s0 b s where ls: "ls = line # rest"
    and m: "parse_modes rest (off + length line) = Inr s0" and i: "parse_index s0 = Inr (b, s)"
    and bd: "parse_body (fl_path f) (ms_operation s) b (ms_lines s) (ms_off s) = Inr (fl_hunks f, r, off')"
    and h: "header_path line = Inr (fl_path f)"
    by (auto simp: parse_file_def bindE_eq_Inr split: list.splits prod.splits)
  have "advances ls off (ms_lines s) (ms_off s)"
    unfolding ls by (rule advances_Cons [OF advances_trans [OF parse_modes_advances [OF m] parse_index_advances [OF i]]])
  with parse_body_at [OF bd] h show ?thesis
    by (auto simp: header_path_def Let_def bindE_eq_Inr intro: hunk_at_advances path_value_valid)
qed

lemma parse_files_checked:
  "parse_files seen ls off = Inr fs \<Longrightarrow> f \<in> set fs \<Longrightarrow>
     validate_path (fl_path f) = Inr () \<and> (\<forall>h \<in> set (fl_hunks f). hunk_at ls off h)"
proof (induction seen ls off arbitrary: fs rule: parse_files.induct)
  case (1 seen ls off)
  from 1(2,3) have ne: "ls \<noteq> []" by (subst (asm) parse_files.simps) (auto split: if_splits)
  with 1(2) obtain f1 r off' fs' where pf: "parse_file seen ls off = Inr (f1, r, off')"
    and rec: "parse_files (fl_path f1 # seen) r off' = Inr fs'" and fs: "fs = f1 # fs'"
    by (subst (asm) parse_files.simps) (auto simp: bindE_eq_Inr)
  show ?case
  proof (cases "f = f1")
    case True
    with parse_file_checked [OF pf] show ?thesis by simp
  next
    case False
    with 1(3) fs have f: "f \<in> set fs'" by simp
    from 1(1) [OF ne pf] rec f have "validate_path (fl_path f) = Inr () \<and> (\<forall>h \<in> set (fl_hunks f). hunk_at r off' h)"
      by simp
    with parse_file_placed [OF pf] hunk_at_advances show ?thesis by blast
  qed
qed

text \<open>The bytes of a hunk are its header line and exactly the lines it announces.\<close>

lemma hunk_at_bytes:
  assumes "hunk_at ls 0 h"
  shows "\<exists>line xs. drop (hk_start h) (take (hk_end h) (concat ls)) = line @ concat xs
    \<and> prefix ''@@ -'' line \<and> old_lines xs = old_count h \<and> new_lines xs = new_count h"
proof -
  from assms obtain pre line xs post where "ls = pre @ line # xs @ post" "prefix ''@@ -'' line"
    "hk_start h = total pre" "hk_end h = total pre + length line + total xs"
    "old_lines xs = old_count h" "new_lines xs = new_count h"
    by (auto simp: hunk_at_def)
  then show ?thesis by (intro exI [of _ line] exI [of _ xs]) (simp add: total_concat)
qed

lemma inventory_checked:
  assumes "inventory payload = Inr files" and "f \<in> set files"
  shows "validate_path (fl_path f) = Inr () \<and> (\<forall>h \<in> set (fl_hunks f).
    \<exists>line xs. drop (hk_start h) (take (hk_end h) payload) = line @ concat xs
      \<and> prefix ''@@ -'' line \<and> old_lines xs = old_count h \<and> new_lines xs = new_count h)"
proof -
  from assms have n: "suffix [newline] payload" and "parse_files [] (diff_lines payload) 0 = Inr files"
    by (auto simp: inventory_def bindE_eq_Inr)
  from parse_files_checked [OF this(2) assms(2)] hunk_at_bytes diff_lines_concat [OF n] show ?thesis by metis
qed

section \<open>Quoted paths\<close>

text \<open>
  Git's C-style quoting of one byte, as \<open>core.quotePath\<close> has it: named escapes, octal escapes
  for the other control bytes and all bytes above 126, everything else as it is.
\<close>

definition octal_quote :: "nat \<Rightarrow> string" where
  "octal_quote n = [CHR 0x5C, digit_char (n div 64), digit_char (n div 8 mod 8), digit_char (n mod 8)]"

definition quote_byte :: "char \<Rightarrow> string" where
  "quote_byte c =
     (let n = byte c in
      if n \<in> {7, 8, 9, 10, 11, 12, 13} then [CHR 0x5C, ''abtnvfr'' ! (if n = 7 then 0 else if n = 8 then 1
        else if n = 9 then 2 else if n = 10 then 3 else if n = 11 then 4 else if n = 12 then 5 else 6)]
      else if n = 34 \<or> n = 92 then [CHR 0x5C, c]
      else if n < 32 \<or> 127 \<le> n then octal_quote n
      else [c])"

definition quoted :: "string \<Rightarrow> string" where
  "quoted s = CHR 0x22 # concat (map quote_byte s) @ [CHR 0x22]"

lemma octal_digits: "64 * (n div 64) + 8 * (n div 8 mod 8) + n mod 8 = (n :: nat)"
proof -
  have "n div 64 = n div 8 div 8" by (simp add: div_mult2_eq [symmetric])
  with div_mult_mod_eq [of n 8] div_mult_mod_eq [of "n div 8" 8] show ?thesis by linarith
qed

lemma octal_value_digits:
  "a < 4 \<Longrightarrow> b < 8 \<Longrightarrow> d < 8 \<Longrightarrow>
     octal_value (digit_char a) (digit_char b) (digit_char d) = Inr (char_of (64 * a + 8 * b + d))"
  by (simp add: octal_value_def is_octal_def)

lemma octal_value_quote:
  assumes "n < 256"
  shows "octal_value (digit_char (n div 64)) (digit_char (n div 8 mod 8)) (digit_char (n mod 8)) = Inr (char_of n)"
proof -
  have "n div 64 < 4" using assms by (simp add: less_mult_imp_div_less)
  then have "octal_value (digit_char (n div 64)) (digit_char (n div 8 mod 8)) (digit_char (n mod 8))
      = Inr (char_of (64 * (n div 64) + 8 * (n div 8 mod 8) + n mod 8))"
    by (rule octal_value_digits) (rule mod_less_divisor, simp)+
  then show ?thesis by (simp only: octal_digits)
qed

lemma escape_value_None:
  assumes "byte c \<notin> {97, 98, 116, 110, 118, 102, 114, 34, 92 :: nat}"
  shows "escape_value c = None"
proof -
  from assms have "c \<noteq> CHR ''a''" "c \<noteq> CHR ''b''" "c \<noteq> CHR ''t''" "c \<noteq> CHR ''n''" "c \<noteq> CHR ''v''" "c \<noteq> CHR ''f''"
    "c \<noteq> CHR ''r''" "c \<noteq> CHR 0x22" "c \<noteq> CHR 0x5C" by force+
  then show ?thesis by (simp add: escape_value.simps)
qed

lemma escape_value_octal: "d < 8 \<Longrightarrow> escape_value (digit_char d) = None"
  by (rule escape_value_None) auto

lemma unquote_quote_byte: "unquote (quote_byte c @ r) = bindE (unquote r) (\<lambda>s. Inr (c # s))"
proof -
  have c: "c = char_of (byte c :: nat)" by simp
  consider "byte c \<in> {7, 8, 9, 10, 11, 12, 13 :: nat}" | "byte c = (34 :: nat) \<or> byte c = (92 :: nat)"
    | "byte c < (32 :: nat) \<or> 127 \<le> (byte c :: nat)" "byte c \<notin> {7, 8, 9, 10, 11, 12, 13, 34, 92 :: nat}"
    | "32 \<le> (byte c :: nat)" "byte c < (127 :: nat)" "byte c \<noteq> (34 :: nat)" "byte c \<noteq> (92 :: nat)" by force
  then show ?thesis
  proof cases
    case 1
    with c have "c \<in> char_of ` {7, 8, 9, 10, 11, 12, 13 :: nat}" by (metis image_eqI)
    then show ?thesis by (auto simp: quote_byte_def Let_def escape_value.simps)
  next
    case 2
    with c have "c = char_of (34 :: nat) \<or> c = char_of (92 :: nat)" by metis
    moreover have "char_of (34 :: nat) = CHR 0x22" "char_of (92 :: nat) = CHR 0x5C" by code_simp+
    ultimately have "c = CHR 0x22 \<or> c = CHR 0x5C" by simp
    then show ?thesis by (auto simp: quote_byte_def Let_def escape_value.simps)
  next
    case 3
    have "byte c div 64 < (8 :: nat)" by (rule less_mult_imp_div_less) (use byte_less [of c] in linarith)
    with 3 show ?thesis
      by (simp add: quote_byte_def Let_def octal_quote_def escape_value_octal octal_value_quote)
  next
    case 4
    then show ?thesis by (auto simp: quote_byte_def Let_def)
  qed
qed

lemma unquote_quoted: "unquote (concat (map quote_byte s)) = Inr s"
  by (induction s) (simp_all add: unquote_quote_byte)

lemma path_value_roundtrip:
  assumes "validate_path name = Inr ()" and "length (quoted (pre @ name)) \<le> 32768"
  shows "path_value (quoted (pre @ name)) pre = Inr name"
proof -
  have "butlast (tl (quoted s)) = concat (map quote_byte s)" for s
    by (simp add: quoted_def)
  then have "unquote (butlast (tl (quoted (pre @ name)))) = Inr (pre @ name)"
    by (simp only: unquote_quoted)
  moreover have "text_bytes name = Inr ()" using assms(1) by (simp add: validate_path_def bindE_eq_Inr)
  moreover have "0 < length (quoted (pre @ name))" "prefix [CHR 0x22] (quoted (pre @ name))"
    "suffix [CHR 0x22] (quoted (pre @ name))" by (simp_all add: quoted_def suffix_def)
  ultimately show ?thesis using assms by (simp add: path_value_def Let_def)
qed

section \<open>Properties\<close>

text \<open>
  the records of an accepted diff tile its bytes in order: each is a non-empty range,
  adjacent to the one before, from offset 0 to the end; the hunks of a record tile the end of
  its range, and no path occurs twice.
\<close>

lemma inventory_tiles:
  assumes "inventory payload = Inr files"
  shows "tiles 0 (map (\<lambda>f. (fl_start f, fl_end f)) files) (length payload) \<and> distinct (map fl_path files) \<and>
    (\<forall>f \<in> set files. fl_hunks f \<noteq> [] \<longrightarrow>
       (\<exists>s > fl_start f. tiles s (map (\<lambda>h. (hk_start h, hk_end h)) (fl_hunks f)) (fl_end f)))"
  using inventory_placed [OF assms] by (auto simp: list_all_iff file_placed_def)


text \<open>
  decoding inverts Git's C-style quoting: the quoted form of a prefix and a valid path
  gives the path back, whatever bytes it holds.
\<close>

lemma path_value_quoted:
  assumes "validate_path name = Inr ()" and "length (quoted (pre @ name)) \<le> 32768"
  shows "path_value (quoted (pre @ name)) pre = Inr name"
  using assms by (rule path_value_roundtrip)

text \<open>A diff of one modified file, to apply the properties to.\<close>

definition sample_diff :: string where
  "sample_diff = ''diff --git a/f b/f'' @ [newline]
     @ ''index 1111111111111111111111111111111111111111..2222222222222222222222222222222222222222 100644'' @ [newline]
     @ ''--- a/f'' @ [newline] @ ''+++ b/f'' @ [newline]
     @ ''@@ -1 +1 @@'' @ [newline] @ ''-a'' @ [newline] @ ''+b'' @ [newline]"

definition sample_file :: diff_file where
  "sample_file = \<lparr>fl_path = ''f'', fl_operation = Modify,
     old_blob = ''1111111111111111111111111111111111111111'',
     new_blob = ''2222222222222222222222222222222222222222'',
     old_mode = Some ''100644'', new_mode = Some ''100644'', fl_start = 0, fl_end = 149,
     fl_hunks = [\<lparr>hk_start = 131, hk_end = 149, old_start = 1, old_count = 1, new_start = 1, new_count = 1\<rparr>]\<rparr>"

lemma sample_inventory: "inventory sample_diff = Inr [sample_file]"
  by (simp add: sample_diff_def sample_file_def run_simps cong: bindE_weak_cong)

lemma inventory_tiles_witness:
  "tiles 0 (map (\<lambda>f. (fl_start f, fl_end f)) [sample_file]) (length sample_diff)"
  using inventory_tiles [OF sample_inventory] by blast


theorem path_value_quoted_witness:
  "path_value (quoted (''a/'' @ [CHR ''x'', CHR 0x0A, CHR 0xC3, CHR 0xA9])) ''a/'' = Inr [CHR ''x'', CHR 0x0A, CHR 0xC3, CHR 0xA9]"
  by (rule path_value_quoted)
     (simp_all add: run_simps quoted_def quote_byte_def octal_quote_def utf8_valid.simps(2) cong: bindE_weak_cong)

end
