(* ===== verification/Partition.thy ===== *)
theory Partition
  imports Diff_Inventory
begin

text \<open>
  \<open>validate_unit\<close> and \<open>partition\<close> of \<open>scripts/bounded_review.py\<close>: cutting a payload
  into units of at most \<^const>\<open>MAX_UNIT_BYTES\<close> bytes, never inside a UTF-8 sequence and
  never inside an indivisible group, at record and hunk boundaries where the number of
  units allows it. Offsets are not negative and are natural numbers here.
\<close>

section \<open>The algorithm\<close>

definition validate_unit :: "string \<Rightarrow> exn + unit" where
  "validate_unit payload =
     bindE (text_bytes payload) (\<lambda>_.
     requireE (1 \<le> length payload \<and> length payload \<le> MAX_UNIT_BYTES)
       (ReviewError ''unit-byte-boundary''))"

type_synonym ranges = "(nat \<times> nat) list"

text \<open>\<open>any(a < p < b for a, b in groups)\<close>\<close>

definition inside :: "ranges \<Rightarrow> nat \<Rightarrow> bool" where
  "inside groups p \<longleftrightarrow> list_ex (\<lambda>(a, b). a < p \<and> p < b) groups"

definition cuts_of :: "string \<Rightarrow> nat list \<Rightarrow> ranges \<Rightarrow> nat list" where
  "cuts_of payload boundaries groups =
     sort (filter (\<lambda>cut. \<not> inside groups cut) (remdups (boundaries @ [length payload])))"

text \<open>
  \<open>while end < len(payload) and payload[end] & 0xC0 == 0x80: end -= 1\<close>. It never
  gets below 0 on a payload that has passed \<^const>\<open>text_bytes\<close>: the first byte of such a
  payload is no continuation byte.
\<close>

fun back_off :: "string \<Rightarrow> nat \<Rightarrow> nat" where
  "back_off payload 0 = 0"
| "back_off payload (Suc e) =
     (if Suc e < length payload \<and> is_cont (payload ! Suc e) then back_off payload e else Suc e)"

text \<open>\<open>for a, b in groups: if a < end < b: end = a\<close>\<close>

definition clamp :: "ranges \<Rightarrow> nat \<Rightarrow> nat" where
  "clamp groups e0 = foldl (\<lambda>e (a, b). if a < e \<and> e < b then a else e) e0 groups"

definition farthest :: "string \<Rightarrow> ranges \<Rightarrow> nat \<Rightarrow> nat" where
  "farthest payload groups start =
     back_off payload (clamp groups (min (start + MAX_UNIT_BYTES) (length payload)))"

fun fits :: "string \<Rightarrow> ranges \<Rightarrow> nat \<Rightarrow> nat \<Rightarrow> bool" where
  "fits payload groups start 0 \<longleftrightarrow> start = length payload"
| "fits payload groups start (Suc slots) \<longleftrightarrow>
     (if start = length payload then True
      else let e = farthest payload groups start in
           if e \<le> start then False else fits payload groups e slots)"

lemma fits_numeral [run_simps]: "fits payload groups start (numeral n) = fits payload groups start (Suc (pred_numeral n))"
  by (simp add: numeral_eq_Suc)

text \<open>
  The endpoint of the next unit: the last cut up to the farthest endpoint, when the rest
  fits from there; else one byte earlier, when that keeps a CRLF together; else the
  farthest endpoint. \<open>cuts[bisect_right(cuts, end) - 1]\<close> is the last of the leading
  cuts that do not exceed \<open>end\<close>.
\<close>

definition choose_end :: "string \<Rightarrow> ranges \<Rightarrow> nat list \<Rightarrow> nat \<Rightarrow> nat \<Rightarrow> nat" where
  "choose_end payload groups cuts start remaining =
     (let e = farthest payload groups start;
          below = takeWhile (\<lambda>c. c \<le> e) cuts
      in if below \<noteq> [] \<and> start < last below \<and> fits payload groups (last below) remaining
         then last below
         else if start < e - 1 \<and> take 2 (drop (e - 1) payload) = [CHR 0x0D, CHR 0x0A]
                 \<and> \<not> inside groups (e - 1) \<and> fits payload groups (e - 1) remaining
         then e - 1 else e)"

definition slice :: "string \<Rightarrow> nat \<Rightarrow> nat \<Rightarrow> string" where
  "slice payload a b = take (b - a) (drop a payload)"

lemma validate_unit_slice:
  "validate_unit (slice payload a e) = Inr u \<Longrightarrow> a < e \<and> a < length payload"
  by (auto simp: validate_unit_def slice_def bindE_eq_Inr)

function partition_loop ::
  "string \<Rightarrow> ranges \<Rightarrow> nat list \<Rightarrow> nat \<Rightarrow> string list \<Rightarrow> nat \<Rightarrow> exn + string list" where
  "partition_loop payload groups cuts max_units result start =
     (if start < length payload then
        let e = choose_end payload groups cuts start (max_units - length result - 1);
            chunk = slice payload start e
        in bindE (validate_unit chunk) (\<lambda>_.
           bindE (requireE (length (result @ [chunk]) \<le> max_units) (ReviewError ''unit-count-budget'')) (\<lambda>_.
           partition_loop payload groups cuts max_units (result @ [chunk]) e))
      else Inr result)"
  by pat_completeness auto
termination
  by (relation "measure (\<lambda>(p, g, c, m, r, start). length p - start)")
     (fastforce dest: validate_unit_slice)+

declare partition_loop.simps [simp del]

definition partition_units :: "string \<Rightarrow> nat list \<Rightarrow> nat \<Rightarrow> ranges \<Rightarrow> exn + string list" where
  "partition_units payload boundaries max_units groups =
     bindE (text_bytes payload) (\<lambda>_.
     bindE (checks
       [(payload \<noteq> [], ReviewError ''empty-input''),
        (1 \<le> max_units \<and> max_units \<le> MAX_UNITS, ReviewError ''unit-count-budget''),
        (fits payload groups 0 max_units, ReviewError ''unit-count-budget'')]) (\<lambda>_.
     partition_loop payload groups (cuts_of payload boundaries groups) max_units [] 0))"

lemmas [run_simps] = validate_unit_def inside_def cuts_of_def clamp_def farthest_def choose_end_def slice_def
  partition_loop.simps partition_units_def

section \<open>Code point boundaries\<close>

text \<open>A position that the strict decoder can start at.\<close>

definition char_boundary :: "string \<Rightarrow> nat \<Rightarrow> bool" where
  "char_boundary s p \<longleftrightarrow> p \<le> length s \<and> (p < length s \<longrightarrow> \<not> is_cont (s ! p))"

lemma is_cont_cases: "is_cont c \<Longrightarrow> 128 \<le> byte c \<and> byte c < (192 :: nat)"
  by (simp add: is_cont_def)

lemma utf8_first [simp]: "utf8_valid (a # r) \<Longrightarrow> \<not> is_cont a"
  by (drule utf8_lead) (auto simp: is_cont_def in_range_def)

lemma char_boundary_0 [simp]: "utf8_valid s \<Longrightarrow> char_boundary s 0"
  by (cases s) (simp_all add: char_boundary_def)

lemma char_boundary_length [simp]: "char_boundary s (length s)"
  by (simp add: char_boundary_def)

lemma char_boundary_Cons:
  "char_boundary (a # s) (Suc p) \<longleftrightarrow> char_boundary s p"
  by (simp add: char_boundary_def)

text \<open>
  Cutting valid UTF-8 at a boundary leaves valid UTF-8 on both sides: the decoder's
  sequences are two, three or four bytes long and only their first byte is no
  continuation byte.
\<close>

lemma utf8_cut:
  "utf8_valid s \<Longrightarrow> char_boundary s p \<Longrightarrow> utf8_valid (take p s) \<and> utf8_valid (drop p s)"
proof (induction "length s" arbitrary: s p rule: less_induct)
  case less
  show ?case
  proof (cases "p = 0 \<or> s = []")
    case False
    then obtain q a r where p: "p = Suc q" and s: "s = a # r" by (cases p; cases s) auto
    have q: "char_boundary r q" using less.prems(2) by (simp add: p s char_boundary_Cons)
    note IH = less.hyps [rule_format]
    from utf8_lead less.prems(1) s consider "byte a \<le> (127 :: nat)" | "in_range 194 223 a"
      | "in_range 224 239 a" | "in_range 240 244 a" by blast
    then show ?thesis
    proof cases
      case 1
      then show ?thesis using less.prems(1) IH [of r q] q by (simp add: p s utf8_one)
    next
      case 2
      with less.prems(1) obtain b r' where r: "r = b # r'" "is_cont b" "utf8_valid r'"
        by (auto simp: s utf8_two)
      with q obtain q' where q': "q = Suc q'" "char_boundary r' q'"
        by (cases q) (auto simp: char_boundary_def)
      with IH [of r' q'] r 2 show ?thesis by (simp add: p s utf8_two)
    next
      case 3
      with less.prems(1) obtain b c r' where r: "r = b # c # r'" "second_of_three a b" "is_cont c" "utf8_valid r'"
        by (auto simp: s utf8_three)
      with q second_is_cont(1) [OF r(2)] obtain q' where q': "q = Suc (Suc q')" "char_boundary r' q'"
        by (cases q; cases "q - 1") (auto simp: char_boundary_def)
      with IH [of r' q'] r 3 show ?thesis by (simp add: p s utf8_three)
    next
      case 4
      with less.prems(1) obtain b c d r' where r: "r = b # c # d # r'" "second_of_four a b"
        "is_cont c" "is_cont d" "utf8_valid r'"
        by (auto simp: s utf8_four)
      with q second_is_cont(2) [OF r(2)] obtain q' where q': "q = Suc (Suc (Suc q'))" "char_boundary r' q'"
        by (cases q; cases "q - 1"; cases "q - 2") (auto simp: char_boundary_def)
      with IH [of r' q'] r 4 show ?thesis by (simp add: p s utf8_four)
    qed
  qed (use less.prems in auto)
qed

lemma utf8_slice:
  assumes "utf8_valid s" "char_boundary s a" "char_boundary s b" "a \<le> b"
  shows "utf8_valid (slice s a b)"
proof -
  have "utf8_valid (drop a s)" using utf8_cut assms(1,2) by blast
  moreover have "char_boundary (drop a s) (b - a)"
    using assms(2,3,4) by (auto simp: char_boundary_def)
  ultimately show ?thesis using utf8_cut by (auto simp: slice_def)
qed

section \<open>Greedy covers\<close>

text \<open>
  A cover of the rest of a payload from \<open>s\<close>: the endpoints of its units, each legal and
  at most \<open>bound\<close> after the one before, up to the goal.
\<close>

fun cover :: "(nat \<Rightarrow> bool) \<Rightarrow> nat \<Rightarrow> nat \<Rightarrow> nat \<Rightarrow> nat list \<Rightarrow> bool" where
  "cover legal bound goal s [] \<longleftrightarrow> s = goal"
| "cover legal bound goal s (p # ps) \<longleftrightarrow> s < p \<and> p \<le> s + bound \<and> legal p \<and> cover legal bound goal p ps"

text \<open>
  What the algorithm relies on: \<open>far\<close> is the farthest legal endpoint within the bound, and
  \<open>fit\<close> iterates it. The laws are relative to a context \<open>c\<close> (a payload with its groups)
  that satisfies \<open>ok\<close>. They are enough for \<open>fit\<close> to be exact.
\<close>

locale greedy_cover =
  fixes ok :: "'c \<Rightarrow> bool"
    and goal :: "'c \<Rightarrow> nat"
    and legal :: "'c \<Rightarrow> nat \<Rightarrow> bool"
    and far :: "'c \<Rightarrow> nat \<Rightarrow> nat"
    and bound :: nat
    and fit :: "'c \<Rightarrow> nat \<Rightarrow> nat \<Rightarrow> bool"
  assumes legal_le: "ok c \<Longrightarrow> legal c p \<Longrightarrow> p \<le> goal c"
    and far_legal: "ok c \<Longrightarrow> legal c (far c s)"
    and far_le: "ok c \<Longrightarrow> far c s \<le> s + bound"
    and far_max: "ok c \<Longrightarrow> legal c p \<Longrightarrow> p \<le> s + bound \<Longrightarrow> p \<le> far c s"
    and fit_0: "fit c s 0 \<longleftrightarrow> s = goal c"
    and fit_Suc: "fit c s (Suc k) \<longleftrightarrow> s = goal c \<or> s < far c s \<and> fit c (far c s) k"
begin

lemma far_mono:
  assumes "ok c" and "s \<le> t"
  shows "far c s \<le> far c t"
  using far_max [OF assms(1) far_legal [OF assms(1), of s], of t] far_le [OF assms(1), of s] assms(2)
  by linarith

lemma fit_weaken: "fit c s k \<Longrightarrow> fit c s (Suc k)"
  by (induction k arbitrary: s) (auto simp: fit_0 fit_Suc)

text \<open>Starting later never needs more units.\<close>

lemma fit_mono: "ok c \<Longrightarrow> legal c t \<Longrightarrow> s \<le> t \<Longrightarrow> fit c s k \<Longrightarrow> fit c t k"
proof (induction k arbitrary: s t)
  case 0
  then show ?case using legal_le [of c t] by (simp add: fit_0)
next
  case (Suc k)
  show ?case
  proof (cases "s = goal c \<or> t = goal c")
    case True
    then show ?thesis using Suc.prems legal_le [of c t] by (auto simp: fit_Suc)
  next
    case False
    then have fs: "s < far c s" "fit c (far c s) k" using Suc.prems by (auto simp: fit_Suc)
    show ?thesis
    proof (cases "t < far c s")
      case True
      have "far c s \<le> far c t" using Suc.prems far_mono by blast
      with True Suc.IH [OF Suc.prems(1) far_legal [OF Suc.prems(1)] _ fs(2)] show ?thesis
        by (auto simp: fit_Suc)
    next
      case False
      with Suc.IH [OF Suc.prems(1,2) _ fs(2)] show ?thesis by (intro fit_weaken) simp
    qed
  qed
qed

lemma cover_fit:
  "ok c \<Longrightarrow> cover (legal c) bound (goal c) s ps \<Longrightarrow> length ps \<le> k \<Longrightarrow> fit c s k"
proof (induction ps arbitrary: s k)
  case Nil
  then show ?case by (cases k) (simp_all add: fit_0 fit_Suc)
next
  case (Cons p ps)
  then obtain k' where k: "k = Suc k'" by (cases k) auto
  have "p \<le> far c s" using Cons.prems far_max by auto
  moreover have "fit c p k'" using Cons k by auto
  ultimately show ?case
    using fit_mono [OF Cons.prems(1) far_legal [OF Cons.prems(1)]] Cons.prems k by (auto simp: fit_Suc)
qed

lemma fit_cover:
  "ok c \<Longrightarrow> fit c s k \<Longrightarrow> \<exists>ps. length ps \<le> k \<and> cover (legal c) bound (goal c) s ps"
proof (induction k arbitrary: s)
  case 0
  then show ?case by (auto simp: fit_0 intro: exI [of _ "[]"])
next
  case (Suc k)
  show ?case
  proof (cases "s = goal c")
    case True
    then show ?thesis by (auto intro: exI [of _ "[]"])
  next
    case False
    with Suc obtain ps where "length ps \<le> k" "cover (legal c) bound (goal c) (far c s) ps" "s < far c s"
      by (fastforce simp: fit_Suc)
    with Suc.prems show ?thesis by (intro exI [of _ "far c s # ps"]) (simp add: far_legal far_le)
  qed
qed

text \<open>\<open>fit\<close> says exactly whether some cover with that many units exists.\<close>

lemma fit_exact:
  "ok c \<Longrightarrow> fit c s k \<longleftrightarrow> (\<exists>ps. length ps \<le> k \<and> cover (legal c) bound (goal c) s ps)"
  using cover_fit fit_cover by blast

end

section \<open>The farthest legal endpoint\<close>

definition legal_cut :: "string \<Rightarrow> ranges \<Rightarrow> nat \<Rightarrow> bool" where
  "legal_cut payload groups p \<longleftrightarrow> char_boundary payload p \<and> \<not> inside groups p"

text \<open>Groups as \<open>plan\<close> passes them: in order, disjoint, between code points.\<close>

definition wf_groups :: "string \<Rightarrow> ranges \<Rightarrow> bool" where
  "wf_groups payload groups \<longleftrightarrow> sorted_wrt (\<lambda>(a, b) (c, d). b \<le> c) groups \<and>
     (\<forall>(a, b) \<in> set groups. a < b \<and> char_boundary payload a \<and> char_boundary payload b)"

lemma inside_simps [simp]:
  "\<not> inside [] p"
  "inside ((a, b) # gs) p \<longleftrightarrow> a < p \<and> p < b \<or> inside gs p"
  by (simp_all add: inside_def)

lemma inside_iff: "inside groups p \<longleftrightarrow> (\<exists>(a, b) \<in> set groups. a < p \<and> p < b)"
  by (auto simp: inside_def list_ex_iff)

lemma back_off_le: "back_off payload e \<le> e"
  by (induction e) (auto intro: le_SucI)

lemma back_off_boundary:
  assumes "utf8_valid payload" "e \<le> length payload"
  shows "char_boundary payload (back_off payload e)"
  using assms(2) by (induction e) (auto simp: assms(1) char_boundary_def [of _ "Suc _"])

lemma back_off_max: "char_boundary payload p \<Longrightarrow> p \<le> e \<Longrightarrow> p \<le> back_off payload e"
  by (induction e) (auto simp: char_boundary_def le_Suc_eq)

lemma clamp_simps [simp]:
  "clamp [] e = e"
  "clamp ((a, b) # gs) e = clamp gs (if a < e \<and> e < b then a else e)"
  by (simp_all add: clamp_def)

lemma clamp_le: "clamp groups e \<le> e"
proof (induction groups arbitrary: e)
  case (Cons g gs)
  obtain a b where g: "g = (a, b)" by (cases g)
  have "clamp gs (if a < e \<and> e < b then a else e) \<le> (if a < e \<and> e < b then a else e)"
    by (rule Cons.IH)
  then show ?case by (auto simp: g split: if_splits)
qed simp

lemma clamp_before: "(\<And>a b. (a, b) \<in> set groups \<Longrightarrow> e \<le> a) \<Longrightarrow> clamp groups e = e"
proof (induction groups)
  case (Cons g groups)
  obtain a b where "g = (a, b)" by (cases g)
  with Cons show ?case by fastforce
qed simp

lemma clamp_spec:
  assumes "sorted_wrt (\<lambda>(a, b) (c, d). b \<le> c) groups" and "\<And>a b. (a, b) \<in> set groups \<Longrightarrow> a < b"
  shows "\<not> inside groups (clamp groups e) \<and> (\<forall>p. clamp groups e < p \<and> p \<le> e \<longrightarrow> inside groups p)"
  using assms
proof (induction groups arbitrary: e)
  case (Cons g gs)
  obtain a b where g: "g = (a, b)" by (cases g)
  have later: "b \<le> c" if "(c, d) \<in> set gs" for c d using Cons.prems(1) g that by auto
  have ab: "a < b" using Cons.prems(2) g by auto
  show ?case
  proof (cases "a < e \<and> e < b")
    case True
    have "clamp gs a = a" using later ab by (intro clamp_before) fastforce
    moreover have "\<not> inside gs a" using later ab by (fastforce simp: inside_iff)
    ultimately show ?thesis using True g by auto
  next
    case False
    have IH: "\<not> inside gs (clamp gs e)" "\<forall>p. clamp gs e < p \<and> p \<le> e \<longrightarrow> inside gs p"
      using Cons by auto
    have "\<not> (a < clamp gs e \<and> clamp gs e < b)"
    proof
      assume *: "a < clamp gs e \<and> clamp gs e < b"
      then have "b \<le> e" using False clamp_le [where groups = gs and e = e] by linarith
      with * IH(2) have "inside gs b" by auto
      then show False using later by (fastforce simp: inside_iff)
    qed
    with IH False g show ?thesis by auto
  qed
qed simp

lemma farthest_legal:
  assumes "utf8_valid payload" "wf_groups payload groups"
  shows "legal_cut payload groups (farthest payload groups start)"
proof -
  define e where "e = clamp groups (min (start + MAX_UNIT_BYTES) (length payload))"
  have e: "farthest payload groups start = back_off payload e" by (simp add: farthest_def e_def)
  have "e \<le> length payload" unfolding e_def using clamp_le [where groups = groups] by (meson min.boundedE)
  then have b: "char_boundary payload (back_off payload e)" using assms(1) by (rule back_off_boundary [rotated])
  have ne: "\<not> inside groups e" unfolding e_def using assms(2) clamp_spec [where groups = groups]
    by (auto simp: wf_groups_def)
  have "\<not> inside groups (back_off payload e)"
  proof
    assume "inside groups (back_off payload e)"
    then obtain x y where xy: "(x, y) \<in> set groups" "x < back_off payload e" "back_off payload e < y"
      by (auto simp: inside_iff)
    with ne back_off_le [of payload e] have "y \<le> e" by (fastforce simp: inside_iff)
    moreover have "char_boundary payload y" using assms(2) xy(1) by (auto simp: wf_groups_def)
    ultimately show False using back_off_max [of payload y e] xy(3) by linarith
  qed
  with b show ?thesis by (simp add: legal_cut_def e)
qed

lemma farthest_le: "farthest payload groups start \<le> start + MAX_UNIT_BYTES"
  and farthest_le_length: "farthest payload groups start \<le> length payload"
  unfolding farthest_def
  using back_off_le [of payload] clamp_le [where groups = groups]
  by (meson le_trans min.boundedE)+

lemma farthest_max:
  assumes "wf_groups payload groups" "legal_cut payload groups p" "p \<le> start + MAX_UNIT_BYTES"
  shows "p \<le> farthest payload groups start"
proof -
  have "p \<le> min (start + MAX_UNIT_BYTES) (length payload)"
    using assms(2,3) by (simp add: legal_cut_def char_boundary_def)
  then have "p \<le> clamp groups (min (start + MAX_UNIT_BYTES) (length payload))"
    using clamp_spec [where groups = groups] assms(1,2)
    by (fastforce simp: wf_groups_def legal_cut_def not_le [symmetric])
  then show ?thesis
    using back_off_max assms(2) by (simp add: farthest_def legal_cut_def)
qed

definition cut_context :: "string \<times> ranges \<Rightarrow> bool" where
  "cut_context c \<longleftrightarrow> utf8_valid (fst c) \<and> wf_groups (fst c) (snd c)"

interpretation pc: greedy_cover cut_context "\<lambda>c. length (fst c)" "\<lambda>c. legal_cut (fst c) (snd c)"
  "\<lambda>c. farthest (fst c) (snd c)" MAX_UNIT_BYTES "\<lambda>c. fits (fst c) (snd c)"
  by unfold_locales
     (auto simp: cut_context_def legal_cut_def [of _ _ "_ :: nat"] char_boundary_def Let_def
       intro: farthest_le farthest_max dest: farthest_legal)

section \<open>What the loop produces\<close>

text \<open>
  The units from \<open>start\<close> on, \<open>n\<close> units having been cut before: every unit ends where
  \<^const>\<open>choose_end\<close> puts it and has passed \<^const>\<open>validate_unit\<close>.
\<close>

fun unit_chain :: "string \<Rightarrow> ranges \<Rightarrow> nat list \<Rightarrow> nat \<Rightarrow> nat \<Rightarrow> nat \<Rightarrow> string list \<Rightarrow> bool" where
  "unit_chain payload groups cuts max_units n start [] \<longleftrightarrow> start = length payload"
| "unit_chain payload groups cuts max_units n start (u # us) \<longleftrightarrow>
     (let e = choose_end payload groups cuts start (max_units - n - 1)
      in u = slice payload start e \<and> start < e \<and> e \<le> length payload \<and> validate_unit u = Inr ()
         \<and> n < max_units \<and> unit_chain payload groups cuts max_units (Suc n) e us)"

lemma takeWhile_last: "takeWhile p xs \<noteq> [] \<Longrightarrow> p (last (takeWhile p xs))"
  by (metis last_in_set set_takeWhileD)

lemma takeWhile_last_mem: "takeWhile p xs \<noteq> [] \<Longrightarrow> last (takeWhile p xs) \<in> set xs"
  by (metis last_in_set set_takeWhileD)

lemma choose_end_le: "choose_end payload groups cuts start k \<le> farthest payload groups start"
  using takeWhile_last [of "\<lambda>c. c \<le> farthest payload groups start" cuts]
  by (auto simp: choose_end_def Let_def)

lemma partition_loop_chain:
  "partition_loop payload groups cuts max_units result start = Inr chunks \<Longrightarrow> start \<le> length payload \<Longrightarrow>
     \<exists>us. chunks = result @ us \<and> unit_chain payload groups cuts max_units (length result) start us"
proof (induction payload groups cuts max_units result start rule: partition_loop.induct)
  case (1 payload groups cuts max_units result start)
  show ?case
  proof (cases "start < length payload")
    case True
    let ?e = "choose_end payload groups cuts start (max_units - length result - 1)"
    let ?u = "slice payload start ?e"
    from 1(2) True have v: "validate_unit ?u = Inr ()" and n: "length result < max_units"
      and rec: "partition_loop payload groups cuts max_units (result @ [?u]) ?e = Inr chunks"
      by (subst (asm) partition_loop.simps; simp add: Let_def bindE_eq_Inr)+
    have e: "?e \<le> length payload" using choose_end_le farthest_le_length by (rule le_trans)
    from n have "requireE (length (result @ [?u]) \<le> max_units) (ReviewError ''unit-count-budget'') = Inr ()"
      by simp
    from 1(1) [OF True refl refl v this rec e] obtain us where
      "chunks = (result @ [?u]) @ us"
      "unit_chain payload groups cuts max_units (length (result @ [?u])) ?e us" by blast
    with v n e validate_unit_slice [OF v] show ?thesis
      by (intro exI [of _ "?u # us"]) (simp add: Let_def)
  next
    case False
    with 1(2,3) show ?thesis by (simp add: partition_loop.simps)
  qed
qed

lemma chain_concat:
  "unit_chain payload groups cuts max_units n start us \<Longrightarrow> start \<le> length payload \<Longrightarrow>
     concat us = drop start payload"
proof (induction us arbitrary: n start)
  case (Cons u us)
  let ?e = "choose_end payload groups cuts start (max_units - n - 1)"
  from Cons have u: "u = slice payload start ?e" "start < ?e" "?e \<le> length payload"
    and r: "concat us = drop ?e payload" by (auto simp: Let_def)
  then have "drop ?e payload = drop (?e - start) (drop start payload)" by simp
  with u(1) r show ?case by (simp only: concat.simps slice_def append_take_drop_id)
qed simp

lemma chain_units:
  "unit_chain payload groups cuts max_units n start us \<Longrightarrow> n \<le> max_units \<Longrightarrow>
     n + length us \<le> max_units \<and> (\<forall>u \<in> set us. validate_unit u = Inr ())"
proof (induction us arbitrary: n start)
  case (Cons u us)
  from Cons.prems have r: "unit_chain payload groups cuts max_units (Suc n)
      (choose_end payload groups cuts start (max_units - n - 1)) us"
    and n: "Suc n \<le> max_units" "validate_unit u = Inr ()"
    unfolding unit_chain.simps Let_def by (blast intro: Suc_leI)+
  from Cons.IH [OF r n(1)] n(2) show ?case by simp
qed simp

lemma partition_units_chain:
  assumes "partition_units payload boundaries max_units groups = Inr chunks"
  shows "unit_chain payload groups (cuts_of payload boundaries groups) max_units 0 0 chunks"
  using assms partition_loop_chain
  by (fastforce simp: partition_units_def bindE_eq_Inr)

lemma partition_units_sound:
  assumes "partition_units payload boundaries max_units groups = Inr chunks"
  shows "concat chunks = payload \<and> length chunks \<le> max_units \<and>
    (\<forall>u \<in> set chunks. 1 \<le> length u \<and> length u \<le> MAX_UNIT_BYTES \<and> utf8_valid u)"
  using chain_concat [OF partition_units_chain [OF assms]] chain_units [OF partition_units_chain [OF assms]]
  by (auto simp: validate_unit_def text_bytes_def bindE_eq_Inr split: if_splits)

section \<open>The loop never fails after the first budget check\<close>

text \<open>Every endpoint the loop may choose is legal, moves on, and leaves a rest that fits.\<close>

lemma choose_end_good:
  assumes c: "cut_context (payload, groups)" and cuts: "\<forall>p \<in> set cuts. legal_cut payload groups p"
    and start: "start < length payload" and f: "fits payload groups start (Suc k)"
    and crlf: "utf8_valid payload"
  defines "e \<equiv> choose_end payload groups cuts start k"
  shows "start < e \<and> legal_cut payload groups e \<and> fits payload groups e k"
proof -
  let ?far = "farthest payload groups start" and ?below = "takeWhile (\<lambda>c. c \<le> farthest payload groups start) cuts"
  have far: "start < ?far" "fits payload groups ?far k" "legal_cut payload groups ?far"
    using f start c farthest_legal by (auto simp: Let_def cut_context_def split: if_splits)
  have "e = (if ?below \<noteq> [] \<and> start < last ?below \<and> fits payload groups (last ?below) k then last ?below
     else if start < ?far - 1 \<and> take 2 (drop (?far - 1) payload) = [CHR 0x0D, CHR 0x0A]
        \<and> \<not> inside groups (?far - 1) \<and> fits payload groups (?far - 1) k then ?far - 1 else ?far)"
    unfolding e_def choose_end_def Let_def ..
  then show ?thesis
  proof (cases rule: if_chain_cases)
    case 1
    with cuts takeWhile_last_mem [of _ cuts] show ?thesis by blast
  next
    case 2
    then have "?far - 1 < length payload" "payload ! (?far - 1) = CHR 0x0D"
      by (blast dest: take_drop_hd)+
    then have "char_boundary payload (?far - 1)" by (simp add: char_boundary_def is_cont_def)
    with 2 show ?thesis by (simp add: legal_cut_def)
  next
    case 3
    with \<open>start < ?far\<close> \<open>fits payload groups ?far k\<close> \<open>legal_cut payload groups ?far\<close>
    show ?thesis by simp
  qed
qed

lemma text_bytes_slice:
  assumes "text_bytes payload = Inr ()" "char_boundary payload a" "char_boundary payload b" "a \<le> b"
  shows "text_bytes (slice payload a b) = Inr ()"
  using assms utf8_slice [of payload a b] in_set_takeD in_set_dropD
  by (fastforce simp: text_bytes_def slice_def split: if_splits)

lemma partition_loop_total:
  "text_bytes payload = Inr () \<Longrightarrow> cut_context (payload, groups) \<Longrightarrow>
     \<forall>p \<in> set cuts. legal_cut payload groups p \<Longrightarrow> legal_cut payload groups start \<Longrightarrow>
     length result \<le> max_units \<Longrightarrow> fits payload groups start (max_units - length result) \<Longrightarrow>
     \<exists>chunks. partition_loop payload groups cuts max_units result start = Inr chunks"
proof (induction payload groups cuts max_units result start rule: partition_loop.induct)
  case (1 payload groups cuts max_units result start)
  show ?case
  proof (cases "start < length payload")
    case True
    let ?k = "max_units - length result - 1"
    let ?e = "choose_end payload groups cuts start ?k"
    let ?u = "slice payload start ?e"
    from 1(7) True have n: "length result < max_units"
      by (cases "max_units - length result") auto
    then have k: "max_units - length result = Suc ?k" by simp
    have u8: "utf8_valid payload" using 1(3) by (simp add: cut_context_def)
    have good: "start < ?e \<and> legal_cut payload groups ?e \<and> fits payload groups ?e ?k"
      using choose_end_good [OF 1(3,4) True _ u8] 1(7) k by simp
    have le: "?e \<le> start + MAX_UNIT_BYTES" "?e \<le> length payload"
      using choose_end_le farthest_le farthest_le_length by (blast intro: le_trans)+
    have v: "validate_unit ?u = Inr ()"
      using text_bytes_slice [OF 1(2)] 1(5) good le True
      by (auto simp: validate_unit_def bindE_eq_Inr legal_cut_def slice_def)
    have "requireE (length (result @ [?u]) \<le> max_units) (ReviewError ''unit-count-budget'') = Inr ()"
      using n by simp
    from 1(1) [OF True refl refl v this 1(2,3,4)] good n
    show ?thesis by (subst partition_loop.simps) (use True v n in \<open>simp add: Let_def\<close>)
  qed (simp add: partition_loop.simps)
qed

lemma partition_units_total:
  assumes "text_bytes payload = Inr ()" "payload \<noteq> []" "1 \<le> max_units" "max_units \<le> MAX_UNITS"
    and "wf_groups payload groups" and "\<forall>p \<in> set boundaries. char_boundary payload p"
    and "fits payload groups 0 max_units"
  shows "\<exists>chunks. partition_units payload boundaries max_units groups = Inr chunks"
proof -
  have u8: "utf8_valid payload" using assms(1) by (simp add: text_bytes_def split: if_splits)
  have c: "cut_context (payload, groups)" using u8 assms(5) by (simp add: cut_context_def)
  have cuts: "\<forall>p \<in> set (cuts_of payload boundaries groups). legal_cut payload groups p"
    using assms(6) by (auto simp: cuts_of_def legal_cut_def)
  have "legal_cut payload groups 0" using u8 by (simp add: legal_cut_def inside_def list_ex_iff)
  from partition_loop_total [OF assms(1) c cuts this, of "[]" max_units] assms
  show ?thesis by (simp add: partition_units_def)
qed

lemma partition_units_exact:
  assumes "text_bytes payload = Inr ()" "payload \<noteq> []" "1 \<le> max_units" "max_units \<le> MAX_UNITS"
    and "wf_groups payload groups" and "\<forall>p \<in> set boundaries. char_boundary payload p"
  shows "is_ok (partition_units payload boundaries max_units groups) \<longleftrightarrow>
    (\<exists>ps. length ps \<le> max_units \<and> cover (legal_cut payload groups) MAX_UNIT_BYTES (length payload) 0 ps)"
proof -
  have c: "cut_context (payload, groups)"
    using assms(1,5) by (simp add: cut_context_def text_bytes_def split: if_splits)
  have "is_ok (partition_units payload boundaries max_units groups) \<longleftrightarrow> fits payload groups 0 max_units"
  proof
    assume "fits payload groups 0 max_units"
    from partition_units_total [OF assms this] show "is_ok (partition_units payload boundaries max_units groups)"
      by (simp add: is_ok_iff)
  qed (auto simp: is_ok_iff partition_units_def bindE_eq_Inr)
  then show ?thesis using pc.fit_exact [OF c, of 0 max_units] by simp
qed

text \<open>All cuts of an accepted partition are legal: none falls inside a code point or a group.\<close>

lemma chain_legal:
  assumes c: "cut_context (payload, groups)" and cuts: "\<forall>p \<in> set cuts. legal_cut payload groups p"
  shows "unit_chain payload groups cuts max_units n start us \<Longrightarrow> legal_cut payload groups start \<Longrightarrow>
    fits payload groups start (max_units - n) \<Longrightarrow> k \<le> length us \<Longrightarrow>
    legal_cut payload groups (start + length (concat (take k us)))"
proof (induction us arbitrary: n start k)
  case (Cons u us)
  let ?e = "choose_end payload groups cuts start (max_units - n - 1)"
  from Cons.prems(1) have u: "u = slice payload start ?e" "start < ?e" "?e \<le> length payload" "n < max_units"
    and rec: "unit_chain payload groups cuts max_units (Suc n) ?e us" by (auto simp: Let_def)
  have "max_units - n = Suc (max_units - n - 1)" using u(4) by simp
  with Cons.prems(3) have "fits payload groups start (Suc (max_units - n - 1))" by simp
  with choose_end_good [OF c cuts _ this] u c
  have good: "legal_cut payload groups ?e" "fits payload groups ?e (max_units - n - 1)"
    by (auto simp: cut_context_def)
  show ?case
  proof (cases k)
    case (Suc j)
    have "start + length u = ?e" using u by (simp add: slice_def)
    with Cons.IH [OF rec good(1), of j] good(2) Cons.prems(4) Suc show ?thesis
      by (simp add: add.assoc [symmetric])
  qed (use Cons.prems in simp)
qed simp

section \<open>Cuts are preferred\<close>

lemma takeWhile_sorted:
  "sorted xs \<Longrightarrow> q \<in> set xs \<Longrightarrow> q \<le> (e :: nat) \<Longrightarrow>
     takeWhile (\<lambda>c. c \<le> e) xs \<noteq> [] \<and> q \<le> last (takeWhile (\<lambda>c. c \<le> e) xs)"
proof (induction xs)
  case (Cons x xs)
  show ?case
  proof (cases "q \<in> set xs")
    case True
    with Cons have IH: "takeWhile (\<lambda>c. c \<le> e) xs \<noteq> [] \<and> q \<le> last (takeWhile (\<lambda>c. c \<le> e) xs)" by simp
    from Cons.prems True have "x \<le> e" by fastforce
    with IH show ?thesis by simp
  next
    case False
    with Cons.prems have "q = x" "x \<le> e" by auto
    moreover have "x \<le> last (takeWhile (\<lambda>c. c \<le> e) xs)" if "takeWhile (\<lambda>c. c \<le> e) xs \<noteq> []"
      using Cons.prems(1) takeWhile_last_mem [OF that] by simp
    ultimately show ?thesis by auto
  qed
qed simp

lemma choose_end_prefers:
  assumes c: "cut_context (payload, groups)" and cuts: "\<forall>p \<in> set cuts. legal_cut payload groups p" "sorted cuts"
    and p: "p \<in> set cuts" "start < p" "p \<le> farthest payload groups start" "fits payload groups p k"
  defines "e \<equiv> choose_end payload groups cuts start k"
  shows "e \<in> set cuts \<and> (\<forall>q \<in> set cuts. q \<le> farthest payload groups start \<longrightarrow> q \<le> e)"
proof -
  let ?below = "takeWhile (\<lambda>c. c \<le> farthest payload groups start) cuts"
  have b: "?below \<noteq> []" "p \<le> last ?below" using takeWhile_sorted [OF cuts(2) p(1,3)] by auto
  have m: "last ?below \<in> set cuts" using b(1) by (rule takeWhile_last_mem)
  have "fits payload groups (last ?below) k"
    using pc.fit_mono [OF c, of "last ?below" p k] cuts(1) m b(2) p(4) by simp
  with b p(2) have "e = last ?below" by (simp add: e_def choose_end_def Let_def)
  with m takeWhile_sorted [OF cuts(2)] show ?thesis by blast
qed

lemma cuts_of_sorted [simp]: "sorted (cuts_of payload boundaries groups)"
  by (simp add: cuts_of_def)

lemma cuts_of_legal:
  assumes "utf8_valid payload" and "\<forall>p \<in> set boundaries. char_boundary payload p"
  shows "\<forall>p \<in> set (cuts_of payload boundaries groups). legal_cut payload groups p"
  using assms by (auto simp: cuts_of_def legal_cut_def)

lemma set_cuts_of:
  "set (cuts_of payload boundaries groups) = {p \<in> set boundaries \<union> {length payload}. \<not> inside groups p}"
  by (auto simp: cuts_of_def)

text \<open>A payload within the unit bound is one unit.\<close>

lemma back_off_end [simp]: "back_off payload (length payload) = length payload"
  by (cases payload) simp_all

lemma clamp_id: "\<not> inside groups e \<Longrightarrow> clamp groups e = e"
  by (induction groups) (auto simp: clamp_def)

lemma partition_single:
  assumes "text_bytes payload = Inr ()" "payload \<noteq> []" "length payload \<le> MAX_UNIT_BYTES"
    and "1 \<le> max_units" "max_units \<le> MAX_UNITS" and b: "\<forall>b \<in> set boundaries. b \<le> length payload"
    and g: "\<not> inside groups (length payload)"
  shows "partition_units payload boundaries max_units groups = Inr [payload]"
proof -
  let ?n = "length payload" and ?cuts = "cuts_of payload boundaries groups"
  have far: "farthest payload groups 0 = ?n" using assms(3) by (simp add: farthest_def min_absorb2 clamp_id [OF g])
  have fits_end: "fits payload groups ?n k" for k by (cases k) simp_all
  have all: "takeWhile (\<lambda>c. c \<le> ?n) ?cuts = ?cuts" using b by (auto simp: takeWhile_eq_all_conv set_cuts_of)
  have n: "?n \<in> set ?cuts" by (simp add: set_cuts_of g)
  with takeWhile_sorted [OF cuts_of_sorted n, of ?n] all have "?n \<le> last ?cuts" by simp
  moreover have "last ?cuts \<in> set ?cuts" using n by (intro last_in_set) auto
  ultimately have "last ?cuts = ?n" using b by (fastforce simp: set_cuts_of)
  then have e: "choose_end payload groups ?cuts 0 k = ?n" for k
    using assms(2) n by (auto simp: choose_end_def far all fits_end Let_def)
  have "fits payload groups 0 max_units" using assms(2,4) by (cases max_units) (simp_all add: far fits_end)
  moreover have "validate_unit payload = Inr ()" using assms by (simp add: validate_unit_def Suc_le_eq)
  ultimately show ?thesis
    using assms by (simp add: partition_units_def partition_loop.simps [of _ _ _ _ "[]" 0] e slice_def Let_def)
       (simp add: partition_loop.simps)
qed

section \<open>Properties\<close>

text \<open>
  C1: the partition is exact: on text, with disjoint groups and boundaries between code
  points, it succeeds exactly when the payload can be covered at all by at most \<open>max_units\<close>
  units of legal length that cut neither a code point nor a group; its greedy choice never
  loses a solution.
\<close>

theorem partition_complete:
  assumes "text_bytes payload = Inr ()" "payload \<noteq> []" "1 \<le> max_units" "max_units \<le> MAX_UNITS"
    and "wf_groups payload groups" and "\<forall>p \<in> set boundaries. char_boundary payload p"
  shows "is_ok (partition_units payload boundaries max_units groups) \<longleftrightarrow>
    (\<exists>ps. length ps \<le> max_units \<and> cover (legal_cut payload groups) MAX_UNIT_BYTES (length payload) 0 ps)"
  using assms by (rule partition_units_exact)

text \<open>
  The units of a partition, in order, are the payload; there are at most \<open>max_units\<close> of
  them, each valid UTF-8 of legal length, and no unit begins inside a code point or a group.
\<close>

lemma partition_sound:
  assumes p: "partition_units payload boundaries max_units groups = Inr chunks"
    and g: "wf_groups payload groups" and b: "\<forall>p \<in> set boundaries. char_boundary payload p"
  shows "concat chunks = payload \<and> length chunks \<le> max_units \<and>
    (\<forall>u \<in> set chunks. 1 \<le> length u \<and> length u \<le> MAX_UNIT_BYTES \<and> utf8_valid u) \<and>
    (\<forall>k \<le> length chunks. legal_cut payload groups (length (concat (take k chunks))))"
proof -
  have u: "utf8_valid payload" and f: "fits payload groups 0 (max_units - 0)"
    using p by (auto simp: partition_units_def bindE_eq_Inr text_bytes_def split: if_splits)
  have c: "cut_context (payload, groups)" using u g by (simp add: cut_context_def)
  have "legal_cut payload groups 0" using u by (simp add: legal_cut_def inside_def list_ex_iff)
  from chain_legal [OF c cuts_of_legal [OF u b] partition_units_chain [OF p] this f] partition_units_sound [OF p]
  show ?thesis by simp
qed

text \<open>
  Units end at record and hunk boundaries where they can: when some boundary within reach
  leaves a rest that still fits, the unit ends at the last boundary within reach.
\<close>

lemma partition_prefers_boundaries:
  assumes "utf8_valid payload" "wf_groups payload groups" "\<forall>p \<in> set boundaries. char_boundary payload p"
    and p: "p \<in> set boundaries" "\<not> inside groups p" "start < p" "p \<le> farthest payload groups start"
      "fits payload groups p k"
  defines "e \<equiv> choose_end payload groups (cuts_of payload boundaries groups) start k"
  shows "e \<in> set boundaries \<union> {length payload} \<and> \<not> inside groups e \<and>
    (\<forall>q \<in> set boundaries. \<not> inside groups q \<and> q \<le> farthest payload groups start \<longrightarrow> q \<le> e)"
proof -
  have "cut_context (payload, groups)" using assms(1,2) by (simp add: cut_context_def)
  from choose_end_prefers [OF this cuts_of_legal [OF assms(1,3)] cuts_of_sorted _ p(3-5)] p(1,2)
  show ?thesis by (auto simp: e_def set_cuts_of)
qed

text \<open>Two lines, the second with a code point of two bytes, kept together as one group.\<close>

definition sample_text :: string where
  "sample_text = [CHR ''a'', newline, CHR 0xC3, CHR 0xA9, newline]"

lemma sample_text_ok:
  "text_bytes sample_text = Inr ()" "utf8_valid sample_text" "wf_groups sample_text [(2, 5)]"
  "char_boundary sample_text 2" "char_boundary sample_text 5" "length sample_text = 5"
  by (simp_all add: sample_text_def text_bytes_def wf_groups_def char_boundary_def newline_def run_simps
      utf8_valid.simps(2))

lemma sample_text_partition:
  "partition_units sample_text [2, 5] 2 [(2, 5)] = Inr [sample_text]"
  by (simp add: sample_text_def run_simps utf8_valid.simps(2) cong: bindE_weak_cong)

theorem partition_complete_witness:
  "\<exists>ps. length ps \<le> 2 \<and> cover (legal_cut sample_text [(2, 5)]) MAX_UNIT_BYTES (length sample_text) 0 ps"
proof -
  have "sample_text \<noteq> []" by (simp add: sample_text_def)
  with partition_complete [of sample_text 2 "[(2, 5)]" "[2, 5]"] sample_text_ok sample_text_partition
  show ?thesis by (simp add: MAX_UNITS_def)
qed

end
