(* ===== verification/Bounded_Review.thy ===== *)
theory Bounded_Review
  imports Partition "HOL-Library.Product_Lexorder"
begin

text \<open>
  The coverage kernel of \<open>scripts/bounded_review.py\<close> above the byte level: the policy and
  the binding of a candidate, the plan of review units with its manifest, the independent
  verification of a plan and the validation of authenticated reviews.

  \<open>sha\<close> stands for the hexadecimal SHA-256 digest and \<open>source\<close> for the bytes of the module's
  own file; both are arguments of the definitions that use them.
\<close>

section \<open>Exact type and shape checks\<close>

definition keys_check :: "py \<Rightarrow> string list \<Rightarrow> string \<Rightarrow> exn + unit" where
  "keys_check value expected code =
     requireE (is_dict value \<and> set (keys_of value) = set expected) (ReviewError code)"

definition integer_check :: "py \<Rightarrow> int \<Rightarrow> int \<Rightarrow> string \<Rightarrow> exn + unit" where
  "integer_check value low high code =
     requireE (is_int value \<and> low \<le> the_int value \<and> the_int value \<le> high) (ReviewError code)"

lemma keys_check_eq_Inr [simp]:
  "keys_check v ks code = Inr u \<longleftrightarrow> is_dict v \<and> set (keys_of v) = set ks"
  by (simp add: keys_check_def)

lemma integer_check_eq_Inr [simp]:
  "integer_check v lo hi code = Inr u \<longleftrightarrow> is_int v \<and> lo \<le> the_int v \<and> the_int v \<le> hi"
  by (simp add: integer_check_def)

section \<open>Schema, policy, assets and binding\<close>

definition VERSION :: string where "VERSION = ''bounded-review/v1''"

definition FORMAT :: string where "FORMAT = ''git-diff-binary-full-index-no-renames-v1''"

definition review_keys :: "string list" where
  "review_keys = [''manifest_sha256'', ''subject'', ''payload_sha256'', ''verdict'', ''findings'',
     ''semantic_coverage'']"

definition SCHEMA :: py where
  "SCHEMA = PDict
     [(''version'', PStr VERSION),
      (''manifest'', PList (map PStr [''version'', ''binding'', ''assets'', ''policy'', ''total_bytes'',
         ''diff_sha256'', ''files'', ''units''])),
      (''review'', PList (map PStr review_keys)),
      (''aggregate'', PList (map PStr [''manifest_sha256'', ''diff_sha256'', ''unit_count'', ''coverage'']))]"

definition budget_limits :: "(string \<times> int) list" where
  "budget_limits =
     [(''max_units'', int MAX_UNITS), (''max_total_bytes'', int MAX_TOTAL_BYTES),
      (''max_review_seconds'', 7200), (''per_review_seconds'', 100),
      (''max_cost_microusd'', 66000000), (''per_review_cost_microusd'', 1000000), (''max_wip'', 1)]"

text \<open>\<open>policy()\<close>\<close>

definition policy :: "(string \<Rightarrow> string) \<Rightarrow> py" where
  "policy sha = PDict
     [(''version'', PStr ''compatibility-199999/v1''),
      (''unit_limit'', PInt (int MAX_UNIT_BYTES)),
      (''max_units'', PInt (int MAX_UNITS)),
      (''max_total_bytes'', PInt (int MAX_TOTAL_BYTES)),
      (''max_review_seconds'', PInt 7200),
      (''per_review_seconds'', PInt 100),
      (''max_cost_microusd'', PInt 66000000),
      (''per_review_cost_microusd'', PInt 1000000),
      (''max_wip'', PInt 1),
      (''limit_basis'', PStr ''frozen-compatibility-no-new-limit-acceptance''),
      (''benchmark'', PDict [(''version'', PStr ''not-accepted''),
         (''sha256'', PStr (sha ''no provider capacity benchmark claimed''))]),
      (''safety_reserve'', PStr ''not-measured-production-activation-blocked''),
      (''scope'', PStr ''generic-text-coverage-only''),
      (''semantic_groups'', PList [])]"

definition fixed_policy_keys :: "string list" where
  "fixed_policy_keys = [''version'', ''unit_limit'', ''limit_basis'', ''benchmark'', ''safety_reserve'', ''scope'']"

text \<open>The two nested loops over \<open>semantic_groups\<close>, with the paths seen so far.\<close>

definition policy_path :: "string list \<Rightarrow> py \<Rightarrow> exn + string list" where
  "policy_path seen path =
     bindE (requireE (is_str path \<and> the_str path \<notin> set seen) (ReviewError ''semantic-group-path'')) (\<lambda>_.
     bindE (validate_path (the_str path)) (\<lambda>_.
     Inr (the_str path # seen)))"

definition policy_group :: "string list \<Rightarrow> py \<Rightarrow> exn + string list" where
  "policy_group seen grp =
     bindE (requireE (is_list grp \<and> 1 \<le> length (the_list grp) \<and> length (the_list grp) \<le> 128)
              (ReviewError ''semantic-group'')) (\<lambda>_.
     foldE policy_path seen (the_list grp))"

definition validate_policy :: "(string \<Rightarrow> string) \<Rightarrow> py \<Rightarrow> exn + unit" where
  "validate_policy sha value =
     (let expected = policy sha in
      bindE (keys_check value (keys_of expected) ''policy-shape'') (\<lambda>_.
      bindE (forE (\<lambda>name. requireE
               (canonical (get_or value name PNone) = canonical (get_or expected name PNone))
               (ReviewError ''unsupported-limit-policy'')) fixed_policy_keys) (\<lambda>_.
      bindE (forE (\<lambda>(name, high). integer_check (get_or value name PNone) 1 high ''invalid-budget'')
               budget_limits) (\<lambda>_.
      let groups = get_or value ''semantic_groups'' PNone in
      bindE (requireE (is_list groups \<and> length (the_list groups) \<le> MAX_UNITS)
               (ReviewError ''semantic-groups'')) (\<lambda>_.
      bindE (foldE policy_group [] (the_list groups)) (\<lambda>_. Inr ()))))))"

definition assets :: "(string \<Rightarrow> string) \<Rightarrow> string \<Rightarrow> string \<Rightarrow> py \<Rightarrow> exn + py" where
  "assets sha source prompt prompt_version =
     bindE (text_bytes prompt) (\<lambda>_.
     bindE (checks
       [(0 < length prompt \<and> length prompt \<le> 1000000, ReviewError ''prompt-boundary''),
        (is_str prompt_version \<and> 0 < str_len (the_str prompt_version)
           \<and> str_len (the_str prompt_version) \<le> 100, ReviewError ''prompt-version'')]) (\<lambda>_.
     Inr (PDict
       [(''prompt'', PDict [(''version'', prompt_version), (''sha256'', PStr (sha prompt)),
           (''bytes'', PInt (int (length prompt)))]),
        (''schema'', PDict [(''version'', PStr VERSION), (''sha256'', PStr (sha (canonical SCHEMA)))]),
        (''partitioner'', PDict [(''version'', PStr VERSION), (''sha256'', PStr (sha source))])])))"

text \<open>\<open>[A-Za-z0-9_.-]+/[A-Za-z0-9_.-]+\<close>\<close>

definition repository_name :: "string \<Rightarrow> bool" where
  "repository_name s \<longleftrightarrow> (case split_on slash s of
     [owner, name] \<Rightarrow> owner \<noteq> [] \<and> name \<noteq> [] \<and> list_all is_name_char owner \<and> list_all is_name_char name
   | _ \<Rightarrow> False)"

definition validate_binding :: "py \<Rightarrow> exn + unit" where
  "validate_binding value =
     bindE (keys_check value [''repository'', ''base'', ''head'', ''merge_base'', ''integration_tree'',
              ''format'', ''scope''] ''binding-shape'') (\<lambda>_.
     let field = (\<lambda>name. get_or value name PNone) in
     bindE (requireE (is_str (field ''repository'') \<and> repository_name (the_str (field ''repository'')))
              (ReviewError ''repository'')) (\<lambda>_.
     bindE (forE (\<lambda>name. requireE (is_str (field name) \<and> oid (the_str (field name))) (ReviewError ''revision''))
              [''base'', ''head'', ''merge_base'', ''integration_tree'']) (\<lambda>_.
     requireE (py_eq (field ''format'') (PStr FORMAT) \<and> py_eq (field ''scope'') (PStr ''generic''))
       (ReviewError ''unsupported-scope''))))"

section \<open>The plan\<close>

text \<open>
  File ends are always boundaries, hunk ends only of files above the unit bound.
\<close>

definition file_boundaries :: "diff_file list \<Rightarrow> nat list" where
  "file_boundaries files = map fl_end files
     @ concat (map (\<lambda>f. if MAX_UNIT_BYTES < fl_end f - fl_start f then map hk_end (fl_hunks f) else []) files)"

text \<open>The byte range of one semantic group; every path of it must be a changed file.\<close>

definition group_range :: "diff_file list \<Rightarrow> py \<Rightarrow> exn + nat \<times> nat" where
  "group_range files grp =
     (let paths = map the_str (the_list grp);
          members = filter (\<lambda>f. fl_path f \<in> set paths) files
      in bindE (requireE (set paths \<subseteq> set (map fl_path files)) (ReviewError ''missing-semantic-group-path'')) (\<lambda>_.
         Inr (Min (set (map fl_start members)), Max (set (map fl_end members)))))"

text \<open>One iteration of the merge: overlapping ranges become one, within the unit bound.\<close>

definition merge_range :: "ranges \<times> nat list \<Rightarrow> nat \<times> nat \<Rightarrow> exn + ranges \<times> nat list" where
  "merge_range s r = (case (s, r) of ((merged, boundaries), (a, b)) \<Rightarrow>
     (let overlap = (merged \<noteq> [] \<and> a < snd (last merged));
          a' = (if overlap then fst (last merged) else a);
          b' = (if overlap then max b (snd (last merged)) else b);
          rest = (if overlap then butlast merged else merged)
      in bindE (requireE (b' - a' \<le> MAX_UNIT_BYTES) (ReviewError ''semantic-group-over-limit'')) (\<lambda>_.
         Inr (rest @ [(a', b')], boundaries @ [a', b']))))"

definition hunk_json :: "hunk \<Rightarrow> py" where
  "hunk_json h = PDict
     [(''start'', PInt (int (hk_start h))), (''end'', PInt (int (hk_end h))),
      (''old_start'', PInt (int (old_start h))), (''old_count'', PInt (int (old_count h))),
      (''new_start'', PInt (int (new_start h))), (''new_count'', PInt (int (new_count h)))]"

definition mode_json :: "string option \<Rightarrow> py" where
  "mode_json m = (case m of None \<Rightarrow> PNone | Some s \<Rightarrow> PStr s)"

definition file_json :: "diff_file \<Rightarrow> py" where
  "file_json f = PDict
     [(''path'', PStr (fl_path f)), (''operation'', PStr (operation_name (fl_operation f))),
      (''old_blob'', PStr (old_blob f)), (''new_blob'', PStr (new_blob f)),
      (''old_mode'', mode_json (old_mode f)), (''new_mode'', mode_json (new_mode f)),
      (''start'', PInt (int (fl_start f))), (''end'', PInt (int (fl_end f))),
      (''hunks'', PList (map hunk_json (fl_hunks f)))]"

text \<open>The spans of the files that a unit \<open>[a, b)\<close> overlaps, with the hunks it touches.\<close>

definition unit_spans :: "diff_file list \<Rightarrow> nat \<Rightarrow> nat \<Rightarrow> py list" where
  "unit_spans files a b =
     map (\<lambda>(n, f). PDict
        [(''file'', PInt (int n)), (''start'', PInt (int (max a (fl_start f)))),
         (''end'', PInt (int (min b (fl_end f)))),
         (''hunks'', PList (map (\<lambda>(k, h). PInt (int k))
            (filter (\<lambda>(k, h). a < hk_end h \<and> hk_start h < b) (enumerate 0 (fl_hunks f)))))])
       (filter (\<lambda>(n, f). a < fl_end f \<and> fl_start f < b) (enumerate 0 files))"

fun unit_rows :: "(string \<Rightarrow> string) \<Rightarrow> diff_file list \<Rightarrow> nat \<Rightarrow> nat \<Rightarrow> string list \<Rightarrow> py list" where
  "unit_rows sha files number start [] = []"
| "unit_rows sha files number start (chunk # chunks) =
     (let e = start + length chunk in
      PDict [(''ordinal'', PInt (int number)), (''start'', PInt (int start)), (''end'', PInt (int e)),
             (''bytes'', PInt (int (length chunk))), (''sha256'', PStr (sha chunk)),
             (''spans'', PList (unit_spans files start e))]
      # unit_rows sha files (Suc number) e chunks)"

text \<open>The integer limits of a validated policy.\<close>

definition limit_of :: "py \<Rightarrow> string \<Rightarrow> int" where
  "limit_of limits name = the_int (get_or limits name PNone)"

definition plan_chunks :: "string \<Rightarrow> py \<Rightarrow> exn + diff_file list \<times> string list" where
  "plan_chunks payload limits =
     bindE (requireE (0 < length payload \<and> int (length payload) \<le> limit_of limits ''max_total_bytes'')
              (ReviewError ''candidate-budget'')) (\<lambda>_.
     bindE (inventory payload) (\<lambda>files.
     bindE (mapE (group_range files) (the_list (get_or limits ''semantic_groups'' PNone))) (\<lambda>grouped.
     bindE (foldE merge_range ([], file_boundaries files) (sort grouped)) (\<lambda>(merged, boundaries).
     bindE (partition_units payload boundaries (nat (limit_of limits ''max_units'')) merged) (\<lambda>chunks.
     Inr (files, chunks))))))"

definition manifest_of ::
  "(string \<Rightarrow> string) \<Rightarrow> string \<Rightarrow> py \<Rightarrow> py \<Rightarrow> py \<Rightarrow> diff_file list \<Rightarrow> string list \<Rightarrow> py" where
  "manifest_of sha payload binding assets_json limits files chunks = PDict
     [(''version'', PStr VERSION), (''binding'', binding), (''assets'', assets_json),
      (''policy'', PDict [(''value'', limits), (''sha256'', PStr (sha (canonical limits)))]),
      (''total_bytes'', PInt (int (length payload))), (''diff_sha256'', PStr (sha payload)),
      (''files'', PList (map file_json files)),
      (''units'', PList (unit_rows sha files 0 0 chunks))]"

text \<open>The manifest is returned as a copy that shares nothing with the caller's objects.\<close>

definition plan ::
  "(string \<Rightarrow> string) \<Rightarrow> string \<Rightarrow> string \<Rightarrow> py \<Rightarrow> string \<Rightarrow> py \<Rightarrow> py \<Rightarrow> exn + py \<times> string list" where
  "plan sha source payload binding prompt prompt_version limits =
     bindE (validate_binding binding) (\<lambda>_.
     bindE (validate_policy sha limits) (\<lambda>_.
     bindE (plan_chunks payload limits) (\<lambda>(files, chunks).
     let reviews = int (length chunks) + 1 in
     bindE (checks
       [(reviews * limit_of limits ''per_review_seconds'' \<le> limit_of limits ''max_review_seconds'',
           ReviewError ''time-admission''),
        (reviews * limit_of limits ''per_review_cost_microusd'' \<le> limit_of limits ''max_cost_microusd'',
           ReviewError ''cost-admission'')]) (\<lambda>_.
     bindE (assets sha source prompt prompt_version) (\<lambda>assets_json.
     Inr (detach (manifest_of sha payload binding assets_json limits files chunks), chunks))))))"

section \<open>Verification and aggregation\<close>

definition verify ::
  "(string \<Rightarrow> string) \<Rightarrow> string \<Rightarrow> py \<Rightarrow> string list \<Rightarrow> string \<Rightarrow> py \<Rightarrow> string \<Rightarrow> py \<Rightarrow> py \<Rightarrow> exn + string" where
  "verify sha source manifest chunks payload binding prompt prompt_version limits =
     bindE (plan sha source payload binding prompt prompt_version limits) (\<lambda>(expected, expected_chunks).
     bindE (checks
       [(canonical manifest = canonical expected, ReviewError ''manifest-drift''),
        (length chunks = length expected_chunks, ReviewError ''missing-or-extra-unit'')]) (\<lambda>_.
     bindE (forE (\<lambda>(chunk, expected_chunk).
              bindE (validate_unit chunk) (\<lambda>_.
              requireE (chunk = expected_chunk) (ReviewError ''unit-content-or-order-drift'')))
              (zip chunks expected_chunks)) (\<lambda>_.
     bindE (requireE (concat chunks = payload) (ReviewError ''reconstruction-failure'')) (\<lambda>_.
     Inr (sha (canonical expected))))))"

text \<open>\<open>len(v)\<close> and \<open>v[n]\<close> with an integer, as the manifest's units need them.\<close>

fun py_len :: "py \<Rightarrow> exn + nat" where
  "py_len (PList xs) = Inr (length xs)"
| "py_len (PDict kvs) = Inr (length kvs)"
| "py_len (PStr s) = Inr (str_len s)"
| "py_len _ = Inl TypeError"

definition py_item :: "py \<Rightarrow> nat \<Rightarrow> exn + py" where
  "py_item v n = (case v of
     PList xs \<Rightarrow> if n < length xs then Inr (xs ! n) else Inl IndexError
   | PDict kvs \<Rightarrow> Inl KeyError
   | _ \<Rightarrow> Inl TypeError)"

definition validate_review :: "(string \<Rightarrow> string) \<Rightarrow> py \<Rightarrow> nat \<Rightarrow> py \<Rightarrow> exn + unit" where
  "validate_review sha manifest number review =
     bindE (py_index manifest ''units'') (\<lambda>units.
     bindE (py_len units) (\<lambda>count.
     bindE (integer_check (PInt (int number)) 0 (int count) ''review-ordinal'') (\<lambda>_.
     bindE (keys_check review review_keys ''review-shape'') (\<lambda>_.
     let integration = (number = count); field = (\<lambda>name. get_or review name PNone) in
     bindE (checks
       [(py_eq (field ''manifest_sha256'') (PStr (sha (canonical manifest))), ReviewError ''stale-review''),
        (py_eq (field ''subject'') (PStr (if integration then ''integration'' else ''unit:'' @ dec number)),
           ReviewError ''review-order-or-duplicate'')]) (\<lambda>_.
     bindE (if integration then py_index manifest ''diff_sha256''
            else bindE (py_item units number) (\<lambda>u. py_index u ''sha256'')) (\<lambda>payload_sha.
     checks
       [(py_eq (field ''payload_sha256'') payload_sha, ReviewError ''substituted-review''),
        (py_eq (field ''verdict'') (PStr ''PASS'') \<and> py_eq (field ''findings'') (PList []),
           ReviewError ''review-failed''),
        (py_eq (field ''semantic_coverage'')
             (PStr (if integration then ''complete-cross-unit'' else ''complete-unit'')),
           ReviewError ''unevaluated-semantic-risk'')]))))))"

lemmas [run_simps] = keys_check_def integer_check_def VERSION_def FORMAT_def review_keys_def SCHEMA_def
  budget_limits_def policy_def fixed_policy_keys_def policy_path_def policy_group_def validate_policy_def
  assets_def repository_name_def validate_binding_def file_boundaries_def group_range_def merge_range_def
  hunk_json_def mode_json_def file_json_def unit_spans_def limit_of_def plan_chunks_def manifest_of_def
  plan_def verify_def py_item_def validate_review_def

section \<open>What a validated policy guarantees\<close>

text \<open>Every budget is an integer between 1 and the compatibility limit.\<close>

lemma validate_policy_budget:
  assumes "validate_policy sha limits = Inr ()" and "(name, high) \<in> set budget_limits"
  shows "get_or limits name PNone = PInt (limit_of limits name)"
    and "1 \<le> limit_of limits name" and "limit_of limits name \<le> high"
proof -
  have "integer_check (get_or limits name PNone) 1 high ''invalid-budget'' = Inr ()"
    using assms by (auto simp: validate_policy_def Let_def bindE_eq_Inr forE_eq_Inr)
  then show "get_or limits name PNone = PInt (limit_of limits name)"
    "1 \<le> limit_of limits name" "limit_of limits name \<le> high"
    by (auto simp: limit_of_def is_int_iff)
qed

section \<open>What a plan says\<close>

lemma py_index_detach:
  "py_index (detach (PDict kvs)) k =
     (case map_of kvs k of None \<Rightarrow> Inl KeyError | Some v \<Rightarrow> Inr (detach v))"
  by (simp add: py_index_def map_of_sort_key map_of_detach_items split: option.splits)

lemma unit_rows_length [simp]: "length (unit_rows sha files n start chunks) = length chunks"
  by (induction chunks arbitrary: n start) (simp_all add: Let_def)

lemma unit_rows_sha:
  "k < length chunks \<Longrightarrow>
     py_index (detach (unit_rows sha files n start chunks ! k)) ''sha256'' = Inr (PStr (sha (chunks ! k)))"
proof (induction chunks arbitrary: n start k)
  case (Cons chunk chunks)
  show ?case
  proof (cases k)
    case 0
    then show ?thesis by (simp add: Let_def py_index_detach del: detach.simps(2))
  next
    case (Suc j)
    with Cons show ?thesis by (simp add: Let_def)
  qed
qed simp

lemma manifest_fields:
  assumes "m = detach (manifest_of sha payload binding aj limits files chunks)"
  shows "py_index m ''units'' = Inr (PList (map detach (unit_rows sha files 0 0 chunks)))"
    and "py_index m ''diff_sha256'' = Inr (PStr (sha payload))"
    and "py_index m ''policy'' = Inr (detach (PDict [(''value'', limits), (''sha256'', PStr (sha (canonical limits)))]))"
  by (simp_all add: assms manifest_of_def py_index_detach detach_list_map del: detach.simps(2))

lemma plan_eq_Inr:
  "plan sha source payload binding prompt pv limits = Inr (m, cs) \<longleftrightarrow>
     validate_binding binding = Inr () \<and> validate_policy sha limits = Inr () \<and>
     (\<exists>files aj. plan_chunks payload limits = Inr (files, cs) \<and>
        (int (length cs) + 1) * limit_of limits ''per_review_seconds'' \<le> limit_of limits ''max_review_seconds'' \<and>
        (int (length cs) + 1) * limit_of limits ''per_review_cost_microusd'' \<le> limit_of limits ''max_cost_microusd'' \<and>
        assets sha source prompt pv = Inr aj \<and> m = detach (manifest_of sha payload binding aj limits files cs))"
  by (auto simp: plan_def bindE_eq_Inr Let_def)

lemma plan_chunks_partition:
  assumes "plan_chunks payload limits = Inr (files, chunks)"
  obtains boundaries merged where "inventory payload = Inr files"
    and "partition_units payload boundaries (nat (limit_of limits ''max_units'')) merged = Inr chunks"
  using assms by (auto simp: plan_chunks_def bindE_eq_Inr)

lemma plan_covers:
  assumes "plan sha source payload binding prompt pv limits = Inr (m, chunks)"
  shows "concat chunks = payload \<and> length chunks \<le> MAX_UNITS \<and>
    (\<forall>u \<in> set chunks. 1 \<le> length u \<and> length u \<le> MAX_UNIT_BYTES \<and> utf8_valid u)"
proof -
  from assms obtain files where c: "plan_chunks payload limits = Inr (files, chunks)"
    and v: "validate_policy sha limits = Inr ()" by (auto simp: plan_eq_Inr)
  from c obtain boundaries merged where
    "partition_units payload boundaries (nat (limit_of limits ''max_units'')) merged = Inr chunks"
    by (rule plan_chunks_partition)
  from partition_units_sound [OF this]
  have "concat chunks = payload" "length chunks \<le> nat (limit_of limits ''max_units'')"
    "\<forall>u \<in> set chunks. 1 \<le> length u \<and> length u \<le> MAX_UNIT_BYTES \<and> utf8_valid u" by auto
  moreover have "limit_of limits ''max_units'' \<le> int MAX_UNITS"
    by (rule validate_policy_budget [OF v]) (simp add: budget_limits_def)
  ultimately show ?thesis by auto
qed

lemma plan_units_valid:
  assumes "plan sha source payload binding prompt pv limits = Inr (m, chunks)"
  shows "\<forall>u \<in> set chunks. validate_unit u = Inr ()"
proof -
  from assms obtain files where c: "plan_chunks payload limits = Inr (files, chunks)"
    by (auto simp: plan_eq_Inr)
  from c obtain boundaries merged where
    p: "partition_units payload boundaries (nat (limit_of limits ''max_units'')) merged = Inr chunks"
    by (rule plan_chunks_partition)
  from chain_units [OF partition_units_chain [OF p]] show ?thesis by blast
qed

lemma zip_same_units:
  "length xs = length ys \<Longrightarrow> (\<forall>(x, y) \<in> set (zip xs ys). x = y) \<longleftrightarrow> xs = ys"
  by (induction xs ys rule: list_induct2) auto

lemma forE_units:
  "forE (\<lambda>(chunk, expected_chunk). bindE (validate_unit chunk) (\<lambda>_. requireE (chunk = expected_chunk) e)) ps = Inr u
     \<longleftrightarrow> (\<forall>(x, y) \<in> set ps. validate_unit x = Inr () \<and> x = y)"
  by (fastforce simp: forE_eq_Inr bindE_eq_Inr)

text \<open>Verification accepts exactly the planned chunks with a manifest of the same canonical text.\<close>

lemma verify_eq_Inr:
  "verify sha source m cs payload binding prompt pv limits = Inr d \<longleftrightarrow>
     (\<exists>expected. plan sha source payload binding prompt pv limits = Inr (expected, cs)
        \<and> canonical m = canonical expected \<and> d = sha (canonical expected))"
proof
  assume "verify sha source m cs payload binding prompt pv limits = Inr d"
  then obtain expected cs' where p: "plan sha source payload binding prompt pv limits = Inr (expected, cs')"
    and c: "canonical m = canonical expected" "length cs = length cs'" "d = sha (canonical expected)"
    and f: "\<forall>(x, y) \<in> set (zip cs cs'). validate_unit x = Inr () \<and> x = y"
    by (auto simp: verify_def bindE_eq_Inr forE_units)
  from f c(2) have "cs = cs'" using zip_same_units by fast
  with p c show "\<exists>expected. plan sha source payload binding prompt pv limits = Inr (expected, cs)
      \<and> canonical m = canonical expected \<and> d = sha (canonical expected)" by blast
next
  assume "\<exists>expected. plan sha source payload binding prompt pv limits = Inr (expected, cs)
      \<and> canonical m = canonical expected \<and> d = sha (canonical expected)"
  then obtain expected where p: "plan sha source payload binding prompt pv limits = Inr (expected, cs)"
    and c: "canonical m = canonical expected" "d = sha (canonical expected)" by blast
  have "forE (\<lambda>(chunk, expected_chunk). bindE (validate_unit chunk) (\<lambda>_.
      requireE (chunk = expected_chunk) (ReviewError ''unit-content-or-order-drift''))) (zip cs cs) = Inr ()"
    using plan_units_valid [OF p] by (auto simp: forE_units zip_same_conv_map)
  with p c plan_covers [OF p] show "verify sha source m cs payload binding prompt pv limits = Inr d"
    by (simp add: verify_def)
qed

section \<open>Properties\<close>

text \<open>
  C2: a plan covers the candidate: its units in order are the payload byte for byte, each is
  valid UTF-8 of at most 199999 bytes, and their number together with the one integration
  review stays within the time and cost budgets of the policy.
\<close>

theorem plan_covers_payload:
  assumes "plan sha source payload binding prompt pv limits = Inr (m, chunks)"
  shows "concat chunks = payload \<and> length chunks \<le> MAX_UNITS \<and>
    (\<forall>u \<in> set chunks. 1 \<le> length u \<and> length u \<le> MAX_UNIT_BYTES \<and> utf8_valid u) \<and>
    (int (length chunks) + 1) * limit_of limits ''per_review_seconds'' \<le> limit_of limits ''max_review_seconds'' \<and>
    (int (length chunks) + 1) * limit_of limits ''per_review_cost_microusd'' \<le> limit_of limits ''max_cost_microusd''"
  using plan_covers [OF assms] assms by (auto simp: plan_eq_Inr)

text \<open>
  C17: verification trusts no claim of a manifest: it accepts exactly the chunks that planning
  the current input again gives, with a manifest of the same canonical text, and returns
  the digest of that text. In particular it accepts what \<open>plan\<close> itself returns.
\<close>

theorem verify_exact:
  "verify sha source m cs payload binding prompt pv limits = Inr d \<longleftrightarrow>
     (\<exists>expected. plan sha source payload binding prompt pv limits = Inr (expected, cs)
        \<and> canonical m = canonical expected \<and> d = sha (canonical expected))"
  by (rule verify_eq_Inr)

text \<open>A binding, and a stand-in for the digest, to plan the sample diff with.\<close>

definition sample_sha :: "string \<Rightarrow> string" where
  "sample_sha s = dec (length s)"

definition sample_binding :: py where
  "sample_binding = PDict
     [(''repository'', PStr ''o/r''), (''base'', PStr ''1111111111111111111111111111111111111111''),
      (''head'', PStr ''2222222222222222222222222222222222222222''),
      (''merge_base'', PStr ''1111111111111111111111111111111111111111''),
      (''integration_tree'', PStr ''3333333333333333333333333333333333333333''),
      (''format'', PStr FORMAT), (''scope'', PStr ''generic'')]"

lemma sample_binding_valid: "validate_binding sample_binding = Inr ()"
  by (simp add: sample_binding_def run_simps cong: bindE_weak_cong)

lemma policy_accepted: "validate_policy sha (policy sha) = Inr ()"
  by (simp add: validate_policy_def keys_check_def policy_def fixed_policy_keys_def budget_limits_def get_or_def integer_check_def
      MAX_UNITS_def MAX_TOTAL_BYTES_def MAX_UNIT_BYTES_def Let_def)

lemma policy_limits:
  "limit_of (policy sha) ''max_units'' = 64" "limit_of (policy sha) ''max_total_bytes'' = 12799936"
  "limit_of (policy sha) ''per_review_seconds'' = 100" "limit_of (policy sha) ''max_review_seconds'' = 7200"
  "limit_of (policy sha) ''per_review_cost_microusd'' = 1000000" "limit_of (policy sha) ''max_cost_microusd'' = 66000000"
  "get_or (policy sha) ''semantic_groups'' PNone = PList []"
  by (simp_all add: policy_def limit_of_def get_or_def MAX_UNITS_def MAX_TOTAL_BYTES_def MAX_UNIT_BYTES_def)

lemma sample_diff_length: "length sample_diff = 149" "sample_diff \<noteq> []"
  by (simp_all add: sample_diff_def)

lemma sample_assets: "\<exists>aj. assets sha source ''p'' (PStr ''v'') = Inr aj"
  by (simp add: assets_def text_bytes_def run_simps)

lemma sample_plan:
  "\<exists>m. plan sample_sha ''src'' sample_diff sample_binding ''p'' (PStr ''v'') (policy sample_sha) = Inr (m, [sample_diff])"
proof -
  have "plan_chunks sample_diff (policy sample_sha) = Inr ([sample_file], [sample_diff])"
    using partition_single [of sample_diff 64 "[149]" "[]"] sample_inventory
    by (simp add: plan_chunks_def policy_limits file_boundaries_def sample_file_def inventory_def bindE_eq_Inr
      sample_diff_length MAX_UNIT_BYTES_def MAX_UNITS_def)
  with sample_assets show ?thesis
    by (auto simp: plan_eq_Inr sample_binding_valid policy_accepted policy_limits)
qed

theorem plan_covers_payload_witness:
  "\<exists>m. plan sample_sha ''src'' sample_diff sample_binding ''p'' (PStr ''v'') (policy sample_sha) = Inr (m, [sample_diff])
     \<and> concat [sample_diff] = sample_diff \<and> length sample_diff \<le> MAX_UNIT_BYTES"
  using sample_plan plan_covers_payload by fastforce

end
