(* ===== verification/Admission.thy ===== *)
theory Admission
  imports Bounded_Review
begin

text \<open>
  The one-use serial reservation ledger of \<open>scripts/bounded_review.py\<close> (class
  \<open>Admission\<close>) and \<open>aggregate\<close>, which accepts a set of reviews only together with a ledger
  that has admitted all of them. A method returns its exception, if any, together with the
  object it leaves behind: a failed check marks the object before the exception leaves.
\<close>

section \<open>The ledger\<close>

record admission =
  ad_manifest_sha256 :: string
  ad_limits :: py
  ad_count :: int
  ad_started :: int
  ad_last :: int
  ad_next :: int
  ad_reserved_cost :: int
  ad_active :: "int option"
  ad_failed :: bool

definition CLOCK_MAX :: int where "CLOCK_MAX = 2 ^ 63 - 1"

text \<open>\<open>__init__\<close>: no object exists when it raises.\<close>

definition admission_init :: "(string \<Rightarrow> string) \<Rightarrow> py \<Rightarrow> py \<Rightarrow> exn + admission" where
  "admission_init sha manifest start_seconds =
     bindE (bindE (py_index manifest ''policy'') (\<lambda>p. py_index p ''value'')) (\<lambda>limits.
     bindE (validate_policy sha limits) (\<lambda>_.
     bindE (integer_check start_seconds 0 CLOCK_MAX ''clock'') (\<lambda>_.
     bindE (bindE (py_index manifest ''units'') py_len) (\<lambda>units.
     bindE (integer_check (PInt (int units + 1)) 2 (limit_of limits ''max_units'' + 1) ''unit-count-budget'') (\<lambda>_.
     Inr \<lparr>ad_manifest_sha256 = sha (canonical manifest), ad_limits = detach limits,
          ad_count = int units + 1, ad_started = the_int start_seconds, ad_last = the_int start_seconds,
          ad_next = 0, ad_reserved_cost = 0, ad_active = None, ad_failed = False\<rparr>)))))"

abbreviation per_seconds :: "admission \<Rightarrow> int" where
  "per_seconds a \<equiv> limit_of (ad_limits a) ''per_review_seconds''"

abbreviation max_seconds :: "admission \<Rightarrow> int" where
  "max_seconds a \<equiv> limit_of (ad_limits a) ''max_review_seconds''"

abbreviation per_cost :: "admission \<Rightarrow> int" where
  "per_cost a \<equiv> limit_of (ad_limits a) ''per_review_cost_microusd''"

abbreviation max_cost :: "admission \<Rightarrow> int" where
  "max_cost a \<equiv> limit_of (ad_limits a) ''max_cost_microusd''"

definition reserve_checks :: "admission \<Rightarrow> py \<Rightarrow> py \<Rightarrow> exn + unit" where
  "reserve_checks a ordinal now_seconds =
     bindE (integer_check now_seconds (ad_last a) CLOCK_MAX ''clock'') (\<lambda>_.
     bindE (integer_check ordinal 0 (ad_count a - 1) ''review-ordinal'') (\<lambda>_.
     checks
       [(\<not> ad_failed a \<and> ad_active a = None \<and> the_int ordinal = ad_next a, ReviewError ''wip-or-consumed''),
        (the_int now_seconds + per_seconds a \<le> ad_started a + max_seconds a, ReviewError ''time-admission''),
        (ad_reserved_cost a + per_cost a \<le> max_cost a, ReviewError ''cost-admission'')]))"

definition reserve :: "admission \<Rightarrow> py \<Rightarrow> py \<Rightarrow> (exn + unit) \<times> admission" where
  "reserve a ordinal now_seconds = (case reserve_checks a ordinal now_seconds of
     Inl e \<Rightarrow> (Inl e, a\<lparr>ad_failed := True\<rparr>)
   | Inr _ \<Rightarrow> (Inr (), a\<lparr>ad_reserved_cost := ad_reserved_cost a + per_cost a,
                       ad_active := Some (the_int now_seconds), ad_next := ad_next a + 1,
                       ad_last := the_int now_seconds\<rparr>))"

text \<open>\<open>passed is True\<close> is the identity with the boolean, not truth.\<close>

definition finish_checks :: "admission \<Rightarrow> py \<Rightarrow> py \<Rightarrow> py \<Rightarrow> exn + unit" where
  "finish_checks a now_seconds cost_microusd passed =
     bindE (integer_check now_seconds (ad_last a) CLOCK_MAX ''clock'') (\<lambda>_.
     bindE (integer_check cost_microusd 0 (per_cost a) ''cost-overrun'') (\<lambda>_.
     checks
       [(\<not> ad_failed a \<and> ad_active a \<noteq> None \<and> passed = PBool True, ReviewError ''review-failed''),
        (the_int now_seconds - the (ad_active a) \<le> per_seconds a, ReviewError ''review-timeout''),
        (the_int now_seconds - ad_started a \<le> max_seconds a, ReviewError ''total-timeout'')]))"

definition finish :: "admission \<Rightarrow> py \<Rightarrow> py \<Rightarrow> py \<Rightarrow> (exn + unit) \<times> admission" where
  "finish a now_seconds cost_microusd passed = (case finish_checks a now_seconds cost_microusd passed of
     Inl e \<Rightarrow> (Inl e, a\<lparr>ad_failed := True\<rparr>)
   | Inr _ \<Rightarrow> (Inr (), a\<lparr>ad_active := None, ad_last := the_int now_seconds\<rparr>))"

section \<open>Aggregation\<close>

definition aggregate ::
  "(string \<Rightarrow> string) \<Rightarrow> string \<Rightarrow> py \<Rightarrow> string list \<Rightarrow> string \<Rightarrow> py \<Rightarrow> string \<Rightarrow> py \<Rightarrow> py
    \<Rightarrow> py list \<Rightarrow> admission \<Rightarrow> exn + py" where
  "aggregate sha source manifest chunks payload binding prompt prompt_version limits reviews a =
     bindE (verify sha source manifest chunks payload binding prompt prompt_version limits) (\<lambda>digest.
     bindE (checks
       [(ad_manifest_sha256 a = digest \<and> \<not> ad_failed a \<and> ad_active a = None
           \<and> ad_next a = int (length chunks) + 1, ReviewError ''incomplete-admission''),
        (length reviews = length chunks + 1, ReviewError ''review-cardinality'')]) (\<lambda>_.
     bindE (forE (\<lambda>(number, review). validate_review sha manifest number review) (enumerate 0 reviews)) (\<lambda>_.
     Inr (PDict [(''manifest_sha256'', PStr digest), (''diff_sha256'', PStr (sha payload)),
                 (''unit_count'', PInt (int (length chunks))), (''coverage'', PStr ''PASS'')]))))"

section \<open>Fail-stop budgets\<close>

text \<open>
  The contract that this ledger and the response budget of the provider share: operations
  report success, keep an invariant, spend within a limit that does not change, mark the
  object when they fail, and leave a marked object alone.
\<close>

fun run :: "('op \<Rightarrow> 's \<Rightarrow> bool \<times> 's) \<Rightarrow> 'op list \<Rightarrow> 's \<Rightarrow> 's" where
  "run step [] s = s"
| "run step (op # ops) s = run step ops (snd (step op s))"

locale fail_stop_budget =
  fixes good :: "'s \<Rightarrow> bool"
    and spent :: "'s \<Rightarrow> int"
    and allowed :: "'s \<Rightarrow> int"
    and marked :: "'s \<Rightarrow> bool"
    and step :: "'op \<Rightarrow> 's \<Rightarrow> bool \<times> 's"
  assumes step_good: "good s \<Longrightarrow> good (snd (step op s))"
    and spent_le: "good s \<Longrightarrow> spent s \<le> allowed s"
    and step_allowed: "allowed (snd (step op s)) = allowed s"
    and step_failure: "\<not> fst (step op s) \<Longrightarrow> marked (snd (step op s))"
    and step_marked: "marked s \<Longrightarrow> snd (step op s) = s"
begin

lemma run_good: "good s \<Longrightarrow> good (run step ops s)"
  by (induction ops arbitrary: s) (auto intro: step_good)

lemma run_allowed: "allowed (run step ops s) = allowed s"
  by (induction ops arbitrary: s) (auto simp: step_allowed)

lemma run_within_budget: "good s \<Longrightarrow> spent (run step ops s) \<le> allowed s"
  using spent_le [OF run_good] by (simp add: run_allowed)

lemma run_marked: "marked s \<Longrightarrow> run step ops s = s"
  by (induction ops arbitrary: s) (auto simp: step_marked)

lemma run_append: "run step (ops @ ops') s = run step ops' (run step ops s)"
  by (induction ops arbitrary: s) auto

text \<open>After a failing operation nothing that follows changes the object.\<close>

lemma run_after_failure:
  assumes "\<not> fst (step op s)"
  shows "run step (op # ops) s = snd (step op s)"
  using run_marked [OF step_failure [OF assms]] by simp

end

section \<open>The invariant of the ledger\<close>

datatype ledger_op = Reserve py py | Finish py py py

fun ledger_step :: "ledger_op \<Rightarrow> admission \<Rightarrow> bool \<times> admission" where
  "ledger_step (Reserve ordinal now) a = (is_ok (fst (reserve a ordinal now)), snd (reserve a ordinal now))"
| "ledger_step (Finish now cost passed) a =
     (is_ok (fst (finish a now cost passed)), snd (finish a now cost passed))"

definition ledger_good :: "admission \<Rightarrow> bool" where
  "ledger_good a \<longleftrightarrow>
     1 \<le> per_cost a \<and> 1 \<le> per_seconds a \<and> ad_last a \<le> ad_started a + max_seconds a \<and> 0 \<le> ad_next a \<and> ad_next a \<le> ad_count a \<and>
     ad_reserved_cost a = ad_next a * per_cost a \<and> ad_reserved_cost a \<le> max_cost a \<and>
     ad_started a \<le> ad_last a \<and>
     (\<forall>t. ad_active a = Some t \<longrightarrow> 1 \<le> ad_next a \<and> ad_started a \<le> t \<and> t \<le> ad_last a
        \<and> t + per_seconds a \<le> ad_started a + max_seconds a)"

lemma reserve_checks_eq_Inr:
  "reserve_checks a ordinal now = Inr u \<longleftrightarrow>
     is_int now \<and> ad_last a \<le> the_int now \<and> the_int now \<le> CLOCK_MAX \<and> is_int ordinal \<and>
     0 \<le> the_int ordinal \<and> the_int ordinal \<le> ad_count a - 1 \<and> \<not> ad_failed a \<and> ad_active a = None \<and>
     the_int ordinal = ad_next a \<and> the_int now + per_seconds a \<le> ad_started a + max_seconds a \<and>
     ad_reserved_cost a + per_cost a \<le> max_cost a"
  by (auto simp: reserve_checks_def bindE_eq_Inr)

lemma finish_checks_eq_Inr:
  "finish_checks a now cost passed = Inr u \<longleftrightarrow>
     is_int now \<and> ad_last a \<le> the_int now \<and> the_int now \<le> CLOCK_MAX \<and> is_int cost \<and>
     0 \<le> the_int cost \<and> the_int cost \<le> per_cost a \<and> \<not> ad_failed a \<and> ad_active a \<noteq> None \<and>
     passed = PBool True \<and> the_int now - the (ad_active a) \<le> per_seconds a \<and>
     the_int now - ad_started a \<le> max_seconds a"
  by (auto simp: finish_checks_def bindE_eq_Inr)

lemma reserve_cases:
  obtains (fail) e where "reserve a ordinal now = (Inl e, a\<lparr>ad_failed := True\<rparr>)"
  | (ok) "reserve_checks a ordinal now = Inr ()"
      "reserve a ordinal now = (Inr (), a\<lparr>ad_reserved_cost := ad_reserved_cost a + per_cost a,
         ad_active := Some (the_int now), ad_next := ad_next a + 1, ad_last := the_int now\<rparr>)"
  by (cases "reserve_checks a ordinal now") (auto simp: reserve_def)

lemma finish_cases:
  obtains (fail) e where "finish a now cost passed = (Inl e, a\<lparr>ad_failed := True\<rparr>)"
  | (ok) "finish_checks a now cost passed = Inr ()"
      "finish a now cost passed = (Inr (), a\<lparr>ad_active := None, ad_last := the_int now\<rparr>)"
  by (cases "finish_checks a now cost passed") (auto simp: finish_def)

lemma ledger_good_reserve: "ledger_good a \<Longrightarrow> ledger_good (snd (reserve a ordinal now))"
  by (rule reserve_cases [of a ordinal now])
     (auto simp: ledger_good_def reserve_checks_eq_Inr algebra_simps)

lemma ledger_good_finish: "ledger_good a \<Longrightarrow> ledger_good (snd (finish a now cost passed))"
  by (rule finish_cases [of a now cost passed]) (auto simp: ledger_good_def finish_checks_eq_Inr)

lemma reserve_marked:
  assumes "ad_failed a"
  shows "snd (reserve a ordinal now) = a"
  using assms by (cases "reserve_checks a ordinal now") (simp_all add: reserve_def reserve_checks_eq_Inr)

lemma finish_marked:
  assumes "ad_failed a"
  shows "snd (finish a now cost passed) = a"
  using assms by (cases "finish_checks a now cost passed") (simp_all add: finish_def finish_checks_eq_Inr)

interpretation ledger: fail_stop_budget ledger_good ad_reserved_cost max_cost ad_failed ledger_step
proof
  fix s :: admission and op :: ledger_op
  show "ledger_good s \<Longrightarrow> ledger_good (snd (ledger_step op s))"
    by (cases op) (auto intro: ledger_good_reserve ledger_good_finish)
  show "max_cost (snd (ledger_step op s)) = max_cost s"
    by (cases op) (auto simp: reserve_def finish_def split: sum.splits)
  show "\<not> fst (ledger_step op s) \<Longrightarrow> ad_failed (snd (ledger_step op s))"
    by (cases op) (auto simp: reserve_def finish_def split: sum.splits)
  show "ad_failed s \<Longrightarrow> snd (ledger_step op s) = s"
    by (cases op) (auto simp: reserve_marked finish_marked)
qed (simp add: ledger_good_def)

lemma admission_init_good:
  assumes "admission_init sha manifest start = Inr a"
  shows "ledger_good a \<and> \<not> ad_failed a"
proof -
  from assms obtain limits where v: "validate_policy sha limits = Inr ()" and l: "ad_limits a = detach limits"
    and a: "ad_next a = 0" "ad_reserved_cost a = 0" "ad_active a = None" "ad_last a = ad_started a"
      "2 \<le> ad_count a" "\<not> ad_failed a"
    by (auto simp: admission_init_def bindE_eq_Inr)
  have "1 \<le> limit_of limits ''per_review_cost_microusd''" "1 \<le> limit_of limits ''max_cost_microusd''"
    "1 \<le> limit_of limits ''per_review_seconds''" "1 \<le> limit_of limits ''max_review_seconds''"
    using validate_policy_budget [OF v] by (force simp: budget_limits_def)+
  with a show ?thesis by (simp add: ledger_good_def l limit_of_def get_or_detach)
qed

section \<open>Reviews are admitted one after the other\<close>

datatype ledger_event = Reserved int | Finished int

text \<open>The successful operations of a run, as the reviews they begin and end.\<close>

fun event_of :: "ledger_op \<Rightarrow> admission \<Rightarrow> ledger_event" where
  "event_of (Reserve ordinal now) a = Reserved (the_int ordinal)"
| "event_of (Finish now cost passed) a = Finished (ad_next a - 1)"

fun ledger_events :: "ledger_op list \<Rightarrow> admission \<Rightarrow> ledger_event list" where
  "ledger_events [] a = []"
| "ledger_events (op # ops) a =
     (if fst (ledger_step op a) then [event_of op a] else [])
     @ ledger_events ops (snd (ledger_step op a))"

text \<open>The reviews \<open>0, \<dots>, n - 1\<close>, each finished before the next begins.\<close>

definition serial_events :: "nat \<Rightarrow> ledger_event list" where
  "serial_events n = concat (map (\<lambda>k. [Reserved (int k), Finished (int k)]) [0..<n])"

lemma serial_events_Suc [simp]:
  "serial_events (Suc n) = serial_events n @ [Reserved (int n), Finished (int n)]"
  by (simp add: serial_events_def)

lemma serial_events_0 [simp]: "serial_events 0 = []"
  by (simp add: serial_events_def)

lemma ledger_events_snoc:
  "ledger_events (ops @ [op]) a = ledger_events ops a
     @ (if fst (ledger_step op (run ledger_step ops a)) then [event_of op (run ledger_step ops a)] else [])"
  by (induction ops arbitrary: a) auto

text \<open>The events so far, as the state of the ledger records them.\<close>

definition recorded_events :: "admission \<Rightarrow> ledger_event list" where
  "recorded_events a = (if ad_active a = None then serial_events (nat (ad_next a))
     else serial_events (nat (ad_next a - 1)) @ [Reserved (ad_next a - 1)])"

lemma recorded_step:
  assumes "ledger_good a" and "fst (ledger_step op a)"
  shows "recorded_events (snd (ledger_step op a)) = recorded_events a @ [event_of op a]"
proof (cases op)
  case (Reserve ordinal now)
  show ?thesis
  proof (rule reserve_cases [of a ordinal now])
    fix e assume "reserve a ordinal now = (Inl e, a\<lparr>ad_failed := True\<rparr>)"
    with assms(2) Reserve show ?thesis by simp
  qed (auto simp: Reserve recorded_events_def reserve_checks_eq_Inr)
next
  case (Finish now cost passed)
  show ?thesis
  proof (rule finish_cases [of a now cost passed])
    fix e assume "finish a now cost passed = (Inl e, a\<lparr>ad_failed := True\<rparr>)"
    with assms(2) Finish show ?thesis by simp
  next
    assume ok: "finish_checks a now cost passed = Inr ()"
      and f: "finish a now cost passed = (Inr (), a\<lparr>ad_active := None, ad_last := the_int now\<rparr>)"
    from ok assms(1) obtain t where "ad_active a = Some t" "1 \<le> ad_next a"
      by (auto simp: finish_checks_eq_Inr ledger_good_def)
    moreover from this have "nat (ad_next a) = Suc (nat (ad_next a - 1))" by linarith
    ultimately show ?thesis by (simp add: Finish f recorded_events_def)
  qed
qed

lemma recorded_failure:
  assumes "\<not> fst (ledger_step op a)"
  shows "recorded_events (snd (ledger_step op a)) = recorded_events a"
  using assms by (cases op) (auto simp: reserve_def finish_def recorded_events_def split: sum.splits)

lemma ledger_run_events:
  assumes "ledger_good a" "ad_next a = 0" "ad_active a = None"
  shows "ledger_events ops a = recorded_events (run ledger_step ops a)"
proof (induction ops rule: rev_induct)
  case Nil
  then show ?case using assms by (simp add: recorded_events_def)
next
  case (snoc op ops)
  let ?s = "run ledger_step ops a"
  have "run ledger_step (ops @ [op]) a = snd (ledger_step op ?s)" by (simp add: ledger.run_append)
  with snoc.IH recorded_step [OF ledger.run_good [OF assms(1)], of op ops] recorded_failure [of op ?s]
  show ?case by (auto simp: ledger_events_snoc)
qed

lemma serial_events_prefix: "m \<le> n \<Longrightarrow> prefix (serial_events m) (serial_events n)"
proof (induction n)
  case (Suc n)
  then show ?case by (cases "m = Suc n") (auto intro: prefix_order.trans)
qed simp

lemma recorded_prefix:
  assumes "ledger_good a"
  shows "prefix (recorded_events a) (serial_events (nat (ad_count a)))"
proof (cases "ad_active a")
  case None
  with assms show ?thesis by (auto simp: recorded_events_def ledger_good_def intro: serial_events_prefix)
next
  case (Some t)
  with assms have n: "1 \<le> ad_next a" "ad_next a \<le> ad_count a" by (auto simp: ledger_good_def)
  let ?k = "nat (ad_next a - 1)"
  have "prefix (serial_events (Suc ?k)) (serial_events (nat (ad_count a)))"
    by (rule serial_events_prefix) (use n in linarith)
  moreover have "prefix (recorded_events a) (serial_events (Suc ?k))" using Some n by (simp add: recorded_events_def)
  ultimately show ?thesis by (rule prefix_order.trans [rotated])
qed

lemma ledger_step_count: "ad_count (snd (ledger_step op a)) = ad_count a"
  by (cases op) (auto simp: reserve_def finish_def split: sum.splits)

lemma ledger_step_limits: "ad_limits (snd (ledger_step op a)) = ad_limits a" "ad_started (snd (ledger_step op a)) = ad_started a"
  by (cases op; auto simp: reserve_def finish_def split: sum.splits)+

lemma ledger_run_fixed:
  "ad_count (run ledger_step ops a) = ad_count a" "ad_limits (run ledger_step ops a) = ad_limits a"
  "ad_started (run ledger_step ops a) = ad_started a"
  by (induction ops arbitrary: a) (simp_all add: ledger_step_count ledger_step_limits)

lemma admission_init_fields:
  assumes "admission_init sha manifest start = Inr a"
  shows "ad_next a = 0" "ad_active a = None" "\<not> ad_failed a" "ledger_good a"
  using admission_init_good [OF assms] assms by (auto simp: admission_init_def bindE_eq_Inr)

section \<open>What an accepted aggregate has seen\<close>

text \<open>The one review a subject needs: complete, passed, bound to manifest and payload.\<close>

definition passing_review :: "(string \<Rightarrow> string) \<Rightarrow> py \<Rightarrow> string \<Rightarrow> string \<Rightarrow> string \<Rightarrow> py \<Rightarrow> bool" where
  "passing_review sha manifest subject payload_sha coverage review \<longleftrightarrow>
     is_dict review \<and> set (keys_of review) = set review_keys \<and>
     get_or review ''manifest_sha256'' PNone = PStr (sha (canonical manifest)) \<and>
     get_or review ''subject'' PNone = PStr subject \<and>
     get_or review ''payload_sha256'' PNone = PStr payload_sha \<and>
     get_or review ''verdict'' PNone = PStr ''PASS'' \<and>
     get_or review ''findings'' PNone = PList [] \<and>
     get_or review ''semantic_coverage'' PNone = PStr coverage"

definition expected_review :: "(string \<Rightarrow> string) \<Rightarrow> py \<Rightarrow> string \<Rightarrow> string list \<Rightarrow> nat \<Rightarrow> py \<Rightarrow> bool" where
  "expected_review sha manifest payload chunks n review =
     (if n = length chunks
      then passing_review sha manifest ''integration'' (sha payload) ''complete-cross-unit'' review
      else passing_review sha manifest (''unit:'' @ dec n) (sha (chunks ! n)) ''complete-unit'' review)"

lemma validate_review_planned:
  assumes "plan sha source payload binding prompt pv limits = Inr (m, chunks)" and "n \<le> length chunks"
  shows "validate_review sha m n review = Inr u \<longleftrightarrow> expected_review sha m payload chunks n review"
proof -
  from assms(1) obtain files aj where
    "m = detach (manifest_of sha payload binding aj limits files chunks)"
    by (auto simp: plan_eq_Inr)
  note f = manifest_fields [OF this]
  show ?thesis
    using assms(2)
    by (cases "n = length chunks")
       (auto simp: validate_review_def f bindE_eq_Inr py_item_def unit_rows_sha Let_def
         expected_review_def passing_review_def)
qed

lemma forE_enumerate:
  "forE (\<lambda>(n, x). f n x) (enumerate k xs) = Inr u \<longleftrightarrow> (\<forall>i < length xs. f (k + i) (xs ! i) = Inr ())"
  by (simp add: forE_eq_Inr all_set_conv_all_nth nth_enumerate_eq)

lemma aggregate_eq_Inr:
  assumes "plan sha source payload binding prompt pv limits = Inr (m, chunks)"
  shows "aggregate sha source m cs payload binding prompt pv limits reviews a = Inr r \<longleftrightarrow>
    cs = chunks \<and> ad_manifest_sha256 a = sha (canonical m) \<and> \<not> ad_failed a \<and> ad_active a = None \<and>
    ad_next a = int (length chunks) + 1 \<and> length reviews = length chunks + 1 \<and>
    (\<forall>n \<le> length chunks. expected_review sha m payload chunks n (reviews ! n)) \<and>
    r = PDict [(''manifest_sha256'', PStr (sha (canonical m))), (''diff_sha256'', PStr (sha payload)),
               (''unit_count'', PInt (int (length chunks))), (''coverage'', PStr ''PASS'')]"
proof -
  have "(\<forall>i < length reviews. validate_review sha m (0 + i) (reviews ! i) = Inr ()) \<longleftrightarrow>
      (\<forall>n \<le> length chunks. expected_review sha m payload chunks n (reviews ! n))"
    if "length reviews = length chunks + 1"
    using that validate_review_planned [OF assms] by (auto simp: less_Suc_eq_le)
  then show ?thesis
    by (auto simp: aggregate_def bindE_eq_Inr verify_eq_Inr assms forE_enumerate)
qed

section \<open>A planned candidate can be admitted\<close>

lemma is_type_detach [simp]:
  "is_list (detach v) = is_list v" "is_dict (detach v) = is_dict v" "is_str (detach v) = is_str v"
  "is_int (detach v) = is_int v" "the_str (detach v) = the_str v" "the_list (detach v) = map detach (the_list v)"
  by (cases v; simp add: detach_list_map)+

lemma keys_of_detach [simp]: "set (keys_of (detach v)) = set (keys_of v)"
proof (cases v)
  case (PDict kvs)
  have "fst ` set (detach_items kvs) = fst ` set kvs" by (metis fst_detach_items set_map)
  with PDict show ?thesis by simp
qed simp_all

lemma foldE_map: "foldE f s (map g xs) = foldE (\<lambda>s x. f s (g x)) s xs"
  by (induction xs arbitrary: s) simp_all

lemma policy_path_detach [simp]: "policy_path seen (detach p) = policy_path seen p"
  by (simp add: policy_path_def)

lemma policy_group_detach [simp]: "policy_group seen (detach g) = policy_group seen g"
  by (simp add: policy_group_def foldE_map)

text \<open>A policy is judged by its canonical text: a detached copy is accepted as well.\<close>

lemma validate_policy_detach [simp]: "validate_policy sha (detach limits) = validate_policy sha limits"
  by (simp add: validate_policy_def Let_def get_or_detach keys_check_def integer_check_def foldE_map)

lemma limit_of_detach [simp]: "limit_of (detach limits) name = limit_of limits name"
  by (simp add: limit_of_def get_or_detach)

lemma detach_twice [simp]: "limit_of (detach (detach limits)) name = limit_of limits name"
  by simp

lemma planned_admission:
  assumes "plan sha source payload binding prompt pv limits = Inr (m, chunks)" and "0 \<le> t" "t \<le> CLOCK_MAX"
  shows "admission_init sha m (PInt t) = Inr \<lparr>ad_manifest_sha256 = sha (canonical m), ad_limits = detach (detach limits),
    ad_count = int (length chunks) + 1, ad_started = t, ad_last = t, ad_next = 0, ad_reserved_cost = 0,
    ad_active = None, ad_failed = False\<rparr>"
proof -
  from assms(1) obtain files aj where m: "m = detach (manifest_of sha payload binding aj limits files chunks)"
    and v: "validate_policy sha limits = Inr ()" and c: "plan_chunks payload limits = Inr (files, chunks)"
    by (auto simp: plan_eq_Inr)
  note f = manifest_fields [OF m]
  have p: "bindE (py_index m ''policy'') (\<lambda>p. py_index p ''value'') = Inr (detach limits)"
    by (simp add: f py_index_detach del: detach.simps(2))
  from c obtain boundaries merged where
    q: "partition_units payload boundaries (nat (limit_of limits ''max_units'')) merged = Inr chunks"
    by (rule plan_chunks_partition)
  have n: "length chunks \<le> nat (limit_of limits ''max_units'')" and pl: "concat chunks = payload"
    using partition_units_sound [OF q] by blast+
  have "payload \<noteq> []" using q by (auto simp: partition_units_def bindE_eq_Inr)
  with pl have "1 \<le> length chunks" by (cases chunks) auto
  with n have u: "integer_check (PInt (int (length chunks) + 1)) 2 (limit_of limits ''max_units'' + 1) ''unit-count-budget'' = Inr ()"
    by (auto simp: integer_check_def)
  from u show ?thesis
    using assms(2,3) by (simp add: admission_init_def p v f(1) integer_check_def)
qed

text \<open>
  The slowest and dearest serial schedule a policy allows: each review takes all of its time and all of its cost.
\<close>

definition worst_schedule :: "admission \<Rightarrow> nat \<Rightarrow> ledger_op list" where
  "worst_schedule a n = concat (map (\<lambda>k.
     [Reserve (PInt (int k)) (PInt (ad_started a + int k * per_seconds a)),
      Finish (PInt (ad_started a + (int k + 1) * per_seconds a)) (PInt (per_cost a)) (PBool True)]) [0..<n])"

lemma worst_schedule_Suc:
  "worst_schedule a (Suc n) = worst_schedule a n @
     [Reserve (PInt (int n)) (PInt (ad_started a + int n * per_seconds a)),
      Finish (PInt (ad_started a + (int n + 1) * per_seconds a)) (PInt (per_cost a)) (PBool True)]"
  by (simp add: worst_schedule_def)

lemma worst_schedule_run:
  assumes good: "ledger_good a" "\<not> ad_failed a" "ad_next a = 0" "ad_active a = None" "ad_last a = ad_started a"
    and time: "ad_count a * per_seconds a \<le> max_seconds a" and cost: "ad_count a * per_cost a \<le> max_cost a"
    and clock: "0 \<le> ad_started a" "ad_started a + max_seconds a \<le> CLOCK_MAX"
  shows "int n \<le> ad_count a \<Longrightarrow> run ledger_step (worst_schedule a n) a =
    a\<lparr>ad_next := int n, ad_reserved_cost := int n * per_cost a, ad_last := ad_started a + int n * per_seconds a\<rparr>"
proof (induction n)
  case 0
  have "ad_reserved_cost a = 0" using good(1,3) by (simp add: ledger_good_def)
  with good show ?case by (simp add: worst_schedule_def)
next
  case (Suc n)
  from good(1) have p: "1 \<le> per_cost a" "1 \<le> per_seconds a" by (auto simp: ledger_good_def)
  from Suc.prems p have "(int n + 1) * per_seconds a \<le> ad_count a * per_seconds a"
    "(int n + 1) * per_cost a \<le> ad_count a * per_cost a" by (auto intro!: mult_right_mono)
  with time cost have l: "(int n + 1) * per_seconds a \<le> max_seconds a" "(int n + 1) * per_cost a \<le> max_cost a" by auto
  have pos: "0 \<le> int n * per_seconds a" using p by simp
  let ?s = "a\<lparr>ad_next := int n, ad_reserved_cost := int n * per_cost a, ad_last := ad_started a + int n * per_seconds a\<rparr>"
  have r: "reserve ?s (PInt (int n)) (PInt (ad_started a + int n * per_seconds a)) = (Inr (),
      ?s\<lparr>ad_reserved_cost := (int n + 1) * per_cost a, ad_active := Some (ad_started a + int n * per_seconds a),
         ad_next := int n + 1\<rparr>)"
    using Suc.prems good l clock pos p
    by (simp add: reserve_def reserve_checks_def integer_check_def algebra_simps)
  have f: "finish (?s\<lparr>ad_reserved_cost := (int n + 1) * per_cost a, ad_active := Some (ad_started a + int n * per_seconds a),
         ad_next := int n + 1\<rparr>) (PInt (ad_started a + (int n + 1) * per_seconds a)) (PInt (per_cost a)) (PBool True)
      = (Inr (), a\<lparr>ad_next := int n + 1, ad_reserved_cost := (int n + 1) * per_cost a,
           ad_last := ad_started a + (int n + 1) * per_seconds a\<rparr>)"
    using good l clock pos p
    by (simp add: finish_def finish_checks_def integer_check_def algebra_simps)
  have "snd (ledger_step (Finish (PInt (ad_started a + (int n + 1) * per_seconds a)) (PInt (per_cost a)) (PBool True))
      (snd (ledger_step (Reserve (PInt (int n)) (PInt (ad_started a + int n * per_seconds a))) ?s)))
      = a\<lparr>ad_next := int n + 1, ad_reserved_cost := (int n + 1) * per_cost a,
           ad_last := ad_started a + (int n + 1) * per_seconds a\<rparr>"
    by (simp only: ledger_step.simps snd_conv r f)
  moreover have "run ledger_step (worst_schedule a n) a = ?s" using Suc by simp
  moreover have "int (Suc n) = int n + 1" by simp
  ultimately show ?case
    by (simp only: worst_schedule_Suc ledger.run_append run.simps)
qed

section \<open>Properties\<close>

text \<open>
  C18: for a planned manifest, \<open>aggregate\<close> accepts exactly the planned units, a ledger that has
  admitted and finished every review of this manifest without failure, and one complete
  passing review per unit plus one for the integration, in order, each bound to the
  manifest, its subject and its payload.
\<close>

theorem aggregate_exact:
  assumes "plan sha source payload binding prompt pv limits = Inr (m, chunks)"
  shows "aggregate sha source m cs payload binding prompt pv limits reviews a = Inr r \<longleftrightarrow>
    cs = chunks \<and> ad_manifest_sha256 a = sha (canonical m) \<and> \<not> ad_failed a \<and> ad_active a = None \<and>
    ad_next a = int (length chunks) + 1 \<and> length reviews = length chunks + 1 \<and>
    (\<forall>n \<le> length chunks. expected_review sha m payload chunks n (reviews ! n)) \<and>
    r = PDict [(''manifest_sha256'', PStr (sha (canonical m))), (''diff_sha256'', PStr (sha payload)),
               (''unit_count'', PInt (int (length chunks))), (''coverage'', PStr ''PASS'')]"
  using assms by (rule aggregate_eq_Inr)

text \<open>
  C19: whatever calls are made on a fresh ledger, in whatever order and with whatever
  arguments, the reviews it has admitted and finished are a prefix of the strictly serial
  sequence: review 0 begins, review 0 ends, review 1 begins, and so on, none twice.
\<close>

theorem ledger_serial:
  assumes "admission_init sha manifest start = Inr a"
  shows "prefix (ledger_events ops a) (serial_events (nat (ad_count a)))"
  using recorded_prefix [OF ledger.run_good [OF admission_init_fields(4) [OF assms]], of ops]
    ledger_run_events [OF admission_init_fields(4,1,2) [OF assms], of ops]
  by (simp add: ledger_run_fixed)

text \<open>
  C27: whatever calls are made on a fresh ledger, the cost it has reserved is the number of
  admitted reviews times the price of one, within the total budget, and the last accepted
  instant is within the total time.
\<close>

theorem ledger_within_budgets:
  fixes ops :: "ledger_op list"
  assumes "admission_init sha manifest start = Inr a"
  defines "s \<equiv> run ledger_step ops a"
  shows "ad_reserved_cost s = ad_next s * per_cost a \<and> ad_reserved_cost s \<le> max_cost a \<and>
    0 \<le> ad_next s \<and> ad_next s \<le> ad_count a \<and> ad_started a \<le> ad_last s \<and> ad_last s \<le> ad_started a + max_seconds a"
  using ledger.run_good [OF admission_init_fields(4) [OF assms(1)], of ops]
  by (simp add: ledger_good_def s_def ledger_run_fixed)

text \<open>after the first failing call no call succeeds and the ledger never changes again.\<close>

lemma ledger_fail_stop:
  assumes "\<not> fst (ledger_step op a)"
  shows "run ledger_step (op # ops) a = snd (ledger_step op a) \<and> ledger_events (op # ops) a = []"
proof
  show "run ledger_step (op # ops) a = snd (ledger_step op a)" using assms by (rule ledger.run_after_failure)
  have "ad_failed s \<Longrightarrow> ledger_events ops s = []" for s
  proof (induction ops)
    case (Cons o1 ops)
    have "\<not> fst (ledger_step o1 s)" using Cons.prems
      by (cases o1) (auto simp: is_ok_iff reserve_def finish_def reserve_checks_eq_Inr finish_checks_eq_Inr split: sum.splits)
    with Cons ledger.step_marked [of s o1] show ?case by simp
  qed simp
  with ledger.step_failure [OF assms] assms show "ledger_events (op # ops) a = []" by simp
qed

text \<open>
  C20: planning is enough: the ledger of a planned manifest opens, and even the slowest and
  dearest serial schedule that the policy allows one review at a time completes every
  review of the plan without failure.
\<close>

theorem planned_reviews_complete:
  assumes p: "plan sha source payload binding prompt pv limits = Inr (m, chunks)"
    and t: "0 \<le> t" "t + limit_of limits ''max_review_seconds'' \<le> CLOCK_MAX"
  shows "\<exists>a. admission_init sha m (PInt t) = Inr a \<and>
    (let s = run ledger_step (worst_schedule a (length chunks + 1)) a in
       \<not> ad_failed s \<and> ad_active s = None \<and> ad_next s = int (length chunks) + 1 \<and>
       ad_manifest_sha256 s = sha (canonical m))"
proof -
  have v: "validate_policy sha limits = Inr ()" using p by (simp add: plan_eq_Inr)
  have "1 \<le> limit_of limits ''max_review_seconds''"
    by (rule validate_policy_budget [OF v]) (simp add: budget_limits_def)
  with t have "t \<le> CLOCK_MAX" by simp
  from planned_admission [OF p t(1) this] obtain a where i: "admission_init sha m (PInt t) = Inr a"
    and a: "a = \<lparr>ad_manifest_sha256 = sha (canonical m), ad_limits = detach (detach limits),
      ad_count = int (length chunks) + 1, ad_started = t, ad_last = t, ad_next = 0, ad_reserved_cost = 0,
      ad_active = None, ad_failed = False\<rparr>" by blast
  have "run ledger_step (worst_schedule a (length chunks + 1)) a =
      a\<lparr>ad_next := int (length chunks + 1), ad_reserved_cost := int (length chunks + 1) * per_cost a,
        ad_last := ad_started a + int (length chunks + 1) * per_seconds a\<rparr>"
    by (rule worst_schedule_run [OF admission_init_fields(4,3,1,2) [OF i]])
       (use p t in \<open>auto simp: a plan_eq_Inr\<close>)
  with i show ?thesis by (intro exI [of _ a]) (simp add: Let_def, simp add: a)
qed

text \<open>The sample plan with its ledger, and the reviews that complete it.\<close>

definition sample_reviews :: "py \<Rightarrow> py list" where
  "sample_reviews m = map (\<lambda>(subject, coverage). PDict
     [(''manifest_sha256'', PStr (sample_sha (canonical m))), (''subject'', PStr subject),
      (''payload_sha256'', PStr (sample_sha sample_diff)), (''verdict'', PStr ''PASS''), (''findings'', PList []),
      (''semantic_coverage'', PStr coverage)])
     [(''unit:0'', ''complete-unit''), (''integration'', ''complete-cross-unit'')]"

lemma dec_0: "dec 0 = ''0''"
proof -
  have "char_of (48 :: nat) = CHR ''0''" by code_simp
  then show ?thesis by (subst dec.simps) (simp add: digit_char_def)
qed

lemma sample_reviews_expected:
  assumes "n \<le> length [sample_diff]"
  shows "expected_review sample_sha m sample_diff [sample_diff] n (sample_reviews m ! n)"
proof -
  from assms have "n = 0 \<or> n = 1" by auto
  then show ?thesis
    by (auto simp: expected_review_def passing_review_def sample_reviews_def review_keys_def get_or_def
        dec_0)
qed

definition sample_ledger :: "py \<Rightarrow> admission" where
  "sample_ledger m = \<lparr>ad_manifest_sha256 = sample_sha (canonical m), ad_limits = detach (detach (policy sample_sha)),
     ad_count = 2, ad_started = 5, ad_last = 5, ad_next = 0, ad_reserved_cost = 0, ad_active = None, ad_failed = False\<rparr>"

lemma sample_ledger_init:
  assumes "plan sample_sha ''src'' sample_diff sample_binding ''p'' (PStr ''v'') (policy sample_sha) = Inr (m, [sample_diff])"
  shows "admission_init sample_sha m (PInt 5) = Inr (sample_ledger m)"
  using planned_admission [OF assms, of 5] by (simp add: CLOCK_MAX_def sample_ledger_def)

theorem aggregate_exact_witness:
  "\<exists>m a. is_ok (aggregate sample_sha ''src'' m [sample_diff] sample_diff sample_binding ''p'' (PStr ''v'')
     (policy sample_sha) (sample_reviews m) a)"
proof -
  from sample_plan obtain m where
    p: "plan sample_sha ''src'' sample_diff sample_binding ''p'' (PStr ''v'') (policy sample_sha) = Inr (m, [sample_diff])" ..
  have "length (sample_reviews m) = length [sample_diff] + 1" by (simp add: sample_reviews_def)
  with aggregate_exact [OF p, of "[sample_diff]" "sample_reviews m" "(sample_ledger m)\<lparr>ad_next := 2\<rparr>"]
    sample_reviews_expected
  show ?thesis unfolding is_ok_iff by (auto simp: sample_ledger_def)
qed

text \<open>Three calls on the sample ledger: review 0 begins, review 1 is refused, review 0 cannot end any more.\<close>

definition sample_calls :: "ledger_op list" where
  "sample_calls = [Reserve (PInt 0) (PInt 6), Reserve (PInt 1) (PInt 7), Finish (PInt 8) (PInt 1) (PBool True)]"

theorem ledger_serial_witness:
  "\<exists>m a. admission_init sample_sha m (PInt 5) = Inr a \<and> prefix (ledger_events sample_calls a) (serial_events 2)"
proof -
  from sample_plan obtain m where i: "admission_init sample_sha m (PInt 5) = Inr (sample_ledger m)"
    using sample_ledger_init by blast
  from ledger_serial [OF this, of sample_calls] i show ?thesis by (auto simp: sample_ledger_def)
qed

theorem ledger_within_budgets_witness:
  "\<exists>m a. admission_init sample_sha m (PInt 5) = Inr a \<and> ad_reserved_cost (run ledger_step sample_calls a) \<le> max_cost a"
proof -
  from sample_plan obtain m where i: "admission_init sample_sha m (PInt 5) = Inr (sample_ledger m)"
    using sample_ledger_init by blast
  from ledger_within_budgets [OF this, of sample_calls] i show ?thesis by blast
qed

lemma ledger_fail_stop_witness:
  "ledger_events (Reserve (PInt 1) (PInt 6) # sample_calls) (sample_ledger PNone) = []"
proof -
  have "\<not> fst (ledger_step (Reserve (PInt 1) (PInt 6)) (sample_ledger PNone))"
    by (simp add: reserve_def reserve_checks_def integer_check_def sample_ledger_def CLOCK_MAX_def)
  from ledger_fail_stop [OF this, of sample_calls] show ?thesis by blast
qed

theorem planned_reviews_complete_witness:
  "\<exists>m a. admission_init sample_sha m (PInt 5) = Inr a \<and> ad_next (run ledger_step (worst_schedule a 2) a) = 2"
proof -
  from sample_plan obtain m where
    p: "plan sample_sha ''src'' sample_diff sample_binding ''p'' (PStr ''v'') (policy sample_sha) = Inr (m, [sample_diff])" ..
  have "(0 :: int) \<le> 5" "5 + limit_of (policy sample_sha) ''max_review_seconds'' \<le> CLOCK_MAX"
    by (simp_all add: policy_limits CLOCK_MAX_def)
  from planned_reviews_complete [OF p this] show ?thesis by (auto simp: Let_def numeral_2_eq_2)
qed

end
