(* ===== verification/Response_Budget.thy ===== *)
theory Response_Budget
  imports Admission
begin

text \<open>
  The per-review spending gate in front of the model provider
  (\<open>scripts/bounded_review_provider.py\<close>): the provider profile, the price of a request and
  the class \<open>ResponseBudget\<close>, which forwards a request only after its worst case has been
  reserved. As in \<open>Admission\<close>, a method returns its exception together with the object it
  leaves. The exceptions the methods catch and re-raise are all those the model has here:
  a profile that was validated has every field the methods read.
\<close>

section \<open>The provider profile and the price of a request\<close>

definition PROFILE_KEYS :: "string list" where
  "PROFILE_KEYS = [''version'', ''model'', ''context_tokens'', ''max_input_tokens'', ''max_output_tokens'',
     ''input_microusd_per_million_tokens'', ''output_microusd_per_million_tokens'',
     ''capacity_evidence_sha256'', ''pricing_evidence_sha256'']"

definition REQUEST_KEYS :: "string list" where
  "REQUEST_KEYS = [''model'', ''input'', ''instructions'', ''tools'', ''tool_choice'', ''parallel_tool_calls'',
     ''max_output_tokens'', ''reasoning'', ''text'', ''temperature'', ''top_p'', ''stream'', ''stream_options'',
     ''store'', ''background'', ''truncation'', ''service_tier'', ''previous_response_id'', ''conversation'',
     ''include'', ''metadata'', ''prompt_cache_key'', ''safety_identifier'', ''client_metadata'']"

text \<open>The integer fields of a profile.\<close>

abbreviation prof_int :: "py \<Rightarrow> string \<Rightarrow> int" where
  "prof_int profile name \<equiv> the_int (get_or profile name PNone)"

definition validate_profile :: "py \<Rightarrow> exn + unit" where
  "validate_profile profile =
     bindE (keys_check profile PROFILE_KEYS ''provider-profile-shape'') (\<lambda>_.
     let field = (\<lambda>name. get_or profile name PNone) in
     bindE (checks
       [(py_eq (field ''version'') (PStr ''responses-budget/v2''), ReviewError ''provider-profile-version''),
        (is_str (field ''model'') \<and> 0 < str_len (the_str (field ''model''))
           \<and> str_len (the_str (field ''model'')) \<le> 128, ReviewError ''provider-model'')]) (\<lambda>_.
     bindE (integer_check (field ''context_tokens'') 1 10000000 ''provider-context'') (\<lambda>_.
     bindE (integer_check (field ''max_input_tokens'') 1 (prof_int profile ''context_tokens'') ''provider-input-bound'') (\<lambda>_.
     bindE (integer_check (field ''max_output_tokens'') 1 (prof_int profile ''context_tokens'') ''provider-output-bound'') (\<lambda>_.
     bindE (forE (\<lambda>name. integer_check (field name) 1 1000000000 ''provider-price'')
              [''input_microusd_per_million_tokens'', ''output_microusd_per_million_tokens'']) (\<lambda>_.
     forE (\<lambda>name. requireE (is_str (field name) \<and> hex_id 64 (the_str (field name)))
              (ReviewError ''provider-evidence''))
          [''capacity_evidence_sha256'', ''pricing_evidence_sha256'']))))))"

text \<open>Rounded up once, every input token at the uncached rate.\<close>

definition cost :: "py \<Rightarrow> int \<Rightarrow> int \<Rightarrow> int" where
  "cost profile input_tokens output_tokens =
     (input_tokens * prof_int profile ''input_microusd_per_million_tokens''
      + output_tokens * prof_int profile ''output_microusd_per_million_tokens'' + 999999) div 1000000"

section \<open>The budget\<close>

record budget =
  rb_profile :: py
  rb_limit :: int
  rb_deadline :: int
  rb_last :: int
  rb_byte_limit :: int
  rb_max_requests :: int
  rb_requests :: "string set"
  rb_responses :: "string set"
  rb_charged :: int
  rb_active :: "(string \<times> int \<times> int) option"
  rb_failed :: bool
  rb_admitted :: "string option"

definition budget_init :: "py \<Rightarrow> py \<Rightarrow> py \<Rightarrow> py \<Rightarrow> py \<Rightarrow> py \<Rightarrow> exn + budget" where
  "budget_init profile cost_budget start_ms timeout_ms max_requests byte_limit =
     bindE (validate_profile profile) (\<lambda>_.
     bindE (integer_check cost_budget 1 1000000 ''provider-cost-budget'') (\<lambda>_.
     bindE (integer_check start_ms 0 CLOCK_MAX ''provider-clock'') (\<lambda>_.
     bindE (integer_check timeout_ms 1 100000 ''provider-time-budget'') (\<lambda>_.
     bindE (integer_check max_requests 1 16 ''provider-request-budget'') (\<lambda>_.
     bindE (integer_check byte_limit 1 CLOCK_MAX ''provider-resource-bound'') (\<lambda>_.
     Inr \<lparr>rb_profile = detach profile, rb_limit = the_int cost_budget,
          rb_deadline = the_int start_ms + the_int timeout_ms, rb_last = the_int start_ms,
          rb_byte_limit = the_int byte_limit, rb_max_requests = the_int max_requests,
          rb_requests = {}, rb_responses = {}, rb_charged = 0, rb_active = None,
          rb_failed = False, rb_admitted = None\<rparr>))))))"

text \<open>\<open>_clock\<close> updates the object before the checks that follow it.\<close>

definition clock_check :: "budget \<Rightarrow> py \<Rightarrow> exn + budget" where
  "clock_check b now_ms =
     bindE (integer_check now_ms (rb_last b) CLOCK_MAX ''provider-clock'') (\<lambda>_.
     bindE (requireE (the_int now_ms < rb_deadline b) (ReviewError ''provider-timeout'')) (\<lambda>_.
     Inr (b\<lparr>rb_last := the_int now_ms\<rparr>)))"

definition fail_closed :: "budget \<Rightarrow> exn + 'a \<times> budget \<Rightarrow> (exn + 'a) \<times> budget" where
  "fail_closed b r = (case r of Inl e \<Rightarrow> (Inl e, b\<lparr>rb_failed := True\<rparr>) | Inr (x, b') \<Rightarrow> (Inr x, b'))"

text \<open>\<open>try\<close>: first the state check and the clock, then the rest on the object they leave.\<close>

definition guarded :: "budget \<Rightarrow> bool \<Rightarrow> py \<Rightarrow> (budget \<Rightarrow> exn + 'a \<times> budget) \<Rightarrow> (exn + 'a) \<times> budget" where
  "guarded b ready now_ms body =
     (case bindE (requireE ready (ReviewError ''provider-active-or-terminal'')) (\<lambda>_. clock_check b now_ms) of
        Inl e \<Rightarrow> (Inl e, b\<lparr>rb_failed := True\<rparr>)
      | Inr b' \<Rightarrow> fail_closed b' (body b'))"

text \<open>\<open>_tools\<close>: namespaces may nest twice.\<close>

function tools_check :: "nat \<Rightarrow> py \<Rightarrow> exn + unit" where
  "tools_check depth tools =
     bindE (requireE (is_list tools \<and> length (the_list tools) \<le> 64 \<and> depth \<le> 2)
              (ReviewError ''provider-tools'')) (\<lambda>_.
     forE (\<lambda>tool.
        bindE (requireE (is_dict tool) (ReviewError ''provider-tools'')) (\<lambda>_.
        let kind = get_or tool ''type'' PNone in
        if py_eq kind (PStr ''namespace'') then tools_check (Suc depth) (get_or tool ''tools'' PNone)
        else requireE (py_eq kind (PStr ''function'') \<or> py_eq kind (PStr ''custom''))
               (ReviewError ''provider-hosted-tool'')))
       (the_list tools))"
  by pat_completeness auto
termination by (relation "measure (\<lambda>(depth, tools). 3 - depth)") (auto simp: requireE_def split: if_splits)

declare tools_check.simps [simp del]

text \<open>\<open>_text_input\<close>\<close>

definition part_check :: "py \<Rightarrow> exn + unit" where
  "part_check part =
     requireE (is_dict part
         \<and> (py_eq (get_or part ''type'' PNone) (PStr ''input_text'')
            \<or> py_eq (get_or part ''type'' PNone) (PStr ''output_text''))
         \<and> is_str (get_or part ''text'' PNone))
       (ReviewError ''provider-nontext-input'')"

definition item_check :: "py \<Rightarrow> exn + unit" where
  "item_check item =
     bindE (requireE (is_dict item) (ReviewError ''provider-input'')) (\<lambda>_.
     let kind = get_or item ''type'' (PStr ''message'') in
     if py_eq kind (PStr ''message'') then
       (let content = get_or item ''content'' PNone in
        if is_str content then Inr ()
        else bindE (requireE (is_list content \<and> length (the_list content) \<le> 1024)
                     (ReviewError ''provider-input'')) (\<lambda>_.
             forE part_check (the_list content)))
     else
       bindE (requireE (kind \<in> PStr ` {''reasoning'', ''function_call'', ''function_call_output'',
                ''custom_tool_call'', ''custom_tool_call_output''})
              (ReviewError ''provider-unbound-input'')) (\<lambda>_.
       if suffix ''_output'' (the_str kind)
       then requireE (is_str (get_or item ''output'' PNone)) (ReviewError ''provider-nontext-input'')
       else Inr ()))"

definition text_input_check :: "py \<Rightarrow> exn + unit" where
  "text_input_check value =
     (if is_str value then Inr ()
      else bindE (requireE (is_list value \<and> length (the_list value) \<le> 1024) (ReviewError ''provider-input'')) (\<lambda>_.
           forE item_check (the_list value)))"

definition metadata_check :: "(string \<times> py) list \<Rightarrow> exn + unit" where
  "metadata_check kvs = (case map_of kvs ''client_metadata'' of
     None \<Rightarrow> Inr ()
   | Some m \<Rightarrow> requireE (is_dict m \<and> length (the_items m) \<le> 64 \<and> list_all (\<lambda>(k, v). is_str v) (the_items m)
         \<and> length (canonical m) \<le> 16384) (ReviewError ''provider-client-metadata''))"

text \<open>The request that is forwarded: telemetry stripped, the bounded fields set.\<close>

definition bounded_request :: "py \<Rightarrow> py \<Rightarrow> exn + py" where
  "bounded_request request output_cap =
     (let items = the_items (detach request) in
      bindE (metadata_check items) (\<lambda>_.
      Inr (PDict (dict_update (dict_pop ''client_metadata'' items)
        [(''max_output_tokens'', output_cap), (''store'', PBool False), (''background'', PBool False),
         (''truncation'', PStr ''disabled''), (''service_tier'', PStr ''default'')]))))"

text \<open>The checks on the request itself; the result is its output cap.\<close>

definition request_checks :: "budget \<Rightarrow> py \<Rightarrow> exn + py" where
  "request_checks b request =
     (let field = (\<lambda>name dflt. get_or request name dflt) in
      bindE (checks
        [(is_dict request \<and> int (length (canonical request)) \<le> rb_byte_limit b, ReviewError ''provider-request-size''),
         (set (keys_of request) \<subseteq> set REQUEST_KEYS, ReviewError ''provider-request-feature''),
         (py_eq (field ''model'' PNone) (get_or (rb_profile b) ''model'' PNone), ReviewError ''provider-model-drift''),
         (field ''service_tier'' (PStr ''default'') = PNone
            \<or> py_eq (field ''service_tier'' (PStr ''default'')) (PStr ''default''), ReviewError ''provider-service-tier''),
         (field ''background'' (PBool False) = PBool False, ReviewError ''provider-background''),
         (field ''store'' (PBool False) = PBool False, ReviewError ''provider-storage''),
         (py_eq (field ''truncation'' (PStr ''disabled'')) (PStr ''disabled''), ReviewError ''provider-truncation''),
         (field ''previous_response_id'' PNone = PNone \<and> field ''conversation'' PNone = PNone,
            ReviewError ''provider-unbound-state''),
         (is_bool (field ''stream'' (PBool False)), ReviewError ''provider-stream''),
         (field ''instructions'' PNone = PNone \<or> is_str (field ''instructions'' PNone),
            ReviewError ''provider-instructions'')]) (\<lambda>_.
      bindE (tools_check 0 (field ''tools'' (PList []))) (\<lambda>_.
      bindE (text_input_check (field ''input'' PNone)) (\<lambda>_.
      let cap = field ''max_output_tokens'' (get_or (rb_profile b) ''max_output_tokens'' PNone) in
      bindE (integer_check cap 1 (prof_int (rb_profile b) ''max_output_tokens'') ''provider-output-bound'') (\<lambda>_.
      Inr cap)))))"

definition reserve_body :: "(string \<Rightarrow> string) \<Rightarrow> py \<Rightarrow> budget \<Rightarrow> exn + (string \<times> py) \<times> budget" where
  "reserve_body sha request b =
      (bindE (request_checks b request) (\<lambda>cap.
       bindE (bounded_request request cap) (\<lambda>bounded.
       let digest = sha (canonical bounded);
           reserved = cost (rb_profile b) (prof_int (rb_profile b) ''context_tokens'') (the_int cap) in
       bindE (checks
         [(int (length (canonical bounded)) \<le> rb_byte_limit b, ReviewError ''provider-request-size''),
          (digest \<notin> rb_requests b, ReviewError ''provider-request-replay''),
          (int (card (rb_requests b)) < rb_max_requests b, ReviewError ''provider-request-budget''),
          (rb_charged b + reserved \<le> rb_limit b, ReviewError ''provider-cost-admission'')]) (\<lambda>_.
       Inr ((digest, bounded),
            b\<lparr>rb_charged := rb_charged b + reserved, rb_requests := insert digest (rb_requests b),
              rb_active := Some (digest, reserved, the_int cap)\<rparr>)))))"

definition reserve_response ::
  "(string \<Rightarrow> string) \<Rightarrow> budget \<Rightarrow> py \<Rightarrow> py \<Rightarrow> (exn + string \<times> py) \<times> budget" where
  "reserve_response sha b request now_ms =
     guarded b (\<not> rb_failed b \<and> rb_active b = None) now_ms (reserve_body sha request)"

definition admit_body :: "(string \<Rightarrow> string) \<Rightarrow> string \<Rightarrow> py \<Rightarrow> py \<Rightarrow> budget \<Rightarrow> exn + unit \<times> budget" where
  "admit_body sha digest request count b =
      (let (expected, _, output_cap) = the (rb_active b);
           tokens = get_or count ''input_tokens'' PNone in
       bindE (requireE (digest = expected \<and> expected = sha (canonical request))
                (ReviewError ''provider-substituted-count'')) (\<lambda>_.
       bindE (keys_check count [''object'', ''input_tokens''] ''provider-token-count-shape'') (\<lambda>_.
       bindE (requireE (py_eq (get_or count ''object'' PNone) (PStr ''response.input_tokens''))
                (ReviewError ''provider-token-count-object'')) (\<lambda>_.
       bindE (integer_check tokens 0 (prof_int (rb_profile b) ''max_input_tokens'') ''provider-input-admission'') (\<lambda>_.
       bindE (requireE (the_int tokens + output_cap \<le> prof_int (rb_profile b) ''context_tokens'')
                (ReviewError ''provider-context-admission'')) (\<lambda>_.
       Inr ((), b\<lparr>rb_admitted := Some digest\<rparr>)))))))"

definition admit_tokens ::
  "(string \<Rightarrow> string) \<Rightarrow> budget \<Rightarrow> string \<Rightarrow> py \<Rightarrow> py \<Rightarrow> py \<Rightarrow> (exn + unit) \<times> budget" where
  "admit_tokens sha b digest request count now_ms =
     guarded b (\<not> rb_failed b \<and> rb_active b \<noteq> None \<and> rb_admitted b = None) now_ms
       (admit_body sha digest request count)"

definition complete_body :: "string \<Rightarrow> py \<Rightarrow> budget \<Rightarrow> exn + int \<times> budget" where
  "complete_body digest response b =
      (let (expected, reserved, output_cap) = the (rb_active b);
           field = (\<lambda>name dflt. get_or response name dflt);
           identity = field ''id'' PNone; usage = field ''usage'' PNone;
           input_tokens = get_or usage ''input_tokens'' PNone; output_tokens = get_or usage ''output_tokens'' PNone;
           total = get_or usage ''total_tokens'' PNone; context_tokens = prof_int (rb_profile b) ''context_tokens'' in
       bindE (checks
         [(rb_admitted b = Some expected, ReviewError ''provider-token-count-required''),
          (digest = expected, ReviewError ''provider-substituted-response''),
          (is_dict response \<and> py_eq (field ''status'' PNone) (PStr ''completed''), ReviewError ''provider-incomplete''),
          (field ''error'' PNone = PNone \<and> field ''incomplete_details'' PNone = PNone, ReviewError ''provider-incomplete''),
          (py_eq (field ''model'' PNone) (get_or (rb_profile b) ''model'' PNone), ReviewError ''provider-model-drift''),
          (py_eq (field ''service_tier'' (PStr ''default'')) (PStr ''default''), ReviewError ''provider-service-tier''),
          (is_str identity \<and> 0 < str_len (the_str identity) \<and> str_len (the_str identity) \<le> 256
             \<and> the_str identity \<notin> rb_responses b, ReviewError ''provider-response-replay''),
          (is_dict usage, ReviewError ''provider-missing-usage'')]) (\<lambda>_.
       bindE (integer_check input_tokens 0 (prof_int (rb_profile b) ''max_input_tokens'') ''provider-input-overrun'') (\<lambda>_.
       bindE (requireE (the_int input_tokens + output_cap \<le> context_tokens) (ReviewError ''provider-context-overrun'')) (\<lambda>_.
       bindE (integer_check output_tokens 0 output_cap ''provider-output-overrun'') (\<lambda>_.
       bindE (integer_check total 0 (context_tokens + output_cap) ''provider-usage'') (\<lambda>_.
       bindE (requireE (the_int total = the_int input_tokens + the_int output_tokens) (ReviewError ''provider-usage'')) (\<lambda>_.
       let actual = cost (rb_profile b) (the_int input_tokens) (the_int output_tokens) in
       bindE (requireE (actual \<le> reserved) (ReviewError ''provider-cost-overrun'')) (\<lambda>_.
       Inr (actual, b\<lparr>rb_charged := rb_charged b - (reserved - actual),
                      rb_responses := insert (the_str identity) (rb_responses b),
                      rb_active := None, rb_admitted := None\<rparr>)))))))))"

definition complete_response ::
  "budget \<Rightarrow> string \<Rightarrow> py \<Rightarrow> py \<Rightarrow> (exn + int) \<times> budget" where
  "complete_response b digest response now_ms =
     guarded b (\<not> rb_failed b \<and> rb_active b \<noteq> None) now_ms (complete_body digest response)"

definition abandon :: "budget \<Rightarrow> budget" where
  "abandon b = b\<lparr>rb_failed := True\<rparr>"

lemmas [run_simps] = PROFILE_KEYS_def REQUEST_KEYS_def validate_profile_def cost_def budget_init_def clock_check_def
  fail_closed_def guarded_def tools_check.simps part_check_def item_check_def text_input_check_def
  metadata_check_def bounded_request_def request_checks_def reserve_body_def reserve_response_def
  admit_body_def admit_tokens_def complete_body_def complete_response_def abandon_def CLOCK_MAX_def

section \<open>What the price guarantees\<close>

text \<open>The price is the least number of microdollars that covers the exact price.\<close>

lemma cost_ceiling:
  fixes profile :: py and i j :: int
  defines "n \<equiv> i * prof_int profile ''input_microusd_per_million_tokens''
     + j * prof_int profile ''output_microusd_per_million_tokens''"
  shows "n \<le> 1000000 * cost profile i j" and "1000000 * cost profile i j < n + 1000000"
  unfolding cost_def n_def [symmetric] by linarith+

definition profile_ok :: "py \<Rightarrow> bool" where
  "profile_ok p \<longleftrightarrow> 1 \<le> prof_int p ''context_tokens'' \<and>
     1 \<le> prof_int p ''max_output_tokens'' \<and> prof_int p ''max_output_tokens'' \<le> prof_int p ''context_tokens'' \<and>
     1 \<le> prof_int p ''input_microusd_per_million_tokens'' \<and>
     1 \<le> prof_int p ''output_microusd_per_million_tokens''"

lemma validate_profile_ok:
  assumes "validate_profile profile = Inr u"
  shows "profile_ok (detach profile)"
  using assms by (simp add: validate_profile_def Let_def bindE_eq_Inr profile_ok_def get_or_detach)

lemma cost_mono:
  assumes "profile_ok p" "i \<le> i'" "j \<le> j'"
  shows "cost p i j \<le> cost p i' j'"
  unfolding cost_def using assms
  by (intro zdiv_mono1 add_mono mult_right_mono) (auto simp: profile_ok_def)

lemma cost_nonneg:
  assumes "profile_ok p" "0 \<le> i" "0 \<le> j"
  shows "0 \<le> cost p i j"
  unfolding cost_def using assms by (auto simp: profile_ok_def intro!: pos_imp_zdiv_nonneg_iff [THEN iffD2])

section \<open>The invariant of the budget\<close>

definition outstanding :: "budget \<Rightarrow> int" where
  "outstanding b = (case rb_active b of None \<Rightarrow> 0 | Some (_, reserved, _) \<Rightarrow> reserved)"

definition budget_good :: "budget \<Rightarrow> bool" where
  "budget_good b \<longleftrightarrow> profile_ok (rb_profile b) \<and> rb_last b < rb_deadline b \<and>
     finite (rb_requests b) \<and> int (card (rb_requests b)) \<le> rb_max_requests b \<and>
     outstanding b \<le> rb_charged b \<and> rb_charged b \<le> rb_limit b \<and>
     (\<forall>d r c. rb_active b = Some (d, r, c) \<longrightarrow> d \<in> rb_requests b \<and> 1 \<le> c \<and>
        r = cost (rb_profile b) (prof_int (rb_profile b) ''context_tokens'') c) \<and>
     (\<forall>d. rb_admitted b = Some d \<longrightarrow> (\<exists>r c. rb_active b = Some (d, r, c)))"

lemma clock_check_eq_Inr:
  "clock_check b now = Inr b' \<longleftrightarrow>
     is_int now \<and> rb_last b \<le> the_int now \<and> the_int now \<le> CLOCK_MAX \<and> the_int now < rb_deadline b
     \<and> b' = b\<lparr>rb_last := the_int now\<rparr>"
  by (auto simp: clock_check_def bindE_eq_Inr)

text \<open>How a guarded method ends: failed, with the clock possibly moved, or with its body's result.\<close>

lemma guarded_cases:
  obtains (fail) e where "guarded b ready now body = (Inl e, b\<lparr>rb_failed := True\<rparr>)"
  | (late) e where "ready" "clock_check b now = Inr (b\<lparr>rb_last := the_int now\<rparr>)"
      "body (b\<lparr>rb_last := the_int now\<rparr>) = Inl e"
      "guarded b ready now body = (Inl e, b\<lparr>rb_last := the_int now, rb_failed := True\<rparr>)"
  | (ok) x b' where "ready" "clock_check b now = Inr (b\<lparr>rb_last := the_int now\<rparr>)"
      "body (b\<lparr>rb_last := the_int now\<rparr>) = Inr (x, b')" "guarded b ready now body = (Inr x, b')"
proof (cases "bindE (requireE ready (ReviewError ''provider-active-or-terminal'')) (\<lambda>_. clock_check b now)")
  case (Inl e)
  then show ?thesis by (intro fail) (simp add: guarded_def)
next
  case (Inr b1)
  then have r: ready and c: "clock_check b now = Inr b1" and b1: "b1 = b\<lparr>rb_last := the_int now\<rparr>"
    by (auto simp: bindE_eq_Inr clock_check_eq_Inr)
  show ?thesis
  proof (cases "body b1")
    case (Inl e)
    with Inr r c b1 show ?thesis by (intro late [of e]) (simp_all add: guarded_def fail_closed_def)
  next
    case (Inr y)
    obtain x b' where y: "y = (x, b')" by (cases y)
    with Inr \<open>bindE _ _ = Inr b1\<close> r c b1 show ?thesis
      by (intro ok [of x b']) (simp_all add: guarded_def fail_closed_def)
  qed
qed

lemma budget_good_clock:
  "budget_good b \<Longrightarrow> clock_check b now = Inr b' \<Longrightarrow> budget_good b'"
  by (auto simp: budget_good_def outstanding_def clock_check_eq_Inr)

lemma budget_good_fail: "budget_good b \<Longrightarrow> budget_good (b\<lparr>rb_failed := True\<rparr>)"
  by (simp add: budget_good_def outstanding_def)

text \<open>A guarded method keeps the invariant when its body does.\<close>

lemma budget_good_guarded:
  assumes g: "budget_good b"
    and body: "\<And>b1 x b'. budget_good b1 \<Longrightarrow> ready \<Longrightarrow> rb_active b1 = rb_active b \<Longrightarrow>
      body b1 = Inr (x, b') \<Longrightarrow> budget_good b'"
  shows "budget_good (snd (guarded b ready now body))"
proof (rule guarded_cases [of b ready now body])
  fix e assume "guarded b ready now body = (Inl e, b\<lparr>rb_failed := True\<rparr>)"
  with g show ?thesis by (simp add: budget_good_fail)
next
  fix e assume c: "clock_check b now = Inr (b\<lparr>rb_last := the_int now\<rparr>)"
    and r: "guarded b ready now body = (Inl e, b\<lparr>rb_last := the_int now, rb_failed := True\<rparr>)"
  from budget_good_fail [OF budget_good_clock [OF g c]] r show ?thesis by simp
next
  fix x b' assume ready and c: "clock_check b now = Inr (b\<lparr>rb_last := the_int now\<rparr>)"
    and "body (b\<lparr>rb_last := the_int now\<rparr>) = Inr (x, b')" "guarded b ready now body = (Inr x, b')"
  with body [OF budget_good_clock [OF g c]] show ?thesis by simp
qed

lemma request_checks_cap:
  assumes "request_checks b request = Inr cap"
  shows "is_int cap \<and> 1 \<le> the_int cap \<and> the_int cap \<le> prof_int (rb_profile b) ''max_output_tokens''"
  using assms by (auto simp: request_checks_def Let_def bindE_eq_Inr)

lemma reserve_bodyE:
  assumes "reserve_body sha request b = Inr ((digest, bounded), b')"
  obtains cap where "request_checks b request = Inr cap" "bounded_request request cap = Inr bounded"
    "digest = sha (canonical bounded)" "digest \<notin> rb_requests b" "int (card (rb_requests b)) < rb_max_requests b"
    "rb_charged b' \<le> rb_limit b"
    "b' = b\<lparr>rb_charged := rb_charged b + cost (rb_profile b) (prof_int (rb_profile b) ''context_tokens'') (the_int cap),
         rb_requests := insert digest (rb_requests b),
         rb_active := Some (digest,
           cost (rb_profile b) (prof_int (rb_profile b) ''context_tokens'') (the_int cap), the_int cap)\<rparr>"
  using assms by (auto simp: reserve_body_def bindE_eq_Inr Let_def)

lemma reserve_body_good:
  assumes body: "reserve_body sha request b = Inr (x, b')" and g: "budget_good b" "rb_active b = None"
  shows "budget_good b'"
proof -
  obtain digest bounded where x: "x = (digest, bounded)" by (cases x)
  have a: "rb_admitted b = None" using g by (cases "rb_admitted b") (auto simp: budget_good_def)
  show ?thesis
    by (rule reserve_bodyE [OF body [unfolded x]])
       (use g a in \<open>auto simp: budget_good_def outstanding_def dest!: request_checks_cap\<close>)
qed

lemma admit_bodyE:
  assumes "admit_body sha digest request count b = Inr (x, b')" and "rb_active b = Some (d, r, c)"
  shows "b' = b\<lparr>rb_admitted := Some d\<rparr> \<and> digest = d"
  using assms by (auto simp: admit_body_def bindE_eq_Inr Let_def)

text \<open>A settlement never exceeds its reservation: the caps bound both token counts.\<close>

lemma settlement_within_reservation:
  assumes "budget_good b" "rb_active b = Some (d, reserved, output_cap)"
    and "i + output_cap \<le> prof_int (rb_profile b) ''context_tokens''" "j \<le> output_cap"
  shows "cost (rb_profile b) i j \<le> reserved"
proof -
  from assms have "profile_ok (rb_profile b)" "1 \<le> output_cap"
    "reserved = cost (rb_profile b) (prof_int (rb_profile b) ''context_tokens'') output_cap"
    by (auto simp: budget_good_def)
  with assms(3,4) show ?thesis using cost_mono by auto
qed

lemma complete_bodyE:
  assumes "complete_body digest response b = Inr (actual, b')" and "rb_active b = Some (d, r, c)"
  obtains identity i j where "actual = cost (rb_profile b) i j" "0 \<le> i" "0 \<le> j" "j \<le> c" "actual \<le> r"
    "i + c \<le> prof_int (rb_profile b) ''context_tokens''" "rb_admitted b = Some d" "digest = d"
    "identity \<notin> rb_responses b"
    "b' = b\<lparr>rb_charged := rb_charged b - (r - actual), rb_responses := insert identity (rb_responses b),
            rb_active := None, rb_admitted := None\<rparr>"
proof -
  let ?u = "get_or response ''usage'' PNone"
  show thesis
    by (rule that [where i = "prof_int ?u ''input_tokens''" and j = "prof_int ?u ''output_tokens''"
        and identity = "the_str (get_or response ''id'' PNone)"])
       (use assms in \<open>auto simp: complete_body_def bindE_eq_Inr Let_def\<close>)
qed

lemma complete_body_limit:
  assumes "complete_body digest response b = Inr (actual, b')" and "rb_active b = Some (d, r, c)"
  shows "rb_limit b' = rb_limit b"
  by (rule complete_bodyE [OF assms]) simp

text \<open>The three methods keep the invariant.\<close>

lemma method_good:
  assumes "budget_good b"
  shows "budget_good (snd (reserve_response sha b request now))"
    and "budget_good (snd (admit_tokens sha b digest request count now))"
    and "budget_good (snd (complete_response b digest response now))"
proof -
  show "budget_good (snd (reserve_response sha b request now))"
    unfolding reserve_response_def
    by (rule budget_good_guarded [OF assms]) (auto intro: reserve_body_good)
  show "budget_good (snd (admit_tokens sha b digest request count now))"
    unfolding admit_tokens_def
  proof (rule budget_good_guarded [OF assms])
    fix b1 x b' assume g: "budget_good b1" and "rb_active b1 = rb_active b"
      and "\<not> rb_failed b \<and> rb_active b \<noteq> None \<and> rb_admitted b = None"
      and body: "admit_body sha digest request count b1 = Inr (x, b')"
    then obtain d r c where a: "rb_active b1 = Some (d, r, c)" by auto
    from g a admit_bodyE [OF body a] show "budget_good b'" by (simp add: budget_good_def outstanding_def)
  qed
  show "budget_good (snd (complete_response b digest response now))"
    unfolding complete_response_def
  proof (rule budget_good_guarded [OF assms])
    fix b1 x b' assume g: "budget_good b1" and "rb_active b1 = rb_active b"
      and "\<not> rb_failed b \<and> rb_active b \<noteq> None"
      and body: "complete_body digest response b1 = Inr (x, b')"
    then obtain d r c where a: "rb_active b1 = Some (d, r, c)" by auto
    from g have "profile_ok (rb_profile b1)" by (simp add: budget_good_def)
    note nonneg = cost_nonneg [OF this]
    show "budget_good b'"
    proof (rule complete_bodyE [OF body a])
      fix identity i j
      assume "x = cost (rb_profile b1) i j" "0 \<le> i" "0 \<le> j"
        and b': "b' = b1\<lparr>rb_charged := rb_charged b1 - (r - x), rb_responses := insert identity (rb_responses b1),
            rb_active := None, rb_admitted := None\<rparr>" and "x \<le> r"
      with nonneg have "0 \<le> x" "x \<le> r" by blast+
      with g a show ?thesis by (simp add: b' budget_good_def outstanding_def)
    qed
  qed
qed

lemma budget_init_good:
  assumes "budget_init profile cost_budget start timeout max_requests byte_limit = Inr b"
  shows "budget_good b \<and> \<not> rb_failed b \<and> rb_charged b = 0 \<and> rb_limit b = the_int cost_budget
     \<and> rb_limit b \<le> 1000000 \<and> rb_max_requests b \<le> 16"
  using assms validate_profile_ok
  by (auto simp: budget_init_def bindE_eq_Inr budget_good_def outstanding_def)

section \<open>The budget is fail-stop\<close>

datatype budget_op = Reserve_Response py py | Admit_Tokens string py py py | Complete string py py | Abandon

fun budget_step :: "(string \<Rightarrow> string) \<Rightarrow> budget_op \<Rightarrow> budget \<Rightarrow> bool \<times> budget" where
  "budget_step sha (Reserve_Response request now) b =
     map_prod is_ok id (reserve_response sha b request now)"
| "budget_step sha (Admit_Tokens digest request count now) b =
     map_prod is_ok id (admit_tokens sha b digest request count now)"
| "budget_step sha (Complete digest response now) b =
     map_prod is_ok id (complete_response b digest response now)"
| "budget_step sha Abandon b = (True, abandon b)"

lemma guarded_failure: "\<not> is_ok (fst (guarded b ready now body)) \<Longrightarrow> rb_failed (snd (guarded b ready now body))"
  by (rule guarded_cases [of b ready now body]) auto

lemma guarded_not_ready: "\<not> ready \<Longrightarrow> snd (guarded b ready now body) = b\<lparr>rb_failed := True\<rparr>"
  by (simp add: guarded_def)

lemma guarded_limit:
  assumes "\<And>b1 x b'. body b1 = Inr (x, b') \<Longrightarrow> rb_active b1 = rb_active b \<Longrightarrow> ready \<Longrightarrow> rb_limit b' = rb_limit b1"
  shows "rb_limit (snd (guarded b ready now body)) = rb_limit b"
  by (rule guarded_cases [of b ready now body]) (auto dest!: assms)

lemma method_limit:
  "rb_limit (snd (reserve_response sha b request now)) = rb_limit b"
  "rb_limit (snd (admit_tokens sha b digest request count now)) = rb_limit b"
  "rb_limit (snd (complete_response b digest response now)) = rb_limit b"
proof -
  show "rb_limit (snd (reserve_response sha b request now)) = rb_limit b"
    unfolding reserve_response_def
    by (rule guarded_limit) (auto simp: reserve_body_def bindE_eq_Inr Let_def)
  show "rb_limit (snd (admit_tokens sha b digest request count now)) = rb_limit b"
    unfolding admit_tokens_def by (rule guarded_limit) (auto dest: admit_bodyE)
  show "rb_limit (snd (complete_response b digest response now)) = rb_limit b"
    unfolding complete_response_def by (rule guarded_limit) (auto dest!: complete_body_limit)
qed

interpretation response: fail_stop_budget budget_good rb_charged rb_limit rb_failed "budget_step sha"
  for sha
proof
  fix s :: budget and op :: budget_op
  show "budget_good s \<Longrightarrow> budget_good (snd (budget_step sha op s))"
    by (cases op) (auto simp: abandon_def intro: method_good budget_good_fail)
  show "rb_limit (snd (budget_step sha op s)) = rb_limit s"
    by (cases op) (auto simp: abandon_def method_limit)
  show "\<not> fst (budget_step sha op s) \<Longrightarrow> rb_failed (snd (budget_step sha op s))"
    by (cases op) (auto simp: reserve_response_def admit_tokens_def complete_response_def intro: guarded_failure)
  show "rb_failed s \<Longrightarrow> snd (budget_step sha op s) = s"
    by (cases op) (auto simp: abandon_def reserve_response_def admit_tokens_def complete_response_def guarded_not_ready)
qed (simp add: budget_good_def)

section \<open>What is forwarded\<close>

text \<open>A forwarded request is the caller's, stripped of telemetry, with its fields pinned.\<close>

definition forwarded :: "budget \<Rightarrow> py \<Rightarrow> py \<Rightarrow> bool" where
  "forwarded b request bounded \<longleftrightarrow>
     get_or bounded ''store'' PNone = PBool False \<and> get_or bounded ''background'' PNone = PBool False \<and>
     get_or bounded ''truncation'' PNone = PStr ''disabled'' \<and> get_or bounded ''service_tier'' PNone = PStr ''default'' \<and>
     (\<exists>cap. get_or bounded ''max_output_tokens'' PNone = PInt cap \<and> 1 \<le> cap
        \<and> cap \<le> prof_int (rb_profile b) ''max_output_tokens'') \<and>
     \<not> has_key bounded ''client_metadata'' \<and>
     (\<forall>name. name \<notin> {''store'', ''background'', ''truncation'', ''service_tier'', ''max_output_tokens'', ''client_metadata''}
        \<longrightarrow> get_or bounded name PNone = detach (get_or request name PNone))"

lemma bounded_request_forwarded:
  assumes "request_checks b request = Inr cap" and "bounded_request request cap = Inr bounded"
  shows "forwarded b request bounded"
proof -
  from request_checks_cap [OF assms(1)] obtain c where c: "cap = PInt c" "1 \<le> c"
    "c \<le> prof_int (rb_profile b) ''max_output_tokens''" by (auto simp: is_int_iff)
  from assms(1) obtain kvs where r: "request = PDict kvs"
    by (auto simp: request_checks_def Let_def bindE_eq_Inr is_dict_iff)
  have "map_of (the_items bounded) = (map_of (the_items (detach request)))
      (''client_metadata'' := None, ''max_output_tokens'' \<mapsto> cap, ''store'' \<mapsto> PBool False, ''background'' \<mapsto> PBool False,
       ''truncation'' \<mapsto> PStr ''disabled'', ''service_tier'' \<mapsto> PStr ''default'')"
    using assms(2) by (auto simp: bounded_request_def dict_update_def Let_def bindE_eq_Inr simp del: detach.simps)
  then show ?thesis
    using c by (auto simp: forwarded_def get_or_def has_key_def r map_of_sort_key map_of_detach_items
      split: option.splits)
qed

lemma bounded_request_cap:
  "bounded_request request cap = Inr bounded \<Longrightarrow> get_or bounded ''max_output_tokens'' PNone = cap"
  by (auto simp: bounded_request_def dict_update_def Let_def bindE_eq_Inr get_or_def)

lemma reserve_response_forwards:
  assumes "reserve_response sha b request now = (Inr (digest, bounded), b')"
  shows "forwarded b request bounded \<and> digest = sha (canonical bounded) \<and> digest \<notin> rb_requests b \<and>
    rb_charged b' = rb_charged b + cost (rb_profile b) (prof_int (rb_profile b) ''context_tokens'')
      (the_int (get_or bounded ''max_output_tokens'' PNone))"
proof (rule guarded_cases [of b "\<not> rb_failed b \<and> rb_active b = None" now "reserve_body sha request"])
  fix x b''
  assume body: "reserve_body sha request (b\<lparr>rb_last := the_int now\<rparr>) = Inr (x, b'')"
    and "guarded b (\<not> rb_failed b \<and> rb_active b = None) now (reserve_body sha request) = (Inr x, b'')"
  with assms have x: "x = (digest, bounded)" and b'': "b'' = b'" by (simp_all add: reserve_response_def)
  show ?thesis
  proof (rule reserve_bodyE [OF body [unfolded x b'']])
    fix cap assume "request_checks (b\<lparr>rb_last := the_int now\<rparr>) request = Inr cap"
      and bd: "bounded_request request cap = Inr bounded"
    from bounded_request_forwarded [OF this] have "forwarded b request bounded" by (simp add: forwarded_def)
    moreover assume "digest = sha (canonical bounded)" "digest \<notin> rb_requests (b\<lparr>rb_last := the_int now\<rparr>)"
      "b' = b\<lparr>rb_last := the_int now\<rparr>\<lparr>rb_charged := rb_charged (b\<lparr>rb_last := the_int now\<rparr>)
           + cost (rb_profile (b\<lparr>rb_last := the_int now\<rparr>)) (prof_int (rb_profile (b\<lparr>rb_last := the_int now\<rparr>)) ''context_tokens'') (the_int cap),
         rb_requests := insert digest (rb_requests (b\<lparr>rb_last := the_int now\<rparr>)),
         rb_active := Some (digest, cost (rb_profile (b\<lparr>rb_last := the_int now\<rparr>))
           (prof_int (rb_profile (b\<lparr>rb_last := the_int now\<rparr>)) ''context_tokens'') (the_int cap), the_int cap)\<rparr>"
    ultimately show ?thesis by (simp add: bounded_request_cap [OF bd])
  qed
qed (use assms in \<open>simp_all add: reserve_response_def\<close>)

section \<open>Every microdollar is accounted for\<close>

text \<open>What the settlements of a run have charged.\<close>

fun settled :: "(string \<Rightarrow> string) \<Rightarrow> budget_op list \<Rightarrow> budget \<Rightarrow> int" where
  "settled sha [] b = 0"
| "settled sha (op # ops) b =
     (case op of
        Complete digest response now \<Rightarrow>
          (case fst (complete_response b digest response now) of Inr actual \<Rightarrow> actual | Inl _ \<Rightarrow> 0)
      | _ \<Rightarrow> 0) + settled sha ops (snd (budget_step sha op b))"

lemma guarded_charged:
  assumes "\<And>b1 x b'. body b1 = Inr (x, b') \<Longrightarrow> ready \<Longrightarrow> rb_active b1 = rb_active b \<Longrightarrow>
    rb_charged b' - outstanding b' = rb_charged b1 - outstanding b1 + f x"
  shows "rb_charged (snd (guarded b ready now body)) - outstanding (snd (guarded b ready now body))
    = rb_charged b - outstanding b + (case fst (guarded b ready now body) of Inr x \<Rightarrow> f x | Inl _ \<Rightarrow> 0)"
  by (rule guarded_cases [of b ready now body]) (auto simp: outstanding_def dest!: assms)

lemma step_accounting:
  "rb_charged (snd (budget_step sha op b)) - outstanding (snd (budget_step sha op b))
    = rb_charged b - outstanding b
      + (case op of Complete digest response now \<Rightarrow>
          (case fst (complete_response b digest response now) of Inr actual \<Rightarrow> actual | Inl _ \<Rightarrow> 0) | _ \<Rightarrow> 0)"
proof (cases op)
  case (Reserve_Response request now)
  have "rb_charged b' - outstanding b' = rb_charged b1 - outstanding b1 + 0"
    if "reserve_body sha request b1 = Inr (x, b')" "rb_active b1 = None" for b1 x b'
    using that by (auto simp: reserve_body_def bindE_eq_Inr Let_def outstanding_def)
  then show ?thesis
    using guarded_charged [of "reserve_body sha request" "\<not> rb_failed b \<and> rb_active b = None" b "\<lambda>_. 0" now]
    by (simp add: Reserve_Response reserve_response_def split: sum.splits)
next
  case (Admit_Tokens digest request count now)
  have "rb_charged b' - outstanding b' = rb_charged b1 - outstanding b1 + 0"
    if "admit_body sha digest request count b1 = Inr (x, b')" "rb_active b1 = Some (d, r, c)" for b1 x b' d r c
    using admit_bodyE [OF that] by (simp add: outstanding_def)
  then show ?thesis
    using guarded_charged [of "admit_body sha digest request count"
        "\<not> rb_failed b \<and> rb_active b \<noteq> None \<and> rb_admitted b = None" b "\<lambda>_. 0" now]
    by (fastforce simp: Admit_Tokens admit_tokens_def split: sum.splits)
next
  case (Complete digest response now)
  have "rb_charged b' - outstanding b' = rb_charged b1 - outstanding b1 + x"
    if "complete_body digest response b1 = Inr (x, b')" "rb_active b1 = Some (d, r, c)" for b1 x b' d r c
    by (rule complete_bodyE [OF that]) (simp add: outstanding_def that(2))
  then show ?thesis
    using guarded_charged [of "complete_body digest response" "\<not> rb_failed b \<and> rb_active b \<noteq> None" b "\<lambda>x. x" now]
    by (fastforce simp: Complete complete_response_def)
qed (simp add: abandon_def outstanding_def)

lemma run_accounting:
  "rb_charged (run (budget_step sha) ops b) =
     rb_charged b - outstanding b + settled sha ops b + outstanding (run (budget_step sha) ops b)"
proof (induction ops arbitrary: b)
  case (Cons op ops)
  from Cons.IH [of "snd (budget_step sha op b)"] step_accounting [of sha op b] show ?case
    by simp
qed simp

section \<open>Properties\<close>

text \<open>
  C21: whatever sequence of calls is made on a new budget, the charge stays between what is
  still outstanding and the limit, the number of requests within its bound, and the clock
  before the deadline.
\<close>

theorem budget_never_overspent:
  fixes ops :: "budget_op list" and sha :: "string \<Rightarrow> string"
  assumes i: "budget_init profile cost_budget start timeout max_requests byte_limit = Inr b"
  defines "s \<equiv> run (budget_step sha) ops b"
  shows "outstanding s \<le> rb_charged s \<and> rb_charged s \<le> the_int cost_budget \<and>
    int (card (rb_requests s)) \<le> rb_max_requests s \<and> rb_last s < rb_deadline s"
proof -
  from budget_init_good [OF i] have g: "budget_good b" and l: "rb_limit b = the_int cost_budget" by auto
  from response.run_good [OF g, of sha ops] response.run_allowed [of sha ops b] l show ?thesis
    by (simp add: budget_good_def s_def)
qed

text \<open>
  C22: no microdollar is lost: after any calls on a new budget the charge is the sum of the
  settled prices plus the full reservation of the request still outstanding.
\<close>

theorem budget_accounts:
  fixes ops :: "budget_op list"
  assumes "budget_init profile cost_budget start timeout max_requests byte_limit = Inr b"
  shows "rb_charged (run (budget_step sha) ops b) = settled sha ops b + outstanding (run (budget_step sha) ops b)"
  using assms by (simp add: run_accounting) (auto simp: budget_init_def bindE_eq_Inr outstanding_def)

text \<open>
  A reserved request is forwarded with storage, background work, truncation and the
  service tier pinned, an output cap within the profile, no client metadata and every other
  field as the caller gave it; it was not forwarded before, and the charge grows by
  the price of a full context at that cap.
\<close>

lemma reserved_request_is_bounded:
  assumes "reserve_response sha b request now = (Inr (digest, bounded), b')"
  shows "forwarded b request bounded \<and> digest = sha (canonical bounded) \<and> digest \<notin> rb_requests b \<and>
    rb_charged b' = rb_charged b + cost (rb_profile b) (prof_int (rb_profile b) ''context_tokens'')
      (the_int (get_or bounded ''max_output_tokens'' PNone))"
  using assms by (rule reserve_response_forwards)

text \<open>
  The last check of \<open>complete\<close> never fails: the bounds on the token counts that precede
  it already keep the settled price within the reservation.
\<close>

lemma settlement_never_overruns:
  fixes ops :: "budget_op list"
  assumes i: "budget_init profile cost_budget start timeout max_requests byte_limit = Inr b"
  shows "fst (complete_response (run (budget_step sha) ops b) digest response now)
    \<noteq> Inl (ReviewError ''provider-cost-overrun'')"
proof -
  let ?s = "run (budget_step sha) ops b"
  have g: "budget_good ?s" using budget_init_good [OF i] by (blast intro: response.run_good)
  have no: "complete_body digest response b1 \<noteq> Inl (ReviewError ''provider-cost-overrun'')"
    if g1: "budget_good b1" and a: "rb_active b1 = Some (d, r, c)" for b1 d r c
    using settlement_within_reservation [OF g1 a]
    by (auto simp: complete_body_def a bindE_eq_Inl Let_def keys_check_def integer_check_def dest!: checks_Inl_mem)
  have late: "complete_body digest response (?s\<lparr>rb_last := the_int now\<rparr>) \<noteq> Inl (ReviewError ''provider-cost-overrun'')"
    if "is_int now" "rb_last ?s \<le> the_int now" "the_int now \<le> CLOCK_MAX" "the_int now < rb_deadline ?s"
      "rb_active ?s = Some x" for x
  proof -
    obtain d r c where x: "x = (d, r, c)" by (cases x)
    have "budget_good (?s\<lparr>rb_last := the_int now\<rparr>)"
      using that by (intro budget_good_clock [OF g, of now]) (simp add: clock_check_eq_Inr)
    from no [OF this] that(5) x show ?thesis by simp
  qed
  show ?thesis
    by (auto simp: complete_response_def guarded_def fail_closed_def clock_check_def integer_check_def requireE_def
        dest: late split: sum.splits if_splits)
qed

text \<open>
  the price of a request is the exact price rounded up once: the least number of
  microdollars that covers it.
\<close>

lemma cost_rounds_up:
  "let n = i * prof_int profile ''input_microusd_per_million_tokens''
         + j * prof_int profile ''output_microusd_per_million_tokens''
   in n \<le> 1000000 * cost profile i j \<and> 1000000 * cost profile i j < n + 1000000"
  using cost_ceiling by (simp add: Let_def)

text \<open>A profile with round prices, a budget on it and one complete exchange.\<close>

definition sample_profile :: py where
  "sample_profile = PDict
     [(''version'', PStr ''responses-budget/v2''), (''model'', PStr ''m''), (''context_tokens'', PInt 1000),
      (''max_input_tokens'', PInt 900), (''max_output_tokens'', PInt 100),
      (''input_microusd_per_million_tokens'', PInt 1000000), (''output_microusd_per_million_tokens'', PInt 2000000),
      (''capacity_evidence_sha256'', PStr ''0000000000000000000000000000000000000000000000000000000000000000''),
      (''pricing_evidence_sha256'', PStr ''0000000000000000000000000000000000000000000000000000000000000000'')]"

definition sample_budget :: budget where
  "sample_budget = \<lparr>rb_profile = detach sample_profile, rb_limit = 5000, rb_deadline = 1000, rb_last = 0,
     rb_byte_limit = 2000000, rb_max_requests = 16, rb_requests = {}, rb_responses = {}, rb_charged = 0,
     rb_active = None, rb_failed = False, rb_admitted = None\<rparr>"

lemma sample_profile_valid: "validate_profile sample_profile = Inr ()"
  by (simp add: sample_profile_def run_simps)

lemma sample_budget_init:
  "budget_init sample_profile (PInt 5000) (PInt 0) (PInt 1000) (PInt 16) (PInt 2000000) = Inr sample_budget"
  by (simp add: budget_init_def sample_profile_valid integer_check_def CLOCK_MAX_def sample_budget_def)

definition sample_request :: py where
  "sample_request = PDict [(''model'', PStr ''m''), (''input'', PStr ''hi''), (''max_output_tokens'', PInt 50)]"

lemma sample_budget_fields:
  "rb_byte_limit sample_budget = 2000000"
  "get_or (rb_profile sample_budget) ''model'' PNone = PStr ''m''"
  "get_or (rb_profile sample_budget) ''context_tokens'' PNone = PInt 1000"
  "get_or (rb_profile sample_budget) ''max_output_tokens'' PNone = PInt 100"
  "get_or (rb_profile sample_budget) ''input_microusd_per_million_tokens'' PNone = PInt 1000000"
  "get_or (rb_profile sample_budget) ''output_microusd_per_million_tokens'' PNone = PInt 2000000"
  by (simp_all add: sample_budget_def get_or_detach) (simp_all add: sample_profile_def get_or_def)

theorem budget_never_overspent_witness:
  "rb_charged (run (budget_step sample_sha) [Reserve_Response sample_request (PInt 1), Abandon] sample_budget) \<le> 5000"
  using budget_never_overspent [OF sample_budget_init, of sample_sha "[Reserve_Response sample_request (PInt 1), Abandon]"]
  by simp

theorem budget_accounts_witness:
  "rb_charged (run (budget_step sample_sha) [Abandon] sample_budget) = settled sample_sha [Abandon] sample_budget + 0"
  using budget_accounts [OF sample_budget_init, of sample_sha "[Abandon]"]
  by (simp add: outstanding_def abandon_def sample_budget_def)

lemma sample_bounded: "\<exists>bounded. bounded_request sample_request (PInt 50) = Inr bounded \<and> length (canonical bounded) \<le> 200"
  by (simp add: sample_request_def bounded_request_def metadata_check_def dict_update_def dict_pop_def run_simps)

lemma sample_reservation:
  "\<exists>digest bounded b'. reserve_response sample_sha sample_budget sample_request (PInt 1) = (Inr (digest, bounded), b')"
proof -
  obtain bounded where b: "bounded_request sample_request (PInt 50) = Inr bounded" "length (canonical bounded) \<le> 200"
    using sample_bounded by blast
  let ?b = "sample_budget\<lparr>rb_last := 1\<rparr>"
  have "request_checks ?b sample_request = Inr (PInt 50)"
    using sample_budget_fields
    by (simp add: request_checks_def run_simps sample_request_def)
  with b show ?thesis
    by (simp add: reserve_response_def guarded_def fail_closed_def reserve_body_def clock_check_def integer_check_def
        CLOCK_MAX_def sample_budget_fields cost_def Let_def sample_budget_def)
       (simp add: get_or_detach sample_profile_def get_or_def)
qed

end
