(* ===== verification/Review_Config.thy ===== *)
theory Review_Config
  imports Response_Budget
begin

text \<open>
  The protected configuration of the bounded review (\<open>scripts/bounded_review_config.py\<close>): its
  policy, its provider profile and the JSON schema a reviewer's packet has to satisfy. The
  two prompts of the module are data that nothing here depends on.
\<close>

section \<open>Configuration\<close>

definition CAPACITY :: py where
  "CAPACITY = PDict
     [(''source'', PStr ''https://developers.openai.com/api/docs/models/gpt-5.4-mini''),
      (''observed_on'', PStr ''2026-10-05''),
      (''model'', PStr ''gpt-5.4-mini-2026-03-17''),
      (''context_tokens'', PInt 400000),
      (''maximum_input_tokens'', PInt 272000),
      (''maximum_output_tokens'', PInt 128000)]"

definition PRICING :: py where
  "PRICING = PDict
     [(''source'', PStr ''https://developers.openai.com/api/docs/models/gpt-5.4-mini''),
      (''pricing_reference'', PStr ''https://developers.openai.com/api/docs/pricing#text-tokens''),
      (''observed_on'', PStr ''2026-10-02''),
      (''service_tier'', PStr ''default''),
      (''endpoint'', PStr ''https://api.openai.com/v1/responses''),
      (''input_microusd_per_million_tokens'', PInt 750000),
      (''output_microusd_per_million_tokens'', PInt 4500000),
      (''accounting'', PStr ''all input charged as uncached; no cached-input discount assumed'')]"

text \<open>\<open>review.policy() | {"max_review_seconds": 3000}\<close>\<close>

definition config_policy :: "(string \<Rightarrow> string) \<Rightarrow> py" where
  "config_policy sha = PDict (dict_update (the_items (policy sha)) [(''max_review_seconds'', PInt 3000)])"

definition config_profile :: "(string \<Rightarrow> string) \<Rightarrow> py" where
  "config_profile sha = PDict
     [(''version'', PStr ''responses-budget/v2''),
      (''model'', get_or CAPACITY ''model'' PNone),
      (''context_tokens'', get_or CAPACITY ''context_tokens'' PNone),
      (''max_input_tokens'', get_or CAPACITY ''maximum_input_tokens'' PNone),
      (''max_output_tokens'', PInt 8192),
      (''input_microusd_per_million_tokens'', get_or PRICING ''input_microusd_per_million_tokens'' PNone),
      (''output_microusd_per_million_tokens'', get_or PRICING ''output_microusd_per_million_tokens'' PNone),
      (''capacity_evidence_sha256'', PStr (sha (canonical CAPACITY))),
      (''pricing_evidence_sha256'', PStr (sha (canonical PRICING)))]"

text \<open>The constructors of the schema, named after the keyword they set.\<close>

definition enum_schema :: "py list \<Rightarrow> py" where
  "enum_schema values = PDict [(''type'', PStr ''string''), (''enum'', PList values)]"

definition object_schema :: "(string \<times> py) list \<Rightarrow> py" where
  "object_schema properties = PDict
     [(''type'', PStr ''object''), (''additionalProperties'', PBool False), (''properties'', PDict properties),
      (''required'', PList (map (PStr \<circ> fst) properties))]"

definition string_schema :: py where
  "string_schema = PDict [(''type'', PStr ''string'')]"

definition finding_schema :: "(string \<times> py) list" where
  "finding_schema =
     [(''severity'', enum_schema [PStr ''critical'', PStr ''high'', PStr ''medium'', PStr ''low'']),
      (''path'', string_schema),
      (''line'', PDict [(''type'', PList [PStr ''integer'', PStr ''null''])]),
      (''title'', string_schema),
      (''body'', string_schema)]"

definition packet_schema :: "string \<Rightarrow> string \<Rightarrow> py \<Rightarrow> string \<Rightarrow> py" where
  "packet_schema manifest_sha subject payload_sha coverage = object_schema
     [(''review'', object_schema
         [(''manifest_sha256'', enum_schema [PStr manifest_sha]),
          (''subject'', enum_schema [PStr subject]),
          (''payload_sha256'', enum_schema [payload_sha]),
          (''verdict'', enum_schema [PStr ''PASS'', PStr ''FAIL'']),
          (''semantic_coverage'', enum_schema [PStr coverage, PStr ''unresolved'']),
          (''findings'', PDict [(''type'', PStr ''array''), (''items'', object_schema finding_schema)])]),
      (''integration_context'', PDict
         [(''type'', PStr ''string''), (''minLength'', PInt 1), (''maxLength'', PInt 2000)])]"

definition config_schema :: "(string \<Rightarrow> string) \<Rightarrow> py \<Rightarrow> nat \<Rightarrow> exn + py" where
  "config_schema sha manifest ordinal =
     bindE (py_index manifest ''units'') (\<lambda>units.
     bindE (py_len units) (\<lambda>count.
     bindE (integer_check (PInt (int ordinal)) 0 (int count) ''config-ordinal'') (\<lambda>_.
     let integration = (ordinal = count) in
     bindE (if integration then py_index manifest ''diff_sha256''
            else bindE (py_item units ordinal) (\<lambda>u. py_index u ''sha256'')) (\<lambda>payload_sha.
     Inr (packet_schema (sha (canonical manifest)) (if integration then ''integration'' else ''unit:'' @ dec ordinal)
       payload_sha (if integration then ''complete-cross-unit'' else ''complete-unit''))))))"

lemmas [run_simps] = CAPACITY_def PRICING_def config_policy_def config_profile_def enum_schema_def object_schema_def
  string_schema_def finding_schema_def packet_schema_def config_schema_def

section \<open>The configuration passes its own validators\<close>

lemma config_policy_fields:
  "keys_of (config_policy sha) = keys_of (policy sha)"
  "name \<noteq> ''max_review_seconds'' \<Longrightarrow> get_or (config_policy sha) name d = get_or (policy sha) name d"
  "get_or (config_policy sha) ''max_review_seconds'' d = PInt 3000"
  by (simp_all add: config_policy_def policy_def dict_update_def get_or_def)

lemma config_policy_accepted: "validate_policy sha (config_policy sha) = Inr ()"
proof -
  have k: "is_dict (config_policy sha)" by (simp add: config_policy_def)
  have g: "get_or (config_policy sha) ''semantic_groups'' PNone = PList []"
    by (simp add: config_policy_fields) (simp add: policy_def get_or_def)
  have b: "forE (\<lambda>(name, high). integer_check (get_or (config_policy sha) name PNone) 1 high ''invalid-budget'')
      budget_limits = Inr ()"
    by (simp add: budget_limits_def config_policy_fields)
       (simp add: policy_def get_or_def integer_check_def MAX_UNITS_def MAX_TOTAL_BYTES_def MAX_UNIT_BYTES_def)
  show ?thesis
    by (simp add: validate_policy_def k config_policy_fields(1) g b bindE_eq_Inr Let_def)
       (simp add: fixed_policy_keys_def config_policy_fields)
qed

text \<open>A review of the configured profile fits its budget, whatever the request.\<close>

lemma config_profile_fields:
  "prof_int (config_profile sha) ''context_tokens'' = 400000"
  "prof_int (config_profile sha) ''max_input_tokens'' = 272000"
  "prof_int (config_profile sha) ''max_output_tokens'' = 8192"
  "prof_int (config_profile sha) ''input_microusd_per_million_tokens'' = 750000"
  "prof_int (config_profile sha) ''output_microusd_per_million_tokens'' = 4500000"
  by (simp_all add: config_profile_def get_or_def CAPACITY_def PRICING_def)

lemma config_profile_accepted:
  assumes "\<And>s. hex_id 64 (sha s)"
  shows "validate_profile (config_profile sha) = Inr ()"
proof -
  have m: "get_or (config_profile sha) ''model'' PNone = PStr ''gpt-5.4-mini-2026-03-17''"
    and v: "get_or (config_profile sha) ''version'' PNone = PStr ''responses-budget/v2''"
    by (simp_all add: config_profile_def get_or_def CAPACITY_def)
  have l: "str_len ''gpt-5.4-mini-2026-03-17'' = 23" by (simp add: str_len_def is_cont_def)
  have s: "get_or (config_profile sha) ''capacity_evidence_sha256'' PNone = PStr (sha (canonical CAPACITY))"
    "get_or (config_profile sha) ''pricing_evidence_sha256'' PNone = PStr (sha (canonical PRICING))"
    by (simp_all add: config_profile_def get_or_def)
  have t: "is_int (get_or (config_profile sha) n PNone)" if "n \<in> {''context_tokens'', ''max_input_tokens'',
      ''max_output_tokens'', ''input_microusd_per_million_tokens'', ''output_microusd_per_million_tokens''}" for n
    using that by (auto simp: config_profile_def get_or_def CAPACITY_def PRICING_def)
  have k: "keys_check (config_profile sha) PROFILE_KEYS ''provider-profile-shape'' = Inr ()"
    by (simp add: config_profile_def PROFILE_KEYS_def)
  show ?thesis
    by (simp add: validate_profile_def Let_def k m v l s assms bindE_eq_Inr t config_profile_fields)
qed

lemma config_profile_cost:
  "cost (config_profile sha) (prof_int (config_profile sha) ''context_tokens'') (prof_int (config_profile sha) ''max_output_tokens'')
     = 336864"
  by (simp add: cost_def config_profile_fields)

section \<open>The schema and the validator agree\<close>

text \<open>The properties of the review object inside a schema, and the values one of them allows.\<close>

definition review_part :: "py \<Rightarrow> py" where
  "review_part s = get_or (get_or s ''properties'' PNone) ''review'' PNone"

definition allowed_values :: "py \<Rightarrow> string \<Rightarrow> py list" where
  "allowed_values s name =
     the_list (get_or (get_or (get_or (review_part s) ''properties'' PNone) name PNone) ''enum'' PNone)"

definition enum_fields :: "string list" where
  "enum_fields = [''manifest_sha256'', ''subject'', ''payload_sha256'', ''verdict'', ''semantic_coverage'']"

lemma packet_schema_values:
  "allowed_values (packet_schema d subject payload coverage) ''manifest_sha256'' = [PStr d]"
  "allowed_values (packet_schema d subject payload coverage) ''subject'' = [PStr subject]"
  "allowed_values (packet_schema d subject payload coverage) ''payload_sha256'' = [payload]"
  "allowed_values (packet_schema d subject payload coverage) ''verdict'' = [PStr ''PASS'', PStr ''FAIL'']"
  "allowed_values (packet_schema d subject payload coverage) ''semantic_coverage'' =
     [PStr coverage, PStr ''unresolved'']"
  by (simp_all add: allowed_values_def review_part_def packet_schema_def object_schema_def enum_schema_def get_or_def)

lemma packet_schema_required:
  "set (the_list (get_or (review_part (packet_schema d subject payload coverage)) ''required'' PNone))
     = PStr ` set review_keys"
  by (auto simp: review_part_def packet_schema_def object_schema_def get_or_def review_keys_def)

lemma config_schema_planned:
  assumes "plan sha source payload binding prompt pv limits = Inr (m, chunks)" and n: "n \<le> length chunks"
  shows "config_schema sha m n = Inr (if n = length chunks
    then packet_schema (sha (canonical m)) ''integration'' (PStr (sha payload)) ''complete-cross-unit''
    else packet_schema (sha (canonical m)) (''unit:'' @ dec n) (PStr (sha (chunks ! n))) ''complete-unit'')"
proof -
  from assms(1) obtain files aj where
    "m = detach (manifest_of sha payload binding aj limits files chunks)"
    by (auto simp: plan_eq_Inr)
  note f = manifest_fields [OF this]
  show ?thesis
    using n by (simp add: config_schema_def f Let_def integer_check_def py_item_def unit_rows_sha)
qed

lemma schema_agreement:
  assumes "plan sha source payload binding prompt pv limits = Inr (m, chunks)" and "n \<le> length chunks"
  shows "\<exists>s. config_schema sha m n = Inr s \<and>
    set (the_list (get_or (review_part s) ''required'' PNone)) = PStr ` set review_keys \<and>
    (validate_review sha m n review = Inr () \<longleftrightarrow>
       is_dict review \<and> set (keys_of review) = set review_keys \<and> get_or review ''findings'' PNone = PList [] \<and>
       (\<forall>name \<in> set enum_fields. get_or review name PNone = hd (allowed_values s name)))"
  by (auto simp: config_schema_planned [OF assms] validate_review_planned [OF assms] packet_schema_required
    expected_review_def passing_review_def enum_fields_def packet_schema_values)

section \<open>Properties\<close>

text \<open>
  The protected configuration is usable: its policy and its profile pass the validators,
  and a new budget at the policy's price of one review affords the dearest request of the
  profile.
\<close>

lemma configuration_valid:
  assumes "\<And>s. hex_id 64 (sha s)"
  shows "validate_policy sha (config_policy sha) = Inr () \<and> validate_profile (config_profile sha) = Inr () \<and>
    cost (config_profile sha) (prof_int (config_profile sha) ''context_tokens'')
      (prof_int (config_profile sha) ''max_output_tokens'')
    \<le> limit_of (config_policy sha) ''per_review_cost_microusd''"
  using config_policy_accepted config_profile_accepted [OF assms]
  by (simp add: config_profile_cost limit_of_def config_policy_fields) (simp add: policy_def get_or_def)

text \<open>
  C28: schema and validator agree: for a planned manifest the schema of a review requires the
  very keys the validator requires, and the validator accepts a review exactly when it has
  these keys, no finding and in every other field the first value that the schema allows.
\<close>

theorem schema_matches_validator:
  assumes "plan sha source payload binding prompt pv limits = Inr (m, chunks)" and "n \<le> length chunks"
  shows "\<exists>s. config_schema sha m n = Inr s \<and>
    set (the_list (get_or (review_part s) ''required'' PNone)) = PStr ` set review_keys \<and>
    (validate_review sha m n review = Inr () \<longleftrightarrow>
       is_dict review \<and> set (keys_of review) = set review_keys \<and> get_or review ''findings'' PNone = PList [] \<and>
       (\<forall>name \<in> set enum_fields. get_or review name PNone = hd (allowed_values s name)))"
  using assms by (rule schema_agreement)

theorem schema_matches_validator_witness:
  "\<exists>m s. config_schema sample_sha m 1 = Inr s \<and> \<not> is_ok (validate_review sample_sha m 1 PNone)"
proof -
  from sample_plan obtain m where
    p: "plan sample_sha ''src'' sample_diff sample_binding ''p'' (PStr ''v'') (policy sample_sha) = Inr (m, [sample_diff])" ..
  have "1 \<le> length [sample_diff]" by simp
  from schema_matches_validator [OF p this, of PNone] show ?thesis by (auto simp: is_ok_iff)
qed

end
