(* ===== verification/Semantic_Groups.thy ===== *)
theory Semantic_Groups
  imports Bounded_Review
begin

text \<open>
  What \<open>plan\<close> of \<open>scripts/bounded_review.py\<close> makes of the semantic groups of a policy: their
  byte ranges are merged into disjoint ranges between code points, which the partition
  never cuts, so that all records of a group reach the same review unit.
\<close>

section \<open>Line starts are code point boundaries\<close>

definition line_start :: "string \<Rightarrow> nat \<Rightarrow> bool" where
  "line_start payload p \<longleftrightarrow> (\<exists>pre post. diff_lines payload = pre @ post \<and> p = total pre)"

lemma utf8_after_ascii:
  assumes "utf8_valid (u @ c # v)" and "byte c \<le> (127 :: nat)"
  shows "utf8_valid v"
proof -
  have "char_boundary (u @ c # v) (length u)" using assms(2) by (simp add: char_boundary_def is_cont_def)
  with utf8_cut [OF assms(1)] have "utf8_valid (c # v)" by fastforce
  with assms(2) show ?thesis by (simp add: utf8_one)
qed

lemma line_start_boundary:
  assumes "utf8_valid payload" "suffix [newline] payload" "line_start payload p"
  shows "char_boundary payload p"
proof -
  from assms(3) obtain pre post where l: "diff_lines payload = pre @ post" and p: "p = total pre"
    by (auto simp: line_start_def)
  have c: "payload = concat pre @ concat post" using diff_lines_concat [OF assms(2)] l by simp
  show ?thesis
  proof (cases pre rule: rev_cases)
    case Nil
    with assms(1) p show ?thesis by simp
  next
    case (snoc pre' x)
    then have "x \<in> set (diff_lines payload)" by (simp add: l)
    then obtain y where "x = y @ [newline]" by (auto simp: diff_lines_def)
    with snoc have e: "concat pre = (concat pre' @ y) @ [newline]" by simp
    have "utf8_valid (concat post)"
      by (rule utf8_after_ascii [of "concat pre' @ y" newline]) (use assms(1) c e in \<open>simp_all add: newline_def\<close>)
    moreover have "p = length (concat pre)" by (simp add: p total_concat)
    ultimately show ?thesis
      by (cases "concat post") (simp_all add: c char_boundary_def nth_append)
  qed
qed

lemma line_start_advances:
  assumes "line_start payload off" "advances (diff_lines payload) 0 ls off" "advances ls off r off'"
  shows "line_start payload off'"
  using advances_trans [OF assms(2,3)] by (auto simp: line_start_def advances_def)

lemma parse_files_line:
  "parse_files seen ls off = Inr fs \<Longrightarrow> advances (diff_lines payload) 0 ls off \<Longrightarrow> f \<in> set fs \<Longrightarrow>
     line_start payload (fl_start f) \<and> line_start payload (fl_end f)"
proof (induction seen ls off arbitrary: fs rule: parse_files.induct)
  case (1 seen ls off)
  from 1(2,4) have ne: "ls \<noteq> []" by (subst (asm) parse_files.simps) (auto split: if_splits)
  with 1(2) obtain f1 r off' fs' where pf: "parse_file seen ls off = Inr (f1, r, off')"
    and rec: "parse_files (fl_path f1 # seen) r off' = Inr fs'" and fs: "fs = f1 # fs'"
    by (subst (asm) parse_files.simps) (auto simp: bindE_eq_Inr)
  note p = parse_file_placed [OF pf]
  have a: "advances (diff_lines payload) 0 r off'" using advances_trans [OF 1(3)] p by blast
  show ?case
  proof (cases "f = f1")
    case True
    with p a 1(3) show ?thesis by (auto simp: line_start_def advances_def)
  next
    case False
    with 1(4) fs have "f \<in> set fs'" by simp
    with 1(1) [OF ne pf] rec a show ?thesis by simp
  qed
qed

lemma inventory_lines:
  assumes "inventory payload = Inr files" and "f \<in> set files"
  shows "char_boundary payload (fl_start f)" "char_boundary payload (fl_end f)"
    and "fl_start f < fl_end f"
    and "h \<in> set (fl_hunks f) \<Longrightarrow> char_boundary payload (hk_end h)"
proof -
  from assms(1) have pf: "parse_files [] (diff_lines payload) 0 = Inr files"
    and sfx: "suffix [newline] payload" and u: "utf8_valid payload"
    by (auto simp: inventory_def bindE_eq_Inr text_bytes_def split: if_splits)
  note b = line_start_boundary [OF u sfx]
  show "char_boundary payload (fl_start f)" "char_boundary payload (fl_end f)"
    using parse_files_line [OF pf advances_refl assms(2)] b by auto
  show "fl_start f < fl_end f"
    using inventory_placed [OF assms(1)] assms(2) by (auto simp: list_all_iff file_placed_def)
  assume "h \<in> set (fl_hunks f)"
  with parse_files_checked [OF pf assms(2)] have "hunk_at (diff_lines payload) 0 h" by blast
  then obtain pre line xs post where "diff_lines payload = (pre @ line # xs) @ post"
    "hk_end h = total (pre @ line # xs)" by (auto simp: hunk_at_def)
  then show "char_boundary payload (hk_end h)" by (intro b) (unfold line_start_def, blast)
qed

lemma file_boundaries_legal:
  assumes "inventory payload = Inr files"
  shows "\<forall>p \<in> set (file_boundaries files). char_boundary payload p"
  using inventory_lines [OF assms] by (auto simp: file_boundaries_def split: if_splits)

section \<open>The range of one group\<close>

lemma group_range_covers:
  assumes "inventory payload = Inr files" and "group_range files grp = Inr (a, b)" and "the_list grp \<noteq> []"
  shows "a < b \<and> char_boundary payload a \<and> char_boundary payload b \<and>
    (\<forall>f \<in> set files. PStr (fl_path f) \<in> set (the_list grp) \<longrightarrow> a \<le> fl_start f \<and> fl_end f \<le> b)"
proof -
  let ?paths = "set (map the_str (the_list grp))"
  let ?m = "filter (\<lambda>f. fl_path f \<in> ?paths) files"
  from assms(2) have sub: "?paths \<subseteq> set (map fl_path files)"
    and ab: "a = Min (set (map fl_start ?m))" "b = Max (set (map fl_end ?m))"
    by (auto simp: group_range_def Let_def bindE_eq_Inr)
  from assms(3) sub have ne: "?m \<noteq> []" by (cases "the_list grp") (auto simp: filter_empty_conv)
  then have "fl_start ` set ?m \<noteq> {}" "fl_end ` set ?m \<noteq> {}" by (simp_all only: image_is_empty set_empty not_False_eq_True)
  then have a: "a \<in> fl_start ` set ?m" and b: "b \<in> fl_end ` set ?m"
    unfolding ab set_map by (blast intro: Min_in Max_in)+
  have le: "a \<le> fl_start f" "fl_end f \<le> b" if "f \<in> set ?m" for f
    using that by (auto simp: ab)
  from a obtain f where "f \<in> set ?m" "a = fl_start f" by blast
  with le(2) inventory_lines(3) [OF assms(1), of f] have "a < b" by fastforce
  moreover have "char_boundary payload a" "char_boundary payload b"
    using a b inventory_lines(1,2) [OF assms(1)] by auto
  ultimately show ?thesis using le by force
qed

section \<open>Merging\<close>

text \<open>The state of the merge: well-formed ranges that contain every range seen so far.\<close>

definition merge_good :: "string \<Rightarrow> (nat \<times> nat) set \<Rightarrow> ranges \<times> nat list \<Rightarrow> bool" where
  "merge_good payload seen s \<longleftrightarrow> wf_groups payload (fst s) \<and>
     (\<forall>p \<in> set (snd s). char_boundary payload p) \<and>
     (\<forall>(a, b) \<in> set (fst s). b - a \<le> MAX_UNIT_BYTES) \<and>
     (\<forall>(a, b) \<in> seen. \<exists>(c, d) \<in> set (fst s). c \<le> a \<and> b \<le> d)"

lemma wf_groups_snoc:
  "wf_groups payload (gs @ [(a, b)]) \<longleftrightarrow> wf_groups payload gs \<and> (\<forall>(c, d) \<in> set gs. d \<le> a) \<and> a < b
     \<and> char_boundary payload a \<and> char_boundary payload b"
  by (auto simp: wf_groups_def sorted_wrt_append)

lemma wf_groups_starts:
  "wf_groups payload (gs @ [(a, b)]) \<Longrightarrow> (c, d) \<in> set gs \<Longrightarrow> c < d \<and> d \<le> a"
  by (auto simp: wf_groups_def sorted_wrt_append)

lemma merge_range_good:
  assumes good: "merge_good payload seen (merged, boundaries)" and r: "merge_range (merged, boundaries) (a, b) = Inr s"
    and ab: "a < b" "char_boundary payload a" "char_boundary payload b"
    and order: "\<forall>(c, d) \<in> set merged. c \<le> a"
  shows "merge_good payload (insert (a, b) seen) s \<and> (\<forall>(c, d) \<in> set (fst s). c \<le> a)"
proof (cases "merged \<noteq> [] \<and> a < snd (last merged)")
  case True
  then obtain rest c d where m: "merged = rest @ [(c, d)]" by (cases merged rule: rev_cases) auto
  with True r have s: "s = (rest @ [(c, max b d)], boundaries @ [c, max b d])" and len: "max b d - c \<le> MAX_UNIT_BYTES"
    by (auto simp: merge_range_def Let_def bindE_eq_Inr)
  from order m have "c \<le> a" by simp
  with good ab m len order show ?thesis
    by (fastforce simp: merge_good_def s wf_groups_snoc max_def)
next
  case False
  with r have s: "s = (merged @ [(a, b)], boundaries @ [a, b])" and len: "b - a \<le> MAX_UNIT_BYTES"
    by (auto simp: merge_range_def Let_def bindE_eq_Inr split: if_splits)
  have last: "\<forall>(c, d) \<in> set merged. d \<le> a"
  proof (cases merged rule: rev_cases)
    case (snoc rest x)
    obtain c d where x: "x = (c, d)" by (cases x)
    have w: "wf_groups payload (rest @ [(c, d)])" using good snoc x by (simp add: merge_good_def)
    from False snoc x have "d \<le> a" by simp
    with wf_groups_starts [OF w] w snoc x show ?thesis by (fastforce simp: wf_groups_snoc)
  qed simp
  with good ab len order show ?thesis
    by (fastforce simp: merge_good_def s wf_groups_snoc)
qed

lemma merge_ranges_good:
  assumes "foldE merge_range s rs = Inr s'" and "merge_good payload seen s" and "sorted rs"
    and "\<forall>(a, b) \<in> set rs. a < b \<and> char_boundary payload a \<and> char_boundary payload b"
    and "\<forall>(c, d) \<in> set (fst s). \<forall>(a, b) \<in> set rs. c \<le> a"
  shows "merge_good payload (seen \<union> set rs) s'"
  using assms
proof (induction rs arbitrary: s seen)
  case (Cons r rs)
  obtain a b where r: "r = (a, b)" by (cases r)
  obtain merged boundaries where s: "s = (merged, boundaries)" by (cases s)
  from Cons.prems(1) obtain t where t: "merge_range s r = Inr t" and rec: "foldE merge_range t rs = Inr s'"
    by (auto simp: bindE_eq_Inr)
  have g: "merge_good payload (insert (a, b) seen) t \<and> (\<forall>(c, d) \<in> set (fst t). c \<le> a)"
    by (rule merge_range_good) (use Cons.prems t r s in auto)
  have "\<forall>(a', b') \<in> set rs. a \<le> a'" using Cons.prems(3) r by (auto simp: less_eq_prod_def)
  with g have "\<forall>(c, d) \<in> set (fst t). \<forall>(a', b') \<in> set rs. c \<le> a'" by fastforce
  from Cons.IH [OF rec conjunct1 [OF g] _ _ this] Cons.prems(3,4) r show ?case by simp
qed simp

section \<open>The plan keeps every group in one unit\<close>

lemma policy_group_members:
  assumes "policy_group seen grp = Inr s"
  shows "the_list grp \<noteq> [] \<and> (\<forall>path \<in> set (the_list grp). is_str path)"
proof -
  have "foldE policy_path seen ps = Inr s \<Longrightarrow> path \<in> set ps \<Longrightarrow> is_str path" for seen ps s path
    by (induction ps arbitrary: seen) (auto simp: bindE_eq_Inr policy_path_def)
  with assms show ?thesis by (auto simp: policy_group_def bindE_eq_Inr)
qed

lemma validate_policy_groups:
  assumes "validate_policy sha limits = Inr u" and "grp \<in> set (the_list (get_or limits ''semantic_groups'' PNone))"
  shows "the_list grp \<noteq> [] \<and> (\<forall>path \<in> set (the_list grp). is_str path)"
proof -
  have "foldE policy_group seen gs = Inr s \<Longrightarrow> g \<in> set gs \<Longrightarrow> \<exists>seen s. policy_group seen g = Inr s" for seen gs s g
    by (induction gs arbitrary: seen) (auto simp: bindE_eq_Inr)
  moreover from assms(1) obtain s where "foldE policy_group [] (the_list (get_or limits ''semantic_groups'' PNone)) = Inr s"
    by (auto simp: validate_policy_def Let_def bindE_eq_Inr)
  ultimately show ?thesis using assms(2) policy_group_members by blast
qed

text \<open>What \<open>plan\<close> hands to the partition is what the partition relies on.\<close>

lemma plan_merge_good:
  assumes inv: "inventory payload = Inr files" and v: "validate_policy sha limits = Inr ()"
    and g: "mapE (group_range files) (the_list (get_or limits ''semantic_groups'' PNone)) = Inr grouped"
    and m: "foldE merge_range ([], file_boundaries files) (sort grouped) = Inr (merged, boundaries)"
  shows "merge_good payload (set grouped) (merged, boundaries)"
proof -
  have "a < b \<and> char_boundary payload a \<and> char_boundary payload b" if "(a, b) \<in> set grouped" for a b
  proof -
    from mapE_result [OF g that] obtain grp where "grp \<in> set (the_list (get_or limits ''semantic_groups'' PNone))"
      "group_range files grp = Inr (a, b)" by blast
    with group_range_covers [OF inv] validate_policy_groups [OF v] show ?thesis by blast
  qed
  moreover have "merge_good payload {} ([], file_boundaries files)"
    using file_boundaries_legal [OF inv] by (simp add: merge_good_def wf_groups_def)
  ultimately show ?thesis
    using merge_ranges_good [OF m, of payload "{}"] by fastforce
qed

text \<open>The offset at which a unit begins.\<close>

definition unit_start :: "string list \<Rightarrow> nat \<Rightarrow> nat" where
  "unit_start chunks k = length (concat (take k chunks))"

lemma unit_start_simps [simp]:
  "unit_start chunks 0 = 0" "unit_start chunks (length chunks) = length (concat chunks)"
  by (simp_all add: unit_start_def)

text \<open>A range that no unit starts inside lies within one unit.\<close>

lemma range_in_unit:
  assumes "a < b" "b \<le> length (concat chunks)"
    and cut: "\<And>k. k \<le> length chunks \<Longrightarrow> \<not> (a < unit_start chunks k \<and> unit_start chunks k < b)"
  shows "\<exists>k < length chunks. unit_start chunks k \<le> a \<and> b \<le> unit_start chunks (Suc k)"
proof -
  let ?K = "{k. k \<le> length chunks \<and> unit_start chunks k \<le> a}"
  have f: "finite ?K" and ne: "?K \<noteq> {}" by (auto intro: exI [of _ 0])
  define k where "k = Max ?K"
  have k: "k \<le> length chunks" "unit_start chunks k \<le> a" using Max_in [OF f ne] by (auto simp: k_def)
  have "k \<noteq> length chunks" using k(2) assms(1,2) by auto
  with k(1) have lt: "k < length chunks" by simp
  have "a < unit_start chunks (Suc k)"
  proof (rule ccontr)
    assume "\<not> a < unit_start chunks (Suc k)"
    with lt have "Suc k \<in> ?K" by simp
    with f have "Suc k \<le> k" unfolding k_def by (rule Max_ge)
    then show False by simp
  qed
  with cut [of "Suc k"] lt k(2) show ?thesis by (intro exI [of _ k]) auto
qed

lemma plan_cuts:
  assumes "plan sha source payload binding prompt pv limits = Inr (m, chunks)"
  obtains files grouped merged boundaries where "inventory payload = Inr files"
    and "mapE (group_range files) (the_list (get_or limits ''semantic_groups'' PNone)) = Inr grouped"
    and "merge_good payload (set grouped) (merged, boundaries)"
    and "\<And>k. k \<le> length chunks \<Longrightarrow> legal_cut payload merged (unit_start chunks k)"
proof -
  from assms obtain files grouped merged boundaries where inv: "inventory payload = Inr files"
    and v: "validate_policy sha limits = Inr ()"
    and g: "mapE (group_range files) (the_list (get_or limits ''semantic_groups'' PNone)) = Inr grouped"
    and m: "foldE merge_range ([], file_boundaries files) (sort grouped) = Inr (merged, boundaries)"
    and p: "partition_units payload boundaries (nat (limit_of limits ''max_units'')) merged = Inr chunks"
    by (auto simp: plan_eq_Inr plan_chunks_def bindE_eq_Inr)
  note good = plan_merge_good [OF inv v g m]
  have u: "utf8_valid payload" using inv by (auto simp: inventory_def bindE_eq_Inr text_bytes_def split: if_splits)
  have c: "cut_context (payload, merged)" using good u by (simp add: cut_context_def merge_good_def)
  have cuts: "\<forall>p \<in> set (cuts_of payload boundaries merged). legal_cut payload merged p"
    using good by (intro cuts_of_legal [OF u]) (simp add: merge_good_def)
  have 0: "legal_cut payload merged 0" using u by (simp add: legal_cut_def inside_def list_ex_iff)
  have "fits payload merged 0 (nat (limit_of limits ''max_units'') - 0)"
    using p by (auto simp: partition_units_def bindE_eq_Inr)
  from chain_legal [OF c cuts partition_units_chain [OF p] 0 this]
  have "legal_cut payload merged (unit_start chunks k)" if "k \<le> length chunks" for k
    using that by (simp add: unit_start_def)
  from that [OF inv g good this] show thesis .
qed

lemma plan_keeps_group:
  assumes "plan sha source payload binding prompt pv limits = Inr (m, chunks)"
    and grp: "grp \<in> set (the_list (get_or limits ''semantic_groups'' PNone))"
  shows "\<exists>files k. inventory payload = Inr files \<and> k < length chunks \<and>
    (\<forall>path \<in> set (the_list grp). \<exists>f \<in> set files. PStr (fl_path f) = path
       \<and> unit_start chunks k \<le> fl_start f \<and> fl_end f \<le> unit_start chunks (Suc k))"
proof -
  obtain files grouped merged boundaries where inv: "inventory payload = Inr files"
    and g: "mapE (group_range files) (the_list (get_or limits ''semantic_groups'' PNone)) = Inr grouped"
    and good: "merge_good payload (set grouped) (merged, boundaries)"
    and cuts: "\<And>k. k \<le> length chunks \<Longrightarrow> legal_cut payload merged (unit_start chunks k)"
    by (rule plan_cuts [OF assms(1)]) blast
  have "validate_policy sha limits = Inr ()" using assms(1) by (simp add: plan_eq_Inr)
  note grp_ok = validate_policy_groups [OF this grp]
  from mapE_argument [OF g grp] obtain a b where ab: "(a, b) \<in> set grouped" and r: "group_range files grp = Inr (a, b)"
    by fastforce
  note cov = group_range_covers [OF inv r conjunct1 [OF grp_ok]]
  from good ab obtain c d where cd: "(c, d) \<in> set merged" "c \<le> a" "b \<le> d" by (fastforce simp: merge_good_def)
  have "concat chunks = payload" using plan_covers [OF assms(1)] by blast
  moreover have "\<not> (a < unit_start chunks k \<and> unit_start chunks k < b)" if "k \<le> length chunks" for k
    using cuts [OF that] cd by (fastforce simp: legal_cut_def inside_iff)
  ultimately obtain k where k: "k < length chunks" "unit_start chunks k \<le> a" "b \<le> unit_start chunks (Suc k)"
    using range_in_unit [of a b chunks] cov by (auto simp: char_boundary_def)
  have "\<exists>f \<in> set files. PStr (fl_path f) = path \<and> unit_start chunks k \<le> fl_start f \<and> fl_end f \<le> unit_start chunks (Suc k)"
    if p: "path \<in> set (the_list grp)" for path
  proof -
    from grp_ok p obtain s where s: "path = PStr s" by (auto simp: is_str_iff)
    from r p have "the_str path \<in> set (map fl_path files)" by (auto simp: group_range_def Let_def bindE_eq_Inr)
    with s obtain f where "f \<in> set files" "fl_path f = s" by auto
    with cov p s k show ?thesis by (intro bexI [of _ f]) auto
  qed
  with inv k(1) show ?thesis by blast
qed

section \<open>Properties\<close>

text \<open>
  C3: a plan keeps every semantic group together: there is one unit whose byte range holds
  the complete records of all paths of the group.
\<close>

theorem plan_keeps_groups:
  assumes "plan sha source payload binding prompt pv limits = Inr (m, chunks)"
    and grp: "grp \<in> set (the_list (get_or limits ''semantic_groups'' PNone))"
  shows "\<exists>files k. inventory payload = Inr files \<and> k < length chunks \<and>
    (\<forall>path \<in> set (the_list grp). \<exists>f \<in> set files. PStr (fl_path f) = path
       \<and> unit_start chunks k \<le> fl_start f \<and> fl_end f \<le> unit_start chunks (Suc k))"
  using assms by (rule plan_keeps_group)

definition grouped_policy :: "(string \<Rightarrow> string) \<Rightarrow> py" where
  "grouped_policy sha = PDict (map (\<lambda>(k, v). if k = ''semantic_groups'' then (k, PList [PList [PStr ''f'']]) else (k, v))
     (the_items (policy sha)))"

lemma grouped_policy_fields:
  "is_dict (grouped_policy sha)" "keys_of (grouped_policy sha) = keys_of (policy sha)"
  "name \<noteq> ''semantic_groups'' \<Longrightarrow> get_or (grouped_policy sha) name d = get_or (policy sha) name d"
  "get_or (grouped_policy sha) ''semantic_groups'' d = PList [PList [PStr ''f'']]"
  by (simp_all add: grouped_policy_def policy_def get_or_def)

lemma grouped_policy_limits:
  "name \<noteq> ''semantic_groups'' \<Longrightarrow> limit_of (grouped_policy sha) name = limit_of (policy sha) name"
  by (simp add: limit_of_def grouped_policy_fields)

lemma grouped_policy_accepted: "validate_policy sha (grouped_policy sha) = Inr ()"
proof -
  have p: "validate_path ''f'' = Inr ()" by (simp add: run_simps)
  have b: "forE (\<lambda>(name, high). integer_check (get_or (grouped_policy sha) name PNone) 1 high ''invalid-budget'')
      budget_limits = Inr ()"
    by (simp add: budget_limits_def grouped_policy_fields)
       (simp add: policy_def get_or_def integer_check_def MAX_UNITS_def MAX_TOTAL_BYTES_def MAX_UNIT_BYTES_def)
  show ?thesis
    by (simp add: validate_policy_def keys_check_def grouped_policy_fields b Let_def)
       (simp add: fixed_policy_keys_def grouped_policy_fields policy_group_def policy_path_def p MAX_UNITS_def)
qed

lemma grouped_plan:
  "\<exists>m. plan sample_sha ''src'' sample_diff sample_binding ''p'' (PStr ''v'') (grouped_policy sample_sha) = Inr (m, [sample_diff])"
proof -
  have g: "group_range [sample_file] (PList [PStr ''f'']) = Inr (0, 149)"
    by (simp add: group_range_def sample_file_def)
  have "text_bytes sample_diff = Inr ()" using sample_inventory by (auto simp: inventory_def bindE_eq_Inr)
  then have "partition_units sample_diff [149, 0, 149] 64 [(0, 149)] = Inr [sample_diff]"
    by (rule partition_single) (simp_all add: sample_diff_length MAX_UNIT_BYTES_def MAX_UNITS_def)
  then have "plan_chunks sample_diff (grouped_policy sample_sha) = Inr ([sample_file], [sample_diff])"
    using sample_inventory
    by (simp add: plan_chunks_def grouped_policy_limits grouped_policy_fields policy_limits g merge_range_def
      sample_diff_length MAX_UNIT_BYTES_def)
       (simp add: file_boundaries_def sample_file_def MAX_UNIT_BYTES_def)
  with sample_assets show ?thesis
    by (auto simp: plan_eq_Inr sample_binding_valid grouped_policy_accepted grouped_policy_limits policy_limits)
qed

theorem plan_keeps_groups_witness:
  "\<exists>files. inventory sample_diff = Inr files \<and> (\<exists>f \<in> set files. PStr (fl_path f) = PStr ''f'' \<and> fl_end f \<le> length sample_diff)"
proof -
  from grouped_plan obtain m where
    p: "plan sample_sha ''src'' sample_diff sample_binding ''p'' (PStr ''v'') (grouped_policy sample_sha) = Inr (m, [sample_diff])" ..
  have "PList [PStr ''f''] \<in> set (the_list (get_or (grouped_policy sample_sha) ''semantic_groups'' PNone))"
    by (simp add: grouped_policy_fields)
  from plan_keeps_groups [OF p this] show ?thesis by (auto simp: unit_start_def)
qed

end
