(* ===== verification/Py_Text.thy ===== *)
theory Py_Text
  imports Py_Value
begin

text \<open>
  More operations of the language: assignment to a key, first elements and iteration, and the
  \<open>str\<close> methods that look at code points (\<open>strip\<close>, \<open>split\<close>, \<open>splitlines\<close>, \<open>lower\<close>) or at
  a separator (\<open>partition\<close>).
\<close>

section \<open>Containers\<close>

text \<open>The bytes of the code points of a string, one list each.\<close>

function str_chars :: "string \<Rightarrow> string list" where
  "str_chars [] = []"
| "str_chars (c # r) = (c # takeWhile is_cont r) # str_chars (dropWhile is_cont r)"
  by pat_completeness auto
termination by (relation "measure length") (auto simp: less_Suc_eq_le length_dropWhile_le)

lemma concat_str_chars [simp]: "concat (str_chars s) = s"
  by (induction s rule: str_chars.induct) auto

text \<open>\<open>v[0]\<close>\<close>

fun first_char :: "string \<Rightarrow> string" where
  "first_char [] = []"
| "first_char (c # r) = c # takeWhile is_cont r"

definition py_first :: "py \<Rightarrow> exn + py" where
  "py_first v = (case v of
     PList [] \<Rightarrow> Inl IndexError
   | PList (x # _) \<Rightarrow> Inr x
   | PStr s \<Rightarrow> if s = [] then Inl IndexError else Inr (PStr (first_char s))
   | PDict _ \<Rightarrow> Inl KeyError
   | _ \<Rightarrow> Inl TypeError)"

text \<open>\<open>for x in v\<close>, \<open>len(v)\<close> and \<open>d.items()\<close>\<close>

definition py_elements :: "py \<Rightarrow> exn + py list" where
  "py_elements v = (case v of
     PList xs \<Rightarrow> Inr xs
   | PDict kvs \<Rightarrow> Inr (map (PStr \<circ> fst) kvs)
   | PStr s \<Rightarrow> Inr (map PStr (str_chars s))
   | _ \<Rightarrow> Inl TypeError)"

definition py_len :: "py \<Rightarrow> exn + nat" where
  "py_len v = bindE (py_elements v) (\<lambda>xs. Inr (length xs))"

definition py_items :: "py \<Rightarrow> exn + (string \<times> py) list" where
  "py_items v = (case v of PDict kvs \<Rightarrow> Inr kvs | _ \<Rightarrow> Inl AttributeError)"

text \<open>\<open>d[k] = v\<close> and \<open>d.update(new)\<close> on a dictionary.\<close>

definition py_put :: "string \<Rightarrow> py \<Rightarrow> py \<Rightarrow> exn + py" where
  "py_put k v d = (case d of PDict kvs \<Rightarrow> Inr (PDict (dict_put k v kvs)) | _ \<Rightarrow> Inl TypeError)"

definition py_update :: "(string \<times> py) list \<Rightarrow> py \<Rightarrow> exn + py" where
  "py_update new d = (case d of PDict kvs \<Rightarrow> Inr (PDict (dict_update kvs new)) | _ \<Rightarrow> Inl AttributeError)"

text \<open>\<open>[x for x in xs if p(x)]\<close> and \<open>any(p(x) for x in xs)\<close>\<close>

fun filterE :: "('a \<Rightarrow> 'e + bool) \<Rightarrow> 'a list \<Rightarrow> 'e + 'a list" where
  "filterE p [] = Inr []"
| "filterE p (x # xs) = bindE (p x) (\<lambda>b. bindE (filterE p xs) (\<lambda>ys. Inr (if b then x # ys else ys)))"

fun anyE :: "('a \<Rightarrow> 'e + bool) \<Rightarrow> 'a list \<Rightarrow> 'e + bool" where
  "anyE p [] = Inr False"
| "anyE p (x # xs) = bindE (p x) (\<lambda>b. if b then Inr True else anyE p xs)"

section \<open>Text\<close>

text \<open>The code points Python takes for white space, and those that end a line.\<close>

definition is_space :: "string \<Rightarrow> bool" where
  "is_space g = (case map byte g of
     [n :: nat] \<Rightarrow> (9 \<le> n \<and> n \<le> 13) \<or> (28 \<le> n \<and> n \<le> 32)
   | [l, n] \<Rightarrow> l = 194 \<and> (n = 133 \<or> n = 160)
   | [l, m, n] \<Rightarrow>
       (l, m, n) = (225, 154, 128)
       \<or> (l, m) = (226, 128) \<and> ((128 \<le> n \<and> n \<le> 138) \<or> n = 168 \<or> n = 169 \<or> n = 175)
       \<or> (l, m, n) = (226, 129, 159) \<or> (l, m, n) = (227, 128, 128)
   | _ \<Rightarrow> False)"

definition is_break :: "string \<Rightarrow> bool" where
  "is_break g = (case map byte g of
     [n :: nat] \<Rightarrow> (10 \<le> n \<and> n \<le> 13) \<or> (28 \<le> n \<and> n \<le> 30)
   | [l, n] \<Rightarrow> l = 194 \<and> n = 133
   | [l, m, n] \<Rightarrow> (l, m) = (226, 128) \<and> (n = 168 \<or> n = 169)
   | _ \<Rightarrow> False)"

text \<open>\<open>s.strip()\<close>, \<open>s.split()\<close> and \<open>s.splitlines()\<close>\<close>

definition py_strip :: "string \<Rightarrow> string" where
  "py_strip s = concat (rev (dropWhile is_space (rev (dropWhile is_space (str_chars s)))))"

fun words_of :: "string \<Rightarrow> string list \<Rightarrow> string list" where
  "words_of w [] = (if w = [] then [] else [w])"
| "words_of w (c # r) =
     (if is_space c then (if w = [] then words_of [] r else w # words_of [] r) else words_of (w @ c) r)"

definition py_split :: "string \<Rightarrow> string list" where
  "py_split s = words_of [] (str_chars s)"

fun lines_of :: "string \<Rightarrow> string list \<Rightarrow> string list" where
  "lines_of l [] = (if l = [] then [] else [l])"
| "lines_of l [c] = (if is_break c then [l] else [l @ c])"
| "lines_of l (c # d # r) =
     (if is_break c then l # (if c = [CHR 0x0D] \<and> d = [newline] then lines_of [] r else lines_of [] (d # r))
      else lines_of (l @ c) (d # r))"

definition py_splitlines :: "string \<Rightarrow> string list" where
  "py_splitlines s = lines_of [] (str_chars s)"

text \<open>\<open>open(path).read()\<close> of a text: every line ends with one newline byte.\<close>

fun universal_newlines :: "string \<Rightarrow> string" where
  "universal_newlines [] = []"
| "universal_newlines (c # s) =
     (if c = CHR 0x0D then newline # (case s of [] \<Rightarrow> [] | d # r \<Rightarrow> if d = newline then universal_newlines r else universal_newlines s)
      else c # universal_newlines s)"

text \<open>
  \<open>s.lower()\<close> as far as ASCII letters in the result go: the letters of ASCII and the Kelvin
  sign, the only other code point whose lower case is a single letter of ASCII. Code points outside ASCII that have
  another lower case are kept.
\<close>

definition lower_char :: "string \<Rightarrow> string" where
  "lower_char g = (case g of
     [c] \<Rightarrow> if 65 \<le> byte c \<and> byte c \<le> (90 :: nat) then [char_of (byte c + 32 :: nat)] else [c]
   | _ \<Rightarrow> if g = [CHR 0xE2, CHR 0x84, CHR 0xAA] then ''k'' else g)"

definition py_lower :: "string \<Rightarrow> string" where
  "py_lower s = concat (map lower_char (str_chars s))"

text \<open>\<open>s.partition(sep)\<close>: \<open>None\<close> when the separator, which is not empty, does not occur.\<close>

fun cut_at :: "string \<Rightarrow> string \<Rightarrow> (string \<times> string) option" where
  "cut_at sep [] = None"
| "cut_at sep (c # r) =
     (if prefix sep (c # r) then Some ([], drop (length sep) (c # r))
      else map_option (\<lambda>(a, b). (c # a, b)) (cut_at sep r))"

lemmas [run_simps] = py_first_def py_elements_def py_len_def py_items_def py_put_def py_update_def is_space_def is_break_def
  py_strip_def py_split_def py_splitlines_def lower_char_def py_lower_def

section \<open>Paths\<close>

text \<open>\<open>posixpath.normpath\<close>: the components that are left, the last one first.\<close>

fun norm_comps :: "bool \<Rightarrow> string list \<Rightarrow> string list \<Rightarrow> string list" where
  "norm_comps rooted acc [] = rev acc"
| "norm_comps rooted acc (c # cs) =
     (if c = [] \<or> c = ''.'' then norm_comps rooted acc cs
      else if c \<noteq> ''..'' \<or> (\<not> rooted \<and> acc = []) \<or> (acc \<noteq> [] \<and> hd acc = ''..'') then norm_comps rooted (c # acc) cs
      else norm_comps rooted (tl acc) cs)"

definition normpath :: "string \<Rightarrow> string" where
  "normpath path =
     (let slashes = (if prefix ''//'' path \<and> \<not> prefix ''///'' path then ''//''
                     else if prefix ''/'' path then ''/'' else []);
          norm = slashes @ join_with ''/'' (norm_comps (slashes \<noteq> []) [] (split_on (CHR 0x2F) path)) in
      if norm = [] then ''.'' else norm)"

lemmas [run_simps] = normpath_def

section \<open>Facts\<close>

lemma py_put_eq_Inr: "py_put k v d = Inr d' \<longleftrightarrow> is_dict d \<and> d' = PDict (dict_put k v (the_items d))"
  by (cases d) (auto simp: py_put_def)

lemma py_update_eq_Inr: "py_update new d = Inr d' \<longleftrightarrow> is_dict d \<and> d' = PDict (dict_update (the_items d) new)"
  by (cases d) (auto simp: py_update_def)

lemma py_items_eq_Inr: "py_items d = Inr kvs \<longleftrightarrow> d = PDict kvs"
  by (cases d) (auto simp: py_items_def)

lemma get_or_put: "get_or (PDict (dict_put k v kvs)) n x = (if n = k then v else get_or (PDict kvs) n x)"
  by (simp add: get_or_def)

lemma py_index_put: "py_index (PDict (dict_put k x kvs)) n = (if n = k then Inr x else py_index (PDict kvs) n)"
  by (simp add: py_index_def)

lemma py_get_put: "py_get (PDict (dict_put k x kvs)) n y = (if n = k then Inr x else py_get (PDict kvs) n y)"
  by (simp add: py_get_def)

lemma dict_update_simps [simp]:
  "dict_update kvs [] = kvs" "dict_update kvs ((k, v) # new) = dict_update (dict_put k v kvs) new"
  by (simp_all add: dict_update_def)

lemma py_index_get_or: "py_index d k = Inr v \<Longrightarrow> get_or d k x = v"
  by (auto simp: py_index_eq_Inr get_or_def)

lemma py_get_get_or: "py_get d k x = Inr v \<longleftrightarrow> is_dict d \<and> v = get_or d k x"
  by (cases d) (auto simp: py_get_def get_or_def split: option.splits)

lemma filterE_cong_elements:
  "(\<And>x. x \<in> set xs \<Longrightarrow> p x = q x) \<Longrightarrow> filterE p xs = filterE q xs"
  by (induction xs) auto

lemma filterE_set: "filterE p xs = Inr ys \<Longrightarrow> set ys = {x \<in> set xs. p x = Inr True}"
  by (induction xs arbitrary: ys) (auto simp: bindE_eq_Inr split: if_splits)

lemma filterE_Inr: "filterE p xs = Inr ys \<Longrightarrow> x \<in> set xs \<Longrightarrow> \<exists>b. p x = Inr b"
  by (induction xs arbitrary: ys) (auto simp: bindE_eq_Inr)

lemma anyE_False: "anyE p xs = Inr False \<longleftrightarrow> (\<forall>x \<in> set xs. p x = Inr False)"
  by (induction xs) (auto simp: bindE_eq_Inr)

lemma cut_at_append: "cut_at sep s = Some (a, b) \<Longrightarrow> s = a @ sep @ b"
proof (induction s arbitrary: a)
  case (Cons c r)
  then show ?case by (auto simp: prefix_def split: if_splits)
qed simp

lemma py_wf_items_iff: "py_wf_items kvs \<longleftrightarrow> (\<forall>(k, v) \<in> set kvs. py_wf v)"
  by (induction kvs) auto

lemma py_wf_list_iff: "py_wf_list xs \<longleftrightarrow> (\<forall>x \<in> set xs. py_wf x)"
  by (induction xs) auto

section \<open>Copies of values\<close>

text \<open>No operation tells a value from the copy \<^const>\<open>detach\<close> makes of it.\<close>

lemma fst_set_detach_items [simp]: "fst ` set (detach_items kvs) = fst ` set kvs"
  by (metis fst_detach_items set_map)

lemma is_kind_detach [simp]:
  "is_str (detach v) = is_str v" "is_int (detach v) = is_int v" "is_list (detach v) = is_list v"
  "is_dict (detach v) = is_dict v" "is_bool (detach v) = is_bool v" "the_str (detach v) = the_str v"
  "set (keys_of (detach v)) = set (keys_of v)"
  by (cases v; simp)+

lemma detach_scalar [simp]:
  "detach v = PBool b \<longleftrightarrow> v = PBool b" "detach v = PStr s \<longleftrightarrow> v = PStr s" "detach v = PNone \<longleftrightarrow> v = PNone"
  by (cases v; simp)+

lemma the_list_detach [simp]: "the_list (detach v) = map detach (the_list v)"
  by (cases v) (simp_all add: detach_list_map)

lemma py_eq_items_iff:
  "py_eq_items xs ys \<longleftrightarrow> (\<forall>(k, v) \<in> set xs. \<exists>w. map_of ys k = Some w \<and> py_eq v w)"
  by (induction xs) (auto split: option.splits)

lemma py_eq_detach_left [simp]: "py_eq (detach v) w = py_eq v w"
proof (induction v arbitrary: w)
  case (PList xs)
  have "py_eq_list (map detach xs) ys = py_eq_list xs ys" for ys
    using PList
  proof (induction xs arbitrary: ys)
    case (Cons x xs)
    then show ?case by (cases ys) auto
  qed simp
  then show ?case by (cases w) (simp_all add: detach_list_map)
next
  case (PDict kvs)
  have eq: "py_eq (detach v) w' = py_eq v w'" if "(k, v) \<in> set kvs" for k v w'
    using PDict.IH that by (metis snds.intros snd_conv)
  have "py_eq_items (sort_key fst (detach_items kvs)) ys = py_eq_items kvs ys" for ys
    unfolding py_eq_items_iff set_sort by (auto simp: detach_items_map eq)
  then show ?case by (cases w) (simp_all add: detach_items_map)
qed (case_tac [!] w, simp_all)

lemma py_eq_detach_right [simp]: "py_eq v (detach w) = py_eq v w"
proof (induction v arbitrary: w)
  case (PList xs)
  have "py_eq_list xs (map detach ys) = py_eq_list xs ys" for ys
    using PList
  proof (induction xs arbitrary: ys)
    case (Cons x xs)
    then show ?case by (cases ys) auto
  qed simp
  then show ?case by (cases w) (simp_all add: detach_list_map)
next
  case (PDict kvs)
  have eq: "py_eq v (detach w') = py_eq v w'" if "(k, v) \<in> set kvs" for k v w'
    using PDict.IH that by (metis snds.intros snd_conv)
  have "py_eq_items kvs (sort_key fst (detach_items ys)) = py_eq_items kvs ys" for ys
    unfolding py_eq_items_iff map_of_sort_key map_of_detach_items
    by (auto simp: eq)
  then show ?case by (cases w) (simp_all add: detach_items_map)
qed (case_tac [!] w, simp_all)

section \<open>ASCII text\<close>

abbreviation ascii :: "string \<Rightarrow> bool" where
  "ascii s \<equiv> list_all (\<lambda>c. byte c < (128 :: nat)) s"

lemma ascii_utf8: "ascii s \<Longrightarrow> utf8_valid s"
  by (induction s) (simp_all add: utf8_one)

lemma code_points_ascii: "ascii s \<Longrightarrow> code_points s = map byte s"
  by (induction s rule: code_points.induct) simp_all

text \<open>Printable ASCII text, which is what JSON text with \<open>ensure_ascii\<close> is made of.\<close>

definition printable :: "string \<Rightarrow> bool" where
  "printable s \<longleftrightarrow> list_all (\<lambda>c. 32 \<le> byte c \<and> byte c \<le> (126 :: nat)) s"

lemma str_chars_ascii: "ascii s \<Longrightarrow> str_chars s = map (\<lambda>c. [c]) s"
proof (induction s rule: str_chars.induct)
  case (2 c r)
  then have "takeWhile is_cont r = []" "dropWhile is_cont r = r"
    by (cases r; simp add: is_cont_def)+
  with 2 show ?case by simp
qed simp

text \<open>ASCII text without blanks is stripped already.\<close>

definition graphic :: "string \<Rightarrow> bool" where
  "graphic s \<longleftrightarrow> list_all (\<lambda>c. 33 \<le> byte c \<and> byte c \<le> (126 :: nat)) s"

lemma strip_graphic: "graphic s \<Longrightarrow> py_strip s = s"
proof -
  assume g: "graphic s"
  then have "list_all (\<lambda>c. byte c < (128 :: nat)) s" by (auto simp: graphic_def list_all_iff)
  then have c: "str_chars s = map (\<lambda>c. [c]) s" by (rule str_chars_ascii)
  have n: "dropWhile is_space (map (\<lambda>c. [c]) t) = map (\<lambda>c. [c]) t" if "graphic t" for t
    using that by (cases t) (simp_all add: graphic_def is_space_def)
  have "graphic (rev s)" using g by (simp add: graphic_def)
  then show ?thesis using n [OF g] n [of "rev s"] by (simp add: py_strip_def c rev_map concat_map_singleton)
qed

lemma byte_hex_digit: "d < 16 \<Longrightarrow> 32 \<le> byte (hex_digit d) \<and> byte (hex_digit d) \<le> (126 :: nat)"
  by (simp add: hex_digit_def)

lemma printable_escape: "printable (escape_code n)"
proof -
  have u: "printable (u_escape m)" for m by (simp add: u_escape_def printable_def byte_hex_digit)
  then show ?thesis by (auto simp: escape_code_def) (auto simp: printable_def)
qed

lemma printable_concat: "printable (concat ss) \<longleftrightarrow> (\<forall>s \<in> set ss. printable s)"
  by (induction ss) (auto simp: printable_def)

lemma printable_ascii: "printable s \<Longrightarrow> ascii s"
  by (auto simp: printable_def list_all_iff)

lemma printable_valid: "printable s \<Longrightarrow> utf8_valid s"
  by (rule ascii_utf8) (rule printable_ascii)

lemma printable_simps [simp]:
  "printable []" "printable (c # s) \<longleftrightarrow> 32 \<le> byte c \<and> byte c \<le> (126 :: nat) \<and> printable s"
  "printable (s @ t) \<longleftrightarrow> printable s \<and> printable t"
  by (simp_all add: printable_def)

lemma printable_json_string: "printable (json_string s)"
  by (simp add: json_string_def printable_concat printable_escape)

lemma printable_join: "\<forall>s \<in> set ss. printable s \<Longrightarrow> printable sep \<Longrightarrow> printable (join_with sep ss)"
  unfolding printable_def by (rule join_with_all)

lemma printable_dec: "printable (dec n)"
  using dec_digits [of n] by (auto simp: printable_def is_digit_def list_all_iff)

text \<open>The canonical text of a value without floats is printable.\<close>

fun float_free :: "py \<Rightarrow> bool" where
  "float_free (PFloat r s) = False"
| "float_free (PList xs) = (\<forall>x \<in> set xs. float_free x)"
| "float_free (PDict kvs) = (\<forall>(k, v) \<in> set kvs. float_free v)"
| "float_free v = True"

lemma printable_canonical: "float_free v \<Longrightarrow> printable (canonical v)"
proof (induction v)
  case (PInt i)
  then show ?case by (simp add: dec_int_def printable_dec)
next
  case (PList xs)
  then show ?case by (auto simp: canonical_list_map intro!: printable_join)
next
  case (PDict kvs)
  have "printable (json_string k @ '':'' @ canonical v)" if "(k, v) \<in> set kvs" for k v
    using PDict that by (fastforce simp: printable_json_string)
  then show ?case by (auto simp: canonical_items_map intro!: printable_join)
qed (simp_all add: printable_json_string)

end
