(* ===== verification/Refinement.thy ===== *)
theory Refinement
  imports Prelude
begin

text \<open>
  Labelled traces of an abstract step relation, and the contract under which a state machine
  of the code refines it: every operation of the code, from a good state, is matched by
  a step of the specification with a label that fits the operation.
\<close>

inductive trace_of :: "('a \<Rightarrow> 'e \<Rightarrow> 'a \<Rightarrow> bool) \<Rightarrow> 'a \<Rightarrow> 'e list \<Rightarrow> 'a \<Rightarrow> bool" for step where
  trace_done: "trace_of step s [] s"
| trace_step: "step s e t \<Longrightarrow> trace_of step t es u \<Longrightarrow> trace_of step s (e # es) u"

inductive_cases trace_doneE [elim!]: "trace_of step s [] t"
inductive_cases trace_stepE [elim!]: "trace_of step s (e # es) t"

lemma trace_append: "trace_of step s es t \<Longrightarrow> trace_of step t fs u \<Longrightarrow> trace_of step s (es @ fs) u"
  by (induction rule: trace_of.induct) (auto intro: trace_step)

text \<open>An invariant of a trace may speak of the events so far.\<close>

lemma trace_invariant:
  assumes "trace_of step s es t" and "I pre s"
    and "\<And>pre s e t. I pre s \<Longrightarrow> step s e t \<Longrightarrow> I (pre @ [e]) t"
  shows "I (pre @ es) t"
  using assms(1,2)
proof (induction arbitrary: pre rule: trace_of.induct)
  case (trace_step s e t es u)
  from trace_step.IH [OF assms(3) [OF trace_step.prems trace_step.hyps(1)]] show ?case by simp
qed simp

locale refines =
  fixes good :: "'s \<Rightarrow> bool"
    and legal :: "'op \<Rightarrow> bool"
    and abs :: "'s \<Rightarrow> 'a"
    and exec :: "'op \<Rightarrow> 's \<Rightarrow> 's"
    and step :: "'a \<Rightarrow> 'e \<Rightarrow> 'a \<Rightarrow> bool"
    and fits :: "'op \<Rightarrow> 'e \<Rightarrow> bool"
  assumes simulates:
    "good s \<Longrightarrow> legal op \<Longrightarrow> good (exec op s) \<and> (\<exists>e. fits op e \<and> step (abs s) e (abs (exec op s)))"
begin

lemma run_good: "good s \<Longrightarrow> list_all legal ops \<Longrightarrow> good (fold exec ops s)"
  by (induction ops arbitrary: s) (simp_all add: simulates)

lemma run_refines:
  "good s \<Longrightarrow> list_all legal ops \<Longrightarrow>
     \<exists>es. list_all2 fits ops es \<and> trace_of step (abs s) es (abs (fold exec ops s))"
proof (induction ops arbitrary: s)
  case (Cons op ops)
  from simulates [OF Cons.prems(1), of op] Cons.prems(2) obtain e where
    e: "fits op e" "step (abs s) e (abs (exec op s))" and g: "good (exec op s)" by auto
  from Cons.IH [OF g] Cons.prems obtain es where
    "list_all2 fits ops es" "trace_of step (abs (exec op s)) es (abs (fold exec ops (exec op s)))" by auto
  with e show ?case by (auto intro!: exI [of _ "e # es"] trace_step)
qed (simp add: trace_done)

end

end
