(* ===== verification/Fake_Vault.thy ===== *)
theory Fake_Vault
  imports Py_Text Refinement
begin

text \<open>
  The Vault lifecycle server of the light test scenarios (\<open>molecule/resources/fake_vault_api.py\<close>):
  one handler per HTTP method over a JSON state file. The state file is the value it holds;
  the request log is the list of its lines. \<open>loads\<close> stands for what \<open>json.loads\<close> makes of
  the bytes of a body: nothing below rests on how it reads them.

  A handler that raises sends no response and has not written the state file. Which exception
  ends a request cannot be observed by the client. Requests are handled one at a time.
\<close>

section \<open>Python operations of the handlers\<close>

text \<open>\<open>v + 1\<close> for the numbers a state file holds here, and \<open>v >= w\<close> for numbers.\<close>

definition py_incr :: "py \<Rightarrow> exn + py" where
  "py_incr v = (case v of PInt i \<Rightarrow> Inr (PInt (i + 1)) | PBool b \<Rightarrow> Inr (PInt (if b then 2 else 1)) | _ \<Rightarrow> Inl TypeError)"

definition py_ge :: "py \<Rightarrow> py \<Rightarrow> exn + bool" where
  "py_ge v w = (case (num_of v, num_of w) of (Some a, Some b) \<Rightarrow> Inr (b \<le> a) | _ \<Rightarrow> Inl TypeError)"

text \<open>
  \<open>int(v)\<close>: a float is cut off towards zero, a string is read as a decimal numeral with
  an optional sign, blanks around it and single underscores between its digits (blanks and
  digits of ASCII).
\<close>

definition is_blank :: "char \<Rightarrow> bool" where
  "is_blank c \<longleftrightarrow> (28 \<le> byte c \<and> byte c \<le> 32) \<or> (9 \<le> byte c \<and> byte c \<le> (13 :: nat))"

definition strip_blanks :: "string \<Rightarrow> string" where
  "strip_blanks s = rev (dropWhile is_blank (rev (dropWhile is_blank s)))"

definition numeral_value :: "string \<Rightarrow> exn + int" where
  "numeral_value s =
     (let t = strip_blanks s;
          (neg, digits) = (case t of c # r \<Rightarrow> if c = CHR ''-'' then (True, r) else if c = CHR ''+'' then (False, r) else (False, t)
                           | [] \<Rightarrow> (False, t));
          groups = split_on (CHR ''_'') digits
      in if list_all (\<lambda>g. g \<noteq> [] \<and> list_all is_digit g) groups
         then bindE (int_digits (concat groups)) (\<lambda>n. Inr (if neg then - int n else int n))
         else Inl (ValueError ''int''))"

definition py_int :: "py \<Rightarrow> exn + int" where
  "py_int v = (case v of
     PInt i \<Rightarrow> Inr i
   | PBool b \<Rightarrow> Inr (if b then 1 else 0)
   | PFloat r _ \<Rightarrow> Inr (if 0 \<le> r then \<lfloor>r\<rfloor> else \<lceil>r\<rceil>)
   | PStr s \<Rightarrow> numeral_value s
   | _ \<Rightarrow> Inl TypeError)"

text \<open>\<open>d.setdefault(k, {})[j] = v\<close>\<close>

definition put_nested :: "string \<Rightarrow> string \<Rightarrow> py \<Rightarrow> py \<Rightarrow> exn + py" where
  "put_nested k j v d =
     bindE (py_get d k (PDict [])) (\<lambda>inner.
     bindE (py_put j v inner) (\<lambda>inner'.
     py_put k inner' d))"

text \<open>\<open>path.rsplit("/", 1)[-1]\<close> and \<open>sub in path\<close>\<close>

definition last_segment :: "string \<Rightarrow> string" where
  "last_segment path = last (split_on (CHR 0x2F) path)"

definition contains :: "string \<Rightarrow> string \<Rightarrow> bool" where
  "contains sub path \<longleftrightarrow> sublist sub path"

section \<open>Base64\<close>

definition b64_char :: "nat \<Rightarrow> char" where
  "b64_char n =
     (if n < 26 then char_of (65 + n) else if n < 52 then char_of (97 + (n - 26))
      else if n < 62 then char_of (48 + (n - 52)) else if n = 62 then CHR ''+'' else CHR 0x2F)"

definition b64_value :: "char \<Rightarrow> nat option" where
  "b64_value c =
     (let n = byte c in
      if 65 \<le> n \<and> n \<le> 90 then Some (n - 65) else if 97 \<le> n \<and> n \<le> 122 then Some (n - 97 + 26)
      else if 48 \<le> n \<and> n \<le> 57 then Some (n - 48 + 52) else if n = 43 then Some 62 else if n = 47 then Some 63 else None)"

fun b64encode :: "string \<Rightarrow> string" where
  "b64encode [] = []"
| "b64encode [a] = [b64_char (byte a div 4), b64_char (byte a mod 4 * 16), CHR ''='', CHR ''='']"
| "b64encode [a, b] =
     [b64_char (byte a div 4), b64_char (byte a mod 4 * 16 + byte b div 16), b64_char (byte b mod 16 * 4), CHR ''='']"
| "b64encode (a # b # c # r) =
     [b64_char (byte a div 4), b64_char (byte a mod 4 * 16 + byte b div 16),
      b64_char (byte b mod 16 * 4 + byte c div 64), b64_char (byte c mod 64)] @ b64encode r"

text \<open>
  The decoder discards bytes outside the alphabet, stops at complete padding and raises when
  a group is left unfinished. Its state is the position in the group, the bits left over from
  the last byte and the number of padding bytes seen since.
\<close>

fun b64_decode :: "nat \<Rightarrow> nat \<Rightarrow> nat \<Rightarrow> string \<Rightarrow> exn + string" where
  "b64_decode pos left pads [] = (if pos = 0 then Inr [] else Inl (ValueError ''padding''))"
| "b64_decode pos left pads (x # r) =
     (if x = CHR ''='' then
        (if 2 \<le> pos \<and> 4 \<le> pos + pads + 1 then Inr []
         else b64_decode pos left (if 2 \<le> pos then pads + 1 else pads) r)
      else (case b64_value x of
        None \<Rightarrow> b64_decode pos left pads r
      | Some v \<Rightarrow>
          if pos = 0 then b64_decode 1 v 0 r
          else if pos = 1 then bindE (b64_decode 2 (v mod 16) 0 r) (\<lambda>s. Inr (char_of (left * 4 + v div 16) # s))
          else if pos = 2 then bindE (b64_decode 3 (v mod 4) 0 r) (\<lambda>s. Inr (char_of (left * 16 + v div 4) # s))
          else bindE (b64_decode 0 0 0 r) (\<lambda>s. Inr (char_of (left * 64 + v) # s))))"

definition b64decode :: "py \<Rightarrow> exn + string" where
  "b64decode v = (case v of
     PStr s \<Rightarrow> if list_all (\<lambda>c. byte c < (128 :: nat)) s then b64_decode 0 0 0 s else Inl (ValueError ''ascii'')
   | _ \<Rightarrow> Inl TypeError)"

section \<open>Requests and responses\<close>

datatype http_method = GET | POST | PUT

record request =
  rq_method :: http_method
  rq_path :: string
  rq_token :: string
  rq_body :: string

datatype response = Json int py | Bytes int string

type_synonym handled = "exn + response \<times> py option"

abbreviation respond :: "int \<Rightarrow> (string \<times> py) list \<Rightarrow> handled" where
  "respond status kvs \<equiv> Inr (Json status (PDict kvs), None)"

abbreviation written :: "int \<Rightarrow> (string \<times> py) list \<Rightarrow> py \<Rightarrow> handled" where
  "written status kvs state \<equiv> Inr (Json status (PDict kvs), Some state)"

definition errors :: "int \<Rightarrow> string \<Rightarrow> handled" where
  "errors status message = respond status [(''errors'', PList [PStr message])]"

abbreviation denied :: handled where "denied \<equiv> errors 403 ''permission denied''"

abbreviation not_found :: handled where "not_found \<equiv> errors 404 ''not found''"

text \<open>\<open>token_policies\<close> and \<open>is_root\<close>\<close>

definition token_policies :: "string \<Rightarrow> py \<Rightarrow> exn + py list" where
  "token_policies token state =
     bindE (py_get state ''root_token'' (PStr ''molecule-root-token-fixture'')) (\<lambda>root_token.
     bindE (py_get state ''scoped_token'' (PStr ''molecule-scoped-token-fixture'')) (\<lambda>scoped_token.
     bindE (py_get state ''root_token_active'' (PBool True)) (\<lambda>active.
     bindE (py_get state ''policy_name'' (PStr ''molecule-automation'')) (\<lambda>policy_name.
     Inr (if py_eq root_token (PStr token) \<and> py_truth active then [PStr ''root'']
          else if py_eq scoped_token (PStr token) then [policy_name] else [])))))"

definition is_root :: "string \<Rightarrow> py \<Rightarrow> exn + bool" where
  "is_root token state = bindE (token_policies token state) (\<lambda>ps. Inr (list_ex (\<lambda>p. py_eq p (PStr ''root'')) ps))"

text \<open>\<open>if not self.require_root(state): return\<close>, and the same for any policy at all.\<close>

definition with_root :: "request \<Rightarrow> py \<Rightarrow> handled \<Rightarrow> handled" where
  "with_root rq state k = bindE (is_root (rq_token rq) state) (\<lambda>root. if root then k else denied)"

definition with_token :: "request \<Rightarrow> py \<Rightarrow> (py list \<Rightarrow> handled) \<Rightarrow> handled" where
  "with_token rq state k = bindE (token_policies (rq_token rq) state) (\<lambda>ps. if ps = [] then denied else k ps)"

text \<open>\<open>state.get(table, {}).get(name)\<close>, answered with 404 when there is no such entry.\<close>

definition lookup_entry :: "string \<Rightarrow> string \<Rightarrow> py \<Rightarrow> (py \<Rightarrow> handled) \<Rightarrow> handled" where
  "lookup_entry table name state k =
     bindE (py_get state table (PDict [])) (\<lambda>entries.
     bindE (py_get entries name PNone) (\<lambda>entry.
     if entry = PNone then not_found else k entry))"

section \<open>The handlers\<close>

definition default_snapshot :: string where
  "default_snapshot = ''molecule-raft-snapshot'' @ [newline]"

definition do_GET :: "request \<Rightarrow> py \<Rightarrow> handled" where
  "do_GET rq state =
     (let path = rq_path rq in
      if path = ''/v1/sys/health'' then
        bindE (py_index state ''sealed'') (\<lambda>sealed.
        bindE (py_index state ''initialized'') (\<lambda>initialized.
        bindE (py_get state ''cluster_id'' (PStr ''molecule-cluster-id'')) (\<lambda>cluster.
        respond (if py_truth sealed then 503 else 200)
          [(''initialized'', initialized), (''sealed'', sealed), (''cluster_id'', cluster)])))
      else if path = ''/v1/sys/init'' then
        bindE (py_index state ''initialized'') (\<lambda>initialized. respond 200 [(''initialized'', initialized)])
      else if path = ''/v1/sys/seal-status'' then
        bindE (py_index state ''initialized'') (\<lambda>initialized.
        bindE (py_index state ''sealed'') (\<lambda>sealed.
        bindE (py_index state ''threshold'') (\<lambda>t.
        bindE (py_index state ''progress'') (\<lambda>progress.
        respond 200 [(''initialized'', initialized), (''sealed'', sealed), (''t'', t), (''progress'', progress)]))))
      else if path = ''/v1/auth/token/lookup-self'' then
        with_token rq state (\<lambda>policies. respond 200 [(''data'', PDict [(''policies'', PList policies)])])
      else if path = ''/v1/sys/mounts'' then
        with_root rq state (bindE (py_get state ''mounts'' (PDict [])) (\<lambda>mounts. respond 200 [(''data'', mounts)]))
      else if path = ''/v1/sys/auth'' then
        with_root rq state (bindE (py_get state ''auth_methods'' (PDict [])) (\<lambda>methods. respond 200 [(''data'', methods)]))
      else if prefix ''/v1/sys/policies/acl/'' path then
        with_root rq state (lookup_entry ''policies'' (last_segment path) state (\<lambda>policy.
          respond 200 [(''data'', PDict [(''policy'', policy)])]))
      else if contains ''/role/'' path \<and> suffix ''/role-id'' path then
        with_root rq state (bindE (py_get state ''role_id'' (PStr ''molecule-role-id-fixture'')) (\<lambda>role_id.
          respond 200 [(''data'', PDict [(''role_id'', role_id)])]))
      else if contains ''/role/'' path then
        with_root rq state (lookup_entry ''roles'' (last_segment path) state (\<lambda>role. respond 200 [(''data'', role)]))
      else if path = ''/v1/sys/storage/raft/snapshot'' then
        with_token rq state (\<lambda>_.
          bindE (py_get state ''snapshot_b64'' (PStr (b64encode default_snapshot))) (\<lambda>encoded.
          bindE (b64decode encoded) (\<lambda>snapshot. Inr (Bytes 200 snapshot, None))))
      else if prefix ''/v1/'' path \<and> contains ''/data/'' path then
        with_token rq state (\<lambda>_. lookup_entry ''kv_documents'' (drop 4 path) state (\<lambda>document.
          respond 200 [(''data'', PDict [(''data'', document)])]))
      else not_found)"

text \<open>\<open>read_json_body\<close>\<close>

definition json_body :: "(string \<Rightarrow> exn + py) \<Rightarrow> request \<Rightarrow> exn + py" where
  "json_body loads rq = loads (if rq_body rq = [] then ''{}'' else rq_body rq)"

text \<open>The branch of the forced restore: an undecodable snapshot is answered, not raised.\<close>

definition restore_snapshot :: "(string \<Rightarrow> exn + py) \<Rightarrow> request \<Rightarrow> py \<Rightarrow> handled" where
  "restore_snapshot loads rq state =
     with_root rq state (case loads (rq_body rq) of
       Inl (ValueError _) \<Rightarrow> errors 400 ''invalid test snapshot''
     | Inl e \<Rightarrow> Inl e
     | Inr restored \<Rightarrow>
         bindE (py_update
           [(''initialized'', PBool True), (''sealed'', PBool True), (''progress'', PInt 0),
            (''root_token_active'', PBool True), (''snapshot_b64'', PStr (b64encode (rq_body rq)))] restored) (\<lambda>restored'.
         written 204 [] restored'))"

definition init_vault :: "py \<Rightarrow> py \<Rightarrow> handled" where
  "init_vault payload state =
     bindE (py_index state ''initialized'') (\<lambda>initialized.
     if py_truth initialized then errors 400 ''already initialized''
     else
       bindE (bindE (py_get payload ''secret_threshold'' (PInt 1)) py_int) (\<lambda>threshold.
       bindE (py_update
         [(''initialized'', PBool True), (''sealed'', PBool True), (''threshold'', PInt threshold),
          (''progress'', PInt 0), (''cluster_id'', PStr ''molecule-ephemeral-cluster-id''),
          (''root_token'', PStr ''molecule-ephemeral-root-token''), (''root_token_active'', PBool True)] state) (\<lambda>state'.
       bindE (py_index state' ''root_token'') (\<lambda>root_token.
       written 200 [(''keys_base64'', PList [PStr ''molecule-ephemeral-unseal-key'']), (''root_token'', root_token)] state'))))"

definition unseal_vault :: "py \<Rightarrow> handled" where
  "unseal_vault state =
     bindE (bindE (py_index state ''progress'') py_incr) (\<lambda>progress.
     bindE (py_put ''progress'' progress state) (\<lambda>state1.
     bindE (py_index state1 ''threshold'') (\<lambda>threshold.
     bindE (py_ge progress threshold) (\<lambda>enough.
     bindE (if enough then py_update [(''sealed'', PBool False), (''progress'', PInt 0)] state1 else Inr state1) (\<lambda>state2.
     bindE (py_index state2 ''sealed'') (\<lambda>sealed.
     bindE (py_index state2 ''progress'') (\<lambda>progress2.
     written 200 [(''sealed'', sealed), (''t'', threshold), (''progress'', progress2)] state2)))))))"

text \<open>\<open>self.path == "/v1/sys/unseal" and state["sealed"] and payload.get("key")\<close>\<close>

definition wants_unseal :: "string \<Rightarrow> py \<Rightarrow> py \<Rightarrow> exn + bool" where
  "wants_unseal path payload state =
     (if path \<noteq> ''/v1/sys/unseal'' then Inr False
      else bindE (py_index state ''sealed'') (\<lambda>sealed.
           if \<not> py_truth sealed then Inr False
           else bindE (py_get payload ''key'' PNone) (\<lambda>key. Inr (py_truth key))))"

definition enable_mount :: "request \<Rightarrow> py \<Rightarrow> py \<Rightarrow> handled" where
  "enable_mount rq payload state =
     with_root rq state
       (bindE (py_get payload ''type'' (PStr ''kv'')) (\<lambda>kind.
        bindE (py_get payload ''options'' (PDict [])) (\<lambda>options.
        bindE (put_nested ''mounts'' (last_segment (rq_path rq) @ ''/'')
                 (PDict [(''type'', kind), (''options'', options)]) state) (\<lambda>state'.
        written 204 [] state'))))"

definition enable_auth :: "request \<Rightarrow> py \<Rightarrow> py \<Rightarrow> handled" where
  "enable_auth rq payload state =
     with_root rq state
       (bindE (py_get payload ''type'' (PStr ''approle'')) (\<lambda>kind.
        bindE (put_nested ''auth_methods'' (last_segment (rq_path rq) @ ''/'') (PDict [(''type'', kind)]) state) (\<lambda>state'.
        written 204 [] state')))"

definition login :: "py \<Rightarrow> py \<Rightarrow> handled" where
  "login payload state =
     bindE (py_get payload ''role_id'' PNone) (\<lambda>role_id.
     bindE (py_get state ''role_id'' (PStr ''molecule-role-id-fixture'')) (\<lambda>expected_role.
     bindE (py_get payload ''secret_id'' PNone) (\<lambda>secret_id.
     bindE (py_get state ''secret_id'' (PStr ''molecule-secret-id-fixture'')) (\<lambda>expected_secret.
     if \<not> py_eq role_id expected_role \<or> \<not> py_eq secret_id expected_secret
     then errors 403 ''invalid credentials''
     else
       bindE (py_get state ''policy_name'' (PStr ''molecule-automation'')) (\<lambda>policy_name.
       bindE (py_get state ''scoped_token'' (PStr ''molecule-scoped-token-fixture'')) (\<lambda>scoped_token.
       bindE (py_get state ''token_ttl'' (PInt 1200)) (\<lambda>ttl.
       respond 200 [(''auth'', PDict
         [(''client_token'', scoped_token), (''token_policies'', PList [policy_name]), (''lease_duration'', ttl)])])))))))"

text \<open>
  The keys of the answer are the requested paths; a scalar that is no string is looked up in
  vain and printed as the JSON key it becomes.
\<close>

fun json_key :: "py \<Rightarrow> exn + string" where
  "json_key (PStr s) = Inr s"
| "json_key PNone = Inr ''null''"
| "json_key (PBool b) = Inr (if b then ''true'' else ''false'')"
| "json_key (PInt i) = Inr (dec_int i)"
| "json_key (PFloat r s) = Inr s"
| "json_key _ = Inl TypeError"

definition capabilities_self :: "py \<Rightarrow> py \<Rightarrow> handled" where
  "capabilities_self payload state =
     bindE (py_get state ''capabilities'' (PDict [])) (\<lambda>capabilities.
     bindE (bindE (py_get payload ''paths'' (PList [])) py_elements) (\<lambda>paths.
     bindE (foldE (\<lambda>answer path.
              bindE (json_key path) (\<lambda>key.
              bindE (if is_str path then py_get capabilities key (PList [PStr ''deny''])
                     else bindE (py_get capabilities '''' PNone) (\<lambda>_. Inr (PList [PStr ''deny'']))) (\<lambda>v.
              Inr (dict_put key v answer)))) [] paths) (\<lambda>answer.
     respond 200 answer)))"

definition define_role :: "request \<Rightarrow> py \<Rightarrow> py \<Rightarrow> handled" where
  "define_role rq payload state =
     with_root rq state
       (bindE (py_get state ''token_ttl'' (PInt 1200)) (\<lambda>ttl.
        bindE (py_get state ''token_max_ttl'' (PInt 3600)) (\<lambda>max_ttl.
        bindE (py_update [(''token_ttl'', ttl), (''token_max_ttl'', max_ttl)] payload) (\<lambda>role.
        bindE (put_nested ''roles'' (last_segment (rq_path rq)) role state) (\<lambda>state1.
        bindE (bindE (py_get payload ''token_policies'' (PList [PStr ''molecule-automation''])) py_first) (\<lambda>policy_name.
        bindE (py_put ''policy_name'' policy_name state1) (\<lambda>state2.
        written 204 [] state2)))))))"

definition post_json :: "request \<Rightarrow> py \<Rightarrow> py \<Rightarrow> handled" where
  "post_json rq payload state =
     (let path = rq_path rq in
      if path = ''/v1/sys/init'' then init_vault payload state
      else bindE (wants_unseal path payload state) (\<lambda>unseal.
        if unseal then unseal_vault state
        else if prefix ''/v1/sys/mounts/'' path then enable_mount rq payload state
        else if prefix ''/v1/sys/auth/'' path then enable_auth rq payload state
        else if suffix ''/secret-id'' path then
          with_root rq state (bindE (py_get state ''secret_id'' (PStr ''molecule-secret-id-fixture'')) (\<lambda>secret_id.
            respond 200 [(''data'', PDict [(''secret_id'', secret_id)])]))
        else if suffix ''/login'' path then login payload state
        else if path = ''/v1/sys/capabilities-self'' then
          with_token rq state (\<lambda>_. capabilities_self payload state)
        else if path = ''/v1/auth/token/revoke-self'' then
          with_root rq state (bindE (py_put ''root_token_active'' (PBool False) state) (\<lambda>state'. written 204 [] state'))
        else if contains ''/role/'' path then define_role rq payload state
        else not_found))"

definition do_POST :: "(string \<Rightarrow> exn + py) \<Rightarrow> request \<Rightarrow> py \<Rightarrow> handled" where
  "do_POST loads rq state =
     (if rq_path rq = ''/v1/sys/storage/raft/snapshot-force'' then restore_snapshot loads rq state
      else bindE (json_body loads rq) (\<lambda>payload. post_json rq payload state))"

definition do_PUT :: "(string \<Rightarrow> exn + py) \<Rightarrow> request \<Rightarrow> py \<Rightarrow> handled" where
  "do_PUT loads rq state =
     bindE (json_body loads rq) (\<lambda>payload.
     if prefix ''/v1/sys/policies/acl/'' (rq_path rq) then
       with_root rq state
         (bindE (py_get payload ''policy'' (PStr '''')) (\<lambda>policy.
          bindE (put_nested ''policies'' (last_segment (rq_path rq)) policy state) (\<lambda>state1.
          bindE (py_put ''policy_name'' (PStr (last_segment (rq_path rq))) state1) (\<lambda>state2.
          written 204 [] state2))))
     else not_found)"

section \<open>The server\<close>

record vault =
  vt_state :: py
  vt_log :: "string list"

fun method_name :: "http_method \<Rightarrow> string" where
  "method_name GET = ''GET''"
| "method_name POST = ''POST''"
| "method_name PUT = ''PUT''"

definition log_line :: "request \<Rightarrow> string" where
  "log_line rq = method_name (rq_method rq) @ '' '' @ rq_path rq @ [newline]"

definition dispatch :: "(string \<Rightarrow> exn + py) \<Rightarrow> request \<Rightarrow> py \<Rightarrow> handled" where
  "dispatch loads rq state = (case rq_method rq of
     GET \<Rightarrow> do_GET rq state | POST \<Rightarrow> do_POST loads rq state | PUT \<Rightarrow> do_PUT loads rq state)"

text \<open>One request: it is logged first; the state file is replaced at the end, if at all.\<close>

definition serve :: "(string \<Rightarrow> exn + py) \<Rightarrow> request \<Rightarrow> vault \<Rightarrow> (exn + response) \<times> vault" where
  "serve loads rq v =
     (let v' = v\<lparr>vt_log := vt_log v @ [log_line rq]\<rparr> in
      case dispatch loads rq (vt_state v) of
        Inl e \<Rightarrow> (Inl e, v')
      | Inr (response, None) \<Rightarrow> (Inr response, v')
      | Inr (response, Some state) \<Rightarrow> (Inr response, v'\<lparr>vt_state := state\<rparr>))"

lemmas [run_simps] = py_incr_def py_ge_def is_blank_def strip_blanks_def numeral_value_def py_int_def
  put_nested_def last_segment_def contains_def errors_def token_policies_def is_root_def
  with_root_def with_token_def lookup_entry_def do_GET_def json_body_def restore_snapshot_def init_vault_def
  unseal_vault_def wants_unseal_def enable_mount_def enable_auth_def login_def capabilities_self_def
  define_role_def post_json_def do_POST_def do_PUT_def log_line_def dispatch_def serve_def b64decode_def

section \<open>Base64 decoding inverts encoding\<close>

lemma b64_value_char: "n < 64 \<Longrightarrow> b64_value (b64_char n) = Some n"
  by (auto simp: b64_value_def b64_char_def Let_def)

lemma b64_char_not_pad: "n < 64 \<Longrightarrow> b64_char n \<noteq> CHR ''=''"
proof
  assume "n < 64" and "b64_char n = CHR ''=''"
  with b64_value_char [of n] have "b64_value (CHR ''='') = Some n" by simp
  then show False by (simp add: b64_value_def)
qed

lemma b64_char_ascii: "n < 64 \<Longrightarrow> byte (b64_char n) < (128 :: nat)"
  by (auto simp: b64_char_def)

lemma b64_decode_step:
  "n < 64 \<Longrightarrow> b64_decode 0 left pads (b64_char n # r) = b64_decode 1 n 0 r"
  "n < 64 \<Longrightarrow> b64_decode (Suc 0) left pads (b64_char n # r)
     = bindE (b64_decode 2 (n mod 16) 0 r) (\<lambda>s. Inr (char_of (left * 4 + n div 16) # s))"
  "n < 64 \<Longrightarrow> b64_decode 2 left pads (b64_char n # r)
     = bindE (b64_decode 3 (n mod 4) 0 r) (\<lambda>s. Inr (char_of (left * 16 + n div 4) # s))"
  "n < 64 \<Longrightarrow> b64_decode 3 left pads (b64_char n # r)
     = bindE (b64_decode 0 0 0 r) (\<lambda>s. Inr (char_of (left * 64 + n) # s))"
  by (simp_all add: b64_value_char b64_char_not_pad)

lemma sextets:
  "byte a div 4 < (64 :: nat)" "byte a mod 4 * 16 + byte b div 16 < (64 :: nat)"
  "byte b mod 16 * 4 + byte c div 64 < (64 :: nat)" "byte c mod 64 < (64 :: nat)"
  using byte_less [of a] byte_less [of b] byte_less [of c] by linarith+

lemma sextets_end: "byte a mod 4 * 16 < (64 :: nat)" "byte a mod 16 * 4 < (64 :: nat)"
  by linarith+

lemma sextets_join:
  fixes a b c :: nat
  assumes "b < 256" "c < 256"
  shows "a div 4 * 4 + (a mod 4 * 16 + b div 16) div 16 = a" "a div 4 * 4 + a mod 4 * 16 div 16 = a"
    "(a mod 4 * 16 + b div 16) mod 16 * 16 + (b mod 16 * 4 + c div 64) div 4 = b"
    "(a mod 4 * 16 + b div 16) mod 16 * 16 + b mod 16 * 4 div 4 = b"
    "(b mod 16 * 4 + c div 64) mod 4 * 64 + c mod 64 = c"
proof -
  have q: "b div 16 < 16" "c div 64 < 4" using assms by linarith+
  then have r: "(a mod 4 * 16 + b div 16) div 16 = a mod 4" "(a mod 4 * 16 + b div 16) mod 16 = b div 16"
    "(b mod 16 * 4 + c div 64) div 4 = b mod 16" "(b mod 16 * 4 + c div 64) mod 4 = c div 64"
    by simp_all
  have s: "a mod 4 * 16 div 16 = a mod 4" "b mod 16 * 4 div 4 = b mod 16" by simp_all
  show "a div 4 * 4 + (a mod 4 * 16 + b div 16) div 16 = a" "a div 4 * 4 + a mod 4 * 16 div 16 = a"
    "(a mod 4 * 16 + b div 16) mod 16 * 16 + (b mod 16 * 4 + c div 64) div 4 = b"
    "(a mod 4 * 16 + b div 16) mod 16 * 16 + b mod 16 * 4 div 4 = b"
    "(b mod 16 * 4 + c div 64) mod 4 * 64 + c mod 64 = c"
    unfolding r s by (rule div_mult_mod_eq)+
qed

lemma group_bytes:
  "char_of (byte a div 4 * 4 + (byte a mod 4 * 16 + byte b div 16) div 16 :: nat) = a"
  "char_of (byte a div 4 * 4 + byte a mod 4 * 16 div 16 :: nat) = a"
  "char_of ((byte a mod 4 * 16 + byte b div 16) mod 16 * 16 + (byte b mod 16 * 4 + byte c div 64) div 4 :: nat) = b"
  "char_of ((byte a mod 4 * 16 + byte b div 16) mod 16 * 16 + byte b mod 16 * 4 div 4 :: nat) = b"
  "char_of ((byte b mod 16 * 4 + byte c div 64) mod 4 * 64 + byte c mod 64 :: nat) = c"
  by (simp_all only: sextets_join [OF byte_less byte_less] char_of_char)

lemma b64_decode_pad:
  "b64_decode 0 left pads [] = Inr []" "b64_decode 2 left pads ''=='' = Inr []" "b64_decode 3 left pads ''='' = Inr []"
  by simp_all

lemma b64_decode_encode: "b64_decode 0 left pads (b64encode s) = Inr s"
proof (induction s arbitrary: left pads rule: b64encode.induct)
  case (4 a b c r)
  then show ?case
    by (simp only: b64encode.simps append.simps b64_decode_step sextets bindE_simps group_bytes One_nat_def)
qed (simp_all only: b64encode.simps b64_decode_step sextets sextets_end bindE_simps group_bytes One_nat_def
    b64_decode_pad)

lemma b64encode_ascii: "list_all (\<lambda>c. byte c < (128 :: nat)) (b64encode s)"
proof (induction s rule: b64encode.induct)
  case (2 a)
  have "byte a mod 4 * 16 < (64 :: nat)" by auto
  then show ?case by (simp add: b64_char_ascii sextets)
next
  case (3 a b)
  have "byte b mod 16 * 4 < (64 :: nat)" by auto
  then show ?case by (simp add: b64_char_ascii sextets)
qed (simp_all add: b64_char_ascii sextets)

lemma b64_roundtrip [simp]: "b64decode (PStr (b64encode s)) = Inr s"
  by (simp add: b64decode_def b64encode_ascii b64_decode_encode)

section \<open>What changes the state file\<close>

lemma with_root_eq_Inr:
  "with_root rq state k = Inr r \<longleftrightarrow>
     (is_root (rq_token rq) state = Inr True \<and> k = Inr r) \<or> (is_root (rq_token rq) state = Inr False \<and> denied = Inr r)"
  by (auto simp: with_root_def bindE_eq_Inr split: if_splits)

lemma with_token_eq_Inr:
  "with_token rq state k = Inr r \<longleftrightarrow>
     (\<exists>ps. token_policies (rq_token rq) state = Inr ps \<and> (if ps = [] then denied = Inr r else k ps = Inr r))"
  by (auto simp: with_token_def bindE_eq_Inr)

lemma lookup_entry_eq_Inr:
  "lookup_entry table name state k = Inr r \<longleftrightarrow>
     (\<exists>entries entry. py_get state table (PDict []) = Inr entries \<and> py_get entries name PNone = Inr entry
        \<and> (if entry = PNone then not_found = Inr r else k entry = Inr r))"
  by (auto simp: lookup_entry_def bindE_eq_Inr)

lemmas handler_results = with_root_eq_Inr with_token_eq_Inr lookup_entry_eq_Inr bindE_eq_Inr errors_def

lemma do_GET_reads: "do_GET rq state = Inr (response, w) \<Longrightarrow> w = None"
  by (auto simp: do_GET_def Let_def handler_results split: if_splits)

text \<open>The three ways past the root check: initialising, unsealing and nothing else.\<close>

lemma post_json_writes:
  assumes "post_json rq payload state = Inr (response, Some state')"
  shows "is_root (rq_token rq) state = Inr True
    \<or> rq_path rq = ''/v1/sys/init'' \<and> init_vault payload state = Inr (response, Some state')
    \<or> rq_path rq = ''/v1/sys/unseal'' \<and> wants_unseal (rq_path rq) payload state = Inr True
        \<and> unseal_vault state = Inr (response, Some state')"
  using assms
  by (auto simp: post_json_def Let_def wants_unseal_def handler_results enable_mount_def enable_auth_def login_def
      capabilities_self_def define_role_def split: if_splits)

lemma dispatch_writes:
  assumes "dispatch loads rq state = Inr (response, Some state')"
  shows "is_root (rq_token rq) state = Inr True
    \<or> rq_method rq = POST \<and> (\<exists>payload. json_body loads rq = Inr payload \<and>
        (rq_path rq = ''/v1/sys/init'' \<and> init_vault payload state = Inr (response, Some state')
         \<or> rq_path rq = ''/v1/sys/unseal'' \<and> wants_unseal (rq_path rq) payload state = Inr True
             \<and> unseal_vault state = Inr (response, Some state')))"
  using assms
  by (auto simp: dispatch_def do_POST_def do_PUT_def restore_snapshot_def handler_results
      dest: do_GET_reads post_json_writes split: http_method.splits if_splits)

section \<open>The life cycle\<close>

definition lifecycle_keys :: "string list" where
  "lifecycle_keys = [''initialized'', ''sealed'', ''threshold'', ''progress'']"

definition untouched :: "py \<Rightarrow> py \<Rightarrow> bool" where
  "untouched state state' \<longleftrightarrow> is_dict state \<and> is_dict state' \<and>
     (\<forall>k \<in> set lifecycle_keys. get_or state' k PNone = get_or state k PNone)"

lemma untouched_trans: "untouched a b \<Longrightarrow> untouched b c \<Longrightarrow> untouched a c"
  by (auto simp: untouched_def)

lemma py_put_untouched: "py_put k v d = Inr d' \<Longrightarrow> k \<notin> set lifecycle_keys \<Longrightarrow> untouched d d'"
  by (cases d) (auto simp: py_put_def untouched_def get_or_put)

lemma put_nested_untouched: "put_nested k j v d = Inr d' \<Longrightarrow> k \<notin> set lifecycle_keys \<Longrightarrow> untouched d d'"
  by (auto simp: put_nested_def bindE_eq_Inr dest: py_put_untouched)

text \<open>The keys the other handlers write are none of the four.\<close>

lemma other_keys:
  "''mounts'' \<notin> set lifecycle_keys" "''auth_methods'' \<notin> set lifecycle_keys" "''roles'' \<notin> set lifecycle_keys"
  "''policies'' \<notin> set lifecycle_keys" "''policy_name'' \<notin> set lifecycle_keys" "''root_token_active'' \<notin> set lifecycle_keys"
  by (simp_all add: lifecycle_keys_def)

lemma handlers_untouched:
  "enable_mount rq payload state = Inr (response, Some state') \<Longrightarrow> untouched state state'"
  "enable_auth rq payload state = Inr (response, Some state') \<Longrightarrow> untouched state state'"
  "define_role rq payload state = Inr (response, Some state') \<Longrightarrow> untouched state state'"
  "do_PUT loads rq state = Inr (response, Some state') \<Longrightarrow> untouched state state'"
proof -
  show "enable_mount rq payload state = Inr (response, Some state') \<Longrightarrow> untouched state state'"
    by (auto simp: enable_mount_def handler_results intro: put_nested_untouched [OF _ other_keys(1)])
  show "enable_auth rq payload state = Inr (response, Some state') \<Longrightarrow> untouched state state'"
    by (auto simp: enable_auth_def handler_results intro: put_nested_untouched [OF _ other_keys(2)])
  show "define_role rq payload state = Inr (response, Some state') \<Longrightarrow> untouched state state'"
    by (auto simp: define_role_def handler_results
        intro: untouched_trans [OF put_nested_untouched [OF _ other_keys(3)] py_put_untouched [OF _ other_keys(5)]])
  show "do_PUT loads rq state = Inr (response, Some state') \<Longrightarrow> untouched state state'"
    by (auto simp: do_PUT_def handler_results split: if_splits
        intro: untouched_trans [OF put_nested_untouched [OF _ other_keys(4)] py_put_untouched [OF _ other_keys(5)]])
qed

lemma post_json_fields:
  assumes "post_json rq payload state = Inr (response, Some state')"
  shows "untouched state state'
    \<or> rq_path rq = ''/v1/sys/init'' \<and> init_vault payload state = Inr (response, Some state')
    \<or> rq_path rq = ''/v1/sys/unseal'' \<and> wants_unseal (rq_path rq) payload state = Inr True
        \<and> unseal_vault state = Inr (response, Some state')"
  using assms
  by (auto simp: post_json_def Let_def handler_results login_def capabilities_self_def wants_unseal_def
      dest: handlers_untouched py_put_untouched [OF _ other_keys(6)] split: if_splits)

text \<open>The abstract life cycle: what an operator has to know of a seal.\<close>

record seal =
  sl_initialized :: bool
  sl_sealed :: bool
  sl_threshold :: int
  sl_progress :: int

datatype seal_event = Initialise int | Share | Restore int | Other

inductive seal_step :: "seal \<Rightarrow> seal_event \<Rightarrow> seal \<Rightarrow> bool" where
  initialise: "\<not> sl_initialized s \<Longrightarrow>
    seal_step s (Initialise t) \<lparr>sl_initialized = True, sl_sealed = True, sl_threshold = t, sl_progress = 0\<rparr>"
| share: "sl_sealed s \<Longrightarrow> sl_progress s + 1 < sl_threshold s \<Longrightarrow>
    seal_step s Share (s\<lparr>sl_progress := sl_progress s + 1\<rparr>)"
| open_seal: "sl_sealed s \<Longrightarrow> sl_threshold s \<le> sl_progress s + 1 \<Longrightarrow>
    seal_step s Share (s\<lparr>sl_sealed := False, sl_progress := 0\<rparr>)"
| restore: "seal_step s (Restore t) \<lparr>sl_initialized = True, sl_sealed = True, sl_threshold = t, sl_progress = 0\<rparr>"
| other: "seal_step s Other s"

inductive_cases seal_stepE: "seal_step s e t"

definition vault_ok :: "py \<Rightarrow> bool" where
  "vault_ok state \<longleftrightarrow> is_dict state \<and>
     is_bool (get_or state ''initialized'' PNone) \<and> is_bool (get_or state ''sealed'' PNone) \<and>
     is_int (get_or state ''threshold'' PNone) \<and> is_int (get_or state ''progress'' PNone)"

definition lifecycle :: "py \<Rightarrow> seal" where
  "lifecycle state =
     \<lparr>sl_initialized = py_truth (get_or state ''initialized'' PNone), sl_sealed = py_truth (get_or state ''sealed'' PNone),
      sl_threshold = the_int (get_or state ''threshold'' PNone), sl_progress = the_int (get_or state ''progress'' PNone)\<rparr>"

lemma untouched_lifecycle: "untouched state state' \<Longrightarrow> lifecycle state' = lifecycle state \<and> (vault_ok state \<longrightarrow> vault_ok state')"
  by (auto simp: untouched_def lifecycle_keys_def lifecycle_def vault_ok_def)

lemma init_vault_refines:
  assumes "init_vault payload state = Inr (response, Some state')"
  shows "vault_ok state' \<and> (\<exists>t. seal_step (lifecycle state) (Initialise t) (lifecycle state'))"
proof -
  from assms obtain t i where i: "py_index state ''initialized'' = Inr i" "\<not> py_truth i"
    and s: "is_dict state" "state' = PDict (dict_update (the_items state)
      [(''initialized'', PBool True), (''sealed'', PBool True), (''threshold'', PInt t),
       (''progress'', PInt 0), (''cluster_id'', PStr ''molecule-ephemeral-cluster-id''),
       (''root_token'', PStr ''molecule-ephemeral-root-token''), (''root_token_active'', PBool True)])"
    by (auto simp: init_vault_def bindE_eq_Inr py_update_eq_Inr errors_def simp del: dict_update_simps split: if_splits)
  have "lifecycle state' = \<lparr>sl_initialized = True, sl_sealed = True, sl_threshold = t, sl_progress = 0\<rparr>" "vault_ok state'"
    by (simp_all add: s(2) lifecycle_def vault_ok_def get_or_put)
  moreover have "\<not> sl_initialized (lifecycle state)" using i py_index_get_or [OF i(1)] by (simp add: lifecycle_def)
  ultimately show ?thesis using initialise by metis
qed

lemma unseal_vault_refines:
  assumes u: "unseal_vault state = Inr (response, Some state')" and ok: "vault_ok state"
    and sealed: "py_truth (get_or state ''sealed'' PNone)"
  shows "vault_ok state' \<and> seal_step (lifecycle state) Share (lifecycle state')"
proof -
  from ok obtain t p where v: "is_dict state" "get_or state ''threshold'' PNone = PInt t" "get_or state ''progress'' PNone = PInt p"
    by (auto simp: vault_ok_def is_int_iff)
  have d: "get_or (PDict (the_items state)) k x = get_or state k x" for k x by (simp add: get_or_def)
  let ?s1 = "PDict (dict_put ''progress'' (PInt (p + 1)) (the_items state))"
  from u obtain prog prog' s1 thr enough where ix: "py_index state ''progress'' = Inr prog" "py_incr prog = Inr prog'"
    and s1: "py_put ''progress'' prog' state = Inr s1" "py_index s1 ''threshold'' = Inr thr" "py_ge prog' thr = Inr enough"
    and fin: "(if enough then py_update [(''sealed'', PBool False), (''progress'', PInt 0)] s1 else Inr s1) = Inr state'"
    by (auto simp: unseal_vault_def bindE_eq_Inr)
  from py_index_get_or [OF ix(1), of PNone] v ix(2) have prog': "prog' = PInt (p + 1)" by (auto simp: py_incr_def)
  with s1(1) have e1: "s1 = ?s1" by (simp add: py_put_eq_Inr)
  from py_index_get_or [OF s1(2), of PNone] v have "thr = PInt t" by (simp add: e1 get_or_put d)
  with s1(3) have "enough \<longleftrightarrow> (of_int t :: rat) \<le> of_int (p + 1)" by (auto simp: py_ge_def prog')
  then have "enough \<longleftrightarrow> t \<le> p + 1" by (simp only: of_int_le_iff)
  with fin e1 have s': "state' = (if t \<le> p + 1 then PDict (dict_update (the_items ?s1) [(''sealed'', PBool False), (''progress'', PInt 0)])
      else ?s1)"
    by (simp add: py_update_eq_Inr del: dict_update_simps split: if_splits)
  show ?thesis
  proof (cases "t \<le> p + 1")
    case True
    with s' have "lifecycle state' = (lifecycle state)\<lparr>sl_sealed := False, sl_progress := 0\<rparr>"
      by (simp add: lifecycle_def get_or_put d)
    moreover have "vault_ok state'" using s' True ok by (simp add: vault_ok_def get_or_put d)
    ultimately show ?thesis using open_seal [of "lifecycle state"] True sealed v by (simp add: lifecycle_def)
  next
    case False
    with s' v have "lifecycle state' = (lifecycle state)\<lparr>sl_progress := sl_progress (lifecycle state) + 1\<rparr>"
      by (simp add: lifecycle_def get_or_put d)
    moreover have "vault_ok state'" using s' False ok by (simp add: vault_ok_def get_or_put d)
    ultimately show ?thesis using share [of "lifecycle state"] False sealed v by (simp add: lifecycle_def)
  qed
qed

text \<open>A snapshot to restore has to bring an unseal threshold along.\<close>

definition complete_snapshot :: "(string \<Rightarrow> exn + py) \<Rightarrow> request \<Rightarrow> bool" where
  "complete_snapshot loads rq \<longleftrightarrow> rq_method rq = POST \<and> rq_path rq = ''/v1/sys/storage/raft/snapshot-force'' \<longrightarrow>
     (case loads (rq_body rq) of Inl _ \<Rightarrow> True | Inr snapshot \<Rightarrow> is_int (get_or snapshot ''threshold'' PNone))"

definition event_fits :: "request \<Rightarrow> seal_event \<Rightarrow> bool" where
  "event_fits rq e = (case e of
     Initialise _ \<Rightarrow> rq_method rq = POST \<and> rq_path rq = ''/v1/sys/init''
   | Share \<Rightarrow> rq_method rq = POST \<and> rq_path rq = ''/v1/sys/unseal''
   | Restore _ \<Rightarrow> rq_method rq = POST \<and> rq_path rq = ''/v1/sys/storage/raft/snapshot-force''
   | Other \<Rightarrow> True)"

lemma event_fits_intros:
  "rq_method rq = POST \<Longrightarrow> rq_path rq = ''/v1/sys/init'' \<Longrightarrow> event_fits rq (Initialise t)"
  "rq_method rq = POST \<Longrightarrow> rq_path rq = ''/v1/sys/unseal'' \<Longrightarrow> event_fits rq Share"
  "rq_method rq = POST \<Longrightarrow> rq_path rq = ''/v1/sys/storage/raft/snapshot-force'' \<Longrightarrow> event_fits rq (Restore t)"
  "event_fits rq Other"
  by (simp_all add: event_fits_def)

lemma restore_snapshot_refines:
  assumes "restore_snapshot loads rq state = Inr (response, Some state')"
    and "rq_method rq = POST" "rq_path rq = ''/v1/sys/storage/raft/snapshot-force''" "complete_snapshot loads rq"
  shows "vault_ok state' \<and> (\<exists>t. seal_step (lifecycle state) (Restore t) (lifecycle state'))"
proof -
  from assms(1) obtain snapshot where l: "loads (rq_body rq) = Inr snapshot" and "is_dict snapshot"
    and s: "state' = PDict (dict_update (the_items snapshot)
      [(''initialized'', PBool True), (''sealed'', PBool True), (''progress'', PInt 0),
       (''root_token_active'', PBool True), (''snapshot_b64'', PStr (b64encode (rq_body rq)))])"
    by (auto simp: restore_snapshot_def handler_results py_update_eq_Inr simp del: dict_update_simps
        split: sum.splits exn.splits)
  from l assms(2-4) obtain t where "get_or snapshot ''threshold'' PNone = PInt t"
    by (auto simp: complete_snapshot_def is_int_iff)
  then have "lifecycle state' = \<lparr>sl_initialized = True, sl_sealed = True, sl_threshold = t, sl_progress = 0\<rparr>" "vault_ok state'"
    by (simp_all add: s lifecycle_def vault_ok_def get_or_put) (simp_all add: get_or_def)
  then show ?thesis using restore by metis
qed

lemma dispatch_refines:
  assumes d: "dispatch loads rq state = Inr (response, Some state')" and ok: "vault_ok state"
    and c: "complete_snapshot loads rq"
  shows "vault_ok state' \<and> (\<exists>e. event_fits rq e \<and> seal_step (lifecycle state) e (lifecycle state'))"
proof -
  have same: "vault_ok state' \<and> (\<exists>e. event_fits rq e \<and> seal_step (lifecycle state) e (lifecycle state'))"
    if "untouched state state'"
    using untouched_lifecycle [OF that] ok by (auto intro!: exI [of _ Other] other simp: event_fits_def)
  show ?thesis
  proof (cases "rq_method rq")
    case GET
    with d show ?thesis by (auto simp: dispatch_def dest: do_GET_reads)
  next
    case PUT
    with d same show ?thesis by (auto simp: dispatch_def dest: handlers_untouched)
  next
    case POST
    show ?thesis
    proof (cases "rq_path rq = ''/v1/sys/storage/raft/snapshot-force''")
      case True
      with d POST have "restore_snapshot loads rq state = Inr (response, Some state')"
        by (simp add: dispatch_def do_POST_def)
      from restore_snapshot_refines [OF this POST True c] POST True show ?thesis
        using event_fits_intros(3) by blast
    next
      case False
      with d POST obtain payload where "post_json rq payload state = Inr (response, Some state')"
        by (auto simp: dispatch_def do_POST_def bindE_eq_Inr)
      then consider "untouched state state'"
        | "rq_path rq = ''/v1/sys/init''" "init_vault payload state = Inr (response, Some state')"
        | "rq_path rq = ''/v1/sys/unseal''" "wants_unseal (rq_path rq) payload state = Inr True"
          "unseal_vault state = Inr (response, Some state')"
        using post_json_fields by blast
      then show ?thesis
      proof cases
        case 2
        from init_vault_refines [OF this(2)] 2(1) POST show ?thesis
          using event_fits_intros(1) by blast
      next
        case 3
        from 3(2) have "py_truth (get_or state ''sealed'' PNone)"
          by (auto simp: wants_unseal_def bindE_eq_Inr dest!: py_index_get_or [of _ _ _ PNone] split: if_splits)
        from unseal_vault_refines [OF 3(3) ok this] 3(1) POST show ?thesis
          using event_fits_intros(2) by blast
      qed (rule same)
    qed
  qed
qed

lemma serve_state:
  obtains (reads) "vt_state (snd (serve loads rq v)) = vt_state v"
  | (writes) response state' where "dispatch loads rq (vt_state v) = Inr (response, Some state')"
      "vt_state (snd (serve loads rq v)) = state'"
proof (cases "dispatch loads rq (vt_state v)")
  case (Inl e)
  then show ?thesis by (intro reads) (simp add: serve_def)
next
  case (Inr r)
  obtain response w where r: "r = (response, w)" by (cases r)
  show ?thesis
  proof (cases w)
    case None
    with Inr r show ?thesis by (intro reads) (simp add: serve_def)
  next
    case (Some state')
    with Inr r show ?thesis by (intro writes [of response state']) (simp_all add: serve_def)
  qed
qed

lemma serve_refines:
  assumes "vault_ok (vt_state v)" and "complete_snapshot loads rq"
  shows "vault_ok (vt_state (snd (serve loads rq v))) \<and>
    (\<exists>e. event_fits rq e \<and> seal_step (lifecycle (vt_state v)) e (lifecycle (vt_state (snd (serve loads rq v)))))"
proof (rule serve_state [of loads rq v])
  assume "vt_state (snd (serve loads rq v)) = vt_state v"
  with assms(1) show ?thesis by (auto intro!: exI [of _ Other] other simp: event_fits_def)
next
  fix response state'
  assume "dispatch loads rq (vt_state v) = Inr (response, Some state')" "vt_state (snd (serve loads rq v)) = state'"
  with dispatch_refines [OF _ assms] show ?thesis by blast
qed

interpretation vault: refines "\<lambda>v. vault_ok (vt_state v)" "complete_snapshot loads" "\<lambda>v. lifecycle (vt_state v)"
  "\<lambda>rq v. snd (serve loads rq v)" seal_step event_fits for loads
  by unfold_locales (rule serve_refines)

section \<open>How a seal is opened\<close>

text \<open>Enough shares have been accepted for every seal that is open.\<close>

definition shares :: "seal_event list \<Rightarrow> nat" where
  "shares es = length (filter (\<lambda>e. e = Share) es)"

lemma shares_simps [simp]: "shares [] = 0" "shares (es @ [e]) = shares es + (if e = Share then 1 else 0)"
  by (simp_all add: shares_def)

definition opened_by :: "seal_event list \<Rightarrow> seal \<Rightarrow> bool" where
  "opened_by es s \<longleftrightarrow> (if sl_sealed s then 0 \<le> sl_progress s \<and> sl_progress s \<le> int (shares es)
     else sl_threshold s \<le> int (shares es))"

lemma opened_by_step: "opened_by es s \<Longrightarrow> seal_step s e t \<Longrightarrow> opened_by (es @ [e]) t"
  by (erule seal_stepE) (auto simp: opened_by_def split: if_splits)

lemma sealed_needs_shares:
  assumes "trace_of seal_step s es t" "sl_sealed s" "sl_progress s = 0" "\<not> sl_sealed t"
  shows "sl_threshold t \<le> int (shares es)"
proof -
  have "opened_by [] s" using assms(2,3) by (simp add: opened_by_def)
  from trace_invariant [of seal_step s es t opened_by "[]", OF assms(1) this opened_by_step] assms(4)
  show ?thesis by (simp add: opened_by_def)
qed

abbreviation serve_all :: "(string \<Rightarrow> exn + py) \<Rightarrow> request list \<Rightarrow> vault \<Rightarrow> vault" where
  "serve_all loads rqs v \<equiv> fold (\<lambda>rq v. snd (serve loads rq v)) rqs v"

definition share_requests :: "request list \<Rightarrow> request list" where
  "share_requests rqs = filter (\<lambda>rq. rq_method rq = POST \<and> rq_path rq = ''/v1/sys/unseal'') rqs"

lemma shares_le_requests: "list_all2 event_fits rqs es \<Longrightarrow> shares es \<le> length (share_requests rqs)"
  by (induction rule: list_all2_induct) (auto simp: shares_def share_requests_def event_fits_def)

text \<open>One accepted share, on the state file.\<close>

lemma unseal_serve:
  assumes ok: "vault_ok (vt_state v)" and sealed: "sl_sealed (lifecycle (vt_state v))"
    and rq: "rq_method rq = POST" "rq_path rq = ''/v1/sys/unseal''"
    and body: "json_body loads rq = Inr payload" "py_get payload ''key'' PNone = Inr key" "py_truth key"
  shows "seal_step (lifecycle (vt_state v)) Share (lifecycle (vt_state (snd (serve loads rq v))))"
proof -
  let ?s = "vt_state v"
  from ok obtain t p where v: "is_dict ?s" "get_or ?s ''threshold'' PNone = PInt t" "get_or ?s ''progress'' PNone = PInt p"
    by (auto simp: vault_ok_def is_int_iff)
  have ix: "py_index ?s k = Inr w" if "get_or ?s k PNone = w" "w \<noteq> PNone" for k w
    using that v(1) by (cases ?s) (auto simp: py_index_def get_or_def split: option.splits)
  have sl: "py_index ?s ''sealed'' = Inr (PBool True)"
    using ok sealed by (intro ix) (auto simp: vault_ok_def lifecycle_def is_bool_iff)
  have w: "wants_unseal (rq_path rq) payload ?s = Inr True"
    using sl body rq by (simp add: wants_unseal_def)
  obtain kvs where kvs: "?s = PDict kvs" using v(1) by (auto simp: is_dict_iff)
  have "py_ge (PInt (p + 1)) (PInt t) = Inr (t \<le> p + 1)"
    using of_int_le_iff [of t "p + 1", where 'a = rat] by (simp add: py_ge_def)
  then have "\<exists>response s'. unseal_vault ?s = Inr (response, Some s')"
    using ix [OF v(2)] ix [OF v(3)] sl
    by (cases "t \<le> p + 1") (simp_all add: kvs unseal_vault_def py_incr_def py_put_def py_update_def py_index_put)
  then obtain response s' where u: "unseal_vault ?s = Inr (response, Some s')" by blast
  have "dispatch loads rq ?s = Inr (response, Some s')"
    using rq body(1) w u by (simp add: dispatch_def do_POST_def post_json_def)
  then have "vt_state (snd (serve loads rq v)) = s'" by (simp add: serve_def Let_def)
  moreover have "py_truth (get_or ?s ''sealed'' PNone)" using sealed by (simp add: lifecycle_def)
  ultimately show ?thesis using unseal_vault_refines [OF u ok] by simp
qed

section \<open>Concrete vaults\<close>

text \<open>A sealed vault with a threshold of two, as the scenarios set it up, and requests to it.\<close>

definition sample_state :: py where
  "sample_state = PDict [(''initialized'', PBool True), (''sealed'', PBool True), (''threshold'', PInt 2), (''progress'', PInt 0)]"

abbreviation sample_vault :: vault where
  "sample_vault \<equiv> \<lparr>vt_state = sample_state, vt_log = []\<rparr>"

definition fixture_root :: string where
  "fixture_root = ''molecule-root-token-fixture''"

definition share_request :: request where
  "share_request = \<lparr>rq_method = POST, rq_path = ''/v1/sys/unseal'', rq_token = [], rq_body = ''share''\<rparr>"

definition restore_request :: request where
  "restore_request = \<lparr>rq_method = POST, rq_path = ''/v1/sys/storage/raft/snapshot-force'', rq_token = fixture_root,
     rq_body = ''raft''\<rparr>"

definition download_request :: request where
  "download_request = \<lparr>rq_method = GET, rq_path = ''/v1/sys/storage/raft/snapshot'', rq_token = fixture_root, rq_body = []\<rparr>"

definition key_body :: "string \<Rightarrow> exn + py" where
  "key_body _ = Inr (PDict [(''key'', PStr ''share'')])"

lemmas sample_defs = sample_state_def fixture_root_def share_request_def key_body_def restore_request_def download_request_def

lemma sample_ok: "vault_ok sample_state" "sl_sealed (lifecycle sample_state)" "sl_progress (lifecycle sample_state) = 0"
  "sl_threshold (lifecycle sample_state) = 2"
  by (simp_all add: sample_state_def vault_ok_def lifecycle_def get_or_def)

lemma share_request_simps [simp]:
  "rq_method share_request = POST" "rq_path share_request = ''/v1/sys/unseal''"
  "complete_snapshot loads share_request"
  by (simp_all add: share_request_def complete_snapshot_def)

lemma share_requests_keys: "json_body key_body share_request = Inr (PDict [(''key'', PStr ''share'')])"
  by (simp add: json_body_def sample_defs)

lemma no_role_path: "\<not> contains ''/role/'' ''/v1/sys/storage/raft/snapshot''"
  by code_simp

section \<open>Properties\<close>





text \<open>
  A vault that is sealed with no share counted can be found open only after at
  least as many requests to the unseal path as the threshold then in force, whatever else was sent to it.
\<close>

lemma unsealing_needs_threshold:
  assumes "vault_ok (vt_state v)" and "list_all (complete_snapshot loads) rqs"
    and "sl_sealed (lifecycle (vt_state v))" and "sl_progress (lifecycle (vt_state v)) = 0"
    and "\<not> sl_sealed (lifecycle (vt_state (serve_all loads rqs v)))"
  shows "sl_threshold (lifecycle (vt_state (serve_all loads rqs v))) \<le> int (length (share_requests rqs))"
proof -
  from vault.run_refines [OF assms(1,2)] obtain es where es: "list_all2 event_fits rqs es"
    "trace_of seal_step (lifecycle (vt_state v)) es (lifecycle (vt_state (serve_all loads rqs v)))" by blast
  from sealed_needs_shares [OF es(2) assms(3-5)] shares_le_requests [OF es(1)] show ?thesis by linarith
qed

lemma unsealing_needs_threshold_witness:
  "sl_threshold (lifecycle (vt_state (serve_all key_body [share_request, share_request] sample_vault)))
     \<le> int (length (share_requests [share_request, share_request]))"
proof (rule unsealing_needs_threshold)
  show "\<not> sl_sealed (lifecycle (vt_state (serve_all key_body [share_request, share_request] sample_vault)))"
    by (simp add: sample_defs run_simps lifecycle_def get_or_def cong: bindE_weak_cong)
qed (simp_all add: sample_ok)

text \<open>
  C33: The shares count up one by one: sent to a vault that is sealed with no share counted, fewer
  share requests with a key than the threshold leave it sealed with exactly that many
  counted, and as many as a positive threshold open it and reset the count.
\<close>

theorem shares_open_seal:
  assumes "vault_ok (vt_state v)" and "sl_sealed (lifecycle (vt_state v))" and "sl_progress (lifecycle (vt_state v)) = 0"
    and "list_all (\<lambda>rq. rq_method rq = POST \<and> rq_path rq = ''/v1/sys/unseal'' \<and>
          (\<exists>payload key. json_body loads rq = Inr payload \<and> py_get payload ''key'' PNone = Inr key \<and> py_truth key)) rqs"
    and "int (length rqs) \<le> sl_threshold (lifecycle (vt_state v))" and "rqs \<noteq> []"
  shows "lifecycle (vt_state (serve_all loads rqs v)) =
    (if int (length rqs) < sl_threshold (lifecycle (vt_state v))
     then (lifecycle (vt_state v))\<lparr>sl_progress := int (length rqs)\<rparr>
     else (lifecycle (vt_state v))\<lparr>sl_sealed := False, sl_progress := 0\<rparr>)"
  using assms(4-6)
proof (induction rqs rule: rev_induct)
  case (snoc rq rqs)
  let ?v = "serve_all loads rqs v"
  have good: "vault_ok (vt_state ?v)"
    using snoc.prems(1) by (intro vault.run_good [OF assms(1)]) (auto simp: list_all_iff complete_snapshot_def)
  have before: "lifecycle (vt_state ?v) = (lifecycle (vt_state v))\<lparr>sl_progress := int (length rqs)\<rparr>"
    using snoc assms(3) by (cases "rqs = []") simp_all
  with assms(2) have "sl_sealed (lifecycle (vt_state ?v))" by simp
  with snoc.prems(1) unseal_serve [OF good this] have
    "seal_step (lifecycle (vt_state ?v)) Share (lifecycle (vt_state (snd (serve loads rq ?v))))" by auto
  then show ?case
    by (rule seal_stepE) (use before snoc.prems(2) in auto)
qed simp

theorem shares_open_seal_witness:
  "\<not> sl_sealed (lifecycle (vt_state (serve_all key_body [share_request, share_request] sample_vault)))"
  by (subst shares_open_seal) (simp_all add: sample_ok share_requests_keys py_get_def)

text \<open>
  A snapshot comes back as it was put in: after the root token has forced the
  restoration of any raw bytes that hold a dictionary, the vault is sealed and initialised with no
  share counted, and every token with a policy downloads exactly those bytes.
\<close>

lemma snapshot_roundtrip:
  assumes "rq_method rq = POST" and "rq_path rq = ''/v1/sys/storage/raft/snapshot-force''"
    and "is_root (rq_token rq) (vt_state v) = Inr True" and "loads (rq_body rq) = Inr (PDict kvs)"
    and "rq_method get = GET" and "rq_path get = ''/v1/sys/storage/raft/snapshot''"
    and "token_policies (rq_token get) (vt_state (snd (serve loads rq v))) = Inr (p # ps)"
  shows "fst (serve loads get (snd (serve loads rq v))) = Inr (Bytes 200 (rq_body rq)) \<and>
    fst (serve loads rq v) = Inr (Json 204 (PDict [])) \<and>
    lifecycle (vt_state (snd (serve loads rq v))) =
      \<lparr>sl_initialized = True, sl_sealed = True, sl_threshold = the_int (get_or (PDict kvs) ''threshold'' PNone), sl_progress = 0\<rparr>"
proof -
  let ?s = "PDict (dict_update kvs
      [(''initialized'', PBool True), (''sealed'', PBool True), (''progress'', PInt 0),
       (''root_token_active'', PBool True), (''snapshot_b64'', PStr (b64encode (rq_body rq)))])"
  have d: "dispatch loads rq (vt_state v) = Inr (Json 204 (PDict []), Some ?s)"
    using assms(1-4) by (simp add: dispatch_def do_POST_def restore_snapshot_def with_root_def py_update_def)
  then have s: "vt_state (snd (serve loads rq v)) = ?s" by (simp add: serve_def Let_def)
  have g: "py_get ?s ''snapshot_b64'' x = Inr (PStr (b64encode (rq_body rq)))" for x
    by (simp add: py_get_get_or get_or_put)
  have "dispatch loads get ?s = Inr (Bytes 200 (rq_body rq), None)"
    using assms(5-7) by (simp add: s dispatch_def do_GET_def with_token_def g no_role_path Let_def del: dict_update_simps)
  then have "fst (serve loads get (snd (serve loads rq v))) = Inr (Bytes 200 (rq_body rq))"
    by (subst (1) serve_def) (simp add: s)
  moreover have "fst (serve loads rq v) = Inr (Json 204 (PDict []))" using d by (simp add: serve_def Let_def)
  moreover have "lifecycle ?s = \<lparr>sl_initialized = True, sl_sealed = True,
      sl_threshold = the_int (get_or (PDict kvs) ''threshold'' PNone), sl_progress = 0\<rparr>"
    by (simp add: lifecycle_def get_or_put)
  ultimately show ?thesis using s by simp
qed

end
