(* ===== verification/Ip_Address.thy ===== *)
theory Ip_Address
  imports Py_Text "HOL-Library.Word"
begin

text \<open>
  The parts of the standard library's \<open>ipaddress\<close> that the plugins rest on: an
  IPv4 address is a 32-bit word, with its dotted text, its private and loopback ranges and
  the networks; an IPv6 address is a number below \<open>2 ^ 128\<close>. Every parser raises
  \<^const>\<open>ValueError\<close> (\<open>AddressValueError\<close> and \<open>NetmaskValueError\<close> are classes of it).
\<close>

section \<open>IPv4 addresses\<close>

type_synonym ipv4 = "32 word"

text \<open>
  One octet: one to three ASCII digits without a leading zero, up to 255.
\<close>

definition octet_value :: "string \<Rightarrow> nat option" where
  "octet_value s =
     (if s \<noteq> [] \<and> list_all is_digit s \<and> length s \<le> 3 \<and> (s = ''0'' \<or> hd s \<noteq> CHR ''0'') \<and> digits_val s \<le> 255
      then Some (digits_val s) else None)"

definition ipv4_of_octets :: "nat \<Rightarrow> nat \<Rightarrow> nat \<Rightarrow> nat \<Rightarrow> ipv4" where
  "ipv4_of_octets a b c d = word_of_nat (((a * 256 + b) * 256 + c) * 256 + d)"

definition ipv4_parse :: "string \<Rightarrow> ipv4 option" where
  "ipv4_parse s = (case map octet_value (split_on (CHR ''.'') s) of
     [Some a, Some b, Some c, Some d] \<Rightarrow> Some (ipv4_of_octets a b c d)
   | _ \<Rightarrow> None)"

definition ipv4_octet :: "ipv4 \<Rightarrow> nat \<Rightarrow> nat" where
  "ipv4_octet a k = unat a div 256 ^ k mod 256"

definition ipv4_text :: "ipv4 \<Rightarrow> string" where
  "ipv4_text a = join_with ''.'' (map (\<lambda>k. dec (ipv4_octet a k)) [3, 2, 1, 0])"

text \<open>
  \<open>IPv4Address(v)\<close>: an integer is taken as the address itself; what is neither an integer nor
  a string is printed first, and no such text is an address.
\<close>

definition bad_address :: exn where "bad_address = ValueError ''address''"

definition ipv4_of_text :: "string \<Rightarrow> exn + ipv4" where
  "ipv4_of_text s = (case ipv4_parse s of None \<Rightarrow> Inl bad_address | Some a \<Rightarrow> Inr a)"

definition py_ipv4 :: "py \<Rightarrow> exn + ipv4" where
  "py_ipv4 v = (case v of
     PStr s \<Rightarrow> ipv4_of_text s
   | PInt i \<Rightarrow> if 0 \<le> i \<and> i < 2 ^ 32 then Inr (word_of_int i) else Inl bad_address
   | PBool b \<Rightarrow> Inr (if b then 1 else 0)
   | _ \<Rightarrow> Inl bad_address)"

section \<open>IPv4 networks\<close>

text \<open>Membership in the network of a prefix length.\<close>

definition same_network :: "nat \<Rightarrow> ipv4 \<Rightarrow> ipv4 \<Rightarrow> bool" where
  "same_network len a b \<longleftrightarrow> drop_bit (32 - len) a = drop_bit (32 - len) b"

definition in_networks :: "(nat \<times> nat \<times> nat \<times> nat \<times> nat) list \<Rightarrow> ipv4 \<Rightarrow> bool" where
  "in_networks nets x \<longleftrightarrow> list_ex (\<lambda>(a, b, c, d, len). same_network len x (ipv4_of_octets a b c d)) nets"

text \<open>\<open>is_private\<close> and \<open>is_loopback\<close>\<close>

definition ipv4_private :: "ipv4 \<Rightarrow> bool" where
  "ipv4_private x \<longleftrightarrow>
     in_networks
       [(0, 0, 0, 0, 8), (10, 0, 0, 0, 8), (127, 0, 0, 0, 8), (169, 254, 0, 0, 16), (172, 16, 0, 0, 12),
        (192, 0, 0, 0, 24), (192, 0, 0, 170, 31), (192, 0, 2, 0, 24), (192, 168, 0, 0, 16), (198, 18, 0, 0, 15),
        (198, 51, 100, 0, 24), (203, 0, 113, 0, 24), (240, 0, 0, 0, 4), (255, 255, 255, 255, 32)] x
     \<and> \<not> in_networks [(192, 0, 0, 9, 32), (192, 0, 0, 10, 32)] x"

definition ipv4_loopback :: "ipv4 \<Rightarrow> bool" where
  "ipv4_loopback = in_networks [(127, 0, 0, 0, 8)]"

section \<open>IPv6 addresses\<close>

definition hex_value :: "char \<Rightarrow> nat option" where
  "hex_value c =
     (let n = byte c in
      if is_digit c then Some (n - 48) else if 97 \<le> n \<and> n \<le> 102 then Some (n - 87)
      else if 65 \<le> n \<and> n \<le> 70 then Some (n - 55) else None)"

definition hextet_value :: "string \<Rightarrow> nat option" where
  "hextet_value s =
     (if s \<noteq> [] \<and> length s \<le> 4 \<and> list_all (\<lambda>c. hex_value c \<noteq> None) s
      then Some (foldl (\<lambda>a c. 16 * a + the (hex_value c)) 0 s) else None)"

text \<open>The parts between the colons; a dotted address at the end is written as two groups.\<close>

definition hex_text :: "nat \<Rightarrow> string" where
  "hex_text n = map (\<lambda>k. hex_digit (n div 16 ^ k mod 16)) [3, 2, 1, 0]"

definition ipv6_parts :: "string \<Rightarrow> string list option" where
  "ipv6_parts s =
     (let parts = split_on (CHR '':'') s; tail = last parts in
      if length parts < 3 then None
      else if CHR ''.'' \<in> set tail then
        (case ipv4_parse tail of None \<Rightarrow> None
         | Some a \<Rightarrow> Some (butlast parts @ [hex_text (unat a div 65536), hex_text (unat a mod 65536)]))
      else Some parts)"

definition ipv6_value :: "nat option list \<Rightarrow> nat option" where
  "ipv6_value groups =
     (if list_all (\<lambda>g. g \<noteq> None) groups then Some (foldl (\<lambda>a g. 65536 * a + the g) 0 groups) else None)"

text \<open>
  \<open>::\<close> is an empty part that is neither first nor last; there may be one, it stands for at least
  one group of zeros, and an empty part at an end has to be next to it.
\<close>

definition ipv6_parse :: "string \<Rightarrow> nat option" where
  "ipv6_parse s = (case ipv6_parts s of None \<Rightarrow> None | Some parts \<Rightarrow>
     if 9 < length parts then None
     else (case filter (\<lambda>i. parts ! i = []) [1..<length parts - 1] of
       [] \<Rightarrow> if length parts = 8 \<and> hd parts \<noteq> [] \<and> last parts \<noteq> [] then ipv6_value (map hextet_value parts) else None
     | [i] \<Rightarrow>
         (let hi = take i parts; lo = drop (i + 1) parts;
              hi' = (if hd parts = [] then [] else hi); lo' = (if last parts = [] then [] else lo) in
          if hd parts = [] \<and> length hi \<noteq> 1 \<or> last parts = [] \<and> length lo \<noteq> 1 \<or> 8 \<le> length hi' + length lo' then None
          else ipv6_value (map hextet_value hi' @ replicate (8 - (length hi' + length lo')) (Some 0) @ map hextet_value lo'))
     | _ \<Rightarrow> None))"

text \<open>\<open>ipaddress.ip_address(s).is_loopback\<close>, with the scope identifier of an IPv6 address cut off.\<close>

definition without_scope :: "string \<Rightarrow> string option" where
  "without_scope s = (case cut_at ''%'' s of
     None \<Rightarrow> Some s
   | Some (address, scope) \<Rightarrow> if scope = [] \<or> CHR ''%'' \<in> set scope then None else Some address)"

definition ip_loopback :: "string \<Rightarrow> exn + bool" where
  "ip_loopback s = (case ipv4_parse s of
     Some a \<Rightarrow> Inr (ipv4_loopback a)
   | None \<Rightarrow>
       if CHR 0x2F \<in> set s then Inl bad_address
       else (case without_scope s of
         None \<Rightarrow> Inl bad_address
       | Some address \<Rightarrow> (case ipv6_parse address of None \<Rightarrow> Inl bad_address | Some n \<Rightarrow> Inr (n = 1))))"

lemmas [run_simps] = octet_value_def ipv4_of_octets_def ipv4_parse_def ipv4_octet_def ipv4_text_def bad_address_def
  ipv4_of_text_def py_ipv4_def same_network_def in_networks_def ipv4_private_def ipv4_loopback_def hex_value_def
  hextet_value_def hex_text_def ipv6_parts_def ipv6_value_def ipv6_parse_def without_scope_def ip_loopback_def

section \<open>Dotted text\<close>

lemma dec_hd: "n \<noteq> 0 \<Longrightarrow> hd (dec n) \<noteq> CHR ''0''"
proof (induction n rule: dec.induct)
  case (1 n)
  show ?case
  proof (cases "n < 10")
    case True
    have "byte (digit_char n) = 48 + n" using True by simp
    then have "digit_char n \<noteq> CHR ''0''" using 1(2) by auto
    with True show ?thesis by (subst dec.simps) simp
  next
    case False
    with 1 show ?thesis by (subst dec.simps) simp
  qed
qed

lemma octet_value_dec: "n < 256 \<Longrightarrow> octet_value (dec n) = Some n"
  using dec_length [of n 3] dec_hd [of n]
  by (cases "n = 0") (simp_all add: octet_value_def dec_digits dec.simps [of 0] digit_char_def is_digit_def)

lemma octet_value_Some: "octet_value s = Some n \<Longrightarrow> dec n = s \<and> n < 256"
  by (auto simp: octet_value_def split: if_splits intro: dec_digits_val)

lemma base_256:
  fixes n :: nat
  assumes "n < 2 ^ 32"
  shows "((n div 16777216 mod 256 * 256 + n div 65536 mod 256) * 256 + n div 256 mod 256) * 256 + n mod 256 = n"
proof -
  have d: "n div 65536 = n div 256 div 256" "n div 16777216 = n div 256 div 256 div 256"
    by (simp_all add: div_mult2_eq [symmetric])
  have "n div 16777216 < 256" using assms by (simp add: less_mult_imp_div_less)
  then have "n div 256 div 256 div 256 mod 256 = n div 256 div 256 div 256" by (simp add: d)
  then show ?thesis unfolding d by (simp only: div_mult_mod_eq)
qed

lemma ipv4_octets_join:
  "word_of_nat (((ipv4_octet a 3 * 256 + ipv4_octet a 2) * 256 + ipv4_octet a 1) * 256 + ipv4_octet a 0) = a"
proof -
  have "unat a < 2 ^ 32" using unsigned_less [of a] by simp
  moreover have "ipv4_octet a 3 = unat a div 16777216 mod 256" "ipv4_octet a 2 = unat a div 65536 mod 256"
    "ipv4_octet a 1 = unat a div 256 mod 256" "ipv4_octet a 0 = unat a mod 256" by (simp_all add: ipv4_octet_def)
  ultimately show ?thesis by (simp only: base_256, simp)
qed

lemma ipv4_octet_less: "ipv4_octet a k < 256"
  by (simp add: ipv4_octet_def)

lemma split_ipv4_text: "split_on (CHR ''.'') (ipv4_text a) = map (\<lambda>k. dec (ipv4_octet a k)) [3, 2, 1, 0]"
  unfolding ipv4_text_def by (rule split_join) (auto dest: dec_no_char [of "CHR ''.''", simplified, THEN notE])

lemma ipv4_parse_text [simp]: "ipv4_parse (ipv4_text a) = Some a"
  by (simp add: ipv4_parse_def split_ipv4_text octet_value_dec ipv4_octet_less
      ipv4_of_octets_def ipv4_octets_join [simplified])

lemma ipv4_octet_of_octets:
  assumes "a < 256" "b < 256" "c < 256" "d < 256"
  shows "map (ipv4_octet (ipv4_of_octets a b c d)) [3, 2, 1, 0] = [a, b, c, d]"
proof -
  let ?n = "((a * 256 + b) * 256 + c) * 256 + d"
  have "?n < 2 ^ 32" using assms by simp
  then have u: "unat (ipv4_of_octets a b c d) = ?n"
    by (simp only: ipv4_of_octets_def unsigned_of_nat) (simp add: take_bit_nat_eq_self)
  have e: "(x * 256 + y) div 256 = x" "(x * 256 + y) mod 256 = y" if "y < 256" for x y :: nat
    using that by simp_all
  have "?n div 65536 = ?n div 256 div 256" "?n div 16777216 = ?n div 256 div 256 div 256"
    by (simp_all only: div_mult2_eq [symmetric]) simp_all
  then have "?n div 256 = (a * 256 + b) * 256 + c" "?n div 65536 = a * 256 + b" "?n div 16777216 = a" "?n mod 256 = d"
    "((a * 256 + b) * 256 + c) mod 256 = c" "(a * 256 + b) mod 256 = b"
    by (simp_all only: e assms)
  then show ?thesis using assms by (simp add: ipv4_octet_def u)
qed

lemma ipv4_text_parse: "ipv4_parse s = Some x \<Longrightarrow> ipv4_text x = s"
proof -
  assume "ipv4_parse s = Some x"
  then obtain a b c d p q r t where o: "split_on (CHR ''.'') s = [p, q, r, t]" "octet_value p = Some a"
    "octet_value q = Some b" "octet_value r = Some c" "octet_value t = Some d" and x: "x = ipv4_of_octets a b c d"
    by (auto simp: ipv4_parse_def split: list.splits option.splits)
  from o(2-) have "a < 256" "b < 256" "c < 256" "d < 256" and dec: "dec a = p" "dec b = q" "dec c = r" "dec d = t"
    by (auto dest!: octet_value_Some)
  from ipv4_octet_of_octets [OF this(1-4)] x have oct: "map (ipv4_octet x) [3, 2, 1, 0] = [a, b, c, d]" by simp
  have "ipv4_text x = join_with ''.'' (map dec (map (ipv4_octet x) [3, 2, 1, 0]))"
    by (simp add: ipv4_text_def)
  also have "\<dots> = join_with ''.'' (split_on (CHR ''.'') s)" by (simp only: oct) (simp add: o(1) dec)
  finally show ?thesis by simp
qed

lemma ipv4_parse_iff: "ipv4_parse s = Some x \<longleftrightarrow> s = ipv4_text x"
  using ipv4_text_parse by auto

end
