(* ===== verification/Keycloak_Migration.thy ===== *)
theory Keycloak_Migration
  imports Ip_Address
begin

text \<open>
  The filters of the coupled native Keycloak transition
  (\<open>plugins/filter/keycloak_native_migration.py\<close>): the plan of a transition, the proof of the running
  pair before it is stopped, and the validation of what runs afterwards, either the
  desired or the original state.

  The inputs are the values Ansible passes in, with string keys. Every filter turns \<open>KeyError\<close>,
  \<open>TypeError\<close>, \<open>ValueError\<close> and \<open>AttributeError\<close> into its own rejection, so which of the four is
  raised first cannot be observed; \<^const>\<open>FilterError\<close> is \<open>AnsibleFilterError\<close>.
\<close>

section \<open>Exceptions and values\<close>

definition caught :: "exn \<Rightarrow> bool" where
  "caught e \<longleftrightarrow> (case e of KeyError \<Rightarrow> True | TypeError \<Rightarrow> True | ValueError _ \<Rightarrow> True | AttributeError \<Rightarrow> True | _ \<Rightarrow> False)"

definition rejecting :: "string \<Rightarrow> exn + 'a \<Rightarrow> exn + 'a" where
  "rejecting message r = (case r of Inl e \<Rightarrow> Inl (if caught e then FilterError message else e) | Inr x \<Rightarrow> Inr x)"

abbreviation refuse :: "bool \<Rightarrow> string \<Rightarrow> exn + unit" where
  "refuse condition message \<equiv> requireE (\<not> condition) (ValueError message)"

text \<open>A method of \<open>str\<close> is called: \<open>v.split(c)[-1]\<close>, \<open>v.startswith(...)\<close>, \<open>v.splitlines()\<close>.\<close>

definition as_str :: "py \<Rightarrow> exn + string" where
  "as_str v = (case v of PStr s \<Rightarrow> Inr s | _ \<Rightarrow> Inl AttributeError)"

definition digest_of :: "py \<Rightarrow> exn + string" where
  "digest_of ref = bindE (as_str ref) (\<lambda>s. Inr (last (split_on (CHR ''@'') s)))"

text \<open>\<open>set(v)\<close> of the keys; anything but a dictionary is refused here or at its first use as one.\<close>

definition key_set :: "py \<Rightarrow> exn + string set" where
  "key_set v = (case v of PDict kvs \<Rightarrow> Inr (fst ` set kvs) | _ \<Rightarrow> Inl TypeError)"

definition pair_names :: "string set" where
  "pair_names = {''keycloak'', ''postgres''}"

section \<open>Managed paths\<close>

definition slash :: char where "slash = CHR 0x2F"

definition canonical_path :: "py \<Rightarrow> bool" where
  "canonical_path v = (case v of
     PStr s \<Rightarrow> prefix [slash] s \<and> \<not> prefix [slash, slash] s \<and> s \<noteq> [slash] \<and> normpath s = s \<and>
       \<not> list_ex (\<lambda>c. byte c < 32 \<or> byte c = (127 :: nat)) s
   | _ \<Rightarrow> False)"

section \<open>Quadlet units\<close>

definition is_alnum :: "char \<Rightarrow> bool" where
  "is_alnum c \<longleftrightarrow> is_name_char c \<and> c \<noteq> CHR ''_'' \<and> c \<noteq> CHR ''.'' \<and> c \<noteq> CHR ''-''"

text \<open>\<open>[A-Za-z0-9][A-Za-z0-9_.-]{0,127}\<close> and \<open>[0-9]{1,3}(?:[.][0-9]{1,3}){3}\<close>\<close>

definition unit_name :: "string \<Rightarrow> bool" where
  "unit_name s \<longleftrightarrow> s \<noteq> [] \<and> is_alnum (hd s) \<and> list_all is_name_char (tl s) \<and> length s \<le> 128"

definition dotted_quad :: "string \<Rightarrow> bool" where
  "dotted_quad s \<longleftrightarrow> length (split_on (CHR ''.'') s) = 4 \<and>
     list_all (\<lambda>g. g \<noteq> [] \<and> length g \<le> 3 \<and> list_all is_digit g) (split_on (CHR ''.'') s)"

text \<open>\<open>entry.partition(":ip=")\<close>: the network, and the address if there is one.\<close>

definition network_entry :: "string \<Rightarrow> string \<times> string option" where
  "network_entry s = (case cut_at '':ip='' s of None \<Rightarrow> (s, None) | Some (n, a) \<Rightarrow> (n, Some a))"

definition network_binding :: "py \<Rightarrow> bool" where
  "network_binding v = (case v of
     PStr s \<Rightarrow> (case network_entry s of (n, a) \<Rightarrow> unit_name n \<and> (case a of None \<Rightarrow> True | Some t \<Rightarrow> dotted_quad t))
   | _ \<Rightarrow> False)"

definition single_line :: "py \<Rightarrow> bool" where
  "single_line v = (case v of PStr s \<Rightarrow> s \<noteq> [] \<and> newline \<notin> set s \<and> CHR 0x0D \<notin> set s | _ \<Rightarrow> False)"

definition quadlet_text :: "py \<Rightarrow> py \<Rightarrow> py \<Rightarrow> exn + string" where
  "quadlet_text description manifest_path networks =
     bindE (checks
       [(single_line description \<and> single_line manifest_path, FilterError ''Invalid native unit identity''),
        (canonical_path manifest_path, FilterError ''Invalid native manifest path''),
        (is_list networks \<and> list_all network_binding (the_list networks),
         FilterError ''Invalid exact native network bindings'')]) (\<lambda>_.
     let entries = map the_str (the_list networks) in
     bindE (forE (\<lambda>e. case snd (network_entry e) of None \<Rightarrow> Inr () | Some a \<Rightarrow> bindE (ipv4_of_text a) (\<lambda>_. Inr ())) entries) (\<lambda>_.
     bindE (requireE (distinct (map (\<lambda>e. hd (split_on (CHR '':'') e)) entries)) (FilterError ''Duplicate native network binding'')) (\<lambda>_.
     Inr (join_with [newline]
       ([''[Unit]'', ''Description='' @ the_str description, ''After=network-online.target'', ''Wants=network-online.target'',
         ''[Kube]'', ''Yaml='' @ the_str manifest_path]
        @ map (\<lambda>e. ''Network='' @ e) entries
        @ [''[Install]'', ''WantedBy=multi-user.target'', []])))))"

section \<open>The database network\<close>

definition networks_of :: "py \<Rightarrow> string \<Rightarrow> exn + (string \<times> string option) list" where
  "networks_of components name =
     bindE (py_index components name) (\<lambda>component.
     bindE (py_index component ''networks'') (\<lambda>networks.
     bindE (quadlet_text (PStr ''Binding validation'') (PStr ''/etc/fixture.yml'') networks) (\<lambda>_.
     Inr (map (network_entry \<circ> the_str) (the_list networks)))))"

definition managed_name :: "py \<Rightarrow> py \<Rightarrow> exn + bool" where
  "managed_name components host =
     bindE (py_index components ''postgres'') (\<lambda>postgres.
     bindE (py_index postgres ''pod_name'') (\<lambda>pod_name.
     bindE (py_get postgres ''container_name'' PNone) (\<lambda>container_name.
     Inr (py_eq host pod_name \<or> py_eq host container_name))))"

text \<open>\<open>[a-z0-9](?:[a-z0-9-]{0,61}[a-z0-9])?\<close>\<close>

definition dns_char :: "char \<Rightarrow> bool" where
  "dns_char c \<longleftrightarrow> is_digit c \<or> (97 \<le> byte c \<and> byte c \<le> (122 :: nat))"

definition dns_label :: "string \<Rightarrow> bool" where
  "dns_label s \<longleftrightarrow> s \<noteq> [] \<and> length s \<le> 63 \<and> list_all (\<lambda>c. dns_char c \<or> c = CHR ''-'') s \<and> dns_char (hd s) \<and> dns_char (last s)"

definition database_binding :: "py \<Rightarrow> py \<Rightarrow> exn + string" where
  "database_binding components database_host = (case database_host of
     PStr host \<Rightarrow>
       bindE (networks_of components ''keycloak'') (\<lambda>keycloak.
       bindE (networks_of components ''postgres'') (\<lambda>postgres.
       bindE (managed_name components database_host) (\<lambda>managed.
       bindE
         (if managed then
            if dns_label host
            then Inr (filter (\<lambda>(network, address). address \<noteq> None \<and> network \<in> fst ` set keycloak) postgres)
            else Inl (ValueError ''invalid managed database DNS name'')
          else
            bindE (ipv4_of_text host) (\<lambda>_. Inr (filter (\<lambda>(network, address). address = Some host) postgres))) (\<lambda>candidates.
       case candidates of
         [(network, Some address)] \<Rightarrow>
           if map_of keycloak network = None \<or> map_of keycloak network = Some (Some address)
           then Inl (ValueError ''private peers'')
           else bindE (ipv4_of_text address) (\<lambda>a.
                bindE (refuse (\<not> ipv4_private a) ''private peers'') (\<lambda>_. Inr network))
       | _ \<Rightarrow> Inl (ValueError ''exactly one declared database network'')))))
   | _ \<Rightarrow> Inl (ValueError ''database endpoint must be a string''))"

text \<open>\<open>next(entry.split(":ip=", 1)[1] for entry in ... if entry.split(":ip=", 1)[0] == network)\<close>\<close>

definition peer_address :: "py \<Rightarrow> string \<Rightarrow> exn + string" where
  "peer_address components network =
     bindE (py_index components ''postgres'') (\<lambda>postgres.
     bindE (py_index postgres ''networks'') (\<lambda>networks.
     bindE (py_elements networks) (\<lambda>elements.
     bindE (mapE as_str elements) (\<lambda>entries.
     case filter (\<lambda>(n, a). n = network) (map network_entry entries) of
       [] \<Rightarrow> Inl StopIteration
     | (n, None) # _ \<Rightarrow> Inl IndexError
     | (n, Some a) # _ \<Rightarrow> Inr a))))"

text \<open>The name resolution the Keycloak pod needs: one alias for a managed name, none for an address.\<close>

definition alias_list :: "py \<Rightarrow> py \<Rightarrow> exn + py" where
  "alias_list components host =
     bindE (database_binding components host) (\<lambda>network.
     bindE (peer_address components network) (\<lambda>address.
     bindE (managed_name components host) (\<lambda>managed.
     Inr (PList (if managed then [PDict [(''ip'', PStr address), (''hostnames'', PList [host])]] else [])))))"

definition endpoint_components :: "py \<Rightarrow> py \<Rightarrow> py \<Rightarrow> py \<Rightarrow> py" where
  "endpoint_components keycloak_networks postgres_networks pod_name container_name =
     PDict [(''keycloak'', PDict [(''networks'', keycloak_networks)]),
            (''postgres'', PDict [(''networks'', postgres_networks), (''pod_name'', pod_name), (''container_name'', container_name)])]"

definition private_database_endpoint_valid :: "py \<Rightarrow> py \<Rightarrow> py \<Rightarrow> py \<Rightarrow> py \<Rightarrow> exn + bool" where
  "private_database_endpoint_valid host keycloak_networks postgres_networks pod_name container_name =
     rejecting ''Managed private database endpoint rejected''
       (bindE (database_binding (endpoint_components keycloak_networks postgres_networks pod_name container_name) host) (\<lambda>_. Inr True))"

section \<open>The resolution of a managed name\<close>

definition resolved_address :: "string \<Rightarrow> exn + string" where
  "resolved_address line =
     (let fields = py_split line in
      bindE (refuse (\<not> (length fields \<in> {2, 3} \<and> fields ! 1 \<in> {''STREAM'', ''DGRAM'', ''RAW''})) ''invalid getent result'') (\<lambda>_.
      bindE (ipv4_of_text (hd fields)) (\<lambda>a. Inr (ipv4_text a))))"

definition database_resolution_valid :: "py \<Rightarrow> py \<Rightarrow> py \<Rightarrow> exn + bool" where
  "database_resolution_valid output components host =
     (let rejected = FilterError ''Managed database DNS runtime validation rejected'';
          result =
            bindE (database_binding components host) (\<lambda>network.
            bindE (peer_address components network) (\<lambda>address.
            bindE (refuse (case output of PStr s \<Rightarrow> py_strip s = [] | _ \<Rightarrow> True) ''missing database resolution'') (\<lambda>_.
            bindE (mapE resolved_address (py_splitlines (the_str output))) (\<lambda>addresses.
            bindE (refuse (set addresses \<noteq> {address}) ''database resolution drift'') (\<lambda>_. Inr True)))))
      in case result of Inl e \<Rightarrow> Inl (if caught e \<or> e = StopIteration then rejected else e) | Inr b \<Rightarrow> Inr b)"

section \<open>One component of the transition\<close>

definition nonempty_lines :: "string \<Rightarrow> string list" where
  "nonempty_lines s = filter (\<lambda>l. l \<noteq> []) (py_splitlines s)"

definition component_unit :: "py \<Rightarrow> string \<Rightarrow> exn + string" where
  "component_unit component field =
     bindE (py_index component ''description'') (\<lambda>description.
     bindE (py_index component ''manifest_path'') (\<lambda>manifest_path.
     bindE (py_index component field) (\<lambda>networks.
     quadlet_text description manifest_path networks)))"

definition path_field :: "py \<Rightarrow> string \<Rightarrow> exn + unit" where
  "path_field component field =
     bindE (py_index component field) (\<lambda>path. refuse (\<not> canonical_path path) ''canonical data paths required'')"

text \<open>\<open>re.search(r"@sha256:[0-9a-f]{64}\Z", image)\<close>\<close>

definition pinned_image :: "py \<Rightarrow> exn + bool" where
  "pinned_image ref = (case ref of
     PStr s \<Rightarrow> Inr (72 \<le> length s \<and> prefix ''@sha256:'' (drop (length s - 72) s) \<and> hex_id 64 (drop (length s - 64) s))
   | _ \<Rightarrow> Inl TypeError)"

text \<open>\<open>[x for x in xs if x[key] == v]\<close>\<close>

definition select_by :: "string \<Rightarrow> py \<Rightarrow> py \<Rightarrow> exn + py list" where
  "select_by key v xs = bindE (py_elements xs) (filterE (\<lambda>x. bindE (py_index x key) (\<lambda>w. Inr (py_eq w v))))"

definition competing_annotation :: "py \<Rightarrow> exn + bool" where
  "competing_annotation key =
     bindE (as_str key) (\<lambda>s. Inr (sublist ''network'' (py_lower s) \<or> suffix ''.ip'' (py_lower s)))"

definition foreign_port :: "py \<Rightarrow> exn + bool" where
  "foreign_port port =
     bindE (py_get port ''hostIP'' PNone) (\<lambda>host_ip. case host_ip of
       PStr s \<Rightarrow> bindE (ip_loopback s) (\<lambda>loopback. Inr (\<not> loopback))
     | _ \<Rightarrow> Inr True)"

definition check_container :: "py \<Rightarrow> py \<Rightarrow> py \<Rightarrow> exn + unit" where
  "check_container component spec container =
     bindE (py_index container ''name'') (\<lambda>name.
     bindE (py_index component ''container_name'') (\<lambda>container_name.
     bindE (refuse (\<not> py_eq name container_name) ''unproven container identity'') (\<lambda>_.
     bindE (py_index component ''image'') (\<lambda>ref.
     bindE (pinned_image ref) (\<lambda>pinned.
     bindE (refuse (\<not> pinned) ''immutable image required'') (\<lambda>_.
     bindE (bindE (py_index container ''image'') digest_of) (\<lambda>actual.
     bindE (digest_of ref) (\<lambda>expected.
     bindE (refuse (actual \<noteq> expected) ''network transition cannot change image'') (\<lambda>_.
     bindE (py_index container ''volumeMounts'') (\<lambda>mounts.
     bindE (py_index component ''container_data_dir'') (\<lambda>data_dir.
     bindE (select_by ''mountPath'' data_dir mounts) (\<lambda>data_mounts.
     bindE (case data_mounts of [mount] \<Rightarrow> Inr mount | _ \<Rightarrow> Inl (ValueError ''unproven data mount'')) (\<lambda>mount.
     bindE (py_get mount ''readOnly'' (PBool False)) (\<lambda>read_only.
     bindE (refuse (py_truth read_only) ''unproven data mount'') (\<lambda>_.
     bindE (py_index spec ''volumes'') (\<lambda>all_volumes.
     bindE (py_index mount ''name'') (\<lambda>mount_name.
     bindE (select_by ''name'' mount_name all_volumes) (\<lambda>volumes.
     bindE (case volumes of [volume] \<Rightarrow> Inr volume | _ \<Rightarrow> Inl (ValueError ''data directory'')) (\<lambda>volume.
     bindE (bindE (py_get volume ''hostPath'' (PDict [])) (\<lambda>host_path. py_get host_path ''path'' PNone)) (\<lambda>path.
     bindE (py_index component ''host_data_dir'') (\<lambda>host_dir.
     bindE (refuse (\<not> py_eq path host_dir) ''network transition cannot change data directory'') (\<lambda>_.
     bindE (py_get container ''ports'' PNone) (\<lambda>ports.
     bindE (refuse (\<not> py_truth ports) ''loopback-only host bindings required'') (\<lambda>_.
     bindE (bindE (py_elements ports) (anyE foreign_port)) (\<lambda>foreign.
     refuse foreign ''loopback-only host bindings required'')))))))))))))))))))))))))"

text \<open>The Pod manifest of a component; the result is its list of host aliases.\<close>

definition check_manifest :: "py \<Rightarrow> py \<Rightarrow> exn + py" where
  "check_manifest component manifest =
     bindE (py_get manifest ''kind'' PNone) (\<lambda>kind.
     bindE (bindE (py_get manifest ''metadata'' (PDict [])) (\<lambda>metadata. py_get metadata ''name'' PNone)) (\<lambda>name.
     bindE (py_index component ''pod_name'') (\<lambda>pod_name.
     bindE (refuse (kind \<noteq> PStr ''Pod'' \<or> \<not> py_eq name pod_name) ''unproven pod identity'') (\<lambda>_.
     bindE (py_index manifest ''spec'') (\<lambda>spec.
     bindE (py_get spec ''hostAliases'' (PList [])) (\<lambda>host_aliases.
     bindE (py_get spec ''hostNetwork'' (PBool False)) (\<lambda>host_network.
     bindE (refuse (host_network \<noteq> PBool False \<or> \<not> is_list host_aliases) ''nonportable manifest networking'') (\<lambda>_.
     bindE (bindE (py_get manifest ''metadata'' (PDict [])) (\<lambda>metadata. py_get metadata ''annotations'' (PDict []))) (\<lambda>annotations.
     bindE (bindE (py_elements annotations) (anyE competing_annotation)) (\<lambda>competing.
     bindE (refuse competing ''manifest owns competing network settings'') (\<lambda>_.
     bindE (py_index spec ''containers'') (\<lambda>containers.
     bindE (py_len containers) (\<lambda>n.
     bindE (refuse (n \<noteq> 1) ''unproven container identity'') (\<lambda>_.
     bindE (py_first containers) (\<lambda>container.
     bindE (check_container component spec container) (\<lambda>_. Inr host_aliases))))))))))))))))"

record prepared =
  pr_desired :: bool
  pr_aliases :: py
  pr_quadlet :: string
  pr_manifest :: py

text \<open>The body of the loop over the two components.\<close>

definition prepare_component :: "py \<Rightarrow> string \<Rightarrow> exn + prepared" where
  "prepare_component components name =
     bindE (py_index components name) (\<lambda>component.
     bindE (forE (path_field component) [''host_data_dir'', ''container_data_dir'']) (\<lambda>_.
     bindE (component_unit component ''previous_networks'') (\<lambda>old.
     bindE (component_unit component ''networks'') (\<lambda>new.
     bindE (bindE (py_index component ''quadlet_content'') as_str) (\<lambda>actual.
     bindE (refuse (nonempty_lines actual \<notin> {nonempty_lines old, nonempty_lines new}) ''unproven native unit'') (\<lambda>_.
     bindE (py_index component ''manifest'') (\<lambda>manifest.
     bindE (check_manifest component manifest) (\<lambda>aliases.
     Inr \<lparr>pr_desired = (nonempty_lines actual = nonempty_lines new), pr_aliases = aliases, pr_quadlet = new,
          pr_manifest = manifest\<rparr>))))))))"

section \<open>The plan of a transition\<close>

text \<open>\<open>d[k] = f(d[k])\<close> and \<open>v[0] = f(v[0])\<close>, for changes deep inside a manifest.\<close>

definition change_key :: "string \<Rightarrow> (py \<Rightarrow> exn + py) \<Rightarrow> py \<Rightarrow> exn + py" where
  "change_key k f d = bindE (py_index d k) (\<lambda>v. bindE (f v) (\<lambda>w. py_put k w d))"

definition change_first :: "(py \<Rightarrow> exn + py) \<Rightarrow> py \<Rightarrow> exn + py" where
  "change_first f v = (case v of
     PList (x # xs) \<Rightarrow> bindE (f x) (\<lambda>y. Inr (PList (y # xs)))
   | PList [] \<Rightarrow> Inl IndexError
   | PDict _ \<Rightarrow> Inl KeyError
   | _ \<Rightarrow> Inl TypeError)"

definition entry_keys :: "string set" where
  "entry_keys = {''name'', ''value''}"

definition set_aliases :: "py \<Rightarrow> py \<Rightarrow> exn + py" where
  "set_aliases aliases spec =
     (if py_truth aliases then py_put ''hostAliases'' aliases spec
      else (case spec of PDict kvs \<Rightarrow> Inr (PDict (dict_pop ''hostAliases'' kvs)) | _ \<Rightarrow> Inl AttributeError))"

text \<open>One environment variable: there has to be exactly one entry for it, with a plain value.\<close>

definition named_entry :: "string \<Rightarrow> py \<Rightarrow> exn + bool" where
  "named_entry key entry = bindE (py_get entry ''name'' PNone) (\<lambda>name. Inr (name = PStr key))"

definition set_variable :: "string \<Rightarrow> string \<Rightarrow> py \<Rightarrow> exn + py" where
  "set_variable key value environment =
     bindE (py_elements environment) (\<lambda>entries.
     bindE (filterE (named_entry key) entries) (\<lambda>matches.
     bindE (case matches of [entry] \<Rightarrow> key_set entry | _ \<Rightarrow> Inl (ValueError ''exact existing database fields'')) (\<lambda>keys.
     bindE (refuse (keys \<noteq> entry_keys) ''exact existing database fields required'') (\<lambda>_.
     bindE (mapE (\<lambda>entry. bindE (named_entry key entry) (\<lambda>b. if b then py_put ''value'' (PStr value) entry else Inr entry)) entries) (\<lambda>entries'.
     Inr (PList entries'))))))"

definition set_endpoint :: "string \<Rightarrow> string \<Rightarrow> py \<Rightarrow> exn + py" where
  "set_endpoint host port environment =
     bindE (set_variable ''KC_DB_URL_HOST'' host environment) (set_variable ''KC_DB_URL_PORT'' port)"

definition set_database :: "py \<Rightarrow> string \<Rightarrow> string \<Rightarrow> py \<Rightarrow> exn + py" where
  "set_database aliases host port =
     change_key ''spec'' (\<lambda>spec. bindE (set_aliases aliases spec)
       (change_key ''containers'' (change_first (change_key ''env'' (set_endpoint host port)))))"

text \<open>Host aliases that are there already have to be the ones the current endpoint needs.\<close>

definition current_host :: "py \<Rightarrow> exn + py" where
  "current_host components =
     bindE (py_index components ''keycloak'') (\<lambda>keycloak.
     bindE (py_index keycloak ''manifest'') (\<lambda>manifest.
     bindE (py_index manifest ''spec'') (\<lambda>spec.
     bindE (py_index spec ''containers'') (\<lambda>containers.
     bindE (py_first containers) (\<lambda>container.
     bindE (py_index container ''env'') (\<lambda>environment.
     bindE (py_elements environment) (\<lambda>entries.
     bindE (filterE (named_entry ''KC_DB_URL_HOST'') entries) (\<lambda>named.
     bindE (filterE (\<lambda>e. bindE (key_set e) (\<lambda>ks. Inr (ks = entry_keys))) named) (\<lambda>plain.
     case plain of [entry] \<Rightarrow> py_index entry ''value'' | _ \<Rightarrow> Inl (ValueError ''exact existing database fields required''))))))))))"

definition previous_binding :: "py \<Rightarrow> exn + py" where
  "previous_binding components =
     foldE (\<lambda>cs name. change_key name (\<lambda>c. bindE (py_index c ''previous_networks'') (\<lambda>n. py_put ''networks'' n c)) cs)
       components [''keycloak'', ''postgres'']"

definition check_existing_aliases :: "py \<Rightarrow> bool \<Rightarrow> py \<Rightarrow> exn + unit" where
  "check_existing_aliases components desired existing =
     (if \<not> py_truth existing then Inr ()
      else
        bindE (current_host components) (\<lambda>host.
        bindE (if desired then Inr components else previous_binding components) (\<lambda>current.
        bindE (alias_list current host) (\<lambda>expected.
        refuse (\<not> py_eq existing expected) ''nonportable manifest networking''))))"

record transition =
  tr_changed :: bool
  tr_keycloak :: "string \<times> py"
  tr_postgres :: "string \<times> py"

definition prepare_body :: "py \<Rightarrow> py \<Rightarrow> py \<Rightarrow> exn + transition" where
  "prepare_body components database_host database_port =
     bindE (refuse (\<not> is_str database_host) ''literal database address required'') (\<lambda>_.
     bindE (refuse (\<not> (is_int database_port \<and> 1 \<le> the_int database_port \<and> the_int database_port \<le> 65535))
       ''invalid database port'') (\<lambda>_.
     bindE (refuse (\<not> is_dict components \<or> fst ` set (the_items components) \<noteq> pair_names) ''exactly two components required'') (\<lambda>_.
     bindE (alias_list components database_host) (\<lambda>aliases.
     bindE (prepare_component components ''keycloak'') (\<lambda>k.
     bindE (prepare_component components ''postgres'') (\<lambda>p.
     bindE (refuse (pr_desired k \<noteq> pr_desired p) ''mixed prior/desired controller state'') (\<lambda>_.
     bindE (refuse (py_truth (pr_aliases p)) ''nonportable manifest networking'') (\<lambda>_.
     bindE (check_existing_aliases components (pr_desired k) (pr_aliases k)) (\<lambda>_.
     bindE (set_database aliases (the_str database_host) (dec_int (the_int database_port)) (pr_manifest k)) (\<lambda>manifest.
     Inr \<lparr>tr_changed = (\<not> pr_desired k \<or> \<not> py_eq manifest (pr_manifest k)),
          tr_keycloak = (pr_quadlet k, manifest), tr_postgres = (pr_quadlet p, pr_manifest p)\<rparr>))))))))))"

definition prepare_transition :: "py \<Rightarrow> py \<Rightarrow> py \<Rightarrow> exn + transition" where
  "prepare_transition components database_host database_port =
     rejecting ''Native migration preparation rejected; no mutation authorized''
       (prepare_body components database_host database_port)"

section \<open>The running pair\<close>

definition runtime_identity_valid :: "py \<Rightarrow> py \<Rightarrow> exn + unit" where
  "runtime_identity_valid component record =
     bindE (bindE (py_index record ''ImageName'') digest_of) (\<lambda>actual.
     bindE (bindE (py_index component ''image'') digest_of) (\<lambda>expected.
     bindE (refuse (actual \<noteq> expected) ''runtime image drift'') (\<lambda>_.
     bindE (py_index record ''Mounts'') (\<lambda>mounts.
     bindE (py_index component ''container_data_dir'') (\<lambda>data_dir.
     bindE (select_by ''Destination'' data_dir mounts) (\<lambda>selected.
     bindE (case selected of [mount] \<Rightarrow> Inr mount | _ \<Rightarrow> Inl (ValueError ''runtime data drift'')) (\<lambda>mount.
     bindE (py_index mount ''Source'') (\<lambda>source.
     bindE (py_index component ''host_data_dir'') (\<lambda>host_dir.
     bindE (py_get mount ''Type'' PNone) (\<lambda>kind.
     bindE (py_get mount ''RW'' PNone) (\<lambda>writable.
     refuse (\<not> py_eq source host_dir \<or> kind \<noteq> PStr ''bind'' \<or> writable \<noteq> PBool True) ''runtime data drift'')))))))))))"

text \<open>The runtime names of the declared networks, with the addresses that are pinned.\<close>

definition runtime_entry :: "py \<Rightarrow> (string \<times> py) list \<Rightarrow> string \<Rightarrow> exn + (string \<times> py) list" where
  "runtime_entry component expected entry =
     (let (network_unit, address) = network_entry entry in
      bindE (bindE (py_index component ''network_runtime_names'') (\<lambda>names. py_index names network_unit)) (\<lambda>name.
      bindE (refuse (\<not> is_str name \<or> \<not> unit_name (the_str name) \<or> the_str name \<in> fst ` set expected)
        ''unproven network runtime identity'') (\<lambda>_.
      bindE (case address of None \<Rightarrow> Inr PNone | Some a \<Rightarrow> bindE (ipv4_of_text a) (\<lambda>x. Inr (PStr (ipv4_text x)))) (\<lambda>v.
      Inr (dict_put (the_str name) v expected)))))"

definition expected_runtime_networks :: "py \<Rightarrow> string \<Rightarrow> exn + py" where
  "expected_runtime_networks component field =
     bindE (py_index component field) (\<lambda>networks.
     bindE (quadlet_text (PStr ''Runtime binding validation'') (PStr ''/etc/fixture.yml'') networks) (\<lambda>_.
     bindE (foldE (runtime_entry component) [] (map the_str (the_list networks))) (\<lambda>expected. Inr (PDict expected))))"

definition runtime_networks_match :: "(string \<times> py) list \<Rightarrow> py \<Rightarrow> exn + bool" where
  "runtime_networks_match actual expected =
     bindE (key_set expected) (\<lambda>names.
     if fst ` set actual \<noteq> names then Inr False
     else foldE (\<lambda>ok (name, address).
            if \<not> ok then Inr False
            else bindE (py_ipv4 address) (\<lambda>_.
                 bindE (py_index expected name) (\<lambda>pinned. Inr (pinned = PNone \<or> py_eq address pinned)))) True actual)"

definition env_value :: "string \<Rightarrow> py \<Rightarrow> exn + string" where
  "env_value key environment =
     bindE (py_elements environment) (\<lambda>elements.
     bindE (mapE as_str elements) (\<lambda>entries.
     case filter (prefix (key @ ''='')) entries of
       [entry] \<Rightarrow> Inr (drop (length key + 1) entry)
     | _ \<Rightarrow> Inl (ValueError ''unproven runtime endpoint'')))"

definition database_environment :: "py \<Rightarrow> exn + py" where
  "database_environment record =
     bindE (bindE (py_index record ''Config'') (\<lambda>config. py_index config ''Env'')) (\<lambda>environment.
     bindE (env_value ''KC_DB_URL_HOST'' environment) (\<lambda>host.
     bindE (env_value ''KC_DB_URL_PORT'' environment) (\<lambda>port.
     Inr (PDict [(''KC_DB_URL_HOST'', PStr host), (''KC_DB_URL_PORT'', PStr port)]))))"

text \<open>\<open>{network: value["IPAddress"] for network, value in record["NetworkSettings"]["Networks"].items()}\<close>\<close>

definition actual_networks :: "py \<Rightarrow> exn + (string \<times> py) list" where
  "actual_networks record =
     bindE (py_index record ''NetworkSettings'') (\<lambda>settings.
     bindE (py_index settings ''Networks'') (\<lambda>networks.
     bindE (py_items networks) (\<lambda>items.
     mapE (\<lambda>(network, v). bindE (py_index v ''IPAddress'') (\<lambda>address. Inr (network, address))) items)))"

definition name_list :: "(string \<times> py) list \<Rightarrow> py" where
  "name_list actual = PList (map PStr (sort (map fst actual)))"

definition addresses_present :: "(string \<times> py) list \<Rightarrow> exn + unit" where
  "addresses_present actual =
     bindE (refuse (list_ex (\<lambda>(_, address). \<not> py_truth address) actual) ''address missing'') (\<lambda>_.
     forE (\<lambda>(_, address). bindE (py_ipv4 address) (\<lambda>_. Inr ())) actual)"

section \<open>Before the pair is stopped\<close>

definition bound_networks :: "py \<Rightarrow> exn + py" where
  "bound_networks component =
     bindE (bindE (py_index component ''quadlet_content'') as_str) (\<lambda>content.
     bindE (component_unit component ''networks'') (\<lambda>desired.
     bindE (component_unit component ''previous_networks'') (\<lambda>previous.
     if nonempty_lines content = nonempty_lines desired then expected_runtime_networks component ''networks''
     else if nonempty_lines content = nonempty_lines previous then expected_runtime_networks component ''previous_networks''
     else Inl (ValueError ''unproven current network controller''))))"

definition capture_component :: "py \<Rightarrow> string \<times> py \<Rightarrow> exn + string \<times> py" where
  "capture_component records = (\<lambda>(name, component).
     bindE (py_index records name) (\<lambda>record.
     bindE (runtime_identity_valid component record) (\<lambda>_.
     bindE (expected_runtime_networks component ''networks'') (\<lambda>_.
     bindE (actual_networks record) (\<lambda>actual.
     bindE (refuse (actual = []) ''unproven original network'') (\<lambda>_.
     bindE (addresses_present actual) (\<lambda>_.
     bindE (bound_networks component) (\<lambda>bound.
     bindE (refuse (\<not> py_truth bound \<and> fst ` set actual \<noteq> {''podman-default-kube-network''})
       ''unreconstructable implicit original network'') (\<lambda>_.
     bindE (if py_truth bound then runtime_networks_match actual bound else Inr True) (\<lambda>match.
     bindE (refuse (\<not> match) ''current runtime network drift'') (\<lambda>_.
     bindE (py_put ''original_runtime'' (PDict [(''network_names'', name_list actual), (''static_networks'', bound)]) component) (\<lambda>c.
     Inr (name, c)))))))))))))"

definition manifest_environment :: "py \<Rightarrow> exn + py list" where
  "manifest_environment components =
     bindE (py_index components ''keycloak'') (\<lambda>keycloak.
     bindE (py_index keycloak ''manifest'') (\<lambda>manifest.
     bindE (py_index manifest ''spec'') (\<lambda>spec.
     bindE (py_index spec ''containers'') (\<lambda>containers.
     bindE (py_first containers) (\<lambda>container.
     bindE (py_index container ''env'') py_elements)))))"

definition check_variable :: "py list \<Rightarrow> string \<times> py \<Rightarrow> exn + unit" where
  "check_variable environment = (\<lambda>(key, v).
     bindE (filterE (named_entry key) environment) (\<lambda>matches.
     bindE (case matches of [entry] \<Rightarrow> py_get entry ''value'' PNone | _ \<Rightarrow> Inl (ValueError ''config drift'')) (\<lambda>w.
     refuse (\<not> py_eq w v) ''original database runtime/config drift'')))"

definition same_pair :: "py \<Rightarrow> py \<Rightarrow> exn + unit" where
  "same_pair components records =
     bindE (key_set components) (\<lambda>names.
     bindE (key_set records) (\<lambda>record_names.
     refuse (names \<noteq> pair_names \<or> record_names \<noteq> names) ''exact pair required''))"

definition capture_body :: "py \<Rightarrow> py \<Rightarrow> exn + py" where
  "capture_body components records =
     bindE (same_pair components records) (\<lambda>_.
     bindE (mapE (capture_component records) (the_items components)) (\<lambda>captured.
     bindE (bindE (py_index records ''keycloak'') database_environment) (\<lambda>original.
     bindE (manifest_environment (PDict captured)) (\<lambda>environment.
     bindE (forE (check_variable environment) (the_items original)) (\<lambda>_.
     change_key ''keycloak'' (change_key ''original_runtime'' (py_put ''database_environment'' original)) (PDict captured))))))"

definition capture_original_runtime :: "py \<Rightarrow> py \<Rightarrow> exn + py" where
  "capture_original_runtime components records =
     rejecting ''Native pre-stop runtime validation rejected'' (capture_body components records)"

section \<open>After the transition\<close>

text \<open>The body of the loop of \<open>runtime_valid\<close>, for the desired networks and for a rollback.\<close>

definition desired_networks_valid :: "py \<Rightarrow> (string \<times> py) list \<Rightarrow> exn + unit" where
  "desired_networks_valid component actual =
     bindE (expected_runtime_networks component ''networks'') (\<lambda>expected.
     bindE (runtime_networks_match actual expected) (\<lambda>match.
     refuse (\<not> match) ''runtime network drift''))"

definition original_networks_valid :: "py \<Rightarrow> (string \<times> py) list \<Rightarrow> exn + unit" where
  "original_networks_valid component actual =
     bindE (py_index component ''original_runtime'') (\<lambda>original.
     bindE (py_index original ''network_names'') (\<lambda>names.
     bindE (refuse (\<not> py_eq (name_list actual) names) ''rollback network identity drift'') (\<lambda>_.
     bindE (py_index original ''static_networks'') (\<lambda>static.
     bindE (if py_truth static then runtime_networks_match actual static else Inr True) (\<lambda>match.
     bindE (refuse (\<not> match) ''rollback static address drift'') (\<lambda>_.
     addresses_present actual))))))"

definition component_runtime_valid :: "py \<Rightarrow> bool \<Rightarrow> string \<times> py \<Rightarrow> exn + unit" where
  "component_runtime_valid records desired = (\<lambda>(name, component).
     bindE (py_index records name) (\<lambda>record.
     bindE (runtime_identity_valid component record) (\<lambda>_.
     bindE (actual_networks record) (\<lambda>actual.
     if desired then desired_networks_valid component actual else original_networks_valid component actual))))"

text \<open>
  \<open>runtime_valid\<close>; the port is given by its text \<open>str(database_port)\<close>, the only form of it that
  is compared.
\<close>

definition runtime_body :: "py \<Rightarrow> py \<Rightarrow> py \<Rightarrow> string \<Rightarrow> bool \<Rightarrow> exn + bool" where
  "runtime_body components records database_host port desired =
     bindE (same_pair components records) (\<lambda>_.
     bindE (forE (component_runtime_valid records desired) (the_items components)) (\<lambda>_.
     bindE (bindE (py_index records ''keycloak'') database_environment) (\<lambda>actual.
     bindE (if desired then Inr (PDict [(''KC_DB_URL_HOST'', database_host), (''KC_DB_URL_PORT'', PStr port)])
            else bindE (py_index components ''keycloak'') (\<lambda>keycloak.
                 bindE (py_index keycloak ''original_runtime'') (\<lambda>original. py_index original ''database_environment''))) (\<lambda>expected.
     bindE (refuse (\<not> py_eq actual expected) ''endpoint drift'') (\<lambda>_. Inr True)))))"

definition runtime_valid :: "py \<Rightarrow> py \<Rightarrow> py \<Rightarrow> string \<Rightarrow> bool \<Rightarrow> exn + bool" where
  "runtime_valid components records database_host port desired =
     rejecting ''Native migration runtime validation rejected''
       (runtime_body components records database_host port desired)"

lemmas [run_simps] = caught_def rejecting_def as_str_def digest_of_def key_set_def pair_names_def slash_def
  canonical_path_def is_alnum_def unit_name_def dotted_quad_def network_entry_def network_binding_def single_line_def
  quadlet_text_def networks_of_def managed_name_def dns_char_def dns_label_def database_binding_def peer_address_def
  alias_list_def endpoint_components_def private_database_endpoint_valid_def resolved_address_def
  database_resolution_valid_def nonempty_lines_def component_unit_def path_field_def pinned_image_def select_by_def
  competing_annotation_def foreign_port_def check_container_def check_manifest_def prepare_component_def change_key_def
  change_first_def entry_keys_def set_aliases_def named_entry_def set_variable_def set_endpoint_def set_database_def current_host_def
  previous_binding_def check_existing_aliases_def prepare_body_def prepare_transition_def runtime_identity_valid_def
  runtime_entry_def expected_runtime_networks_def runtime_networks_match_def env_value_def database_environment_def
  actual_networks_def name_list_def addresses_present_def bound_networks_def capture_component_def
  manifest_environment_def check_variable_def same_pair_def capture_body_def capture_original_runtime_def
  desired_networks_valid_def original_networks_valid_def component_runtime_valid_def runtime_body_def runtime_valid_def

section \<open>A capture supports the rollback\<close>

lemma rejecting_Inr [simp]: "rejecting message r = Inr x \<longleftrightarrow> r = Inr x"
  by (auto simp: rejecting_def split: sum.splits)

lemma fst_dict_put: "fst ` set (dict_put k v kvs) = insert k (fst ` set kvs)"
  by (induction kvs rule: dict_put.induct) auto

lemma set_dict_put: "x \<in> set (dict_put k v kvs) \<Longrightarrow> x = (k, v) \<or> x \<in> set kvs"
  by (induction kvs rule: dict_put.induct) (auto split: if_splits)

lemma dict_put_put [simp]: "dict_put k v (dict_put k w kvs) = dict_put k v kvs"
  by (induction kvs rule: dict_put.induct) auto

lemma change_key_eq_Inr:
  "change_key k f d = Inr d' \<longleftrightarrow>
     (\<exists>kvs v w. d = PDict kvs \<and> map_of kvs k = Some v \<and> f v = Inr w \<and> d' = PDict (dict_put k w kvs))"
  by (cases d) (auto simp: change_key_def bindE_eq_Inr py_index_eq_Inr py_put_eq_Inr)

lemma runtime_identity_put:
  "runtime_identity_valid (PDict (dict_put ''original_runtime'' x kvs)) running = runtime_identity_valid (PDict kvs) running"
  by (simp add: runtime_identity_valid_def py_index_put)

lemma py_eq_names [simp]: "py_eq_list (map PStr xs) (map PStr xs)"
  by (induction xs) simp_all

lemma capture_componentE:
  assumes "capture_component records (name, component) = Inr (name', c)"
  obtains kvs running actual bound where "component = PDict kvs" "name' = name" "py_index records name = Inr running"
    "runtime_identity_valid component running = Inr ()" "actual_networks running = Inr actual"
    "addresses_present actual = Inr ()" "py_truth bound \<Longrightarrow> runtime_networks_match actual bound = Inr True"
    "c = PDict (dict_put ''original_runtime'' (PDict [(''network_names'', name_list actual), (''static_networks'', bound)]) kvs)"
  using assms by (force simp: capture_component_def bindE_eq_Inr py_put_eq_Inr is_dict_iff split: if_splits)

text \<open>The record of the original runtime is enough to check the component that was captured.\<close>

lemma rollback_component:
  assumes "py_index records name = Inr running" "runtime_identity_valid (PDict kvs) running = Inr ()"
    "actual_networks running = Inr actual" "addresses_present actual = Inr ()"
    "py_truth bound \<Longrightarrow> runtime_networks_match actual bound = Inr True"
    "py_index (PDict runtime) ''network_names'' = Inr (name_list actual)"
    "py_index (PDict runtime) ''static_networks'' = Inr bound"
  shows "component_runtime_valid records False (name, PDict (dict_put ''original_runtime'' (PDict runtime) kvs)) = Inr ()"
  using assms
  by (simp add: component_runtime_valid_def runtime_identity_put original_networks_valid_def py_index_put name_list_def)

lemma database_environment_eq: "database_environment running = Inr original \<Longrightarrow> py_eq original original"
  by (auto simp: database_environment_def bindE_eq_Inr)

lemma capture_names: "mapE (capture_component records) items = Inr kept \<Longrightarrow> map fst kept = map fst items"
  by (induction items arbitrary: kept) (auto simp: bindE_eq_Inr elim!: capture_componentE)

lemma capture_body_valid:
  assumes "capture_body components records = Inr captured"
  shows "runtime_body captured records host port False = Inr True"
proof -
  from assms obtain kept original where pair: "same_pair components records = Inr ()"
    and kept: "mapE (capture_component records) (the_items components) = Inr kept"
    and original: "bindE (py_index records ''keycloak'') database_environment = Inr original"
    and captured: "change_key ''keycloak'' (change_key ''original_runtime'' (py_put ''database_environment'' original)) (PDict kept)
      = Inr captured"
    by (auto simp: capture_body_def bindE_eq_Inr)
  obtain items where items: "components = PDict items"
    using pair by (auto simp: same_pair_def key_set_def bindE_eq_Inr split: py.splits)
  from captured obtain keycloak k runtime where k: "map_of kept ''keycloak'' = Some keycloak" "keycloak = PDict k"
      "map_of k ''original_runtime'' = Some (PDict runtime)"
    and result: "captured = PDict (dict_put ''keycloak'' (PDict (dict_put ''original_runtime''
      (PDict (dict_put ''database_environment'' original runtime)) k)) kept)" (is "_ = PDict (dict_put _ ?new _)")
    by (auto simp: change_key_eq_Inr py_put_eq_Inr is_dict_iff)
  have origin: "\<exists>name' c0. capture_component records (name', c0) = Inr e" if "e \<in> set kept" for e
    using mapE_result [OF kept that] by (metis surj_pair)
  have valid: "component_runtime_valid records False entry = Inr ()" if entry: "entry \<in> set (the_items captured)" for entry
  proof -
    from entry result consider "entry \<in> set kept" | "entry = (''keycloak'', ?new)" using set_dict_put by fastforce
    then show ?thesis
    proof cases
      case 1
      obtain name c where e: "entry = (name, c)" by (cases entry)
      with origin [OF 1] obtain name' c0 where "capture_component records (name', c0) = Inr (name, c)" by auto
      then show ?thesis
      proof (rule capture_componentE)
        fix kvs running actual bound
        assume "c0 = PDict kvs" "name = name'" "py_index records name' = Inr running"
          "runtime_identity_valid c0 running = Inr ()" "actual_networks running = Inr actual"
          "addresses_present actual = Inr ()" "py_truth bound \<Longrightarrow> runtime_networks_match actual bound = Inr True"
          "c = PDict (dict_put ''original_runtime'' (PDict [(''network_names'', name_list actual), (''static_networks'', bound)]) kvs)"
        then show ?thesis unfolding e by (simp only:) (rule rollback_component; simp add: py_index_def)
      qed
    next
      case 2
      from k(1,2) have "(''keycloak'', PDict k) \<in> set kept" by (auto dest: map_of_SomeD)
      from origin [OF this] obtain name' c0 where "capture_component records (name', c0) = Inr (''keycloak'', PDict k)" by auto
      then show ?thesis
      proof (rule capture_componentE)
        fix kvs running actual bound
        assume a: "c0 = PDict kvs" "''keycloak'' = name'" "py_index records name' = Inr running"
          "runtime_identity_valid c0 running = Inr ()" "actual_networks running = Inr actual"
          "addresses_present actual = Inr ()" "py_truth bound \<Longrightarrow> runtime_networks_match actual bound = Inr True"
          "PDict k = PDict (dict_put ''original_runtime'' (PDict [(''network_names'', name_list actual), (''static_networks'', bound)]) kvs)"
        with k(3) have r: "runtime = [(''network_names'', name_list actual), (''static_networks'', bound)]" by simp
        from a(8) have "?new = PDict (dict_put ''original_runtime'' (PDict (dict_put ''database_environment'' original runtime)) kvs)"
          by simp
        with 2 a(1-7) show ?thesis by (simp only:) (rule rollback_component; simp add: py_index_def r)
      qed
    qed
  qed
  have "map fst kept = map fst items" using capture_names [OF kept] by (simp add: items)
  then have "fst ` set kept = fst ` set items" by (metis set_map)
  moreover have "''keycloak'' \<in> fst ` set kept" using map_of_SomeD [OF k(1)] by force
  ultimately have "same_pair captured records = Inr ()"
    using pair by (auto simp: same_pair_def items result key_set_def fst_dict_put bindE_eq_Inr insert_absorb)
  with valid original show ?thesis
    by (auto simp: runtime_body_def forE_eq_Inr bindE_eq_Inr result py_index_put dest: database_environment_eq)
qed

section \<open>Changes that settle\<close>

text \<open>A change that may be made twice, and one that keeps dictionaries free of duplicate keys.\<close>

definition settles :: "(py \<Rightarrow> exn + py) \<Rightarrow> bool" where
  "settles f \<longleftrightarrow> (\<forall>v w. f v = Inr w \<longrightarrow> f w = Inr w)"

definition keeps_wf :: "(py \<Rightarrow> exn + py) \<Rightarrow> bool" where
  "keeps_wf f \<longleftrightarrow> (\<forall>v w. py_wf v \<longrightarrow> f v = Inr w \<longrightarrow> py_wf w)"

lemma settlesD: "settles f \<Longrightarrow> f v = Inr w \<Longrightarrow> f w = Inr w"
  by (simp add: settles_def)

lemma keeps_wfD: "keeps_wf f \<Longrightarrow> f v = Inr w \<Longrightarrow> py_wf v \<Longrightarrow> py_wf w"
  by (simp add: keeps_wf_def)

lemma dict_put_same: "map_of kvs k = Some v \<Longrightarrow> dict_put k v kvs = kvs"
  by (induction kvs rule: dict_put.induct) (auto split: if_splits)

lemma dict_pop_same: "map_of kvs k = None \<Longrightarrow> dict_pop k kvs = kvs"
  by (induction kvs) (auto simp: dict_pop_def split: if_splits)

lemma change_key_settles: "settles f \<Longrightarrow> settles (change_key k f)"
  by (auto simp: settles_def change_key_eq_Inr)

lemma change_first_eq_Inr: "change_first f v = Inr w \<longleftrightarrow> (\<exists>x xs y. v = PList (x # xs) \<and> f x = Inr y \<and> w = PList (y # xs))"
  by (auto simp: change_first_def bindE_eq_Inr split: py.splits list.splits)

lemma change_first_settles: "settles f \<Longrightarrow> settles (change_first f)"
  by (auto simp: settles_def change_first_eq_Inr)

lemma map_fst_dict_put: "map fst (dict_put k v kvs) = (if k \<in> fst ` set kvs then map fst kvs else map fst kvs @ [k])"
  by (induction kvs rule: dict_put.induct) auto

lemma py_wf_put: "py_wf (PDict kvs) \<Longrightarrow> py_wf v \<Longrightarrow> py_wf (PDict (dict_put k v kvs))"
  by (auto simp: map_fst_dict_put py_wf_items_iff dest!: set_dict_put)

lemma py_wf_index: "map_of kvs k = Some v \<Longrightarrow> py_wf (PDict kvs) \<Longrightarrow> py_wf v"
  by (auto simp: py_wf_items_iff dest!: map_of_SomeD)

lemma py_wf_pop: "py_wf (PDict kvs) \<Longrightarrow> py_wf (PDict (dict_pop k kvs))"
  by (auto simp: dict_pop_def py_wf_items_iff distinct_map_filter)

lemma change_key_wf: "keeps_wf f \<Longrightarrow> keeps_wf (change_key k f)"
  by (auto simp: keeps_wf_def change_key_eq_Inr simp del: py_wf.simps intro!: py_wf_put dest: py_wf_index)

lemma change_first_wf: "keeps_wf f \<Longrightarrow> keeps_wf (change_first f)"
  by (auto simp: keeps_wf_def change_first_eq_Inr)

section \<open>One variable of an environment\<close>

definition named :: "string \<Rightarrow> py \<Rightarrow> bool" where
  "named key entry \<longleftrightarrow> get_or entry ''name'' PNone = PStr key"

lemma named_entry_dict: "is_dict e \<Longrightarrow> named_entry key e = Inr (named key e)"
  by (cases e) (simp_all add: named_entry_def named_def py_get_def get_or_def)

lemma named_entry_other: "\<not> is_dict e \<Longrightarrow> named_entry key e = Inl AttributeError"
  by (cases e) (simp_all add: named_entry_def py_get_def)

lemma filterE_named: "filterE (named_entry key) es = Inr ms \<longleftrightarrow> list_all is_dict es \<and> ms = filter (named key) es"
proof (induction es arbitrary: ms)
  case (Cons e es)
  then show ?case by (cases "is_dict e") (auto simp: bindE_eq_Inr named_entry_dict named_entry_other)
qed auto

text \<open>The only entry with a name, by its position.\<close>

definition only_at :: "('a \<Rightarrow> bool) \<Rightarrow> 'a list \<Rightarrow> nat \<Rightarrow> bool" where
  "only_at p xs i \<longleftrightarrow> i < length xs \<and> (\<forall>j < length xs. p (xs ! j) \<longleftrightarrow> j = i)"

lemma ex_nat: "(\<exists>i. p i) \<longleftrightarrow> p 0 \<or> (\<exists>i :: nat. p (Suc i))"
  by (metis not0_implies_Suc)

lemma filter_single: "filter p xs = [x] \<longleftrightarrow> (\<exists>i. only_at p xs i \<and> x = xs ! i)"
proof (induction xs)
  case (Cons y ys)
  have "only_at p (y # ys) 0 \<longleftrightarrow> p y \<and> filter p ys = []"
    by (auto simp: only_at_def filter_empty_conv all_set_conv_all_nth nth_Cons split: nat.splits)
  moreover have "only_at p (y # ys) (Suc i) \<longleftrightarrow> \<not> p y \<and> only_at p ys i" for i
    by (auto simp: only_at_def nth_Cons split: nat.splits)
  ultimately show ?case using Cons.IH
    by (subst ex_nat) auto
qed (simp add: only_at_def)

lemma py_elements_dicts: "py_elements v = Inr es \<Longrightarrow> list_all is_dict es \<Longrightarrow> es \<noteq> [] \<Longrightarrow> v = PList es"
proof (cases v)
  case (PStr s)
  assume "py_elements v = Inr es" "list_all is_dict es" "es \<noteq> []"
  with PStr show ?thesis by (cases "str_chars s") (auto simp: py_elements_def)
next
  case (PDict kvs)
  assume "py_elements v = Inr es" "list_all is_dict es" "es \<noteq> []"
  with PDict show ?thesis by (cases kvs) (auto simp: py_elements_def)
qed (auto simp: py_elements_def)

definition with_value :: "string \<Rightarrow> py \<Rightarrow> py" where
  "with_value v entry = PDict (dict_put ''value'' (PStr v) (the_items entry))"

lemma mapE_named:
  assumes "list_all is_dict es" "only_at (named key) es i"
  shows "mapE (\<lambda>entry. bindE (named_entry key entry) (\<lambda>b. if b then py_put ''value'' (PStr v) entry else Inr entry)) es
    = Inr (es[i := with_value v (es ! i)])"
  unfolding mapE_eq_Inr list_all2_conv_all_nth
proof (intro conjI allI impI)
  fix j assume j: "j < length es"
  with assms have "is_dict (es ! j)" and n: "named key (es ! j) \<longleftrightarrow> j = i" by (auto simp: list_all_length only_at_def)
  then show "bindE (named_entry key (es ! j)) (\<lambda>b. if b then py_put ''value'' (PStr v) (es ! j) else Inr (es ! j))
    = Inr (es[i := with_value v (es ! i)] ! j)"
    using j by (cases "es ! j") (auto simp: named_entry_dict nth_list_update with_value_def py_put_def)
qed simp

lemma single_eq_Inr:
  "(case ms of [x] \<Rightarrow> f x | _ \<Rightarrow> Inl e) = Inr y \<longleftrightarrow> (\<exists>x. ms = [x] \<and> f x = Inr y)"
  by (auto split: list.splits)

lemma set_variable_eq:
  "set_variable key v env = Inr env' \<longleftrightarrow>
    (\<exists>es i. env = PList es \<and> list_all is_dict es \<and> only_at (named key) es i \<and> fst ` set (the_items (es ! i)) = entry_keys
      \<and> env' = PList (es[i := with_value v (es ! i)]))" (is "?l \<longleftrightarrow> ?r")
proof
  assume ?l
  then obtain es ms entry keys where es: "py_elements env = Inr es" "list_all is_dict es" "filter (named key) es = [entry]"
      "key_set entry = Inr keys" "keys = entry_keys"
    and m: "mapE (\<lambda>entry. bindE (named_entry key entry) (\<lambda>b. if b then py_put ''value'' (PStr v) entry else Inr entry)) es = Inr ms"
      "env' = PList ms"
    by (auto simp: set_variable_def bindE_eq_Inr filterE_named single_eq_Inr)
  from es(3) obtain i where i: "only_at (named key) es i" "entry = es ! i" by (auto simp: filter_single)
  then have "es \<noteq> []" by (auto simp: only_at_def)
  with es have "env = PList es" by (auto dest: py_elements_dicts)
  moreover have "fst ` set (the_items (es ! i)) = entry_keys" using es(4,5) i(2) by (cases "es ! i") (simp_all add: key_set_def)
  moreover have "env' = PList (es[i := with_value v (es ! i)])" using m mapE_named [OF es(2) i(1), of v] by simp
  ultimately show ?r using es(2) i(1) by blast
next
  assume ?r
  then obtain es i where r: "env = PList es" "list_all is_dict es" "only_at (named key) es i"
    "fst ` set (the_items (es ! i)) = entry_keys" "env' = PList (es[i := with_value v (es ! i)])" by blast
  moreover from r(2,3) have "is_dict (es ! i)" by (simp add: list_all_length only_at_def)
  then have "key_set (es ! i) = Inr entry_keys" using r(4) by (cases "es ! i") (auto simp: key_set_def)
  moreover have "filter (named key) es = [es ! i]" using r(3) by (auto simp: filter_single)
  then have "filterE (named_entry key) es = Inr [es ! i]" using r(2) by (simp add: filterE_named)
  ultimately show ?l by (simp add: set_variable_def py_elements_def mapE_named)
qed

lemma with_value_simps [simp]:
  "with_value v (with_value w e) = with_value v e" "is_dict (with_value v e)"
  "named key (with_value v e) = named key e" "fst ` set (the_items (with_value v e)) = insert ''value'' (fst ` set (the_items e))"
  by (simp_all add: with_value_def named_def get_or_def fst_dict_put)

lemma value_is_key [simp]: "insert ''value'' entry_keys = entry_keys"
  by (auto simp: entry_keys_def)

lemma named_other: "named k1 e \<Longrightarrow> named k2 e \<Longrightarrow> k1 = k2"
  by (simp add: named_def)

text \<open>Setting a variable settles, also after another variable has been set.\<close>

lemma set_variable_settles: "set_variable key v env = Inr env' \<Longrightarrow> set_variable key v env' = Inr env'"
proof -
  assume "set_variable key v env = Inr env'"
  then obtain es i where "list_all is_dict es" "only_at (named key) es i" "fst ` set (the_items (es ! i)) = entry_keys"
    "env' = PList (es[i := with_value v (es ! i)])" by (auto simp: set_variable_eq)
  moreover from this have "i < length es" "only_at (named key) (es[i := with_value v (es ! i)]) i"
    "list_all is_dict (es[i := with_value v (es ! i)])"
    by (auto simp: only_at_def list_all_length nth_list_update)
  ultimately show ?thesis unfolding set_variable_eq
    by (intro exI [of _ "es[i := with_value v (es ! i)]"] exI [of _ i]) simp
qed

lemma set_variable_commutes:
  assumes "set_variable k1 v env = Inr env" and "set_variable k2 w env = Inr env'" and "k1 \<noteq> k2"
  shows "set_variable k1 v env' = Inr env'"
proof -
  from assms(1) obtain es i where a: "env = PList es" "list_all is_dict es" "only_at (named k1) es i"
      "fst ` set (the_items (es ! i)) = entry_keys" "es = es[i := with_value v (es ! i)]" by (auto simp: set_variable_eq)
  from assms(2) a(1) obtain j where b: "only_at (named k2) es j" "env' = PList (es[j := with_value w (es ! j)])"
    by (auto simp: set_variable_eq)
  have ij: "i \<noteq> j" using a(3) b(1) assms(3) named_other by (auto simp: only_at_def)
  let ?es = "es[j := with_value w (es ! j)]"
  have i: "?es ! i = es ! i" using ij by simp
  have "only_at (named k1) ?es i" using a(3) b(1) ij by (auto simp: only_at_def nth_list_update)
  moreover have "list_all is_dict ?es" using a(2) b(1) by (auto simp: only_at_def list_all_length nth_list_update)
  moreover have "with_value v (es ! i) = es ! i" using a(3,5) by (metis nth_list_update_eq only_at_def)
  then have "?es = ?es[i := with_value v (?es ! i)]" by (metis i list_update_id)
  ultimately show ?thesis unfolding set_variable_eq b(2) using a(4) i by (metis (no_types, lifting))
qed

lemma set_endpoint_host:
  assumes "set_endpoint host port env = Inr env'"
  shows "set_variable ''KC_DB_URL_HOST'' host env' = Inr env'"
proof -
  from assms obtain e where "set_variable ''KC_DB_URL_HOST'' host env = Inr e" and e: "set_variable ''KC_DB_URL_PORT'' port e = Inr env'"
    unfolding set_endpoint_def bindE_eq_Inr by blast
  from set_variable_commutes [OF set_variable_settles [OF this(1)] e] show ?thesis by simp
qed

lemma set_endpoint_settles: "settles (set_endpoint host port)"
  unfolding settles_def
proof (intro allI impI)
  fix v w assume s: "set_endpoint host port v = Inr w"
  then have "set_variable ''KC_DB_URL_PORT'' port w = Inr w"
    unfolding set_endpoint_def bindE_eq_Inr by (blast intro: set_variable_settles)
  with set_endpoint_host [OF s] show "set_endpoint host port w = Inr w" by (simp add: set_endpoint_def)
qed

lemma set_variable_wf: "keeps_wf (set_variable key v)"
proof -
  have "py_wf (with_value v e)" if "py_wf e" "is_dict e" for e
    using that py_wf_put [of "the_items e" "PStr v" "''value''"] by (cases e) (auto simp: with_value_def simp del: py_wf.simps(2))
  then show ?thesis
    by (auto simp: keeps_wf_def set_variable_eq py_wf_list_iff list_all_length only_at_def all_set_conv_all_nth nth_list_update)
qed

lemma set_endpoint_wf: "keeps_wf (set_endpoint host port)"
  unfolding keeps_wf_def set_endpoint_def bindE_eq_Inr by (blast intro: keeps_wfD [OF set_variable_wf])

section \<open>The manifest of Keycloak\<close>

lemma set_aliases_eq_Inr:
  "set_aliases aliases spec = Inr spec' \<longleftrightarrow> (\<exists>kvs. spec = PDict kvs \<and>
     spec' = PDict (if py_truth aliases then dict_put ''hostAliases'' aliases kvs else dict_pop ''hostAliases'' kvs))"
  by (cases spec) (auto simp: set_aliases_def py_put_def)

lemma set_aliasesE:
  assumes "set_aliases aliases spec = Inr spec'"
  obtains sk sk' where "spec = PDict sk" "spec' = PDict sk'"
    "map_of sk' = (map_of sk)(''hostAliases'' := if py_truth aliases then Some aliases else None)"
  using assms by (cases "py_truth aliases") (auto simp: set_aliases_eq_Inr)

lemma set_aliases_same:
  "map_of kvs ''hostAliases'' = (if py_truth aliases then Some aliases else None) \<Longrightarrow> set_aliases aliases (PDict kvs) = Inr (PDict kvs)"
  by (simp add: set_aliases_eq_Inr dict_put_same dict_pop_same split: if_splits)

lemma set_database_settles: "settles (set_database aliases host port)"
  unfolding set_database_def
proof (rule change_key_settles, unfold settles_def, intro allI impI)
  let ?g = "change_key ''containers'' (change_first (change_key ''env'' (set_endpoint host port)))"
  have g: "settles ?g" by (intro change_key_settles change_first_settles set_endpoint_settles)
  fix v w assume "bindE (set_aliases aliases v) ?g = Inr w"
  then obtain u where u: "set_aliases aliases v = Inr u" "?g u = Inr w" unfolding bindE_eq_Inr by blast
  from u(1) obtain sk sk' where "u = PDict sk'"
    and sk': "map_of sk' = (map_of sk)(''hostAliases'' := if py_truth aliases then Some aliases else None)" by (rule set_aliasesE)
  with u(2) obtain x where "w = PDict (dict_put ''containers'' x sk')" by (auto simp: change_key_eq_Inr)
  then have "set_aliases aliases w = Inr w" using sk' by (simp add: set_aliases_same)
  with settlesD [OF g u(2)] show "bindE (set_aliases aliases w) ?g = Inr w" by simp
qed

lemma set_database_wf: "py_wf aliases \<Longrightarrow> keeps_wf (set_database aliases host port)"
  unfolding set_database_def
proof (rule change_key_wf, unfold keeps_wf_def, intro allI impI)
  let ?g = "change_key ''containers'' (change_first (change_key ''env'' (set_endpoint host port)))"
  fix v w assume a: "py_wf aliases" and v: "py_wf v" and "bindE (set_aliases aliases v) ?g = Inr w"
  then obtain u where u: "set_aliases aliases v = Inr u" "?g u = Inr w" unfolding bindE_eq_Inr by blast
  have "py_wf u" using u(1) v a by (auto simp: set_aliases_eq_Inr simp del: py_wf.simps intro: py_wf_put py_wf_pop)
  moreover have "keeps_wf ?g" by (intro change_key_wf change_first_wf set_endpoint_wf)
  ultimately show "py_wf w" using u(2) by (blast intro: keeps_wfD)
qed

lemma check_container_put:
  "map_of s' ''volumes'' = map_of s ''volumes'' \<Longrightarrow>
     check_container component (PDict s') (PDict (dict_put ''env'' e c)) = check_container component (PDict s) (PDict c)"
  by (simp add: check_container_def py_index_put py_get_put) (simp add: py_index_def)

text \<open>What \<^const>\<open>set_database\<close> reaches into, and what it leaves.\<close>

lemma set_databaseE:
  assumes "set_database aliases host port m = Inr m'"
  obtains mk sk ck rest e e' sk' where "m = PDict mk" "map_of mk ''spec'' = Some (PDict sk)"
    "map_of sk ''containers'' = Some (PList (PDict ck # rest))" "map_of ck ''env'' = Some e" "set_endpoint host port e = Inr e'"
    "map_of sk' = (map_of sk)(''hostAliases'' := if py_truth aliases then Some aliases else None)"
    "m' = PDict (dict_put ''spec'' (PDict (dict_put ''containers'' (PList (PDict (dict_put ''env'' e' ck) # rest)) sk')) mk)"
proof -
  from assms obtain mk spec u w where m: "m = PDict mk" "map_of mk ''spec'' = Some spec" "m' = PDict (dict_put ''spec'' w mk)"
    and u: "set_aliases aliases spec = Inr u"
    and w: "change_key ''containers'' (change_first (change_key ''env'' (set_endpoint host port))) u = Inr w"
    unfolding set_database_def change_key_eq_Inr [of "''spec''"] bindE_eq_Inr by blast
  from u obtain sk sk' where sk: "spec = PDict sk" "u = PDict sk'"
    "map_of sk' = (map_of sk)(''hostAliases'' := if py_truth aliases then Some aliases else None)" by (rule set_aliasesE)
  from w sk(2) obtain ck rest e e' where c: "map_of sk' ''containers'' = Some (PList (PDict ck # rest))"
    "map_of ck ''env'' = Some e" "set_endpoint host port e = Inr e'"
    "w = PDict (dict_put ''containers'' (PList (PDict (dict_put ''env'' e' ck) # rest)) sk')"
    by (auto simp: change_key_eq_Inr change_first_eq_Inr)
  show thesis
    using m sk c by (intro that [of mk sk ck rest e e' sk']) simp_all
qed

lemma check_manifest_set:
  assumes m': "set_database aliases host port m = Inr m'" and m: "check_manifest component m = Inr old" and a: "is_list aliases"
  shows "check_manifest component m' = Inr aliases"
  using m' m a
  by (elim set_databaseE)
    (cases aliases; auto simp: check_manifest_def bindE_eq_Inr py_index_def py_get_def py_len_def py_elements_def py_first_def
      check_container_put)

section \<open>Adopting a plan\<close>

text \<open>The components once the planned units and manifests have been written.\<close>

definition adopt_component :: "string \<Rightarrow> transition \<Rightarrow> py \<Rightarrow> py" where
  "adopt_component name t component =
     (case (if name = ''keycloak'' then tr_keycloak t else tr_postgres t) of (text, manifest) \<Rightarrow>
      case component of
        PDict kvs \<Rightarrow> PDict (dict_put ''manifest'' manifest (dict_put ''quadlet_content'' (PStr text) kvs))
      | _ \<Rightarrow> component)"

definition adopt :: "transition \<Rightarrow> py \<Rightarrow> py" where
  "adopt t components = (case components of
     PDict kvs \<Rightarrow> PDict (map (\<lambda>(name, c). (name, adopt_component name t c)) kvs) | _ \<Rightarrow> components)"

lemma map_of_keyed: "map_of (map (\<lambda>(k, v). (k, f k v)) kvs) n = map_option (f n) (map_of kvs n)"
  by (induction kvs) auto

lemma index_adopt: "py_index (adopt t components) name = bindE (py_index components name) (\<lambda>c. Inr (adopt_component name t c))"
  by (cases components) (auto simp: adopt_def py_index_def map_of_keyed split: option.splits)

lemma adopt_component_fields:
  "f \<notin> {''manifest'', ''quadlet_content''} \<Longrightarrow> py_index (adopt_component name t c) f = py_index c f"
  "f \<notin> {''manifest'', ''quadlet_content''} \<Longrightarrow> py_get (adopt_component name t c) f d = py_get c f d"
  by (cases c; auto simp: adopt_component_def py_index_put py_get_put split: prod.splits)+

lemma adopt_networks: "networks_of (adopt t components) name = networks_of components name"
  by (simp add: networks_of_def index_adopt bindE_assoc adopt_component_fields)

lemma adopt_managed_name: "managed_name (adopt t components) host = managed_name components host"
  by (simp add: managed_name_def index_adopt bindE_assoc adopt_component_fields)

lemma adopt_peer_address: "peer_address (adopt t components) network = peer_address components network"
  by (simp add: peer_address_def index_adopt bindE_assoc adopt_component_fields)

lemma adopt_binding: "database_binding (adopt t components) host = database_binding components host"
  by (cases host) (simp_all add: database_binding_def adopt_networks adopt_managed_name)

lemma adopt_alias_list: "alias_list (adopt t components) host = alias_list components host"
  by (simp add: alias_list_def adopt_binding adopt_managed_name adopt_peer_address)

lemma adopt_component_unit: "component_unit (adopt_component name t c) field = component_unit c field"
  if "field \<in> {''networks'', ''previous_networks''}"
  using that by (auto simp: component_unit_def adopt_component_fields)

lemma adopt_check_manifest: "check_manifest (adopt_component name t c) m = check_manifest c m"
  by (simp add: check_manifest_def check_container_def adopt_component_fields)

lemma prepare_componentE:
  assumes "prepare_component components name = Inr r"
  obtains c where "py_index components name = Inr c" "is_dict c" "py_index c ''manifest'' = Inr (pr_manifest r)"
    "check_manifest c (pr_manifest r) = Inr (pr_aliases r)"
  using assms by (auto simp: prepare_component_def bindE_eq_Inr py_index_eq_Inr is_dict_iff)

lemma adopt_prepare_component:
  assumes r: "prepare_component components name = Inr r"
    and t: "(if name = ''keycloak'' then tr_keycloak t else tr_postgres t) = (pr_quadlet r, manifest)"
    and m: "\<And>c. py_index components name = Inr c \<Longrightarrow> check_manifest c manifest = Inr aliases"
  shows "prepare_component (adopt t components) name
    = Inr \<lparr>pr_desired = True, pr_aliases = aliases, pr_quadlet = pr_quadlet r, pr_manifest = manifest\<rparr>"
proof -
  from r obtain c old where c: "py_index components name = Inr c" "is_dict c"
    "forE (path_field c) [''host_data_dir'', ''container_data_dir''] = Inr ()"
    "component_unit c ''previous_networks'' = Inr old" "component_unit c ''networks'' = Inr (pr_quadlet r)"
    unfolding prepare_component_def by (auto simp: bindE_eq_Inr py_index_eq_Inr is_dict_iff simp del: forE.simps)
  obtain kvs where kvs: "c = PDict kvs" using c(2) by (auto simp: is_dict_iff)
  have a: "adopt_component name t c = PDict (dict_put ''manifest'' manifest (dict_put ''quadlet_content'' (PStr (pr_quadlet r)) kvs))"
    using t by (simp add: adopt_component_def kvs)
  then have "py_index (adopt_component name t c) ''manifest'' = Inr manifest"
    "py_index (adopt_component name t c) ''quadlet_content'' = Inr (PStr (pr_quadlet r))"
    by (simp_all add: py_index_put)
  then show ?thesis
    using c m [OF c(1)] by (simp add: prepare_component_def index_adopt path_field_def adopt_component_fields adopt_component_unit
        adopt_check_manifest as_str_def)
qed

text \<open>The endpoint the new manifest names is the one that was asked for.\<close>

lemma current_host_set:
  assumes "py_index components ''keycloak'' = Inr c" "py_index c ''manifest'' = Inr m'" "set_database aliases host port m = Inr m'"
  shows "current_host components = Inr (PStr host)"
  using assms(3)
proof (rule set_databaseE)
  fix mk sk ck rest e e' sk'
  assume "set_endpoint host port e = Inr e'"
    and m': "m' = PDict (dict_put ''spec'' (PDict (dict_put ''containers'' (PList (PDict (dict_put ''env'' e' ck) # rest)) sk')) mk)"
  from set_endpoint_host [OF this(1)] obtain es i where es: "e' = PList es" "list_all is_dict es"
      "only_at (named ''KC_DB_URL_HOST'') es i" "fst ` set (the_items (es ! i)) = entry_keys" "es = es[i := with_value host (es ! i)]"
    by (auto simp: set_variable_eq)
  then have f: "filterE (named_entry ''KC_DB_URL_HOST'') es = Inr [es ! i]"
    by (simp add: filterE_named) (metis filter_single)
  have "es ! i = with_value host (es ! i)" using es(3,5) by (metis nth_list_update_eq only_at_def)
  then obtain kvs where kvs: "es ! i = PDict kvs" "map_of kvs ''value'' = Some (PStr host)"
    unfolding with_value_def by (metis map_of_dict_put fun_upd_same)
  with es(4) have "key_set (es ! i) = Inr entry_keys" by (simp add: key_set_def)
  with assms(1,2) m' es(1) f kvs show ?thesis
    by (simp add: current_host_def py_index_def py_first_def py_elements_def)
qed

lemma alias_list_eq: "alias_list components (PStr host) = Inr aliases \<Longrightarrow> is_list aliases \<and> py_wf aliases \<and> py_eq aliases aliases"
  by (auto simp: alias_list_def bindE_eq_Inr)

lemma adopt_keys: "is_dict (adopt t components) = is_dict components"
  "fst ` set (the_items (adopt t components)) = fst ` set (the_items components)"
  by (cases components; auto simp: adopt_def image_image split_def)+

lemma prepare_body_settles:
  assumes t: "prepare_body components host port = Inr t" and wf: "py_wf components"
  shows "prepare_body (adopt t components) host port = Inr (t\<lparr>tr_changed := False\<rparr>)"
proof -
  from t obtain aliases k p manifest where g: "is_str host"
      "is_int port \<and> 1 \<le> the_int port \<and> the_int port \<le> 65535"
      "is_dict components" "fst ` set (the_items components) = pair_names"
    and al: "alias_list components host = Inr aliases" and k: "prepare_component components ''keycloak'' = Inr k"
    and p: "prepare_component components ''postgres'' = Inr p" and pa: "\<not> py_truth (pr_aliases p)"
    and m: "set_database aliases (the_str host) (dec_int (the_int port)) (pr_manifest k) = Inr manifest"
    and t': "t = \<lparr>tr_changed = (\<not> pr_desired k \<or> \<not> py_eq manifest (pr_manifest k)),
      tr_keycloak = (pr_quadlet k, manifest), tr_postgres = (pr_quadlet p, pr_manifest p)\<rparr>"
    unfolding prepare_body_def by (auto simp: bindE_eq_Inr)
  obtain h where h: "host = PStr h" using g(1) by (auto simp: is_str_iff)
  from al have la: "is_list aliases" "py_wf aliases" "py_eq aliases aliases" using alias_list_eq by (auto simp: h)
  from k obtain c where c: "py_index components ''keycloak'' = Inr c" "is_dict c"
    "py_index c ''manifest'' = Inr (pr_manifest k)" "check_manifest c (pr_manifest k) = Inr (pr_aliases k)"
    by (rule prepare_componentE)
  from p obtain d where d: "py_index components ''postgres'' = Inr d" "check_manifest d (pr_manifest p) = Inr (pr_aliases p)"
    by (rule prepare_componentE)
  have k': "prepare_component (adopt t components) ''keycloak''
      = Inr \<lparr>pr_desired = True, pr_aliases = aliases, pr_quadlet = pr_quadlet k, pr_manifest = manifest\<rparr>"
    using c check_manifest_set [OF m c(4) la(1)] by (intro adopt_prepare_component [OF k]) (auto simp: t')
  have p': "prepare_component (adopt t components) ''postgres''
      = Inr \<lparr>pr_desired = True, pr_aliases = pr_aliases p, pr_quadlet = pr_quadlet p, pr_manifest = pr_manifest p\<rparr>"
    using d by (intro adopt_prepare_component [OF p]) (auto simp: t')
  have "py_index (adopt_component ''keycloak'' t c) ''manifest'' = Inr manifest"
    using c(2) by (auto simp: is_dict_iff adopt_component_def t' py_index_put)
  then have "current_host (adopt t components) = Inr host"
    using current_host_set [OF _ _ m, of "adopt t components" "adopt_component ''keycloak'' t c"] c(1) by (simp add: index_adopt h)
  then have e: "check_existing_aliases (adopt t components) True aliases = Inr ()"
    using al la(3) by (simp add: check_existing_aliases_def adopt_alias_list)
  have "py_wf c" using c(1) wf py_wf_index by (auto simp: py_index_eq_Inr simp del: py_wf.simps)
  then have "py_wf (pr_manifest k)" using c(3) py_wf_index by (auto simp: py_index_eq_Inr simp del: py_wf.simps)
  then have eq: "py_eq manifest manifest" using keeps_wfD [OF set_database_wf [OF la(2)] m] by (blast intro: py_eq_refl)
  show ?thesis
    using g al pa settlesD [OF set_database_settles m] k' p' e eq
    by (simp add: prepare_body_def adopt_keys adopt_alias_list t')
qed

section \<open>A concrete pair\<close>

definition sample_image :: string where
  "sample_image = ''example/x@sha256:0123456789abcdef0123456789abcdef0123456789abcdef0123456789abcdef''"

definition sample_manifest :: "string \<Rightarrow> py" where
  "sample_manifest name = PDict
     [(''kind'', PStr ''Pod''), (''metadata'', PDict [(''name'', PStr name)]),
      (''spec'', PDict
        [(''containers'', PList [PDict
           [(''name'', PStr name), (''image'', PStr (sample_image)),
            (''ports'', PList [PDict [(''hostIP'', PStr ''127.0.0.1'')]]),
            (''env'', PList [PDict [(''name'', PStr ''KC_DB_URL_HOST''), (''value'', PStr ''old'')],
                             PDict [(''name'', PStr ''KC_DB_URL_PORT''), (''value'', PStr ''5432'')]]),
            (''volumeMounts'', PList [PDict [(''name'', PStr ''data''), (''mountPath'', PStr ''/data'')]])]]),
         (''volumes'', PList [PDict [(''name'', PStr ''data''), (''hostPath'', PDict [(''path'', PStr ''/srv'')])]])])]"

definition sample_unit :: "string list \<Rightarrow> string" where
  "sample_unit networks = join_with [newline]
     ([''[Unit]'', ''Description=d'', ''After=network-online.target'', ''Wants=network-online.target'', ''[Kube]'', ''Yaml=/etc/m'']
      @ map (\<lambda>n. ''Network='' @ n) networks @ [''[Install]'', ''WantedBy=multi-user.target'', []])"

definition sample_component :: "string \<Rightarrow> string \<Rightarrow> py" where
  "sample_component name network = PDict
     [(''description'', PStr ''d''), (''manifest_path'', PStr ''/etc/m''), (''pod_name'', PStr name),
      (''container_name'', PStr name), (''image'', PStr (sample_image)), (''host_data_dir'', PStr ''/srv''),
      (''container_data_dir'', PStr ''/data''), (''previous_networks'', PList []), (''networks'', PList [PStr network]),
      (''manifest'', sample_manifest name), (''network_runtime_names'', PDict [(''db'', PStr ''db'')]),
      (''quadlet_content'', PStr (sample_unit []))]"

definition sample_pair :: py where
  "sample_pair = PDict
     [(''keycloak'', sample_component ''keycloak'' ''db:ip=192.0.2.2''),
      (''postgres'', sample_component ''postgres'' ''db:ip=192.0.2.3'')]"

lemmas sample_defs = sample_pair_def sample_component_def sample_manifest_def sample_image_def sample_unit_def

lemma sample_aliases: "alias_list sample_pair (PStr ''postgres'')
    = Inr (PList [PDict [(''ip'', PStr ''192.0.2.3''), (''hostnames'', PList [PStr ''postgres''])]])"
  by (simp add: sample_defs run_simps cong: bindE_weak_cong)

lemma sample_manifests:
  "check_manifest (sample_component ''keycloak'' ''db:ip=192.0.2.2'') (sample_manifest ''keycloak'') = Inr (PList [])"
  "check_manifest (sample_component ''postgres'' ''db:ip=192.0.2.3'') (sample_manifest ''postgres'') = Inr (PList [])"
  by (simp_all add: sample_defs run_simps cong: bindE_weak_cong)

lemma sample_units:
  "component_unit (sample_component name network) ''previous_networks'' = Inr (sample_unit [])"
  "component_unit (sample_component name ''db:ip=192.0.2.2'') ''networks'' = Inr (sample_unit [''db:ip=192.0.2.2''])"
  "component_unit (sample_component name ''db:ip=192.0.2.3'') ''networks'' = Inr (sample_unit [''db:ip=192.0.2.3''])"
  by (simp_all add: sample_defs run_simps cong: bindE_weak_cong)

lemma sample_lines:
  "nonempty_lines (sample_unit []) \<noteq> nonempty_lines (sample_unit [''db:ip=192.0.2.2''])"
  "nonempty_lines (sample_unit []) \<noteq> nonempty_lines (sample_unit [''db:ip=192.0.2.3''])"
  by (simp_all add: sample_unit_def run_simps)

lemma sample_paths: "canonical_path (PStr ''/srv'')" "canonical_path (PStr ''/data'')"
  by (simp_all add: run_simps)

lemma sample_prepared:
  "prepare_component sample_pair ''keycloak'' = Inr \<lparr>pr_desired = False, pr_aliases = PList [],
     pr_quadlet = sample_unit [''db:ip=192.0.2.2''], pr_manifest = sample_manifest ''keycloak''\<rparr>"
  "prepare_component sample_pair ''postgres'' = Inr \<lparr>pr_desired = False, pr_aliases = PList [],
     pr_quadlet = sample_unit [''db:ip=192.0.2.3''], pr_manifest = sample_manifest ''postgres''\<rparr>"
proof -
  have f: "py_index (sample_component name network) ''quadlet_content'' = Inr (PStr (sample_unit []))"
    "py_index (sample_component name network) ''manifest'' = Inr (sample_manifest name)"
    "py_index (sample_component name network) ''host_data_dir'' = Inr (PStr ''/srv'')"
    "py_index (sample_component name network) ''container_data_dir'' = Inr (PStr ''/data'')" for name network
    by (simp_all add: sample_component_def py_index_def)
  have c: "py_index sample_pair ''keycloak'' = Inr (sample_component ''keycloak'' ''db:ip=192.0.2.2'')"
    "py_index sample_pair ''postgres'' = Inr (sample_component ''postgres'' ''db:ip=192.0.2.3'')"
    by (simp_all add: sample_pair_def py_index_def)
  show "prepare_component sample_pair ''keycloak'' = Inr \<lparr>pr_desired = False, pr_aliases = PList [],
     pr_quadlet = sample_unit [''db:ip=192.0.2.2''], pr_manifest = sample_manifest ''keycloak''\<rparr>"
  "prepare_component sample_pair ''postgres'' = Inr \<lparr>pr_desired = False, pr_aliases = PList [],
     pr_quadlet = sample_unit [''db:ip=192.0.2.3''], pr_manifest = sample_manifest ''postgres''\<rparr>"
    by (simp_all add: prepare_component_def c f path_field_def sample_paths sample_units sample_lines sample_manifests as_str_def)
qed

lemma sample_set_database: "is_ok (set_database aliases ''postgres'' port (sample_manifest ''keycloak''))"
  by (cases "py_truth aliases") (simp_all add: sample_manifest_def run_simps cong: bindE_weak_cong)

lemma sample_transition: "\<exists>t. prepare_transition sample_pair (PStr ''postgres'') (PInt 5432) = Inr t"
proof -
  have "fst ` set (the_items sample_pair) = pair_names" "is_dict sample_pair" by (auto simp: sample_pair_def pair_names_def)
  moreover obtain m where "set_database (PList [PDict [(''ip'', PStr ''192.0.2.3''), (''hostnames'', PList [PStr ''postgres''])]])
    ''postgres'' (dec_int 5432) (sample_manifest ''keycloak'') = Inr m"
    using sample_set_database by (auto simp: is_ok_iff)
  ultimately show ?thesis
    by (simp add: prepare_transition_def prepare_body_def sample_aliases sample_prepared check_existing_aliases_def)
qed

lemma sample_wf: "py_wf sample_pair"
  by (simp add: sample_pair_def sample_component_def sample_manifest_def)

definition sample_record :: py where
  "sample_record = PDict
     [(''ImageName'', PStr sample_image),
      (''Mounts'', PList [PDict [(''Destination'', PStr ''/data''), (''Source'', PStr ''/srv''), (''Type'', PStr ''bind''), (''RW'', PBool True)]]),
      (''NetworkSettings'', PDict [(''Networks'', PDict [(''podman-default-kube-network'', PDict [(''IPAddress'', PStr ''10.88.0.2'')])])]),
      (''Config'', PDict [(''Env'', PList [PStr ''KC_DB_URL_HOST=old'', PStr ''KC_DB_URL_PORT=5432''])])]"

definition sample_records :: py where
  "sample_records = PDict [(''keycloak'', sample_record), (''postgres'', sample_record)]"

lemma sample_bound: "bound_networks (sample_component name network) = Inr (PDict [])"
  if "(name, network) \<in> {(''keycloak'', ''db:ip=192.0.2.2''), (''postgres'', ''db:ip=192.0.2.3'')}"
proof -
  have "py_index (sample_component name network) ''quadlet_content'' = Inr (PStr (sample_unit []))"
    "expected_runtime_networks (sample_component name network) ''previous_networks'' = Inr (PDict [])"
    by (simp_all add: sample_component_def expected_runtime_networks_def py_index_def quadlet_text_def single_line_def
        newline_def canonical_path_def slash_def normpath_def)
  then show ?thesis using that sample_lines by (auto simp: bound_networks_def as_str_def sample_units)
qed

lemma sample_expected:
  "is_ok (expected_runtime_networks (sample_component name ''db:ip=192.0.2.2'') ''networks'')"
  "is_ok (expected_runtime_networks (sample_component name ''db:ip=192.0.2.3'') ''networks'')"
  by (simp_all add: sample_component_def run_simps cong: bindE_weak_cong)

lemma sample_identity: "runtime_identity_valid (sample_component name network) sample_record = Inr ()"
  by (simp add: sample_component_def sample_record_def runtime_identity_valid_def py_index_def py_get_def digest_of_def
      as_str_def select_by_def py_elements_def)

lemma sample_actual: "actual_networks sample_record = Inr [(''podman-default-kube-network'', PStr ''10.88.0.2'')]"
  by (simp add: sample_record_def actual_networks_def py_index_def py_items_def)

lemma sample_present: "addresses_present [(''podman-default-kube-network'', PStr ''10.88.0.2'')] = Inr ()"
  by (simp add: run_simps)

lemma sample_captured:
  assumes "(name, network) \<in> {(''keycloak'', ''db:ip=192.0.2.2''), (''postgres'', ''db:ip=192.0.2.3'')}"
  shows "capture_component sample_records (name, sample_component name network) =
    bindE (py_put ''original_runtime'' (PDict [(''network_names'', PList [PStr ''podman-default-kube-network'']),
      (''static_networks'', PDict [])]) (sample_component name network)) (\<lambda>c. Inr (name, c))"
proof -
  have "py_index sample_records name = Inr sample_record" using assms by (auto simp: sample_records_def py_index_def)
  moreover obtain e where "expected_runtime_networks (sample_component name network) ''networks'' = Inr e"
    using assms sample_expected by (auto simp: is_ok_iff)
  ultimately show ?thesis
    by (simp add: capture_component_def sample_identity sample_actual sample_present sample_bound [OF assms] name_list_def)
qed

lemma sample_capture: "\<exists>captured. capture_original_runtime sample_pair sample_records = Inr captured"
proof -
  have "same_pair sample_pair sample_records = Inr ()"
    by (auto simp: same_pair_def key_set_def sample_pair_def sample_records_def pair_names_def)
  then show ?thesis
    by (simp add: capture_original_runtime_def capture_body_def sample_pair_def sample_captured)
       (simp add: sample_component_def sample_manifest_def sample_records_def sample_record_def run_simps cong: bindE_weak_cong)
qed

section \<open>Properties\<close>

text \<open>
  C35: What is captured of the running pair before it is stopped is enough for the rollback: whenever
  the capture succeeds, the unchanged runtime records validate against the captured components
  as a restored original, for both components, their networks, addresses, images, data mounts and the
  database endpoint.
\<close>

theorem capture_supports_rollback:
  assumes "capture_original_runtime components records = Inr captured"
  shows "runtime_valid captured records database_host port False = Inr True"
  using assms capture_body_valid by (simp add: capture_original_runtime_def runtime_valid_def)

theorem capture_supports_rollback_witness:
  "\<exists>captured. capture_original_runtime sample_pair sample_records = Inr captured \<and>
     runtime_valid captured sample_records PNone [] False = Inr True"
  using sample_capture capture_supports_rollback [of sample_pair sample_records] by blast

text \<open>
  C34: A transition settles: once the units and manifests that were planned have been
  written, planning again for the same endpoint accepts the pair, prepares the very same units and manifests and
  reports no change. This holds for an endpoint given by address and by managed name, whose host
  alias the first plan has added to the manifest of Keycloak.
\<close>

theorem transition_settles:
  assumes "prepare_transition components database_host database_port = Inr t" and "py_wf components"
  shows "prepare_transition (adopt t components) database_host database_port = Inr (t\<lparr>tr_changed := False\<rparr>)"
  using assms prepare_body_settles by (simp add: prepare_transition_def)

theorem transition_settles_witness:
  "\<exists>t. prepare_transition sample_pair (PStr ''postgres'') (PInt 5432) = Inr t \<and>
     prepare_transition (adopt t sample_pair) (PStr ''postgres'') (PInt 5432) = Inr (t\<lparr>tr_changed := False\<rparr>)"
  using sample_transition transition_settles [OF _ sample_wf] by blast

end
