(* ===== verification/Rootless_Edge.thy ===== *)
theory Rootless_Edge
  imports Ip_Address
begin

text \<open>
  The inputs of the rootless edge (\<open>plugins/filter/rootless_edge.py\<close>): the check of a subnet
  and its member addresses, and the upstream addresses of a name resolution.
\<close>

section \<open>Networks\<close>

text \<open>
  \<open>IPv4Network(subnet, strict=True)\<close> for a subnet whose mask is a prefix length: the bits
  of the host have to be zero. A mask in any other form is not modelled: the standard library
  prints such a network with its prefix length, so the comparison with the given text refuses
  it in any case.
\<close>

record network =
  net_address :: ipv4
  net_prefix :: nat

definition prefix_length :: "string \<Rightarrow> nat option" where
  "prefix_length s =
     (if s \<noteq> [] \<and> list_all is_digit s \<and> length s \<le> 4300 \<and> digits_val s \<le> 32 then Some (digits_val s) else None)"

definition strict_network :: "string \<Rightarrow> network option" where
  "strict_network s = (case split_on (CHR 0x2F) s of
     [a, l] \<Rightarrow> (case (ipv4_parse a, prefix_length l) of
        (Some address, Some len) \<Rightarrow>
          if take_bit (32 - len) address = 0 then Some \<lparr>net_address = address, net_prefix = len\<rparr> else None
      | _ \<Rightarrow> None)
   | _ \<Rightarrow> None)"

definition network_text :: "network \<Rightarrow> string" where
  "network_text n = ipv4_text (net_address n) @ [CHR 0x2F] @ dec (net_prefix n)"

definition broadcast :: "network \<Rightarrow> ipv4" where
  "broadcast n = net_address n + mask (32 - net_prefix n)"

section \<open>The filters\<close>

definition usable_member :: "network \<Rightarrow> ipv4 \<times> py \<Rightarrow> bool" where
  "usable_member n = (\<lambda>(address, v).
     v = PStr (ipv4_text address) \<and> same_network (net_prefix n) address (net_address n) \<and>
     address \<notin> {net_address n, broadcast n})"

definition rootless_network_valid :: "py \<Rightarrow> py \<Rightarrow> bool" where
  "rootless_network_valid subnet addresses = (case subnet of
     PStr text \<Rightarrow> (case strict_network text of
        None \<Rightarrow> False
      | Some n \<Rightarrow>
          network_text n = text \<and>
          (case bindE (py_elements addresses) (\<lambda>vs. bindE (mapE py_ipv4 vs) (\<lambda>parsed. Inr (vs, parsed))) of
             Inl _ \<Rightarrow> False
           | Inr (vs, parsed) \<Rightarrow> parsed \<noteq> [] \<and> distinct parsed \<and> list_all (usable_member n) (zip parsed vs)))
   | _ \<Rightarrow> False)"

text \<open>The resolver prints a line per socket type; the addresses are the first fields.\<close>

definition upstream_address :: "string \<Rightarrow> exn + string" where
  "upstream_address line = (case py_split line of
     [] \<Rightarrow> Inl IndexError
   | field # _ \<Rightarrow> bindE (ipv4_of_text field) (\<lambda>a. Inr (ipv4_text a)))"

definition rootless_upstream_addresses :: "py \<Rightarrow> exn + string list" where
  "rootless_upstream_addresses output =
     (let rejected = FilterError ''Rootless upstream IPv4 resolution rejected'' in
      case output of
        PStr text \<Rightarrow> (case mapE upstream_address (filter (\<lambda>l. l \<noteq> []) (py_splitlines text)) of
          Inl _ \<Rightarrow> Inl rejected
        | Inr as \<Rightarrow> if as = [] then Inl rejected else Inr (sorted_list_of_set (set as)))
      | _ \<Rightarrow> Inl rejected)"

lemmas [run_simps] = prefix_length_def strict_network_def network_text_def broadcast_def usable_member_def
  rootless_network_valid_def upstream_address_def rootless_upstream_addresses_def

section \<open>Lemmas\<close>

lemma prefix_length_dec: "len \<le> 32 \<Longrightarrow> prefix_length (dec len) = Some len"
  using dec_length [of len 2] by (simp add: prefix_length_def dec_digits)

lemma split_network_text: "split_on (CHR 0x2F) (network_text n) = [ipv4_text (net_address n), dec (net_prefix n)]"
proof -
  have no: "CHR 0x2F \<notin> set (ipv4_text a)" for a
    by (simp add: ipv4_text_def dec_no_char)
  have "split_on (CHR 0x2F) (join_with [CHR 0x2F] [ipv4_text (net_address n), dec (net_prefix n)])
      = [ipv4_text (net_address n), dec (net_prefix n)]"
    by (rule split_join) (auto simp: no dec_no_char)
  then show ?thesis by (simp add: network_text_def)
qed

lemma strict_network_iff:
  "strict_network text = Some n \<and> network_text n = text \<longleftrightarrow>
     text = network_text n \<and> net_prefix n \<le> 32 \<and> take_bit (32 - net_prefix n) (net_address n) = 0"
proof
  assume l: "strict_network text = Some n \<and> network_text n = text"
  then show "text = network_text n \<and> net_prefix n \<le> 32 \<and> take_bit (32 - net_prefix n) (net_address n) = 0"
    by (auto simp: strict_network_def prefix_length_def split: list.splits option.splits if_splits)
next
  assume "text = network_text n \<and> net_prefix n \<le> 32 \<and> take_bit (32 - net_prefix n) (net_address n) = 0"
  then show "strict_network text = Some n \<and> network_text n = text"
    by (simp add: strict_network_def split_network_text prefix_length_dec)
qed

lemma usable_members:
  assumes "mapE py_ipv4 vs = Inr parsed"
  shows "list_all (usable_member n) (zip parsed vs) \<longleftrightarrow>
    vs = map (PStr \<circ> ipv4_text) parsed \<and>
    (\<forall>a \<in> set parsed. same_network (net_prefix n) a (net_address n) \<and> a \<noteq> net_address n \<and> a \<noteq> broadcast n)"
  using assms
proof (induction vs arbitrary: parsed)
  case (Cons v vs)
  then obtain a as where "parsed = a # as" "mapE py_ipv4 vs = Inr as" by (auto simp: bindE_eq_Inr)
  with Cons.IH [of as] show ?case by (auto simp: usable_member_def)
qed simp

lemma mapE_map: "(\<And>x. x \<in> set xs \<Longrightarrow> f (g x) = Inr x) \<Longrightarrow> mapE f (map g xs) = Inr xs"
  by (induction xs) simp_all

section \<open>Properties\<close>

text \<open>
  C36: The check of a rootless network accepts a list of addresses exactly when the subnet is
  the canonical text of a network whose host bits are zero and the list holds the canonical texts of
  distinct addresses of it, at least one, none of them the network or the broadcast address.
\<close>

theorem rootless_network_exact:
  "rootless_network_valid (PStr text) (PList vs) \<longleftrightarrow>
    (\<exists>n as. text = network_text n \<and> net_prefix n \<le> 32 \<and> take_bit (32 - net_prefix n) (net_address n) = 0 \<and>
      vs = map (PStr \<circ> ipv4_text) as \<and> as \<noteq> [] \<and> distinct as \<and>
      list_all (\<lambda>a. same_network (net_prefix n) a (net_address n) \<and> a \<noteq> net_address n \<and> a \<noteq> broadcast n) as)"
  (is "_ \<longleftrightarrow> ?spec")
proof
  assume v: "rootless_network_valid (PStr text) (PList vs)"
  then obtain n parsed where n: "strict_network text = Some n \<and> network_text n = text"
    and p: "mapE py_ipv4 vs = Inr parsed" "parsed \<noteq> []" "distinct parsed" "list_all (usable_member n) (zip parsed vs)"
    by (auto simp: rootless_network_valid_def py_elements_def bindE_eq_Inr split: option.splits sum.splits)
  from n p(2-4) show ?spec unfolding usable_members [OF p(1)] strict_network_iff
    by (intro exI [of _ n] exI [of _ parsed]) (simp add: list_all_iff)
next
  assume ?spec
  then obtain n as where n: "strict_network text = Some n \<and> network_text n = text" and vs: "vs = map (PStr \<circ> ipv4_text) as"
    and as: "as \<noteq> []" "distinct as"
      "list_all (\<lambda>a. same_network (net_prefix n) a (net_address n) \<and> a \<noteq> net_address n \<and> a \<noteq> broadcast n) as"
    unfolding strict_network_iff by blast
  have m: "mapE py_ipv4 vs = Inr as" unfolding vs by (rule mapE_map) (simp add: py_ipv4_def ipv4_of_text_def)
  from as usable_members [OF m, of n] vs have "list_all (usable_member n) (zip as vs)" by (simp add: list_all_iff)
  with n m as show "rootless_network_valid (PStr text) (PList vs)"
    by (simp add: rootless_network_valid_def py_elements_def)
qed

end
