(* ===== verification/Iso_Time.thy ===== *)
theory Iso_Time
  imports Py_Text
begin

text \<open>
  ISO timestamps with an offset, as the inventory scripts accept them, and the instant
  \<open>datetime.fromisoformat\<close> gives them, in microseconds since the start of year 1.
\<close>

section \<open>The calendar\<close>

definition leap_year :: "nat \<Rightarrow> bool" where
  "leap_year y \<longleftrightarrow> y mod 4 = 0 \<and> (y mod 100 \<noteq> 0 \<or> y mod 400 = 0)"

definition days_in_month :: "nat \<Rightarrow> nat \<Rightarrow> nat" where
  "days_in_month y m = (if m = 2 then (if leap_year y then 29 else 28) else if m \<in> {4, 6, 9, 11} then 30 else 31)"

definition days_before_year :: "nat \<Rightarrow> nat" where
  "days_before_year y = (y - 1) * 365 + (y - 1) div 4 - (y - 1) div 100 + (y - 1) div 400"

definition day_number :: "nat \<Rightarrow> nat \<Rightarrow> nat \<Rightarrow> nat" where
  "day_number y m d = days_before_year y + sum_list (map (days_in_month y) [1..<m]) + (d - 1)"

definition valid_date :: "nat \<Rightarrow> nat \<Rightarrow> nat \<Rightarrow> bool" where
  "valid_date y m d \<longleftrightarrow> 1 \<le> y \<and> 1 \<le> m \<and> m \<le> 12 \<and> 1 \<le> d \<and> d \<le> days_in_month y m"

section \<open>Timestamps\<close>

text \<open>\<open>n\<close> digits, then what has to follow.\<close>

definition digits_at :: "nat \<Rightarrow> string \<Rightarrow> (nat \<times> string) option" where
  "digits_at n s =
     (if n \<le> length s \<and> list_all is_digit (take n s) then Some (digits_val (take n s), drop n s) else None)"

definition expect :: "char \<Rightarrow> string \<Rightarrow> string option" where
  "expect c s = (case s of [] \<Rightarrow> None | d # r \<Rightarrow> if d = c then Some r else None)"

text \<open>Numbers of the given widths, each but the last followed by its separator.\<close>

fun fields_at :: "(nat \<times> char option) list \<Rightarrow> string \<Rightarrow> (nat list \<times> string) option" where
  "fields_at [] s = Some ([], s)"
| "fields_at ((n, sep) # fs) s = (case digits_at n s of
     None \<Rightarrow> None
   | Some (v, r) \<Rightarrow>
       (case (case sep of None \<Rightarrow> Some r | Some c \<Rightarrow> expect c r) of
          None \<Rightarrow> None
        | Some r' \<Rightarrow> (case fields_at fs r' of None \<Rightarrow> None | Some (vs, t) \<Rightarrow> Some (v # vs, t))))"

definition stamp_fields :: "(nat \<times> char option) list" where
  "stamp_fields = [(4, Some (CHR ''-'')), (2, Some (CHR ''-'')), (2, Some (CHR ''T'')),
     (2, Some (CHR '':'')), (2, Some (CHR '':'')), (2, None)]"

text \<open>The fraction: at least one digit after the point; the first six count.\<close>

definition fraction :: "string \<Rightarrow> (nat \<times> string) option" where
  "fraction s = (case s of
     c # r \<Rightarrow>
       if c = CHR ''.'' then
         (let (ds, rest) = span is_digit r in
          if ds = [] then None
          else Some (digits_val (take 6 ds) * 10 ^ (6 - min 6 (length ds)), rest))
       else Some (0, s)
   | [] \<Rightarrow> Some (0, s))"

text \<open>The offset in minutes: \<open>Z\<close> or a sign, hours and minutes, less than a day.\<close>

definition offset :: "string \<Rightarrow> int option" where
  "offset s =
     (if s = ''Z'' then Some 0
      else case s of
        c # r \<Rightarrow>
          if c \<in> {CHR ''+'', CHR ''-''} then
            (case fields_at [(2, Some (CHR '':'')), (2, None)] r of
               Some ([h, m], []) \<Rightarrow>
                 if 60 * h + m < 1440 then Some ((if c = CHR ''-'' then -1 else 1) * int (60 * h + m)) else None
             | _ \<Rightarrow> None)
          else None
      | [] \<Rightarrow> None)"

definition instant :: "string \<Rightarrow> int option" where
  "instant s = (case fields_at stamp_fields s of
     Some ([y, mo, d, h, mi, sec], r) \<Rightarrow>
       (case fraction r of None \<Rightarrow> None | Some (micro, r') \<Rightarrow>
        (case offset r' of None \<Rightarrow> None | Some off \<Rightarrow>
           if valid_date y mo d \<and> h \<le> 23 \<and> mi \<le> 59 \<and> sec \<le> 59
           then Some (((int (day_number y mo d) * 1440 + int (h * 60 + mi) - off) * 60 + int sec) * 1000000 + int micro)
           else None))
   | _ \<Rightarrow> None)"

lemmas [run_simps] = leap_year_def days_in_month_def days_before_year_def day_number_def valid_date_def digits_at_def
  expect_def stamp_fields_def fraction_def offset_def instant_def

end
