(* ===== verification/Promotion_Waiter.thy ===== *)
theory Promotion_Waiter
  imports Iso_Time
begin

text \<open>
  The inventory of the runs of a promotion workflow that wait for approval, and of their jobs
  (\<open>scripts/promotion_waiter_inventory.py\<close>).

  The API is a parameter: \<open>fetch t page\<close> is its answer to the request for a page that is the
  \<open>t\<close>-th request of the program, so that two requests for one page may be answered differently. The
  operations take the number of requests made so far and return it with their result.
\<close>

section \<open>Pages\<close>

type_synonym runs_api = "nat \<Rightarrow> int \<Rightarrow> exn + py"

type_synonym jobs_api = "nat \<Rightarrow> int \<Rightarrow> int \<Rightarrow> exn + py"

definition PAGE_SIZE :: int where "PAGE_SIZE = 100"

definition MAX_PROVABLE_TOTAL :: int where "MAX_PROVABLE_TOTAL = 999"

definition MAX_JOBS_PER_RUN :: int where "MAX_JOBS_PER_RUN = 999"

definition COMPLETED_JOB_CONCLUSIONS :: "string list" where
  "COMPLETED_JOB_CONCLUSIONS = [''success'', ''failure'', ''neutral'', ''cancelled'', ''timed_out'', ''action_required'',
     ''stale'', ''startup_failure'', ''skipped'']"

abbreviation incomplete :: "bool \<Rightarrow> string \<Rightarrow> exn + unit" where
  "incomplete condition message \<equiv> requireE (\<not> condition) (IncompleteInventory message)"

text \<open>\<open>_unique_json_pairs\<close> and the part of \<open>_read_page\<close> behind the call of the client.\<close>

definition unique_json_pairs :: "(string \<times> py) list \<Rightarrow> exn + py" where
  "unique_json_pairs pairs =
     bindE (foldE (\<lambda>d (k, v). if k \<in> fst ` set d then Inl (IncompleteInventory ''duplicate JSON field'') else Inr (d @ [(k, v)])) [] pairs)
       (\<lambda>d. Inr (PDict d))"

definition decode_page :: "(string \<Rightarrow> exn + py) \<Rightarrow> string \<Rightarrow> exn + py" where
  "decode_page loads stdout = (case loads stdout of
     Inl (ValueError _) \<Rightarrow> Inl (IncompleteInventory ''invalid API JSON'')
   | Inl e \<Rightarrow> Inl e
   | Inr v \<Rightarrow> if is_dict v then Inr v else Inl (IncompleteInventory ''invalid page shape''))"

text \<open>Reading consecutive pages, one request each.\<close>

definition page_numbers :: "int \<Rightarrow> int \<Rightarrow> int list" where
  "page_numbers low high = map (\<lambda>k. low + int k) [0..<nat (high + 1 - low)]"

fun read_pages :: "(nat \<Rightarrow> int \<Rightarrow> exn + py) \<Rightarrow> nat \<Rightarrow> int list \<Rightarrow> exn + py list" where
  "read_pages fetch t [] = Inr []"
| "read_pages fetch t (n # ns) = bindE (fetch t n) (\<lambda>p. bindE (read_pages fetch (t + 1) ns) (\<lambda>ps. Inr (p # ps)))"

definition positive_int :: "py \<Rightarrow> bool" where
  "positive_int v \<longleftrightarrow> is_int v \<and> 0 < the_int v"

definition sha_text :: "py \<Rightarrow> bool" where
  "sha_text v \<longleftrightarrow> is_str v \<and> oid (the_str v)"

definition some_text :: "py \<Rightarrow> bool" where
  "some_text v \<longleftrightarrow> is_str v \<and> the_str v \<noteq> []"

section \<open>Waiting runs\<close>

definition api_timestamp :: "py \<Rightarrow> string \<Rightarrow> exn + int" where
  "api_timestamp v field = (case v of
     PStr s \<Rightarrow> (case instant s of None \<Rightarrow> Inl (IncompleteInventory field) | Some i \<Rightarrow> Inr i)
   | _ \<Rightarrow> Inl (IncompleteInventory field))"

definition pr_number :: "int list \<Rightarrow> py \<Rightarrow> exn + int list" where
  "pr_number seen pr =
     (let number = get_or pr ''number'' PNone in
      if is_dict pr \<and> positive_int number \<and> the_int number \<notin> set seen then Inr (seen @ [the_int number])
      else Inl (IncompleteInventory ''invalid PR association''))"

text \<open>One run of a page: its identity has to be new, and every field well formed.\<close>

definition check_run :: "int \<Rightarrow> int list \<Rightarrow> py \<Rightarrow> exn + py" where
  "check_run workflow_id seen run =
     (let field = (\<lambda>k. get_or run k PNone); actor = field ''actor'' in
      bindE (checks
        [(is_dict run, IncompleteInventory ''invalid run shape''),
         (positive_int (field ''id'') \<and> the_int (field ''id'') \<notin> set seen, IncompleteInventory ''invalid or duplicate run ID''),
         (py_eq (field ''workflow_id'') (PInt workflow_id) \<and> field ''status'' = PStr ''waiting'',
          IncompleteInventory ''foreign workflow or non-waiting run''),
         (sha_text (field ''head_sha''), IncompleteInventory ''invalid head SHA''),
         (is_dict actor \<and> some_text (get_or actor ''login'' PNone), IncompleteInventory ''missing actor''),
         (some_text (field ''event''), IncompleteInventory ''missing event''),
         (some_text (field ''head_branch''), IncompleteInventory ''missing head_branch'')]) (\<lambda>_.
      bindE (api_timestamp (field ''created_at'') ''invalid created_at'') (\<lambda>created_at.
      bindE (api_timestamp (field ''updated_at'') ''invalid updated_at'') (\<lambda>updated_at.
      bindE (incomplete (updated_at < created_at) ''updated_at precedes created_at'') (\<lambda>_.
      bindE (incomplete (\<not> is_list (field ''pull_requests'')) ''missing PR association inventory'') (\<lambda>_.
      bindE (foldE pr_number [] (the_list (field ''pull_requests''))) (\<lambda>pr_numbers.
      bindE (incomplete (\<not> positive_int (field ''run_attempt'')) ''invalid run attempt'') (\<lambda>_.
      Inr (PDict
        [(''id'', field ''id''), (''status'', PStr ''waiting''), (''event'', field ''event''), (''head_branch'', field ''head_branch''),
         (''head_sha'', field ''head_sha''), (''created_at'', field ''created_at''), (''updated_at'', field ''updated_at''),
         (''run_attempt'', field ''run_attempt''), (''actor'', get_or actor ''login'' PNone),
         (''pull_request_numbers'', PList (map PInt pr_numbers)), (''disposition'', PStr ''unclassified'')])))))))))"

definition row_ids :: "py list \<Rightarrow> int list" where
  "row_ids rows = map (\<lambda>row. the_int (get_or row ''id'' PNone)) rows"

definition add_run :: "int \<Rightarrow> py list \<Rightarrow> py \<Rightarrow> exn + py list" where
  "add_run workflow_id runs run = bindE (check_run workflow_id (row_ids runs) run) (\<lambda>row. Inr (runs @ [row]))"

text \<open>One page: the total has not changed, and the page is as long as the total and its number say.\<close>

definition page_batch :: "string \<Rightarrow> int \<Rightarrow> int \<times> py \<Rightarrow> exn + py list" where
  "page_batch key amount = (\<lambda>(number, page).
     bindE (py_get page ''total_count'' PNone) (\<lambda>count.
     bindE (incomplete (\<not> py_eq count (PInt amount)) ''total_count changed between pages'') (\<lambda>_.
     bindE (py_get page key PNone) (\<lambda>batch.
     bindE (incomplete (\<not> is_list batch \<or> int (length (the_list batch)) \<noteq> min PAGE_SIZE (max 0 (amount - (number - 1) * PAGE_SIZE)))
       ''missing or oversized result page'') (\<lambda>_. Inr (the_list batch))))))"

definition add_page :: "int \<Rightarrow> int \<Rightarrow> py list \<Rightarrow> int \<times> py \<Rightarrow> exn + py list" where
  "add_page workflow_id amount runs numbered =
     bindE (page_batch ''workflow_runs'' amount numbered) (foldE (add_run workflow_id) runs)"

definition caveat :: string where
  "caveat = ''Read-only inventory; no run is classified safe to cancel.''"

definition page_total :: "int \<Rightarrow> int \<Rightarrow> py \<Rightarrow> exn + int" where
  "page_total low high page =
     bindE (py_get page ''total_count'' PNone) (\<lambda>amount.
     if is_int amount \<and> low \<le> the_int amount \<and> the_int amount \<le> high then Inr (the_int amount)
     else Inl (IncompleteInventory ''unprovable total_count''))"

definition collect_waiting_runs :: "runs_api \<Rightarrow> nat \<Rightarrow> int \<Rightarrow> exn + py \<times> nat" where
  "collect_waiting_runs fetch t workflow_id =
     (if workflow_id \<le> 0 then Inl (ValueError ''workflow_id must be a positive integer'')
      else
        bindE (fetch t 1) (\<lambda>first_page.
        bindE (page_total 0 MAX_PROVABLE_TOTAL first_page) (\<lambda>amount.
        let page_count = max 1 ((amount + PAGE_SIZE - 1) div PAGE_SIZE) in
        bindE (read_pages fetch (t + 1) (page_numbers 2 page_count)) (\<lambda>rest.
        let pages = first_page # rest; t' = t + length pages in
        bindE (foldE (add_page workflow_id amount) [] (zip (page_numbers 1 page_count) pages)) (\<lambda>runs.
        bindE (incomplete (int (length runs) \<noteq> amount) ''result count does not match total'') (\<lambda>_.
        bindE (foldE (\<lambda>t (number, expected_page).
                 bindE (fetch t number) (\<lambda>again.
                 bindE (incomplete (\<not> py_eq again expected_page) ''result page changed during inventory'') (\<lambda>_. Inr (t + 1))))
               t' (zip (page_numbers 1 page_count) pages)) (\<lambda>t''.
        Inr (PDict [(''workflow_id'', PInt workflow_id), (''total_count'', PInt amount), (''page_count'', PInt page_count),
              (''runs'', PList runs), (''caveat'', PStr caveat)], t''))))))))"

section \<open>Jobs of the waiting runs\<close>

definition job_statuses :: "string list" where
  "job_statuses = [''waiting'', ''requested'', ''queued'', ''pending'', ''in_progress'', ''completed'']"

text \<open>One job: bound to its run, attempt and revision; it has a conclusion exactly when it is completed.\<close>

definition check_job :: "py \<Rightarrow> int list \<Rightarrow> py \<Rightarrow> exn + py" where
  "check_job run seen job =
     (let field = (\<lambda>k. get_or job k PNone); conclusion = field ''conclusion'' in
      bindE (checks
        [(is_dict job, IncompleteInventory ''invalid job shape''),
         (positive_int (field ''id'') \<and> the_int (field ''id'') \<notin> set seen, IncompleteInventory ''invalid or duplicate job ID''),
         (is_int (field ''run_id'') \<and> is_int (field ''run_attempt''), IncompleteInventory ''invalid job run identity''),
         (field ''run_id'' = get_or run ''id'' PNone \<and> field ''run_attempt'' = get_or run ''run_attempt'' PNone
            \<and> field ''head_sha'' = get_or run ''head_sha'' PNone, IncompleteInventory ''job belongs to another run or revision''),
         (some_text (field ''name''), IncompleteInventory ''missing job name''),
         (is_str (field ''status'') \<and> the_str (field ''status'') \<in> set job_statuses, IncompleteInventory ''invalid job status''),
         (has_key job ''conclusion'', IncompleteInventory ''missing job conclusion''),
         (if field ''status'' = PStr ''completed''
          then is_str conclusion \<and> the_str conclusion \<in> set COMPLETED_JOB_CONCLUSIONS else conclusion = PNone,
          IncompleteInventory ''conclusion does not fit the status''),
         (is_list (field ''steps''), IncompleteInventory ''missing job steps inventory'')]) (\<lambda>_.
      Inr (PDict
        [(''id'', field ''id''), (''name'', field ''name''), (''status'', field ''status''), (''conclusion'', conclusion),
         (''step_count'', PInt (int (length (the_list (field ''steps'')))))])))"

definition add_job :: "py \<Rightarrow> int list \<Rightarrow> py list \<Rightarrow> py \<Rightarrow> exn + py list" where
  "add_job run seen jobs job = bindE (check_job run (seen @ row_ids jobs) job) (\<lambda>row. Inr (jobs @ [row]))"

definition run_identity :: "py \<Rightarrow> bool" where
  "run_identity run \<longleftrightarrow> positive_int (get_or run ''id'' PNone) \<and> positive_int (get_or run ''run_attempt'' PNone)
     \<and> sha_text (get_or run ''head_sha'' PNone)"

text \<open>The second reading of a page compares the number of jobs and the jobs of the page.\<close>

definition reread_jobs :: "jobs_api \<Rightarrow> int \<Rightarrow> int \<Rightarrow> nat \<Rightarrow> int \<times> py list \<Rightarrow> exn + nat" where
  "reread_jobs fetch run_id amount t = (\<lambda>(number, expected_jobs).
     bindE (fetch t run_id number) (\<lambda>again.
     bindE (py_get again ''jobs'' PNone) (\<lambda>again_jobs.
     bindE (py_get again ''total_count'' PNone) (\<lambda>count.
     bindE (incomplete (\<not> py_eq count (PInt amount) \<or> \<not> is_list again_jobs \<or> \<not> py_eq again_jobs (PList expected_jobs))
       ''jobs page changed during inventory'') (\<lambda>_. Inr (t + 1))))))"

definition run_jobs :: "jobs_api \<Rightarrow> nat \<times> int list \<times> py list \<Rightarrow> py \<Rightarrow> exn + nat \<times> int list \<times> py list" where
  "run_jobs fetch = (\<lambda>(t, seen, result) run.
     let run_id = the_int (get_or run ''id'' PNone) in
     bindE (incomplete (\<not> is_dict run) ''invalid parent run'') (\<lambda>_.
     bindE (incomplete (\<not> run_identity run) ''invalid parent run identity'') (\<lambda>_.
     bindE (fetch t run_id 1) (\<lambda>first_page.
     bindE (page_total 1 MAX_JOBS_PER_RUN first_page) (\<lambda>amount.
     let page_count = (amount + PAGE_SIZE - 1) div PAGE_SIZE in
     bindE (read_pages (\<lambda>t. fetch t run_id) (t + 1) (page_numbers 2 page_count)) (\<lambda>rest.
     let pages = first_page # rest; t' = t + length pages in
     bindE (foldE (\<lambda>(jobs, batches) numbered.
              bindE (page_batch ''jobs'' amount numbered) (\<lambda>batch.
              bindE (foldE (add_job run seen) jobs batch) (\<lambda>jobs'. Inr (jobs', batches @ [batch]))))
            ([], []) (zip (page_numbers 1 page_count) pages)) (\<lambda>(jobs, batches).
     bindE (foldE (reread_jobs fetch run_id amount) t' (zip (page_numbers 1 page_count) batches)) (\<lambda>t''.
     Inr (t'', seen @ row_ids jobs,
          result @ [PDict [(''run_id'', PInt run_id), (''total_jobs'', PInt amount), (''jobs'', PList jobs)]])))))))))"

definition collect_waiting_jobs :: "py \<Rightarrow> jobs_api \<Rightarrow> nat \<Rightarrow> exn + py list \<times> nat" where
  "collect_waiting_jobs run_inventory fetch t =
     bindE (py_get run_inventory ''runs'' PNone) (\<lambda>runs.
     bindE (incomplete
       (\<not> is_list runs \<or> get_or run_inventory ''total_count'' PNone \<noteq> PInt (int (length (the_list runs))))
       ''invalid parent run inventory'') (\<lambda>_.
     bindE (foldE (run_jobs fetch) (t, [], []) (the_list runs)) (\<lambda>(t', seen, result). Inr (result, t'))))"

section \<open>The program\<close>

text \<open>
  What \<open>main\<close> writes to its output: the runs, their jobs when they are asked for (the runs
  are then read once more), the repository and the time of the observation.
\<close>

definition repository_text :: "string \<Rightarrow> bool" where
  "repository_text s = (case split_on (CHR 0x2F) s of
     [owner, name] \<Rightarrow> owner \<noteq> [] \<and> name \<noteq> [] \<and> list_all is_name_char owner \<and> list_all is_name_char name
   | _ \<Rightarrow> False)"

definition add_job_inventory :: "runs_api \<Rightarrow> jobs_api \<Rightarrow> int \<Rightarrow> py \<times> nat \<Rightarrow> exn + py" where
  "add_job_inventory fetch_runs fetch_jobs workflow_id = (\<lambda>(inventory, t).
     bindE (collect_waiting_jobs inventory fetch_jobs t) (\<lambda>(jobs, t').
     bindE (collect_waiting_runs fetch_runs t' workflow_id) (\<lambda>(again, _).
     bindE (incomplete (\<not> py_eq again inventory) ''parent run inventory changed during jobs inventory'') (\<lambda>_.
     py_put ''job_inventory'' (PList jobs) inventory))))"

definition inventory_document :: "runs_api \<Rightarrow> jobs_api \<Rightarrow> string \<Rightarrow> int \<Rightarrow> bool \<Rightarrow> string \<Rightarrow> exn + py" where
  "inventory_document fetch_runs fetch_jobs repository workflow_id include_jobs observed_at =
     (if \<not> repository_text repository then Inl (ValueError ''invalid repository'')
      else
        bindE (collect_waiting_runs fetch_runs 0 workflow_id) (\<lambda>read.
        bindE (if include_jobs then add_job_inventory fetch_runs fetch_jobs workflow_id read else Inr (fst read)) (\<lambda>inventory.
        bindE (py_put ''repository'' (PStr repository) inventory) (py_put ''observed_at'' (PStr observed_at)))))"

lemmas [run_simps] = PAGE_SIZE_def MAX_PROVABLE_TOTAL_def MAX_JOBS_PER_RUN_def COMPLETED_JOB_CONCLUSIONS_def
  unique_json_pairs_def decode_page_def page_numbers_def positive_int_def sha_text_def some_text_def api_timestamp_def
  pr_number_def check_run_def row_ids_def add_run_def page_batch_def add_page_def page_total_def collect_waiting_runs_def
  job_statuses_def check_job_def add_job_def run_identity_def reread_jobs_def run_jobs_def collect_waiting_jobs_def
  repository_text_def add_job_inventory_def inventory_document_def

section \<open>Reading pages\<close>

lemma read_pages_eq:
  "read_pages fetch t ns = Inr ps \<longleftrightarrow>
     length ps = length ns \<and> (\<forall>k < length ns. fetch (t + k) (ns ! k) = Inr (ps ! k))"
proof (induction ns arbitrary: t ps)
  case (Cons n ns)
  show ?case
  proof (cases ps)
    case (Cons p qs)
    have "(\<forall>k < length (n # ns). fetch (t + k) ((n # ns) ! k) = Inr ((p # qs) ! k)) \<longleftrightarrow>
        fetch t n = Inr p \<and> (\<forall>k < length ns. fetch (t + 1 + k) (ns ! k) = Inr (qs ! k))"
      by (auto simp: nth_Cons split: nat.splits)
    with Cons Cons.IH [of "t + 1" qs] show ?thesis by (auto simp: bindE_eq_Inr)
  qed (auto simp: bindE_eq_Inr)
qed auto

lemma length_page_numbers [simp]: "length (page_numbers low high) = nat (high + 1 - low)"
  by (simp add: page_numbers_def)

lemma nth_page_numbers [simp]: "k < nat (high + 1 - low) \<Longrightarrow> page_numbers low high ! k = low + int k"
  by (simp add: page_numbers_def)

text \<open>The pages of a collection, the first one read before the number of pages is known.\<close>

lemma all_pages:
  assumes "fetch t 1 = Inr p" and "read_pages fetch (t + 1) (page_numbers 2 n) = Inr ps" and "1 \<le> n"
  shows "length (p # ps) = nat n \<and> (\<forall>k < nat n. fetch (t + k) (1 + int k) = Inr ((p # ps) ! k))"
proof -
  from assms(2) have l: "length ps = nat (n - 1)"
    and r: "\<And>k. k < nat (n - 1) \<Longrightarrow> fetch (t + 1 + k) (2 + int k) = Inr (ps ! k)"
    by (auto simp: read_pages_eq)
  have "fetch (t + k) (1 + int k) = Inr ((p # ps) ! k)" if "k < nat n" for k
  proof (cases k)
    case (Suc j)
    with that r [of j] show ?thesis by (simp add: algebra_simps)
  qed (use assms(1) in simp)
  with l assms(3) show ?thesis by auto
qed

text \<open>A second pass over numbered pages makes one request for each.\<close>

lemma second_pass:
  assumes "foldE (\<lambda>t (number, x). bindE (fetch t number) (\<lambda>again. bindE (check x again) (\<lambda>_. Inr (t + 1)))) t (zip ns xs) = Inr t'"
    and "length xs = length ns"
  shows "t' = t + length xs \<and> (\<forall>k < length xs. \<exists>again. fetch (t + k) (ns ! k) = Inr again \<and> is_ok (check (xs ! k) again))"
  using assms
proof (induction xs arbitrary: t ns)
  case (Cons x xs)
  then obtain n ms where ns: "ns = n # ms" by (cases ns) auto
  with Cons.prems obtain again u where "fetch t n = Inr again" "check x again = Inr u"
    and rest: "foldE (\<lambda>t (number, x). bindE (fetch t number) (\<lambda>again. bindE (check x again) (\<lambda>_. Inr (t + 1)))) (t + 1) (zip ms xs) = Inr t'"
    by (auto simp: bindE_eq_Inr)
  with Cons.IH [OF rest] Cons.prems(2) ns show ?case by (auto simp: nth_Cons split: nat.splits)
qed simp

section \<open>The rows of a page\<close>

lemma check_run_eq:
  "check_run workflow_id seen run = Inr row \<longleftrightarrow>
     check_run workflow_id [] run = Inr row \<and> the_int (get_or run ''id'' PNone) \<notin> set seen"
  by (auto simp: check_run_def Let_def bindE_eq_Inr checks_eq_Inr)

lemma check_run_row:
  "check_run workflow_id [] run = Inr row \<Longrightarrow>
     get_or row ''id'' PNone = get_or run ''id'' PNone \<and> get_or run ''status'' PNone = PStr ''waiting''
       \<and> py_eq (get_or run ''workflow_id'' PNone) (PInt workflow_id) \<and> get_or row ''disposition'' PNone = PStr ''unclassified''"
  by (auto simp: check_run_def Let_def bindE_eq_Inr checks_eq_Inr) (simp_all add: get_or_def)

lemma row_ids_simps [simp]: "row_ids [] = []" "row_ids (xs @ ys) = row_ids xs @ row_ids ys"
  "row_ids (x # xs) = the_int (get_or x ''id'' PNone) # row_ids xs"
  by (simp_all add: row_ids_def)

lemma add_run_eq: "add_run workflow_id acc run = Inr out \<longleftrightarrow> (\<exists>row. check_run workflow_id [] run = Inr row
    \<and> the_int (get_or run ''id'' PNone) \<notin> set (row_ids acc) \<and> out = acc @ [row])"
  by (auto simp: bindE_eq_Inr add_run_def check_run_eq [of workflow_id "row_ids acc"])

lemma add_runs:
  "foldE (add_run workflow_id) acc batch = Inr out \<longleftrightarrow>
     (\<exists>rows. out = acc @ rows \<and> list_all2 (\<lambda>run row. check_run workflow_id [] run = Inr row) batch rows
        \<and> (distinct (row_ids acc) \<longrightarrow> distinct (row_ids out)) \<and> set (row_ids rows) \<inter> set (row_ids acc) = {} \<and> distinct (row_ids rows))"
proof (induction batch arbitrary: acc)
  case (Cons run batch)
  show ?case (is "?l \<longleftrightarrow> ?r")
  proof
    assume ?l
    then obtain row where row: "check_run workflow_id [] run = Inr row" "the_int (get_or run ''id'' PNone) \<notin> set (row_ids acc)"
      and "foldE (add_run workflow_id) (acc @ [row]) batch = Inr out"
      by (auto simp: bindE_eq_Inr add_run_eq)
    with Cons.IH [of "acc @ [row]"] check_run_row [OF row(1)] show ?r by (fastforce intro: exI [of _ "row # _"])
  next
    assume ?r
    then obtain rows where r: "out = acc @ rows" "list_all2 (\<lambda>run row. check_run workflow_id [] run = Inr row) (run # batch) rows"
      "set (row_ids rows) \<inter> set (row_ids acc) = {}" "distinct (row_ids rows)" by blast
    then obtain row rest where rest: "rows = row # rest" "check_run workflow_id [] run = Inr row"
      "list_all2 (\<lambda>run row. check_run workflow_id [] run = Inr row) batch rest" by (auto simp: list_all2_Cons1)
    with r check_run_row [OF rest(2)] have "add_run workflow_id acc run = Inr (acc @ [row])"
      by (auto simp: add_run_eq)
    moreover have "foldE (add_run workflow_id) (acc @ [row]) batch = Inr out"
      unfolding Cons.IH using r rest by (intro exI [of _ rest]) auto
    ultimately show ?l by simp
  qed
qed auto

section \<open>The pages of an inventory\<close>

definition batch_of :: "string \<Rightarrow> py \<Rightarrow> py list" where
  "batch_of key page = the_list (get_or page key PNone)"

definition page_share :: "int \<Rightarrow> int \<Rightarrow> int" where
  "page_share amount number = min PAGE_SIZE (max 0 (amount - (number - 1) * PAGE_SIZE))"

lemma page_batch_eq:
  "page_batch key amount (number, page) = Inr batch \<longleftrightarrow>
     is_dict page \<and> py_eq (get_or page ''total_count'' PNone) (PInt amount) \<and> is_list (get_or page key PNone) \<and>
     batch = batch_of key page \<and> int (length batch) = page_share amount number"
  by (auto simp: page_batch_def bindE_eq_Inr py_get_get_or batch_of_def page_share_def)

lemma add_pages:
  assumes "foldE (add_page workflow_id amount) acc (zip ns pages) = Inr out" and "length ns = length pages"
  shows "\<exists>rows. out = acc @ rows \<and> (distinct (row_ids acc) \<longrightarrow> distinct (row_ids out)) \<and>
    list_all2 (\<lambda>run row. check_run workflow_id [] run = Inr row) (concat (map (batch_of ''workflow_runs'') pages)) rows"
  using assms
proof (induction pages arbitrary: acc ns)
  case (Cons page pages)
  then obtain n ms where ns: "ns = n # ms" by (cases ns) auto
  with Cons.prems obtain mid where "add_page workflow_id amount acc (n, page) = Inr mid"
    and rest: "foldE (add_page workflow_id amount) mid (zip ms pages) = Inr out" by (auto simp: bindE_eq_Inr)
  then have mid: "foldE (add_run workflow_id) acc (batch_of ''workflow_runs'' page) = Inr mid" by (auto simp: add_page_def bindE_eq_Inr page_batch_eq)
  from mid obtain rows where "mid = acc @ rows" "distinct (row_ids acc) \<longrightarrow> distinct (row_ids mid)"
    "list_all2 (\<lambda>run row. check_run workflow_id [] run = Inr row) (batch_of ''workflow_runs'' page) rows"
    unfolding add_runs by blast
  moreover from Cons.IH [OF rest] Cons.prems(2) ns obtain more where "out = mid @ more"
    "distinct (row_ids mid) \<longrightarrow> distinct (row_ids out)"
    "list_all2 (\<lambda>run row. check_run workflow_id [] run = Inr row) (concat (map (batch_of ''workflow_runs'') pages)) more"
    by auto
  ultimately show ?case by (auto intro!: exI [of _ "rows @ more"] list_all2_appendI)
qed simp

definition page_count_of :: "int \<Rightarrow> int" where
  "page_count_of amount = max 1 ((amount + PAGE_SIZE - 1) div PAGE_SIZE)"

definition inventory_of :: "int \<Rightarrow> py list \<Rightarrow> py" where
  "inventory_of workflow_id rows = PDict
     [(''workflow_id'', PInt workflow_id), (''total_count'', PInt (int (length rows))),
      (''page_count'', PInt (page_count_of (int (length rows)))), (''runs'', PList rows), (''caveat'', PStr caveat)]"

lemma collect_runs_sound:
  assumes "collect_waiting_runs fetch t workflow_id = Inr (inventory, t')"
  obtains pages rows where "inventory = inventory_of workflow_id rows" "t' = t + 2 * length pages" "pages \<noteq> []"
    "\<And>k. k < length pages \<Longrightarrow> fetch (t + k) (1 + int k) = Inr (pages ! k)"
    "\<And>k. k < length pages \<Longrightarrow> \<exists>again. fetch (t + length pages + k) (1 + int k) = Inr again \<and> py_eq again (pages ! k)"
    "list_all2 (\<lambda>run row. check_run workflow_id [] run = Inr row) (concat (map (batch_of ''workflow_runs'') pages)) rows"
    "distinct (row_ids rows)" "length rows \<le> 999"
proof -
  from assms obtain p ps rows where first: "fetch t 1 = Inr p"
    and range: "int (length rows) \<le> MAX_PROVABLE_TOTAL" and wid: "0 < workflow_id"
    and rest: "read_pages fetch (t + 1) (page_numbers 2 (page_count_of (int (length rows)))) = Inr ps"
    and rows: "foldE (add_page workflow_id (int (length rows))) [] (zip (page_numbers 1 (page_count_of (int (length rows)))) (p # ps)) = Inr rows"
    and again: "foldE (\<lambda>t (number, expected_page). bindE (fetch t number) (\<lambda>again.
                 bindE (incomplete (\<not> py_eq again expected_page) ''result page changed during inventory'') (\<lambda>_. Inr (t + 1))))
               (t + length (p # ps)) (zip (page_numbers 1 (page_count_of (int (length rows)))) (p # ps)) = Inr t'"
    and inv: "inventory = inventory_of workflow_id rows"
    unfolding collect_waiting_runs_def Let_def page_count_of_def [symmetric]
    by (auto simp: bindE_eq_Inr page_total_def inventory_of_def simp del: zip_Cons_Cons split: if_splits)
  have "1 \<le> page_count_of (int (length rows))" by (simp add: page_count_of_def)
  from all_pages [OF first rest this] have len: "length (p # ps) = nat (page_count_of (int (length rows)))"
    and pages: "\<And>k. k < nat (page_count_of (int (length rows))) \<Longrightarrow> fetch (t + k) (1 + int k) = Inr ((p # ps) ! k)" by auto
  have nums: "length (page_numbers 1 (page_count_of (int (length rows)))) = length (p # ps)" using len by simp
  from second_pass [OF again] nums have t': "t' = t + length (p # ps) + length (p # ps)"
    and second: "\<And>k. k < length (p # ps) \<Longrightarrow> \<exists>again. fetch (t + length (p # ps) + k) (1 + int k) = Inr again \<and> py_eq again ((p # ps) ! k)"
    using len by (force simp: is_ok_iff)+
  from add_pages [OF rows nums] have "distinct (row_ids rows)"
    "list_all2 (\<lambda>run row. check_run workflow_id [] run = Inr row) (concat (map (batch_of ''workflow_runs'') (p # ps))) rows" by auto
  moreover have "t' = t + 2 * length (p # ps)" "length rows \<le> 999" using t' range by (simp_all add: MAX_PROVABLE_TOTAL_def)
  moreover have "fetch (t + k) (1 + int k) = Inr ((p # ps) ! k)" if "k < length (p # ps)" for k
    using pages that unfolding len by blast
  ultimately show thesis using inv second by (intro that [of rows "p # ps"]) (assumption | simp)+
qed

section \<open>A steady API\<close>

text \<open>The pages of a list of runs that does not change while it is read.\<close>

definition page_of :: "py list \<Rightarrow> int \<Rightarrow> py" where
  "page_of runs number = PDict
     [(''total_count'', PInt (int (length runs))),
      (''workflow_runs'', PList (take 100 (drop (100 * nat (number - 1)) runs)))]"

lemma read_steady: "read_pages (\<lambda>_ n. Inr (f n)) t ns = Inr (map f ns)"
  by (induction ns arbitrary: t) simp_all

lemma page_numbers_Cons: "1 \<le> n \<Longrightarrow> page_numbers 1 n = 1 # page_numbers 2 n"
proof -
  assume "1 \<le> n"
  then obtain m where m: "nat n = Suc m" by (cases "nat n") auto
  then have "nat (n + 1 - 2) = m" by linarith
  with m show ?thesis by (simp add: page_numbers_def upt_conv_Cons map_Suc_upt [symmetric] o_def del: upt_Suc)
qed

lemma page_of_batch:
  "page_batch ''workflow_runs'' (int (length runs)) (1 + int j, page_of runs (1 + int j)) = Inr (take 100 (drop (100 * j) runs))"
  by (simp add: page_batch_eq page_of_def get_or_def batch_of_def page_share_def PAGE_SIZE_def)

lemma steady_pages:
  assumes rows: "list_all2 (\<lambda>run row. check_run workflow_id [] run = Inr row) runs rows" and d: "distinct (row_ids rows)"
  shows "foldE (add_page workflow_id (int (length runs))) (take (100 * j) rows)
    (map (\<lambda>k. (1 + int k, page_of runs (1 + int k))) [j..<j + n]) = Inr (take (100 * (j + n)) rows)"
proof (induction n arbitrary: j)
  case (Suc n)
  let ?new = "take 100 (drop (100 * j) rows)"
  have split: "take (100 * Suc j) rows = take (100 * j) rows @ ?new" by (simp add: take_add [symmetric] add.commute)
  have "distinct (row_ids (take (100 * j) rows @ ?new))"
    using d unfolding split [symmetric] row_ids_def by (simp add: take_map [symmetric] distinct_take del: mult_Suc_right)
  moreover have "list_all2 (\<lambda>run row. check_run workflow_id [] run = Inr row) (take 100 (drop (100 * j) runs)) ?new"
    using rows by (simp add: list_all2_takeI list_all2_dropI)
  ultimately have "foldE (add_run workflow_id) (take (100 * j) rows) (take 100 (drop (100 * j) runs)) = Inr (take (100 * Suc j) rows)"
    unfolding add_runs split by (intro exI [of _ ?new]) auto
  then have "add_page workflow_id (int (length runs)) (take (100 * j) rows) (1 + int j, page_of runs (1 + int j))
      = Inr (take (100 * Suc j) rows)"
    by (simp only: add_page_def page_of_batch bindE_simps)
  moreover have "[j..<j + Suc n] = j # [Suc j..<Suc j + n]" by (simp add: upt_conv_Cons)
  ultimately show ?case using Suc.IH [of "Suc j"] by simp
qed simp

lemma steady_again:
  assumes "\<And>n. n \<in> set ns \<Longrightarrow> py_eq (f n) (f n)"
  shows "foldE (\<lambda>t (number, expected_page). bindE (requireE (py_eq (f number) expected_page) e) (\<lambda>_. Inr (Suc t))) t (map (\<lambda>n. (n, f n)) ns) = Inr (t + length ns)"
  using assms by (induction ns arbitrary: t) simp_all

lemma page_of_eq: "list_all py_wf runs \<Longrightarrow> py_eq (page_of runs n) (page_of runs n)"
  by (rule py_eq_refl) (auto simp: page_of_def py_wf_list_iff list_all_iff dest: in_set_takeD in_set_dropD)

lemma collect_steady:
  assumes "0 < workflow_id" "length runs \<le> 999" "list_all py_wf runs" "distinct (row_ids rows)"
    "list_all2 (\<lambda>run row. check_run workflow_id [] run = Inr row) runs rows"
  shows "collect_waiting_runs (\<lambda>_ n. Inr (page_of runs n)) t workflow_id
    = Inr (inventory_of workflow_id rows, t + 2 * nat (page_count_of (int (length runs))))"
proof -
  let ?amount = "int (length runs)"
  let ?n = "page_count_of ?amount"
  have len: "length rows = length runs" using assms(5) by (simp add: list_all2_lengthD)
  have n: "1 \<le> ?n" by (simp add: page_count_of_def)
  have first: "page_total 0 MAX_PROVABLE_TOTAL (page_of runs 1) = Inr ?amount"
    using assms(2) by (simp add: page_total_def page_of_def py_get_def MAX_PROVABLE_TOTAL_def)
  have pages: "page_of runs 1 # map (page_of runs) (page_numbers 2 ?n) = map (page_of runs) (page_numbers 1 ?n)"
    using n by (simp add: page_numbers_Cons)
  have z: "zip (page_numbers 1 ?n) (map (page_of runs) (page_numbers 1 ?n)) = map (\<lambda>n. (n, page_of runs n)) (page_numbers 1 ?n)"
    by (simp add: zip_map2 zip_same_conv_map)
  have "length rows \<le> 100 * nat ?n" unfolding len page_count_of_def PAGE_SIZE_def by linarith
  then have fold: "foldE (add_page workflow_id ?amount) [] (map (\<lambda>n. (n, page_of runs n)) (page_numbers 1 ?n)) = Inr rows"
    using steady_pages [OF assms(5,4), of 0 "nat ?n"] by (simp add: page_numbers_def o_def)
  have "\<not> workflow_id \<le> 0" "int (length rows) = ?amount" using assms(1) len by simp_all
  then show ?thesis
    unfolding collect_waiting_runs_def Let_def page_count_of_def [symmetric]
    by (simp only: if_False bindE_simps first read_steady pages z fold length_map length_page_numbers inventory_of_def)
       (simp add: steady_again [OF page_of_eq [OF assms(3)]])
qed

section \<open>Jobs\<close>

lemma check_job_eq:
  "check_job run seen job = Inr row \<longleftrightarrow>
     check_job run [] job = Inr row \<and> the_int (get_or job ''id'' PNone) \<notin> set seen"
  by (auto simp: check_job_def Let_def bindE_eq_Inr checks_eq_Inr)

lemma check_job_row: "check_job run [] job = Inr row \<Longrightarrow> get_or row ''id'' PNone = get_or job ''id'' PNone"
  by (auto simp: check_job_def Let_def bindE_eq_Inr checks_eq_Inr) (simp add: get_or_def)

lemma add_jobs:
  assumes "foldE (add_job run seen) jobs batch = Inr out"
  shows "\<exists>rows. out = jobs @ rows \<and> list_all2 (\<lambda>job row. check_job run [] job = Inr row) batch rows
    \<and> (distinct (seen @ row_ids jobs) \<longrightarrow> distinct (seen @ row_ids out))"
  using assms
proof (induction batch arbitrary: jobs)
  case (Cons job batch)
  then obtain row where row: "check_job run [] job = Inr row" "the_int (get_or job ''id'' PNone) \<notin> set (seen @ row_ids jobs)"
    and rest: "foldE (add_job run seen) (jobs @ [row]) batch = Inr out"
    by (auto simp: bindE_eq_Inr) (auto simp: add_job_def bindE_eq_Inr check_job_eq [of run "seen @ row_ids jobs"])
  from Cons.IH [OF rest] obtain rows where rows: "out = (jobs @ [row]) @ rows"
      "list_all2 (\<lambda>job row. check_job run [] job = Inr row) batch rows"
      "distinct (seen @ row_ids (jobs @ [row])) \<longrightarrow> distinct (seen @ row_ids out)" by blast
  moreover have "distinct (seen @ row_ids jobs) \<Longrightarrow> distinct (seen @ row_ids (jobs @ [row]))"
    using row(2) check_job_row [OF row(1)] by auto
  ultimately show ?case using row(1) by (intro exI [of _ "row # rows"]) auto
qed simp

definition add_job_page :: "py \<Rightarrow> int list \<Rightarrow> int \<Rightarrow> py list \<times> py list list \<Rightarrow> int \<times> py \<Rightarrow> exn + py list \<times> py list list" where
  "add_job_page run seen amount = (\<lambda>(jobs, batches) numbered.
     bindE (page_batch ''jobs'' amount numbered) (\<lambda>batch.
     bindE (foldE (add_job run seen) jobs batch) (\<lambda>jobs'. Inr (jobs', batches @ [batch]))))"

lemma add_job_pages:
  assumes "foldE (add_job_page run seen amount) (jobs, batches) (zip ns pages) = Inr (out, batches')"
    and "length ns = length pages"
  shows "\<exists>rows. out = jobs @ rows \<and> int (length rows) = sum_list (map (page_share amount) ns)
    \<and> (\<exists>all. list_all2 (\<lambda>job row. check_job run [] job = Inr row) all rows)
    \<and> (distinct (seen @ row_ids jobs) \<longrightarrow> distinct (seen @ row_ids out))"
  using assms
proof (induction pages arbitrary: jobs batches ns)
  case (Cons page pages)
  then obtain n ms where ns: "ns = n # ms" by (cases ns) auto
  with Cons.prems obtain mid batches'' where "add_job_page run seen amount (jobs, batches) (n, page) = Inr (mid, batches'')"
    and rest: "foldE (add_job_page run seen amount) (mid, batches'') (zip ms pages) = Inr (out, batches')"
    by (auto simp: bindE_eq_Inr)
  then obtain batch where batch: "int (length batch) = page_share amount n" "foldE (add_job run seen) jobs batch = Inr mid"
    by (auto simp: add_job_page_def bindE_eq_Inr page_batch_eq)
  from add_jobs [OF batch(2)] obtain rows where rows: "mid = jobs @ rows"
      "list_all2 (\<lambda>job row. check_job run [] job = Inr row) batch rows"
      "distinct (seen @ row_ids jobs) \<longrightarrow> distinct (seen @ row_ids mid)" by blast
  from Cons.IH [OF rest] Cons.prems(2) ns obtain more all where more: "out = mid @ more"
      "int (length more) = sum_list (map (page_share amount) ms)"
      "list_all2 (\<lambda>job row. check_job run [] job = Inr row) all more"
      "distinct (seen @ row_ids mid) \<longrightarrow> distinct (seen @ row_ids out)" by auto
  have "list_all2 (\<lambda>job row. check_job run [] job = Inr row) (batch @ all) (rows @ more)"
    using rows(2) more(3) by (rule list_all2_appendI)
  moreover have "int (length (rows @ more)) = sum_list (map (page_share amount) ns)"
    using batch(1) rows(2) more(2) ns by (simp add: list_all2_lengthD)
  ultimately show ?case using rows(1,3) more(1,4) by (intro exI [of _ "rows @ more"]) auto
qed auto

text \<open>The shares of the pages add up to the total that was announced.\<close>

lemma page_shares: "0 \<le> amount \<Longrightarrow> sum_list (map (page_share amount) (page_numbers 1 (int n))) = min amount (100 * int n)"
proof (induction n)
  case (Suc n)
  have "page_numbers 1 (int (Suc n)) = page_numbers 1 (int n) @ [1 + int n]"
    by (simp add: page_numbers_def nat_add_distrib add.commute [of 1])
  with Suc show ?case by (simp add: page_share_def PAGE_SIZE_def)
qed (simp add: page_numbers_def)

lemma page_shares_all:
  assumes "1 \<le> amount" shows "sum_list (map (page_share amount) (page_numbers 1 ((amount + PAGE_SIZE - 1) div PAGE_SIZE))) = amount"
proof -
  have n: "(amount + PAGE_SIZE - 1) div PAGE_SIZE = int (nat ((amount + PAGE_SIZE - 1) div PAGE_SIZE))"
    using assms by (simp add: PAGE_SIZE_def)
  have "amount \<le> 100 * ((amount + PAGE_SIZE - 1) div PAGE_SIZE)" unfolding PAGE_SIZE_def by linarith
  then show ?thesis using assms page_shares [of amount "nat ((amount + PAGE_SIZE - 1) div PAGE_SIZE)"] by (subst n) (simp add: n [symmetric])
qed

text \<open>An entry of the job inventory: every row comes from a job of exactly this run, attempt and revision.\<close>

definition job_row :: "py \<Rightarrow> py \<Rightarrow> py \<Rightarrow> bool" where
  "job_row run job row \<longleftrightarrow>
     get_or job ''run_id'' PNone = get_or run ''id'' PNone \<and> get_or job ''run_attempt'' PNone = get_or run ''run_attempt'' PNone \<and>
     get_or job ''head_sha'' PNone = get_or run ''head_sha'' PNone \<and>
     get_or row ''id'' PNone = get_or job ''id'' PNone \<and> get_or row ''status'' PNone = get_or job ''status'' PNone \<and>
     (get_or row ''status'' PNone = PStr ''completed'' \<longleftrightarrow> get_or row ''conclusion'' PNone \<noteq> PNone)"

lemma check_job_job_row: "check_job run [] job = Inr row \<Longrightarrow> job_row run job row"
  by (auto simp: check_job_def job_row_def Let_def bindE_eq_Inr checks_eq_Inr is_str_iff split: if_splits) (simp_all add: get_or_def)

definition job_entry :: "py \<Rightarrow> py \<Rightarrow> bool" where
  "job_entry run entry \<longleftrightarrow>
     get_or entry ''run_id'' PNone = get_or run ''id'' PNone \<and>
     get_or entry ''total_jobs'' PNone = PInt (int (length (batch_of ''jobs'' entry))) \<and>
     length (batch_of ''jobs'' entry) \<in> {1..999} \<and>
     (\<exists>jobs. list_all2 (job_row run) jobs (batch_of ''jobs'' entry))"

lemma run_jobs_entry:
  assumes "run_jobs fetch (t, seen, result) run = Inr (t', seen', result')"
  shows "\<exists>entry. result' = result @ [entry] \<and> job_entry run entry \<and> seen' = seen @ row_ids (batch_of ''jobs'' entry)
    \<and> (distinct seen \<longrightarrow> distinct seen')"
proof -
  let ?id = "the_int (get_or run ''id'' PNone)"
  from assms obtain p ps amount jobs batches where idt: "run_identity run"
    and amount: "1 \<le> amount" "amount \<le> MAX_JOBS_PER_RUN"
    and rest: "read_pages (\<lambda>t. fetch t ?id) (t + 1) (page_numbers 2 ((amount + PAGE_SIZE - 1) div PAGE_SIZE)) = Inr ps"
    and fold: "foldE (add_job_page run seen amount) ([], []) (zip (page_numbers 1 ((amount + PAGE_SIZE - 1) div PAGE_SIZE)) (p # ps)) = Inr (jobs, batches)"
    and out: "seen' = seen @ row_ids jobs" "result' = result @ [PDict [(''run_id'', PInt ?id), (''total_jobs'', PInt amount), (''jobs'', PList jobs)]]"
    unfolding run_jobs_def Let_def add_job_page_def
    by (auto simp: bindE_eq_Inr page_total_def simp del: zip_Cons_Cons split: if_splits)
  let ?n = "(amount + PAGE_SIZE - 1) div PAGE_SIZE"
  have n: "1 \<le> ?n" using amount(1) by (simp add: PAGE_SIZE_def)
  from rest have "length ps = nat (?n - 1)" by (auto simp: read_pages_eq)
  with n have len: "length (page_numbers 1 ?n) = length (p # ps)" by simp
  from add_job_pages [OF fold this] page_shares_all [OF amount(1)] have rows: "int (length jobs) = amount"
    "\<exists>all. list_all2 (\<lambda>job row. check_job run [] job = Inr row) all jobs" "distinct seen \<longrightarrow> distinct (seen @ row_ids jobs)"
    by auto
  have "PInt ?id = get_or run ''id'' PNone" using idt by (auto simp: run_identity_def positive_int_def is_int_iff)
  moreover from rows(2) have "\<exists>all. list_all2 (job_row run) all jobs" by (blast intro: list_all2_mono check_job_job_row)
  ultimately show ?thesis using rows(1,3) amount unfolding out
    by (auto simp: job_entry_def batch_of_def get_or_def MAX_JOBS_PER_RUN_def)
qed

lemma all_run_jobs:
  assumes "foldE (run_jobs fetch) (t, seen, result) runs = Inr (t', seen', result')"
  shows "\<exists>entries. result' = result @ entries \<and> list_all2 job_entry runs entries
    \<and> seen' = seen @ concat (map (\<lambda>e. row_ids (batch_of ''jobs'' e)) entries) \<and> (distinct seen \<longrightarrow> distinct seen')"
  using assms
proof (induction runs arbitrary: t seen result)
  case (Cons run runs)
  then obtain t1 seen1 result1 where step: "run_jobs fetch (t, seen, result) run = Inr (t1, seen1, result1)"
    and rest: "foldE (run_jobs fetch) (t1, seen1, result1) runs = Inr (t', seen', result')"
    by (auto simp: bindE_eq_Inr)
  from run_jobs_entry [OF step] obtain entry where entry: "result1 = result @ [entry]" "job_entry run entry"
    "seen1 = seen @ row_ids (batch_of ''jobs'' entry)" "distinct seen \<longrightarrow> distinct seen1" by blast
  from Cons.IH [OF rest] obtain entries where "result' = result1 @ entries" "list_all2 job_entry runs entries"
    "seen' = seen1 @ concat (map (\<lambda>e. row_ids (batch_of ''jobs'' e)) entries)" "distinct seen1 \<longrightarrow> distinct seen'" by blast
  with entry show ?case by (intro exI [of _ "entry # entries"]) simp
qed simp

lemma collect_jobs_sound:
  assumes "collect_waiting_jobs run_inventory fetch t = Inr (result, t')"
  shows "list_all2 job_entry (batch_of ''runs'' run_inventory) result
    \<and> distinct (concat (map (\<lambda>e. row_ids (batch_of ''jobs'' e)) result))"
proof -
  from assms obtain seen where "foldE (run_jobs fetch) (t, [], []) (batch_of ''runs'' run_inventory) = Inr (t', seen, result)"
    by (auto simp: collect_waiting_jobs_def bindE_eq_Inr py_get_get_or batch_of_def)
  from all_run_jobs [OF this] show ?thesis by auto
qed

section \<open>Concrete inventories\<close>

definition sample_sha :: string where
  "sample_sha = ''0123456789012345678901234567890123456789''"

definition sample_run :: py where
  "sample_run = PDict
     [(''id'', PInt 7), (''workflow_id'', PInt 3), (''status'', PStr ''waiting''), (''head_sha'', PStr sample_sha),
      (''actor'', PDict [(''login'', PStr ''u'')]), (''event'', PStr ''push''), (''head_branch'', PStr ''main''),
      (''created_at'', PStr ''2024-02-29T10:00:00Z''), (''updated_at'', PStr ''2024-02-29T12:00:00.5+01:00''),
      (''pull_requests'', PList [PDict [(''number'', PInt 5)]]), (''run_attempt'', PInt 1)]"

definition sample_row :: py where
  "sample_row = PDict
     [(''id'', PInt 7), (''status'', PStr ''waiting''), (''event'', PStr ''push''), (''head_branch'', PStr ''main''),
      (''head_sha'', PStr sample_sha), (''created_at'', PStr ''2024-02-29T10:00:00Z''),
      (''updated_at'', PStr ''2024-02-29T12:00:00.5+01:00''), (''run_attempt'', PInt 1), (''actor'', PStr ''u''),
      (''pull_request_numbers'', PList [PInt 5]), (''disposition'', PStr ''unclassified'')]"

lemma sample_times: "\<exists>a b. instant ''2024-02-29T10:00:00Z'' = Some a \<and> instant ''2024-02-29T12:00:00.5+01:00'' = Some b \<and> \<not> b < a"
  by (simp add: run_simps upt_conv_Cons)

lemma sample_checked: "check_run 3 [] sample_run = Inr sample_row"
  using sample_times
  by (auto simp: sample_run_def sample_row_def sample_sha_def check_run_def get_or_def positive_int_def sha_text_def some_text_def
      api_timestamp_def pr_number_def hex_id_def is_hex_def is_digit_def)

definition sample_job :: py where
  "sample_job = PDict
     [(''id'', PInt 9), (''run_id'', PInt 7), (''run_attempt'', PInt 1), (''head_sha'', PStr sample_sha), (''name'', PStr ''build''),
      (''status'', PStr ''queued''), (''conclusion'', PNone), (''steps'', PList [])]"

definition sample_jobs :: jobs_api where
  "sample_jobs _ _ _ = Inr (PDict [(''total_count'', PInt 1), (''jobs'', PList [sample_job])])"

lemma sample_run_identity: "run_identity sample_row"
  by (simp add: run_identity_def sample_row_def sample_sha_def get_or_def positive_int_def sha_text_def hex_id_def is_hex_def is_digit_def)

lemma sample_job_inventory: "is_ok (collect_waiting_jobs (inventory_of 3 [sample_row]) sample_jobs 0)"
  using sample_run_identity
  by (simp add: collect_waiting_jobs_def inventory_of_def py_get_def get_or_def run_jobs_def sample_jobs_def page_total_def
      MAX_JOBS_PER_RUN_def PAGE_SIZE_def page_numbers_def page_batch_def add_job_def check_job_def sample_job_def sample_row_def
      positive_int_def some_text_def job_statuses_def has_key_def reread_jobs_def Let_def cong: bindE_weak_cong)

section \<open>Properties\<close>

text \<open>
  C37: An inventory of waiting runs is a stable snapshot, whatever the API answers: every page
  was read twice, in two passes, and both answers agree; the rows are those of the runs on these pages, in
  their order, each run checked to wait in this workflow; no run is listed twice, there are at most 999, and their
  number is the announced total.
\<close>

theorem inventory_is_stable:
  assumes "collect_waiting_runs fetch t workflow_id = Inr (inventory, t')"
  shows "\<exists>pages rows. inventory = inventory_of workflow_id rows \<and> t' = t + 2 * length pages \<and>
    list_all2 (\<lambda>k page. fetch (t + k) (1 + int k) = Inr page \<and>
        (\<exists>again. fetch (t + length pages + k) (1 + int k) = Inr again \<and> py_eq again page)) [0..<length pages] pages \<and>
    list_all2 (\<lambda>run row. check_run workflow_id [] run = Inr row) (concat (map (batch_of ''workflow_runs'') pages)) rows \<and>
    distinct (row_ids rows) \<and> length rows \<le> 999"
  using assms
proof (rule collect_runs_sound)
  fix pages rows
  assume r: "inventory = inventory_of workflow_id rows" "t' = t + 2 * length pages"
    "list_all2 (\<lambda>run row. check_run workflow_id [] run = Inr row) (concat (map (batch_of ''workflow_runs'') pages)) rows"
    "distinct (row_ids rows)" "length rows \<le> 999"
    and reads: "\<And>k. k < length pages \<Longrightarrow> fetch (t + k) (1 + int k) = Inr (pages ! k)"
      "\<And>k. k < length pages \<Longrightarrow> \<exists>again. fetch (t + length pages + k) (1 + int k) = Inr again \<and> py_eq again (pages ! k)"
  from reads have "list_all2 (\<lambda>k page. fetch (t + k) (1 + int k) = Inr page \<and>
        (\<exists>again. fetch (t + length pages + k) (1 + int k) = Inr again \<and> py_eq again page)) [0..<length pages] pages"
    by (auto simp: list_all2_conv_all_nth)
  with r show ?thesis by blast
qed

theorem inventory_is_stable_witness:
  "\<exists>inventory t' rows. collect_waiting_runs (\<lambda>_ n. Inr (page_of [sample_run] n)) 0 3 = Inr (inventory, t') \<and>
     inventory = inventory_of 3 rows \<and> distinct (row_ids rows)"
proof -
  have "collect_waiting_runs (\<lambda>_ n. Inr (page_of [sample_run] n)) 0 3
      = Inr (inventory_of 3 [sample_row], 0 + 2 * nat (page_count_of (int (length [sample_run]))))"
    by (rule collect_steady) (simp_all add: sample_checked, simp add: sample_run_def)
  from this inventory_is_stable [OF this] show ?thesis by auto
qed

text \<open>
  C38: While the waiting runs do not change, the inventory lists all of them: for up to 999
  well-formed runs with distinct identities, spread over the pages of the API, the collection
  succeeds after two requests for each page with one row for each run, in order.
\<close>

theorem steady_inventory_complete:
  assumes "0 < workflow_id" and "length runs \<le> 999" and "list_all py_wf runs" and "distinct (row_ids rows)"
    and "list_all2 (\<lambda>run row. check_run workflow_id [] run = Inr row) runs rows"
  shows "collect_waiting_runs (\<lambda>_ n. Inr (page_of runs n)) t workflow_id
    = Inr (inventory_of workflow_id rows, t + 2 * nat (page_count_of (int (length runs))))"
  using assms by (rule collect_steady)

theorem steady_inventory_complete_witness:
  "collect_waiting_runs (\<lambda>_ n. Inr (page_of [sample_run] n)) 0 3
    = Inr (inventory_of 3 [sample_row], 0 + 2 * nat (page_count_of (int (length [sample_run]))))"
  by (rule steady_inventory_complete) (simp_all add: sample_checked, simp add: sample_run_def)

text \<open>
  The job inventory is bound to the run inventory: there is one entry for each run, in
  order, with as many jobs as the API announced (1 to 999), every one a job of exactly that run, attempt and
  revision that has a conclusion if and only if it is completed; and no job appears
  twice, in one run or in two.
\<close>

lemma job_inventory_bound:
  assumes "collect_waiting_jobs run_inventory fetch t = Inr (result, t')"
  shows "list_all2 job_entry (batch_of ''runs'' run_inventory) result \<and>
    distinct (concat (map (\<lambda>e. row_ids (batch_of ''jobs'' e)) result))"
  using assms by (rule collect_jobs_sound)

end
