(* ===== verification/Quality_Impact.thy ===== *)
theory Quality_Impact
  imports Py_Text
begin

text \<open>
  The selection of quality profiles for a change (\<open>scripts/select-quality-impact.py\<close>).

  The parsed YAML of the registry and of the two dependency inventories, and the output of
  \<open>git diff --name-only\<close>, are arguments; an inventory that cannot be read or parsed is \<^const>\<open>None\<close>. What
  is printed as a JSON object is a record here.
\<close>

section \<open>Paths\<close>

definition path_parts :: "string \<Rightarrow> string list" where
  "path_parts s = filter (\<lambda>p. p \<noteq> [] \<and> p \<noteq> ''.'') (split_on (CHR 0x2F) s)"

definition absolute :: "string \<Rightarrow> bool" where
  "absolute s \<longleftrightarrow> prefix [CHR 0x2F] s"

text \<open>A relative \<open>PurePosixPath\<close> that stays inside the repository, rendered.\<close>

definition normalized_path :: "string \<Rightarrow> exn + string" where
  "normalized_path raw =
     (let path = py_strip raw; parts = path_parts path in
      if parts = [] \<or> absolute path \<or> ''..'' \<in> set parts then Inl (ValueError ''unsafe changed path'')
      else Inr (join_with [CHR 0x2F] parts))"

definition sorted_set :: "string list \<Rightarrow> string list" where
  "sorted_set xs = sorted_list_of_set (set xs)"

definition normalized_paths :: "string list \<Rightarrow> exn + string list" where
  "normalized_paths raw = bindE (mapE normalized_path raw) (\<lambda>ps. Inr (sorted_set ps))"

definition ZERO_SHA :: string where
  "ZERO_SHA = replicate 40 (CHR ''0'')"

definition git_changed_files :: "(string \<Rightarrow> string \<Rightarrow> exn + string) \<Rightarrow> string \<Rightarrow> string \<Rightarrow> exn + string list" where
  "git_changed_files diff base_sha head_sha =
     (if \<not> oid head_sha then Inl (ValueError ''head SHA must be a full lowercase Git object ID'')
      else if base_sha = ZERO_SHA then Inr []
      else if \<not> oid base_sha then Inl (ValueError ''base SHA must be a full lowercase Git object ID'')
      else bindE (diff base_sha head_sha) (\<lambda>stdout. normalized_paths (py_splitlines stdout)))"

section \<open>The registry\<close>

definition PROFILES :: "string list" where
  "PROFILES = [''tiny'', ''heavy'', ''application_acceptance'']"

record family =
  fm_name :: string
  fm_profiles :: "string list"
  fm_prefixes :: "string list"

definition all_text :: "py \<Rightarrow> bool" where
  "all_text v \<longleftrightarrow> is_list v \<and> list_all is_str (the_list v)"

definition texts :: "py \<Rightarrow> string list" where
  "texts v = map the_str (the_list v)"

definition hashable :: "py \<Rightarrow> bool" where
  "hashable v \<longleftrightarrow> \<not> is_list v \<and> \<not> is_dict v"

definition safe_prefix :: "string \<Rightarrow> exn + unit" where
  "safe_prefix p =
     (if CHR 0x00 \<in> set p \<or> p \<noteq> py_strip p \<or> p = [] \<or> p = ''.'' \<or> absolute p \<or> ''..'' \<in> set (path_parts p)
      then Inl (ValueError ''unsafe safe Fast-Lane path prefix'') else Inr ())"

definition family_policy :: "string \<times> py \<Rightarrow> exn + family" where
  "family_policy = (\<lambda>(name, policy).
     let profiles = get_or policy ''profiles'' PNone; prefixes = get_or policy ''path_prefixes'' PNone in
     bindE (requireE (is_dict policy) (ValueError ''quality impact family entries must be mappings'')) (\<lambda>_.
     bindE (requireE (is_list profiles \<and> the_list profiles \<noteq> []) (ValueError ''unsupported profiles'')) (\<lambda>_.
     bindE (requireE (list_all hashable (the_list profiles)) TypeError) (\<lambda>_.
     bindE (checks
       [(list_all (\<lambda>p. is_str p \<and> the_str p \<in> set PROFILES) (the_list profiles), ValueError ''unsupported profiles''),
        (''application_acceptance'' \<in> set (texts profiles) \<longrightarrow> ''heavy'' \<in> set (texts profiles), ValueError ''requires heavy''),
        (all_text prefixes \<and> the_list prefixes \<noteq> [], ValueError ''requires path prefixes'')]) (\<lambda>_.
     Inr \<lparr>fm_name = name, fm_profiles = texts profiles, fm_prefixes = texts prefixes\<rparr>)))))"

definition registry :: "py \<Rightarrow> exn + family list \<times> string list" where
  "registry payload =
     (let families = get_or payload ''families'' PNone; safe_prefixes = get_or payload ''safe_fast_lane_path_prefixes'' PNone in
      bindE (checks
        [(is_dict payload \<and> py_eq (get_or payload ''schema_version'' PNone) (PInt 2), ValueError ''schema version 2''),
         (is_dict families \<and> the_items families \<noteq> [], ValueError ''at least one family''),
         (all_text safe_prefixes, ValueError ''safe Fast-Lane path prefixes'')]) (\<lambda>_.
      bindE (forE safe_prefix (texts safe_prefixes)) (\<lambda>_.
      bindE (mapE family_policy (the_items families)) (\<lambda>policies. Inr (policies, texts safe_prefixes)))))"

section \<open>The dependency inventory\<close>

type_synonym entries = "(string \<times> py \<times> string list) list"

definition DEPENDENCY_INVENTORY :: string where
  "DEPENDENCY_INVENTORY = ''meta/source-dependencies.yml''"

definition sections :: "(string \<times> string) list" where
  "sections = [(''container_images'', ''reference''), (''derived_images'', ''reference''), (''external_products'', ''name'')]"

definition inventory_item :: "string \<Rightarrow> string \<Rightarrow> entries \<Rightarrow> py \<Rightarrow> exn + entries" where
  "inventory_item header identity_key entries item =
     bindE (requireE (is_dict item \<and> is_str (get_or item identity_key PNone)) (ValueError ''entry is malformed'')) (\<lambda>_.
     let identity = hd (split_on (CHR ''@'') (the_str (get_or item identity_key PNone)));
         key = header @ '':'' @ identity; locations = get_or item ''locations'' PNone in
     bindE (requireE (map_of entries key = None \<and> all_text locations) (ValueError ''duplicate or malformed entries'')) (\<lambda>_.
     bindE (normalized_paths (texts locations)) (\<lambda>paths. Inr (entries @ [(key, item, paths)]))))"

definition inventory_section :: "py \<Rightarrow> entries \<Rightarrow> string \<times> string \<Rightarrow> exn + entries" where
  "inventory_section payload entries = (\<lambda>(header, identity_key).
     let values = get_or payload header PNone in
     bindE (requireE (is_list values) (ValueError ''source dependency inventory is malformed'')) (\<lambda>_.
     foldE (inventory_item header identity_key) entries (the_list values)))"

definition collection_item :: "entries \<Rightarrow> py \<Rightarrow> exn + entries" where
  "collection_item entries item =
     (let key = ''collections:'' @ the_str (get_or item ''name'' PNone) in
      if \<not> (is_dict item \<and> is_str (get_or item ''name'' PNone)) then Inl (ValueError ''collection entry is malformed'')
      else if map_of entries key \<noteq> None then Inl (ValueError ''duplicate collection entries'')
      else Inr (entries @ [(key, item, [])]))"

definition inventory_entries :: "py \<Rightarrow> exn + entries" where
  "inventory_entries payload =
     bindE (requireE (is_dict payload \<and> py_eq (get_or payload ''schema_version'' PNone) (PInt 1))
       (ValueError ''source dependency inventory is malformed'')) (\<lambda>_.
     bindE (foldE (inventory_section payload) [] sections) (\<lambda>entries.
     let collections = get_or payload ''collections'' PNone in
     bindE (requireE (is_list collections) (ValueError ''collections are malformed'')) (\<lambda>_.
     foldE collection_item entries (the_list collections))))"

section \<open>The impact of changed dependencies\<close>

definition matches :: "string \<Rightarrow> string \<Rightarrow> bool" where
  "matches path pre \<longleftrightarrow> path = pre \<or> prefix pre path"

definition in_family :: "string \<Rightarrow> family \<Rightarrow> bool" where
  "in_family path policy \<longleftrightarrow> list_ex (matches path) (fm_prefixes policy)"

record impact =
  im_profiles :: "string list"
  im_affected :: "string list"
  im_keys :: "string list"
  im_unknown :: bool
  im_fast_lane :: bool

definition same_entry :: "(py \<times> string list) option \<Rightarrow> (py \<times> string list) option \<Rightarrow> bool" where
  "same_entry previous current = (case (previous, current) of
     (None, None) \<Rightarrow> True | (Some (a, ls), Some (b, ms)) \<Rightarrow> py_eq a b \<and> ls = ms | _ \<Rightarrow> False)"

definition locations_of :: "(py \<times> string list) option \<Rightarrow> string list" where
  "locations_of entry = (case entry of None \<Rightarrow> [] | Some (_, ls) \<Rightarrow> ls)"

definition location_profiles :: "family list \<Rightarrow> string list \<Rightarrow> string list" where
  "location_profiles families locations =
     concat (map (\<lambda>location. concat (map fm_profiles (filter (in_family location) families))) locations)"

definition changed_entry :: "family list \<Rightarrow> entries \<Rightarrow> entries \<Rightarrow> impact \<Rightarrow> string \<Rightarrow> impact" where
  "changed_entry families before after im key =
     (let previous = map_of before key; current = map_of after key in
      if same_entry previous current then im
      else
        let im = im\<lparr>im_keys := im_keys im @ [key]\<rparr>; locations = sorted_set (locations_of previous @ locations_of current) in
        if locations = [] then im\<lparr>im_fast_lane := True\<rparr>
        else
          let entry_profiles = location_profiles families locations in
          im\<lparr>im_affected := im_affected im @ locations, im_profiles := im_profiles im @ entry_profiles,
             im_fast_lane := im_fast_lane im \<or> entry_profiles = []\<rparr>)"

definition no_impact :: impact where
  "no_impact = \<lparr>im_profiles = [], im_affected = [], im_keys = [], im_unknown = False, im_fast_lane = False\<rparr>"

text \<open>An inventory that is missing or malformed makes the impact unknown.\<close>

definition dependency_impact :: "py option \<Rightarrow> py option \<Rightarrow> family list \<Rightarrow> impact" where
  "dependency_impact base current families =
     (let parse = (\<lambda>payload. case payload of None \<Rightarrow> None
                     | Some v \<Rightarrow> (case inventory_entries v of Inl _ \<Rightarrow> None | Inr es \<Rightarrow> Some es)) in
      case (parse base, parse current) of
        (Some before, Some after) \<Rightarrow>
          (let im = foldl (changed_entry families before after) no_impact
             (sorted_set (map fst before @ map fst after))
           in im\<lparr>im_affected := sorted_set (im_affected im)\<rparr>)
      | _ \<Rightarrow> \<lparr>im_profiles = [], im_affected = [], im_keys = [], im_unknown = True, im_fast_lane = True\<rparr>)"

section \<open>The selection\<close>

record arguments =
  ar_event_name :: string
  ar_base_sha :: string
  ar_head_sha :: string
  ar_base_ref :: string
  ar_head_ref :: string
  ar_changed_file :: "string list"

record selection =
  se_full_matrix :: bool
  se_unknown_impact :: bool
  se_keycloak_required :: bool
  se_profiles :: "(string \<times> bool) list"
  se_runtime_evidence_required :: bool
  se_families :: "(string \<times> bool) list"
  se_changed_files :: "string list"
  se_affected_files :: "string list"
  se_dependency_keys :: "string list"
  se_unknown_files :: "string list"
  se_reason :: string

definition complete_event :: "arguments \<Rightarrow> bool" where
  "complete_event args \<longleftrightarrow>
     ar_event_name args = ''workflow_dispatch''
     \<or> ar_event_name args = ''push'' \<and> (ar_head_ref args = ''refs/heads/main'' \<or> prefix ''refs/tags/'' (ar_head_ref args))
     \<or> ar_event_name args = ''pull_request'' \<and> ar_base_ref args = ''main''
         \<and> (ar_head_ref args = ''develop'' \<or> prefix ''release/v'' (ar_head_ref args))"

definition indeterminate_push :: "arguments \<Rightarrow> bool" where
  "indeterminate_push args \<longleftrightarrow> ar_event_name args = ''push'' \<and> ar_base_sha args = ZERO_SHA"

definition changed_files_of :: "(string \<Rightarrow> string \<Rightarrow> exn + string) \<Rightarrow> arguments \<Rightarrow> exn + string list" where
  "changed_files_of diff args =
     bindE (normalized_paths (ar_changed_file args)) (\<lambda>changed.
     if changed = [] \<and> \<not> complete_event args \<and> \<not> indeterminate_push args
     then git_changed_files diff (ar_base_sha args) (ar_head_sha args) else Inr changed)"

definition reason_of :: "bool \<Rightarrow> bool \<Rightarrow> bool \<Rightarrow> bool \<Rightarrow> string" where
  "reason_of full indeterminate unknown affected =
     (if full then ''complete protected validation event''
      else if indeterminate then ''push base is unavailable; fail closed to complete validation''
      else if unknown then ''unclassified change; fail closed to the unprivileged Tiny Fast Lane''
      else if affected then ''declared quality family or dependency location changed''
      else ''no registered quality family or dependency location changed'')"

text \<open>\<open>_base_inventory\<close>: the base revision has to be a full object ID.\<close>

definition base_inventory :: "arguments \<Rightarrow> py option \<Rightarrow> py option" where
  "base_inventory args shown = (if oid (ar_base_sha args) then shown else None)"

definition affected_by_family :: "family list \<Rightarrow> string list \<Rightarrow> (family \<times> string list) list" where
  "affected_by_family families changed_files =
     map (\<lambda>f. (f, filter (\<lambda>p. in_family p f) (filter (\<lambda>p. p \<noteq> DEPENDENCY_INVENTORY) changed_files))) families"

definition direct_profiles :: "family list \<Rightarrow> string list \<Rightarrow> string list" where
  "direct_profiles families changed_files =
     concat (map (fm_profiles \<circ> fst) (filter (\<lambda>(f, ps). ps \<noteq> []) (affected_by_family families changed_files)))"

definition impact_of :: "family list \<Rightarrow> arguments \<Rightarrow> py option \<Rightarrow> py option \<Rightarrow> string list \<Rightarrow> impact" where
  "impact_of families args base current changed_files =
     (if DEPENDENCY_INVENTORY \<in> set changed_files \<and> \<not> complete_event args \<and> \<not> indeterminate_push args
      then dependency_impact (base_inventory args base) current families else no_impact)"

definition unknown_files_of :: "family list \<Rightarrow> string list \<Rightarrow> string list \<Rightarrow> string list" where
  "unknown_files_of families safe_prefixes changed_files =
     filter (\<lambda>p. \<not> list_ex (\<lambda>(f, ps). p \<in> set ps) (affected_by_family families changed_files)
               \<and> \<not> list_ex (matches p) safe_prefixes)
       (filter (\<lambda>p. p \<noteq> DEPENDENCY_INVENTORY) changed_files)"

definition selected_profiles :: "family list \<Rightarrow> arguments \<Rightarrow> impact \<Rightarrow> bool \<Rightarrow> string list \<Rightarrow> string list" where
  "selected_profiles families args im unknown changed_files =
     (if complete_event args \<or> indeterminate_push args then PROFILES
      else direct_profiles families changed_files @ im_profiles im @ (if unknown \<or> im_fast_lane im then [''tiny''] else []))"

definition decide :: "family list \<Rightarrow> string list \<Rightarrow> arguments \<Rightarrow> py option \<Rightarrow> py option \<Rightarrow> string list \<Rightarrow> selection" where
  "decide families safe_prefixes args base current changed_files =
     (let full = complete_event args; indeterminate = indeterminate_push args;
          by_family = affected_by_family families changed_files;
          im = impact_of families args base current changed_files;
          unknown_files = unknown_files_of families safe_prefixes changed_files;
          unknown = (unknown_files \<noteq> [] \<or> im_unknown im);
          selected = selected_profiles families args im unknown changed_files;
          profiles = map (\<lambda>p. (p, p \<in> set selected)) (sort PROFILES);
          affected = sorted_set (concat (map snd by_family) @ im_affected im) in
      \<lparr>se_full_matrix = (full \<or> indeterminate), se_unknown_impact = unknown, se_keycloak_required = list_all snd profiles,
       se_profiles = profiles, se_runtime_evidence_required = (''heavy'' \<in> set selected \<or> ''application_acceptance'' \<in> set selected),
       se_families = map (\<lambda>(f, ps). (fm_name f, ps \<noteq> [])) by_family, se_changed_files = changed_files,
       se_affected_files = affected, se_dependency_keys = im_keys im, se_unknown_files = unknown_files,
       se_reason = reason_of full indeterminate unknown (affected \<noteq> [])\<rparr>)"

definition select_profiles :: "py \<Rightarrow> (string \<Rightarrow> string \<Rightarrow> exn + string) \<Rightarrow> arguments \<Rightarrow> py option \<Rightarrow> py option \<Rightarrow> exn + selection" where
  "select_profiles payload diff args base current =
     bindE (registry payload) (\<lambda>(families, safe_prefixes).
     bindE (changed_files_of diff args) (\<lambda>changed_files.
     Inr (decide families safe_prefixes args base current changed_files)))"

section \<open>Lemmas\<close>

lemma set_sorted_set [simp]: "set (sorted_set xs) = set xs"
  by (simp add: sorted_set_def)

lemma sorted_set_sorted [simp]: "sorted (sorted_set xs)" "distinct (sorted_set xs)"
  by (simp_all add: sorted_set_def)

lemma sorted_set_Nil [simp]: "sorted_set xs = [] \<longleftrightarrow> xs = []"
  by (simp add: sorted_set_def)

lemma family_policy_profiles:
  "family_policy entry = Inr f \<Longrightarrow> set (fm_profiles f) \<subseteq> set PROFILES
     \<and> (''application_acceptance'' \<in> set (fm_profiles f) \<longrightarrow> ''heavy'' \<in> set (fm_profiles f))"
  by (cases entry) (auto simp: family_policy_def Let_def bindE_eq_Inr checks_eq_Inr texts_def list_all_iff)

lemma registry_families:
  "registry payload = Inr (families, safe_prefixes) \<Longrightarrow> f \<in> set families \<Longrightarrow>
     set (fm_profiles f) \<subseteq> set PROFILES \<and> (''application_acceptance'' \<in> set (fm_profiles f) \<longrightarrow> ''heavy'' \<in> set (fm_profiles f))"
  by (auto simp: registry_def Let_def bindE_eq_Inr dest!: mapE_result family_policy_profiles)

text \<open>
  Where a selected profile comes from: a family that matches a path. The paths are changed files
  or the locations of a changed dependency.
\<close>

definition declared :: "family list \<Rightarrow> string list \<Rightarrow> string \<Rightarrow> bool" where
  "declared families paths p \<longleftrightarrow> (\<exists>f \<in> set families. \<exists>path \<in> set paths. p \<in> set (fm_profiles f) \<and> in_family path f)"

lemma declared_mono: "declared families paths p \<Longrightarrow> set paths \<subseteq> set paths' \<Longrightarrow> declared families paths' p"
  by (auto simp: declared_def)

lemma declared_simps [simp]:
  "declared families [] p = False" "declared families (xs @ ys) p \<longleftrightarrow> declared families xs p \<or> declared families ys p"
  "declared families (sorted_set xs) p = declared families xs p"
  by (auto simp: declared_def)

lemma no_impact_simps [simp]: "im_profiles no_impact = []" "im_affected no_impact = []"
  by (simp_all add: no_impact_def)

lemma location_profiles_declared: "p \<in> set (location_profiles families locations) \<longleftrightarrow> declared families locations p"
  by (auto simp: location_profiles_def declared_def)

lemma changed_entry_declared:
  assumes "\<And>p. p \<in> set (im_profiles im) \<Longrightarrow> declared families (im_affected im) p"
    and "p \<in> set (im_profiles (changed_entry families before after im key))"
  shows "declared families (im_affected (changed_entry families before after im key)) p"
  using assms
  by (auto simp: changed_entry_def Let_def location_profiles_declared split: if_splits)

lemma impact_fold_declared:
  assumes "\<And>p. p \<in> set (im_profiles im) \<Longrightarrow> declared families (im_affected im) p"
    and "p \<in> set (im_profiles (foldl (changed_entry families before after) im keys))"
  shows "declared families (im_affected (foldl (changed_entry families before after) im keys)) p"
  using assms
proof (induction keys arbitrary: im)
  case (Cons key keys)
  show ?case using Cons.IH [OF changed_entry_declared [OF Cons.prems(1)]] Cons.prems(2) by simp
qed simp

lemma dependency_impact_declared:
  "p \<in> set (im_profiles (dependency_impact base current families)) \<Longrightarrow>
     declared families (im_affected (dependency_impact base current families)) p"
  unfolding dependency_impact_def Let_def
  using impact_fold_declared [of no_impact families] by (auto split: option.splits sum.splits)

lemma affected_by_family_set: "(f, ps) \<in> set (affected_by_family families changed_files) \<longleftrightarrow>
    f \<in> set families \<and> ps = filter (\<lambda>p. in_family p f) (filter (\<lambda>p. p \<noteq> DEPENDENCY_INVENTORY) changed_files)"
  by (auto simp: affected_by_family_def)

lemma direct_profiles_declared:
  "p \<in> set (direct_profiles families changed_files) \<Longrightarrow>
     declared families (concat (map snd (affected_by_family families changed_files))) p"
  by (auto simp: direct_profiles_def declared_def affected_by_family_set filter_empty_conv) (auto simp: affected_by_family_def)

lemma impact_of_declared:
  "p \<in> set (im_profiles (impact_of families args base current changed_files)) \<Longrightarrow>
     declared families (im_affected (impact_of families args base current changed_files)) p"
  by (auto simp: impact_of_def dest: dependency_impact_declared split: if_splits)

lemma decide_declared:
  assumes "\<not> se_full_matrix (decide families safe_prefixes args base current changed_files)"
    and "(p, True) \<in> set (se_profiles (decide families safe_prefixes args base current changed_files))" and "p \<noteq> ''tiny''"
  shows "declared families (se_affected_files (decide families safe_prefixes args base current changed_files)) p"
  using assms by (auto simp: decide_def Let_def selected_profiles_def dest: direct_profiles_declared impact_of_declared split: if_splits)

lemma decide_classified:
  assumes "path \<in> set (se_changed_files (decide families safe_prefixes args base current changed_files))"
  shows "path = DEPENDENCY_INVENTORY
    \<or> list_ex (in_family path) families \<and> path \<in> set (se_affected_files (decide families safe_prefixes args base current changed_files))
    \<or> list_ex (matches path) safe_prefixes
    \<or> path \<in> set (se_unknown_files (decide families safe_prefixes args base current changed_files))
      \<and> se_unknown_impact (decide families safe_prefixes args base current changed_files)
      \<and> (''tiny'', True) \<in> set (se_profiles (decide families safe_prefixes args base current changed_files))"
  using assms
  by (auto simp: decide_def Let_def selected_profiles_def unknown_files_of_def affected_by_family_def list_ex_iff filter_empty_conv PROFILES_def)

text \<open>The acceptance profile always comes with the heavy one.\<close>

definition paired :: "string list \<Rightarrow> bool" where
  "paired ps \<longleftrightarrow> (''application_acceptance'' \<in> set ps \<longrightarrow> ''heavy'' \<in> set ps)"

lemma paired_append: "paired xs \<Longrightarrow> paired ys \<Longrightarrow> paired (xs @ ys)"
  by (auto simp: paired_def)

lemma paired_concat: "(\<And>xs. xs \<in> set xss \<Longrightarrow> paired xs) \<Longrightarrow> paired (concat xss)"
  by (auto simp: paired_def)

lemma impact_paired:
  assumes "\<And>f. f \<in> set families \<Longrightarrow> paired (fm_profiles f)"
  shows "paired (im_profiles (dependency_impact base current families))"
proof -
  have l: "paired (location_profiles families locations)" for locations
    unfolding location_profiles_def by (intro paired_concat) (auto intro!: paired_concat assms)
  have "paired (im_profiles (foldl (changed_entry families before after) im keys))" if "paired (im_profiles im)" for before after keys im
    using that
  proof (induction keys arbitrary: im)
    case (Cons key keys)
    have "paired (im_profiles (changed_entry families before after im key))"
      using Cons.prems l by (auto simp: changed_entry_def Let_def intro: paired_append)
    with Cons.IH show ?case by simp
  qed simp
  from this [of no_impact] have "paired (im_profiles (foldl (changed_entry families before after) no_impact keys))" for before after keys
    by (simp add: paired_def)
  then show ?thesis by (auto simp: dependency_impact_def Let_def paired_def split: option.splits sum.splits)
qed

lemma selected_paired:
  assumes "\<And>f. f \<in> set families \<Longrightarrow> paired (fm_profiles f)"
  shows "paired (selected_profiles families args (impact_of families args base current changed_files) unknown changed_files)"
proof -
  have "paired (direct_profiles families changed_files)"
    unfolding direct_profiles_def by (intro paired_concat) (auto simp: affected_by_family_set intro: assms)
  moreover have "paired PROFILES" "paired []" "paired [''tiny'']" "paired (im_profiles no_impact)"
    by (simp_all add: paired_def PROFILES_def)
  moreover have "paired (im_profiles (dependency_impact base' current' families))" for base' current'
    using assms by (rule impact_paired)
  ultimately show ?thesis by (auto simp: selected_profiles_def impact_of_def intro!: paired_append)
qed

lemma decide_profiles:
  assumes "\<And>f. f \<in> set families \<Longrightarrow> paired (fm_profiles f)"
  obtains selected where "paired selected"
    "se_profiles (decide families safe_prefixes args base current changed) = map (\<lambda>p. (p, p \<in> set selected)) (sort PROFILES)"
    "se_keycloak_required (decide families safe_prefixes args base current changed)
      = list_all snd (map (\<lambda>p. (p, p \<in> set selected)) (sort PROFILES))"
    "se_runtime_evidence_required (decide families safe_prefixes args base current changed)
      = (''heavy'' \<in> set selected \<or> ''application_acceptance'' \<in> set selected)"
  using selected_paired [OF assms] by (rule that) (simp_all add: decide_def Let_def)

lemma changed_files_sorted: "changed_files_of diff args = Inr changed \<Longrightarrow> sorted_wrt (<) changed"
proof -
  have n: "normalized_paths raw = Inr ps \<Longrightarrow> sorted_wrt (<) ps" for raw ps
    by (auto simp: normalized_paths_def bindE_eq_Inr strict_sorted_iff)
  assume "changed_files_of diff args = Inr changed"
  then show ?thesis
    by (auto simp: changed_files_of_def git_changed_files_def bindE_eq_Inr dest: n split: if_splits)
qed

lemma sort_profiles [simp]: "sort PROFILES = [''application_acceptance'', ''heavy'', ''tiny'']"
  by (simp add: PROFILES_def)

section \<open>A concrete change\<close>

lemma sorted_set_eval: "sorted_set xs = sort (remdups xs)"
  by (simp add: sorted_set_def sorted_list_of_set_sort_remdups)

lemmas [run_simps] = path_parts_def absolute_def normalized_path_def sorted_set_eval normalized_paths_def ZERO_SHA_def
  git_changed_files_def PROFILES_def all_text_def texts_def hashable_def safe_prefix_def family_policy_def registry_def
  DEPENDENCY_INVENTORY_def sections_def inventory_item_def inventory_section_def collection_item_def inventory_entries_def
  matches_def in_family_def same_entry_def locations_of_def location_profiles_def changed_entry_def no_impact_def
  dependency_impact_def complete_event_def indeterminate_push_def changed_files_of_def reason_of_def base_inventory_def
  affected_by_family_def direct_profiles_def impact_of_def unknown_files_of_def selected_profiles_def decide_def
  select_profiles_def

definition sample_registry :: py where
  "sample_registry = PDict
     [(''schema_version'', PInt 2), (''safe_fast_lane_path_prefixes'', PList [PStr ''docs/'']),
      (''families'', PDict [(''k'', PDict
         [(''profiles'', PList [PStr ''tiny'', PStr ''heavy'', PStr ''application_acceptance'']),
          (''path_prefixes'', PList [PStr ''r/k/''])])])]"

definition sample_arguments :: arguments where
  "sample_arguments = \<lparr>ar_event_name = ''pull_request'', ar_base_sha = [], ar_head_sha = [], ar_base_ref = ''develop'',
     ar_head_ref = ''x'', ar_changed_file = [''r/k/a'', ''b'']\<rparr>"

lemma sample_registry_ok:
  "registry sample_registry = Inr ([\<lparr>fm_name = ''k'', fm_profiles = [''tiny'', ''heavy'', ''application_acceptance''],
     fm_prefixes = [''r/k/'']\<rparr>], [''docs/''])"
  by (simp add: sample_registry_def run_simps cong: bindE_weak_cong)

lemma sample_changed: "changed_files_of diff sample_arguments = Inr [''b'', ''r/k/a'']"
  by (simp add: sample_arguments_def run_simps cong: bindE_weak_cong)

definition sample_selection :: selection where
  "sample_selection = decide [\<lparr>fm_name = ''k'', fm_profiles = [''tiny'', ''heavy'', ''application_acceptance''],
     fm_prefixes = [''r/k/'']\<rparr>] [''docs/''] sample_arguments None None [''b'', ''r/k/a'']"

lemma sample_selected: "select_profiles sample_registry diff sample_arguments None None = Inr sample_selection"
  by (simp add: select_profiles_def sample_registry_ok sample_changed sample_selection_def)

lemma sample_facts:
  "\<not> se_full_matrix sample_selection" "(''heavy'', True) \<in> set (se_profiles sample_selection)"
  "se_changed_files sample_selection = [''b'', ''r/k/a'']" "se_affected_files sample_selection = [''r/k/a'']"
  by (simp_all add: sample_selection_def sample_arguments_def run_simps Let_def)

section \<open>Properties\<close>



text \<open>
  No change is overlooked: every changed file is the dependency inventory, or matched
  by a declared family and reported as affected, or under a declared safe prefix; any other file is
  reported as unknown, makes the impact unknown and selects at least the unprivileged profile.
\<close>

lemma changed_files_classified:
  assumes "select_profiles payload diff args base current = Inr s" and "path \<in> set (se_changed_files s)"
  shows "\<exists>families safe_prefixes. registry payload = Inr (families, safe_prefixes) \<and>
    (path = DEPENDENCY_INVENTORY
     \<or> list_ex (in_family path) families \<and> path \<in> set (se_affected_files s)
     \<or> list_ex (matches path) safe_prefixes
     \<or> path \<in> set (se_unknown_files s) \<and> se_unknown_impact s \<and> (''tiny'', True) \<in> set (se_profiles s))"
  using assms decide_classified by (fastforce simp: select_profiles_def bindE_eq_Inr)

text \<open>
  C40: A selection is well formed: it decides exactly the three profiles, in alphabetical
  order; the acceptance profile is never selected without the heavy one, so that the compatibility output
  asks for every profile exactly when tiny and acceptance are selected; runtime evidence is
  required exactly with the heavy profile; and the lists of files are sorted without repetitions.
\<close>

theorem selection_well_formed:
  assumes "select_profiles payload diff args base current = Inr s"
  shows "map fst (se_profiles s) = [''application_acceptance'', ''heavy'', ''tiny''] \<and>
    se_keycloak_required s = ((''tiny'', True) \<in> set (se_profiles s) \<and> (''application_acceptance'', True) \<in> set (se_profiles s)) \<and>
    se_runtime_evidence_required s = ((''heavy'', True) \<in> set (se_profiles s)) \<and>
    sorted_wrt (<) (se_changed_files s) \<and> sorted_wrt (<) (se_affected_files s) \<and> sorted_wrt (<) (se_unknown_files s)"
proof -
  from assms obtain families safe_prefixes changed where r: "registry payload = Inr (families, safe_prefixes)"
    and c: "changed_files_of diff args = Inr changed" and s: "s = decide families safe_prefixes args base current changed"
    by (auto simp: select_profiles_def bindE_eq_Inr)
  have "paired (fm_profiles f)" if "f \<in> set families" for f
    using registry_families [OF r that] by (simp add: paired_def)
  then obtain selected where "paired selected" "se_profiles s = map (\<lambda>p. (p, p \<in> set selected)) (sort PROFILES)"
    "se_keycloak_required s = list_all snd (map (\<lambda>p. (p, p \<in> set selected)) (sort PROFILES))"
    "se_runtime_evidence_required s = (''heavy'' \<in> set selected \<or> ''application_acceptance'' \<in> set selected)"
    unfolding s by (rule decide_profiles)
  moreover have "sorted_wrt (<) (se_changed_files s)" "sorted_wrt (<) (se_affected_files s)" "sorted_wrt (<) (se_unknown_files s)"
    using changed_files_sorted [OF c] by (simp_all add: s decide_def Let_def unknown_files_of_def sorted_wrt_filter strict_sorted_iff sorted_filter [where f = id, simplified])
  ultimately show ?thesis by (auto simp: paired_def)
qed

theorem selection_well_formed_witness:
  "map fst (se_profiles sample_selection) = [''application_acceptance'', ''heavy'', ''tiny''] \<and> se_runtime_evidence_required sample_selection"
  using selection_well_formed [OF sample_selected [of "\<lambda>_ _. Inr []"]] sample_facts(2) by blast

end
