(* ===== verification/Release_Constants.thy ===== *)
theory Release_Constants
  imports Py_Value
begin

text \<open>
  The fixed identities of the Security release chain (\<open>scripts/security_release_contract.py\<close>):
  the producer and the release App, the one-time recovery of release 3.2.4 with its commits,
  paths and digests, the schema versions, size limits and key sets of its documents. Sets
  are lists.
\<close>

section \<open>The producer and the release App\<close>

definition PRODUCER_REPOSITORY :: "string" where
  "PRODUCER_REPOSITORY = ''lightning-it/ansible-collection-supplementary''"

definition PRODUCER_REPOSITORY_ID :: "string" where
  "PRODUCER_REPOSITORY_ID = ''1103407173''"

definition CONSUMER_REPOSITORY :: "string" where
  "CONSUMER_REPOSITORY = ''lightning-it/container-ee-wunder-ansible-ubi9''"

definition RELEASE_APP_SLUG :: "string" where
  "RELEASE_APP_SLUG = ''lightning-it-release-automation''"

definition RELEASE_APP_INSTALLATION_ID :: "string" where
  "RELEASE_APP_INSTALLATION_ID = ''148019054''"

definition RELEASE_APP_LOGIN :: "string" where
  "RELEASE_APP_LOGIN = RELEASE_APP_SLUG @ ''[bot]''"

definition RELEASE_APP_ACCOUNT_ID :: "string" where
  "RELEASE_APP_ACCOUNT_ID = ''307565056''"

definition RELEASE_APP_EMAIL :: "string" where
  "RELEASE_APP_EMAIL = RELEASE_APP_ACCOUNT_ID @ ''+'' @ RELEASE_APP_LOGIN @ ''@users.noreply.github.com''"

definition RELEASE_APP_SELECTED_REPOSITORIES :: "string list" where
  "RELEASE_APP_SELECTED_REPOSITORIES =
     [''lightning-it/ansible-collection-supplementary'', ''lightning-it/container-ee-wunder-ansible-ubi9'',
      ''lightning-it/github-management-lit'', ''lightning-it/modulix-validation'', ''lightning-it/shared-assets-lit'']"

definition RELEASE_APP_PERMISSIONS :: "(string \<times> py) list" where
  "RELEASE_APP_PERMISSIONS =
     [(''actions'', PStr ''write''), (''checks'', PStr ''read''), (''contents'', PStr ''write''),
      (''metadata'', PStr ''read''), (''pull_requests'', PStr ''write'')]"

definition RELEASE_APP_IDENTITY :: py where
  "RELEASE_APP_IDENTITY = PDict
     [(''slug'', PStr RELEASE_APP_SLUG), (''installationId'', PStr RELEASE_APP_INSTALLATION_ID),
      (''login'', PStr RELEASE_APP_LOGIN), (''accountId'', PStr RELEASE_APP_ACCOUNT_ID), (''type'', PStr ''Bot''),
      (''selectedRepositories'', PList (map PStr RELEASE_APP_SELECTED_REPOSITORIES)),
      (''permissions'', PDict RELEASE_APP_PERMISSIONS)]"

section \<open>The recovery\<close>

definition RECOVERY_EVENT :: "string" where
  "RECOVERY_EVENT = ''mlx90-security-release-recovery''"

definition RECOVERY_APPROVED_MAIN_SHA :: "string" where
  "RECOVERY_APPROVED_MAIN_SHA = ''990be99032ac3e6f407adbe6a8d3acccf8f6804b''"

definition RECOVERY_FIRST_PROMOTION_SHA :: "string" where
  "RECOVERY_FIRST_PROMOTION_SHA = ''0700bfeca41737305a5e3c384fb52590f129e3af''"

definition RECOVERY_FOLLOW_UP_BASE_SHA :: "string" where
  "RECOVERY_FOLLOW_UP_BASE_SHA = ''5715bc30ac3c1654115f9391e91e971a96625af9''"

definition RECOVERY_FOLLOW_UP_BASE_DIFF_SHA256 :: "string" where
  "RECOVERY_FOLLOW_UP_BASE_DIFF_SHA256 = ''sha256:4ad4e91c0839c5ca8d1f4185c0604f7d74e3bffb1290fdcb8225642997973b47''"

definition RECOVERY_FOLLOW_UP_BASE_PATHS :: "string list" where
  "RECOVERY_FOLLOW_UP_BASE_PATHS =
     [''.github/workflows/openssf-scorecard.yml'', ''manifests/identity-stack.pod.yaml'',
      ''meta/source-dependencies.yml'', ''roles/forgejo_deploy/defaults/main.yml'',
      ''roles/guacamole_deploy/defaults/main.yml'', ''roles/keycloak_deploy/defaults/main.yml'',
      ''roles/netbox_deploy/defaults/main.yml'', ''roles/nexus/defaults/main.yml'',
      ''roles/postgres_deploy/defaults/main.yml'', ''roles/samba_deploy/defaults/main.yml'',
      ''roles/semaphore_deploy/defaults/main.yml'', ''tests/unit/test_release_back_sync_contract.py'']"

definition RECOVERY_CANDIDATE_BASE_SHA :: "string" where
  "RECOVERY_CANDIDATE_BASE_SHA = ''cde8e5544d8d787448ff456d51e08deb71c03880''"

definition RECOVERY_CANDIDATE_HEAD_SHA :: "string" where
  "RECOVERY_CANDIDATE_HEAD_SHA = ''3e1423dc19465d1233196905ef3f48fd6c04f2f1''"

definition RECOVERY_CANDIDATE_DIFF_SHA256 :: "string" where
  "RECOVERY_CANDIDATE_DIFF_SHA256 = ''sha256:bd72aa7a6a382ff1537e3223e65552af5ffa24588c09a5596f8e9130ba6a6f23''"

definition RECOVERY_METADATA_SHA256 :: "string" where
  "RECOVERY_METADATA_SHA256 = ''sha256:66d523781eaa82c496d6c8774f5af1e95bb2991f9d604fc1e29db837bb0dd38f''"

definition RECOVERY_EVIDENCE_ID :: "string" where
  "RECOVERY_EVIDENCE_ID = ''MLX90-KEYCLOAK-26.7.1-3.2.4''"

definition RECOVERY_FIXED_VERSION :: "string" where
  "RECOVERY_FIXED_VERSION = ''3.2.4''"

definition RECOVERY_ACCEPTANCE_PROFILE :: "string" where
  "RECOVERY_ACCEPTANCE_PROFILE = ''lit.supplementary/keycloak-26.7.1-security-v1''"

definition RECOVERY_ISSUED_AT :: "string" where
  "RECOVERY_ISSUED_AT = ''2026-08-08T22:48:24Z''"

definition RECOVERY_EXPIRES_AT :: "string" where
  "RECOVERY_EXPIRES_AT = ''2026-09-07T22:48:24Z''"

definition RECOVERY_FRAGMENT_PATH :: "string" where
  "RECOVERY_FRAGMENT_PATH = ''changelogs/fragments/keycloak-26.7.1-security.yml''"

definition RECOVERY_FRAGMENT_SHA256 :: "string" where
  "RECOVERY_FRAGMENT_SHA256 = ''sha256:bfc051c66d0a8c016fd32bbe3a9f8b2882896a78e9dc121eb8837f3725a318f8''"

definition RECOVERY_CONTROL_PATHS :: "string list" where
  "RECOVERY_CONTROL_PATHS =
     [''.github/workflows/security-release-dispatch.yml'', ''.github/workflows/security-release-intake.yml'',
      ''changelogs/fragments/security-intake-3.2.4-recovery.yml'', ''scripts/security-release-dispatch.py'',
      ''scripts/security-release-intake.py'', ''scripts/security_release_contract.py'',
      ''scripts/lit-push-ready.py'', ''tests/unit/test_push_ready_engine.py'',
      ''tests/unit/test_security_release_contract.py'',
      ''tests/unit/test_security_release_request_dispatch.py'']"

definition RECOVERY_FOLLOW_UP_CONTROL_PATHS :: "string list" where
  "RECOVERY_FOLLOW_UP_CONTROL_PATHS =
     [''.github/workflows/security-release-dispatch.yml'',
      ''changelogs/fragments/security-intake-3.2.4-recovery.yml'', ''scripts/security-release-intake.py'',
      ''scripts/security_release_contract.py'', ''tests/unit/test_security_release_request_dispatch.py'']"

definition RECOVERY_FOLLOW_UP_CONTROL_DIFF_SHA256 :: "string" where
  "RECOVERY_FOLLOW_UP_CONTROL_DIFF_SHA256 =
     ''sha256:7fa3814440e5831b144e59ffae195df25689e1d127403f83016e4598d1607842''"

definition RECOVERY_TERMINAL_MAIN_BASE_SHA :: "string" where
  "RECOVERY_TERMINAL_MAIN_BASE_SHA = ''2ccd90a5fbf708498f8dbf6f51bb5ce4b165c8c4''"

definition RECOVERY_TERMINAL_DEVELOP_BASE_SHA :: "string" where
  "RECOVERY_TERMINAL_DEVELOP_BASE_SHA = ''87f486c7379a0982ce4e228dea4d0977b2bc14d4''"

definition RECOVERY_TERMINAL_CONTROL_PATHS :: "string list" where
  "RECOVERY_TERMINAL_CONTROL_PATHS =
     [''changelogs/fragments/security-recovery-terminal-promotion.yml'',
      ''scripts/security-release-intake.py'', ''scripts/security_release_contract.py'',
      ''tests/unit/test_security_release_request_dispatch.py'']"

definition RECOVERY_TERMINAL_CONTROL_DIFF_SHA256 :: "string" where
  "RECOVERY_TERMINAL_CONTROL_DIFF_SHA256 =
     ''sha256:6e6c2d81c1a0139c79457172bdc659fdab4b3724e7c1afea1f2576154466cf1f''"

definition RECOVERY_RECEIPT_REFRESH_MAIN_BASE_SHA :: "string" where
  "RECOVERY_RECEIPT_REFRESH_MAIN_BASE_SHA = ''b321c83d39b995cc4adfacc0f3d9544a52824939''"

definition RECOVERY_RECEIPT_REFRESH_DEVELOP_BASE_SHA :: "string" where
  "RECOVERY_RECEIPT_REFRESH_DEVELOP_BASE_SHA = ''74ff30d250efd82765cea95ef6276d6da29ff4e3''"

definition RECOVERY_RECEIPT_REFRESH_CONTROL_PATHS :: "string list" where
  "RECOVERY_RECEIPT_REFRESH_CONTROL_PATHS =
     [''.github/workflows/security-release-intake.yml'',
      ''changelogs/fragments/security-recovery-pr-base-snapshot.yml'', ''scripts/security-release-intake.py'',
      ''scripts/security_release_contract.py'', ''tests/unit/test_security_release_request_dispatch.py'']"

definition RECOVERY_RECEIPT_REFRESH_CONTROL_DIFF_SHA256 :: "string" where
  "RECOVERY_RECEIPT_REFRESH_CONTROL_DIFF_SHA256 =
     ''sha256:df4c3ca710799b775f8968415a73ddc2c321261f0a87c49722d65881e055ed16''"

definition RECOVERY_RELEASE_PREP_MAIN_BASE_SHA :: "string" where
  "RECOVERY_RELEASE_PREP_MAIN_BASE_SHA = ''23f3cadc1f85f72c486e04082a98f3bed347f0dd''"

definition RECOVERY_RELEASE_PREP_DEVELOP_BASE_SHA :: "string" where
  "RECOVERY_RELEASE_PREP_DEVELOP_BASE_SHA = ''c4ee9cc83612f8a5754b9227a5802bc537db2a0e''"

definition RECOVERY_RELEASE_PREP_RECEIPT_SHA256 :: "string" where
  "RECOVERY_RELEASE_PREP_RECEIPT_SHA256 = ''sha256:5de9c808e85260dae97f1f7baff08d1199e0e6c2a2e1192c31f2fe9bf229e232''"

definition RECOVERY_RELEASE_PREP_CONTROL_PATHS :: "string list" where
  "RECOVERY_RELEASE_PREP_CONTROL_PATHS =
     [''.github/workflows/collection-publish.yml'', ''.github/workflows/release-prepare.yml'',
      ''.github/workflows/security-release-dispatch.yml'',
      ''changelogs/fragments/security-hotfix-fragment-selection.yml'', ''scripts/release-version.py'',
      ''scripts/security-release-intake.py'', ''scripts/security_release_contract.py'',
      ''tests/unit/test_release_version.py'', ''tests/unit/test_security_release_request_dispatch.py'',
      ''tests/unit/test_workflow_security.py'']"

definition RECOVERY_RELEASE_PREP_CONTROL_DIFF_SHA256 :: "string" where
  "RECOVERY_RELEASE_PREP_CONTROL_DIFF_SHA256 =
     ''sha256:1b396f7d2341b267bd6373630221f179a997343038320db233096c8ccae20373''"

definition RECOVERY_POST_CHANGELOG_MAIN_BASE_SHA :: "string" where
  "RECOVERY_POST_CHANGELOG_MAIN_BASE_SHA = ''c63eee7f1105553a7f5e877aea646a2f1ee416df''"

definition RECOVERY_POST_CHANGELOG_DEVELOP_BASE_SHA :: "string" where
  "RECOVERY_POST_CHANGELOG_DEVELOP_BASE_SHA = ''efbb1b9698fdc69fe9c67aaf84d013629c2d2ccb''"

definition RECOVERY_POST_CHANGELOG_CONTROL_PATHS :: "string list" where
  "RECOVERY_POST_CHANGELOG_CONTROL_PATHS =
     [''changelogs/fragments/security-recovery-post-changelog-promotion.yml'',
      ''scripts/security-release-intake.py'', ''scripts/security_release_contract.py'',
      ''tests/unit/test_security_release_request_dispatch.py'']"

definition RECOVERY_POST_CHANGELOG_CONTROL_DIFF_SHA256 :: "string" where
  "RECOVERY_POST_CHANGELOG_CONTROL_DIFF_SHA256 =
     ''sha256:d5b20e93aaad60b8e6048d507fa17fb2ce8b004885dd8fdb9352d18e4965a134''"

definition RECOVERY_POST_EVIDENCE_FIX_MAIN_BASE_SHA :: "string" where
  "RECOVERY_POST_EVIDENCE_FIX_MAIN_BASE_SHA = ''27f0e15f3191348564d4421daacd8f7c19888e8f''"

definition RECOVERY_POST_EVIDENCE_FIX_DEVELOP_BASE_SHA :: "string" where
  "RECOVERY_POST_EVIDENCE_FIX_DEVELOP_BASE_SHA = ''26243645a4c926814b3470372b9f76648ea1af50''"

definition RECOVERY_POST_EVIDENCE_FIX_BASE_PATHS :: "string list" where
  "RECOVERY_POST_EVIDENCE_FIX_BASE_PATHS =
     [''meta/source-dependencies.yml'', ''roles/alertmanager_deploy/defaults/main.yml'']"

definition RECOVERY_POST_EVIDENCE_FIX_BASE_DIFF_SHA256 :: "string" where
  "RECOVERY_POST_EVIDENCE_FIX_BASE_DIFF_SHA256 =
     ''sha256:2d19b9ff730a29ac8e53f9c9cceff26eedb094e2e415721f612e113c8f3f65c1''"

definition RECOVERY_POST_EVIDENCE_FIX_CONTROL_PATHS :: "string list" where
  "RECOVERY_POST_EVIDENCE_FIX_CONTROL_PATHS =
     [''changelogs/fragments/security-recovery-post-evidence-fix.yml'',
      ''scripts/security-release-intake.py'', ''scripts/security_release_contract.py'',
      ''tests/unit/test_security_release_request_dispatch.py'']"

definition RECOVERY_POST_EVIDENCE_FIX_CONTROL_DIFF_SHA256 :: "string" where
  "RECOVERY_POST_EVIDENCE_FIX_CONTROL_DIFF_SHA256 =
     ''sha256:45a8aed8d20318069159148c8abbb5a0520e2815b657c70d880e0acda818cc08''"

section \<open>Schemas and limits\<close>

definition INTAKE_REQUEST_SCHEMA_VERSION :: "int" where
  "INTAKE_REQUEST_SCHEMA_VERSION = 2"

definition INTAKE_RECEIPT_SCHEMA_VERSION :: "int" where
  "INTAKE_RECEIPT_SCHEMA_VERSION = 2"

definition INTAKE_RESULT_SCHEMA_VERSION :: "int" where
  "INTAKE_RESULT_SCHEMA_VERSION = 2"

definition MAX_JSON_BYTES :: "nat" where
  "MAX_JSON_BYTES = 1048576"

definition MAX_SECURITY_FRAGMENT_BYTES :: "nat" where
  "MAX_SECURITY_FRAGMENT_BYTES = 1048576"

definition PROFILE_KEYS :: "string list" where
  "PROFILE_KEYS = [''description'', ''releaseEligible'']"

definition REQUEST_KEYS :: "string list" where
  "REQUEST_KEYS =
     [''schemaVersion'', ''event'', ''repository'', ''repositoryId'', ''baseSha'', ''candidateRef'',
      ''candidateBaseSha'', ''candidateHeadSha'', ''candidateDiffSha256'', ''evidenceId'', ''fixedVersion'',
      ''acceptanceProfile'', ''metadataSha256'', ''chainId'', ''issuedAt'', ''expiresAt'', ''humanActions'']"

definition METADATA_KEYS :: "string list" where
  "METADATA_KEYS =
     [''schemaVersion'', ''evidenceId'', ''createdAt'', ''securityIdentifiers'', ''affectedVersion'',
      ''fixedVersion'', ''consumers'', ''acceptanceProfile'', ''validity'']"

definition VALIDITY_KEYS :: "string list" where
  "VALIDITY_KEYS = [''notBefore'', ''expiresAt'', ''revoked'']"

definition VERIFIED_KEYS :: "string list" where
  "VERIFIED_KEYS =
     [''schemaVersion'', ''chainId'', ''branch'', ''baseSha'', ''candidateBaseSha'', ''candidateHeadSha'',
      ''candidateDiffSha256'', ''evidenceId'', ''fixedVersion'', ''metadataPath'', ''metadataSha256'',
      ''acceptanceProfile'', ''changelogFragmentPath'', ''changelogFragmentSha256'', ''changedPaths'',
      ''humanActions'']"

definition INTAKE_RECEIPT_KEYS :: "string list" where
  "INTAKE_RECEIPT_KEYS = [''schemaVersion'', ''chainId'', ''request'', ''verified'', ''automation'', ''controller'']"

definition CONTROLLER_KEYS :: "string list" where
  "CONTROLLER_KEYS =
     [''path'', ''ref'', ''sourceSha'', ''runId'', ''runAttempt'', ''event'', ''gitRef'', ''actor'',
      ''triggeringActor'']"

definition CHAIN_BINDING_KEYS :: "string list" where
  "CHAIN_BINDING_KEYS =
     [''repository'', ''repositoryId'', ''baseSha'', ''candidateHeadSha'', ''candidateDiffSha256'',
      ''evidenceId'', ''fixedVersion'', ''acceptanceProfile'']"

end
