(* ===== verification/Json_Text.thy ===== *)
theory Json_Text
  imports Py_Text
begin

text \<open>
  JSON text: the decoder of \<open>json.loads\<close> and the two renderings the scripts use,
  \<open>json.dumps(v, sort_keys=True, separators=(",", ":"))\<close> with \<open>ensure_ascii\<close> on
  (\<^const>\<open>canonical\<close>) and off (\<open>canonical_utf8\<close>). The decoder has one function per
  nonterminal of the grammar. A \<open>decoder\<close> holds what a caller can set: \<open>object_pairs_hook\<close>,
  \<open>parse_constant\<close> and the reading of a float.

  The functions of the grammar take fuel, more than twice the bytes of the text, which is
  enough (\<open>json_fuel\<close>). A value nested deeper than the interpreter's recursion limit, where
  Python raises \<open>RecursionError\<close>, is not modelled.
\<close>

section \<open>Strings\<close>

text \<open>The bytes that represent a code point; a surrogate has three.\<close>

definition utf8_of :: "nat \<Rightarrow> string" where
  "utf8_of n =
     (if n < 128 then [char_of n]
      else if n < 2048 then [char_of (192 + n div 64), char_of (128 + n mod 64)]
      else if n < 65536 then [char_of (224 + n div 4096), char_of (128 + n div 64 mod 64), char_of (128 + n mod 64)]
      else [char_of (240 + n div 262144), char_of (128 + n div 4096 mod 64), char_of (128 + n div 64 mod 64),
            char_of (128 + n mod 64)])"

definition hex_value :: "char \<Rightarrow> nat option" where
  "hex_value c =
     (let n = byte c in
      if 48 \<le> n \<and> n \<le> 57 then Some (n - 48) else if 97 \<le> n \<and> n \<le> 102 then Some (n - 87)
      else if 65 \<le> n \<and> n \<le> 70 then Some (n - 55) else None)"

text \<open>Four hexadecimal digits at the start of a text.\<close>

definition hex4 :: "string \<Rightarrow> nat option" where
  "hex4 s = (case s of
     a # b # c # d # _ \<Rightarrow>
       (case (hex_value a, hex_value b, hex_value c, hex_value d) of
          (Some w, Some x, Some y, Some z) \<Rightarrow> Some (((w * 16 + x) * 16 + y) * 16 + z)
        | _ \<Rightarrow> None)
   | _ \<Rightarrow> None)"

text \<open>The low half of a surrogate pair, as the escape that follows its high half.\<close>

definition low_escape :: "string \<Rightarrow> nat option" where
  "low_escape s =
     (if prefix [CHR 0x5C, CHR ''u''] s then
        (case hex4 (drop 2 s) of
           Some m \<Rightarrow> if 56320 \<le> m \<and> m \<le> 57343 then Some m else None
         | None \<Rightarrow> None)
      else None)"

definition simple_escape :: "char \<Rightarrow> char option" where
  "simple_escape c =
     (if c \<in> {CHR 0x22, CHR 0x5C, CHR 0x2F} then Some c
      else if c = CHR ''b'' then Some (CHR 0x08) else if c = CHR ''f'' then Some (CHR 0x0C)
      else if c = CHR ''n'' then Some (CHR 0x0A) else if c = CHR ''r'' then Some (CHR 0x0D)
      else if c = CHR ''t'' then Some (CHR 0x09) else None)"

text \<open>The rest of a string after its opening quote, and what follows the closing one.\<close>

definition push_front :: "string \<Rightarrow> (string \<times> string) option \<Rightarrow> (string \<times> string) option" where
  "push_front a r = map_option (\<lambda>(t, rest). (a @ t, rest)) r"

function scan_string :: "string \<Rightarrow> (string \<times> string) option" where
  "scan_string [] = None"
| "scan_string (c # r) =
     (if c = CHR 0x22 then Some ([], r)
      else if c = CHR 0x5C then
        (case r of [] \<Rightarrow> None | e # r1 \<Rightarrow>
           if e = CHR ''u'' then
             (case hex4 r1 of None \<Rightarrow> None | Some n \<Rightarrow>
                if 55296 \<le> n \<and> n \<le> 56319 \<and> low_escape (drop 4 r1) \<noteq> None
                then push_front (utf8_of (65536 + (n - 55296) * 1024 + (the (low_escape (drop 4 r1)) - 56320)))
                       (scan_string (drop 10 r1))
                else push_front (utf8_of n) (scan_string (drop 4 r1)))
           else (case simple_escape e of None \<Rightarrow> None | Some d \<Rightarrow> push_front [d] (scan_string r1)))
      else if byte c < (32 :: nat) then None
      else push_front [c] (scan_string r))"
  by pat_completeness auto
termination by (relation "measure length") auto

declare scan_string.simps(2) [simp del]

section \<open>Numbers\<close>

definition starts :: "char \<Rightarrow> string \<Rightarrow> bool" where
  "starts c s \<longleftrightarrow> s \<noteq> [] \<and> hd s = c"

definition starts_digit :: "string \<Rightarrow> bool" where
  "starts_digit s \<longleftrightarrow> s \<noteq> [] \<and> is_digit (hd s)"

text \<open>How many bytes the integer, the fraction and the exponent of a number take.\<close>

definition int_width :: "string \<Rightarrow> nat" where
  "int_width s =
     (let k = (if starts (CHR ''-'') s then 1 else 0); t = drop k s in
      if starts (CHR ''0'') t then k + 1
      else if starts_digit t then k + length (takeWhile is_digit t) else 0)"

definition frac_width :: "string \<Rightarrow> nat" where
  "frac_width s = (if starts (CHR ''.'') s \<and> starts_digit (tl s) then 1 + length (takeWhile is_digit (tl s)) else 0)"

definition exp_width :: "string \<Rightarrow> nat" where
  "exp_width s =
     (if starts (CHR ''e'') s \<or> starts (CHR ''E'') s then
        (let k = (if starts (CHR ''+'') (tl s) \<or> starts (CHR ''-'') (tl s) then 2 else 1) in
         if starts_digit (drop k s) then k + length (takeWhile is_digit (drop k s)) else 0)
      else 0)"

record decoder =
  dec_pairs :: "(string \<times> py) list \<Rightarrow> exn + py"
  dec_constant :: "string \<Rightarrow> exn + py"
  dec_float :: "string \<Rightarrow> exn + py"

definition int_literal :: "string \<Rightarrow> exn + py" where
  "int_literal s =
     (if starts (CHR ''-'') s then bindE (int_digits (tl s)) (\<lambda>n. Inr (PInt (- int n)))
      else bindE (int_digits s) (\<lambda>n. Inr (PInt (int n))))"

definition json_number :: "decoder \<Rightarrow> string \<Rightarrow> exn + py \<times> string" where
  "json_number cfg s =
     (let i = int_width s;
          f = frac_width (drop i s);
          e = exp_width (drop (i + f) s);
          text = take (i + f + e) s
      in if i = 0 then Inl JSONDecodeError
         else bindE (if f + e = 0 then int_literal text else dec_float cfg text) (\<lambda>v. Inr (v, drop (i + f + e) s)))"

section \<open>Values\<close>

definition is_json_space :: "char \<Rightarrow> bool" where
  "is_json_space c \<longleftrightarrow> c \<in> {CHR '' '', CHR 0x09, CHR 0x0A, CHR 0x0D}"

definition skip_ws :: "string \<Rightarrow> string" where
  "skip_ws s = dropWhile is_json_space s"

definition json_literals :: "(string \<times> (decoder \<Rightarrow> exn + py)) list" where
  "json_literals =
     [(''null'', \<lambda>_. Inr PNone), (''true'', \<lambda>_. Inr (PBool True)), (''false'', \<lambda>_. Inr (PBool False)),
      (''NaN'', \<lambda>cfg. dec_constant cfg ''NaN''), (''Infinity'', \<lambda>cfg. dec_constant cfg ''Infinity''),
      (''-Infinity'', \<lambda>cfg. dec_constant cfg ''-Infinity'')]"

definition json_scalar :: "decoder \<Rightarrow> string \<Rightarrow> exn + py \<times> string" where
  "json_scalar cfg s =
     (case find (\<lambda>(w, _). prefix w s) json_literals of
        Some (w, v) \<Rightarrow> bindE (v cfg) (\<lambda>x. Inr (x, drop (length w) s))
      | None \<Rightarrow> json_number cfg s)"

fun json_value :: "decoder \<Rightarrow> nat \<Rightarrow> string \<Rightarrow> exn + py \<times> string"
  and json_elements :: "decoder \<Rightarrow> nat \<Rightarrow> string \<Rightarrow> exn + py list \<times> string"
  and json_members :: "decoder \<Rightarrow> nat \<Rightarrow> string \<Rightarrow> exn + (string \<times> py) list \<times> string" where
  "json_value cfg 0 s = Inl JSONDecodeError"
| "json_value cfg (Suc n) s =
     (if starts (CHR 0x22) s then
        (case scan_string (tl s) of None \<Rightarrow> Inl JSONDecodeError | Some (t, r) \<Rightarrow> Inr (PStr t, r))
      else if starts (CHR 0x7B) s then
        bindE (if starts (CHR 0x7D) (skip_ws (tl s)) then Inr ([], tl (skip_ws (tl s)))
               else json_members cfg n (skip_ws (tl s))) (\<lambda>(kvs, r).
        bindE (dec_pairs cfg kvs) (\<lambda>v. Inr (v, r)))
      else if starts (CHR 0x5B) s then
        bindE (if starts (CHR 0x5D) (skip_ws (tl s)) then Inr ([], tl (skip_ws (tl s)))
               else json_elements cfg n (skip_ws (tl s))) (\<lambda>(xs, r). Inr (PList xs, r))
      else json_scalar cfg s)"
| "json_elements cfg 0 s = Inl JSONDecodeError"
| "json_elements cfg (Suc n) s =
     bindE (json_value cfg n s) (\<lambda>(v, r).
     if starts (CHR 0x5D) (skip_ws r) then Inr ([v], tl (skip_ws r))
     else if starts (CHR '','') (skip_ws r) then
       bindE (json_elements cfg n (skip_ws (tl (skip_ws r)))) (\<lambda>(vs, r'). Inr (v # vs, r'))
     else Inl JSONDecodeError)"
| "json_members cfg 0 s = Inl JSONDecodeError"
| "json_members cfg (Suc n) s =
     (if \<not> starts (CHR 0x22) s then Inl JSONDecodeError
      else (case scan_string (tl s) of None \<Rightarrow> Inl JSONDecodeError | Some (k, r) \<Rightarrow>
        if \<not> starts (CHR '':'') (skip_ws r) then Inl JSONDecodeError
        else bindE (json_value cfg n (skip_ws (tl (skip_ws r)))) (\<lambda>(v, r').
          if starts (CHR 0x7D) (skip_ws r') then Inr ([(k, v)], tl (skip_ws r'))
          else if starts (CHR '','') (skip_ws r') then
            bindE (json_members cfg n (skip_ws (tl (skip_ws r')))) (\<lambda>(kvs, r''). Inr ((k, v) # kvs, r''))
          else Inl JSONDecodeError)))"

text \<open>\<open>json.loads(s)\<close>\<close>

definition json_loads :: "decoder \<Rightarrow> string \<Rightarrow> exn + py" where
  "json_loads cfg s =
     bindE (json_value cfg (Suc (2 * length s)) (skip_ws s)) (\<lambda>(v, r).
     if skip_ws r = [] then Inr v else Inl JSONDecodeError)"

lemmas [run_simps] = utf8_of_def hex_value_def hex4_def low_escape_def simple_escape_def push_front_def scan_string.simps(2)
  starts_def starts_digit_def int_width_def frac_width_def exp_width_def int_literal_def json_number_def is_json_space_def
  skip_ws_def json_literals_def json_scalar_def json_loads_def

section \<open>Rendering with \<open>ensure_ascii=False\<close>\<close>

definition escape_byte :: "char \<Rightarrow> string" where
  "escape_byte c =
     (if c \<in> {CHR 0x22, CHR 0x5C} then [CHR 0x5C, c]
      else if c = CHR 0x0A then [CHR 0x5C, CHR ''n''] else if c = CHR 0x0D then [CHR 0x5C, CHR ''r'']
      else if c = CHR 0x09 then [CHR 0x5C, CHR ''t''] else if c = CHR 0x08 then [CHR 0x5C, CHR ''b'']
      else if c = CHR 0x0C then [CHR 0x5C, CHR ''f'']
      else if byte c < (32 :: nat) then u_escape (byte c) else [c])"

definition utf8_string :: "string \<Rightarrow> string" where
  "utf8_string s = CHR 0x22 # concat (map escape_byte s) @ [CHR 0x22]"

fun render :: "(string \<Rightarrow> string) \<Rightarrow> py \<Rightarrow> string" and render_list :: "(string \<Rightarrow> string) \<Rightarrow> py list \<Rightarrow> string list"
  and render_items :: "(string \<Rightarrow> string) \<Rightarrow> (string \<times> py) list \<Rightarrow> (string \<times> string) list" where
  "render quote PNone = ''null''"
| "render quote (PBool b) = (if b then ''true'' else ''false'')"
| "render quote (PInt i) = dec_int i"
| "render quote (PFloat r s) = s"
| "render quote (PStr s) = quote s"
| "render quote (PList xs) = ''['' @ join_with '','' (render_list quote xs) @ '']''"
| "render quote (PDict kvs) = ''{'' @ join_with '',''
     (map (\<lambda>(k, v). quote k @ '':'' @ v) (sort_key fst (render_items quote kvs))) @ ''}''"
| "render_list quote [] = []"
| "render_list quote (x # xs) = render quote x # render_list quote xs"
| "render_items quote [] = []"
| "render_items quote ((k, v) # kvs) = (k, render quote v) # render_items quote kvs"

definition canonical_utf8 :: "py \<Rightarrow> string" where
  "canonical_utf8 = render utf8_string"

lemmas [run_simps] = escape_byte_def utf8_string_def canonical_utf8_def

lemma render_list_map: "render_list q xs = map (render q) xs"
  by (induction xs) auto

lemma render_items_map: "render_items q kvs = map (\<lambda>(k, v). (k, render q v)) kvs"
  by (induction kvs) auto

lemma canonical_render: "canonical v = render json_string v"
  and "canonical_list xs = render_list json_string xs"
  and "canonical_items kvs = render_items json_string kvs"
  by (induction v and xs and kvs rule: canonical_canonical_list_canonical_items.induct) auto

section \<open>The fuel is enough\<close>

lemma skip_ws_le: "length (skip_ws s) \<le> length s"
  by (simp add: skip_ws_def length_dropWhile_le)

lemma starts_tl: "starts c s \<Longrightarrow> length (tl s) < length s"
  by (cases s) (auto simp: starts_def)

text \<open>What follows a delimiter, with the white space around it left out.\<close>

lemma after_delimiter: "starts c (skip_ws s) \<Longrightarrow> length (tl (skip_ws s)) < length s"
  using starts_tl [of c "skip_ws s"] skip_ws_le [of s] by linarith

lemma after_delimiter_ws: "starts c (skip_ws s) \<Longrightarrow> length (skip_ws (tl (skip_ws s))) < length s"
  using after_delimiter [of c s] skip_ws_le [of "tl (skip_ws s)"] by linarith

lemma after_opening_ws: "starts c s \<Longrightarrow> length (skip_ws (tl s)) < length s"
  using starts_tl [of c s] skip_ws_le [of "tl s"] by linarith

lemma push_front_eq_Some: "push_front a m = Some (t, r) \<longleftrightarrow> (\<exists>u. m = Some (u, r) \<and> t = a @ u)"
  by (auto simp: push_front_def)

lemma scan_string_shorter: "scan_string s = Some (t, r) \<Longrightarrow> length r < length s"
proof (induction "length s" arbitrary: s t r rule: less_induct)
  case less
  show ?case
  proof (cases s)
    case Nil
    with less.prems show ?thesis by simp
  next
    case (Cons c s')
    have ih: "length r < Suc (length s')" if "scan_string u = Some (t', r)" "length u \<le> length s'" for u t'
      using less.hyps [of u] that Cons by fastforce
    have "r = s' \<or> (\<exists>u t'. scan_string u = Some (t', r) \<and> length u \<le> length s')"
      using less.prems unfolding Cons scan_string.simps(2) [of c s']
      by (auto simp: push_front_eq_Some split: if_splits list.splits option.splits)
    with ih Cons show ?thesis by auto
  qed
qed

lemma json_number_shorter: "json_number cfg s = Inr (v, r) \<Longrightarrow> length r < length s"
proof -
  let ?i = "int_width s" and ?f = "frac_width (drop (int_width s) s)"
  let ?e = "exp_width (drop (?i + ?f) s)"
  assume "json_number cfg s = Inr (v, r)"
  then have "0 < ?i \<and> r = drop (?i + ?f + ?e) s"
    unfolding json_number_def Let_def by (auto simp: bindE_eq_Inr split: if_split_asm)
  moreover from this have "s \<noteq> []" by (auto simp: int_width_def starts_def starts_digit_def)
  ultimately show ?thesis by (cases s) auto
qed

lemma json_scalar_shorter: "json_scalar cfg s = Inr (v, r) \<Longrightarrow> length r < length s"
proof (cases "find (\<lambda>(w, _). prefix w s) json_literals")
  case None
  assume "json_scalar cfg s = Inr (v, r)"
  with None show ?thesis by (simp add: json_scalar_def json_number_shorter)
next
  case (Some x)
  obtain w f where x: "x = (w, f)" by (cases x)
  from Some x obtain i where "i < length json_literals" "json_literals ! i = (w, f)" and p: "prefix w s"
    by (auto simp: find_Some_iff)
  then have "(w, f) \<in> set json_literals" by (metis nth_mem)
  then have "w \<noteq> []" by (auto simp: json_literals_def)
  moreover assume "json_scalar cfg s = Inr (v, r)"
  with Some x have "r = drop (length w) s" by (auto simp: json_scalar_def bindE_eq_Inr)
  ultimately show ?thesis using p by (auto simp: prefix_def)
qed

text \<open>A step of the two list parsers, with a \<open>close\<close> or a comma after the first element.\<close>

definition list_step :: "char \<Rightarrow> 'a \<Rightarrow> (string \<Rightarrow> exn + 'a list \<times> string) \<Rightarrow> string \<Rightarrow> exn + 'a list \<times> string" where
  "list_step close x again r =
     (if starts close (skip_ws r) then Inr ([x], tl (skip_ws r))
      else if starts (CHR '','') (skip_ws r) then
        bindE (again (skip_ws (tl (skip_ws r)))) (\<lambda>(xs, r'). Inr (x # xs, r'))
      else Inl JSONDecodeError)"

lemma list_step_shorter:
  assumes "list_step close x again r = Inr (xs, r')"
    and "\<And>s ys. again s = Inr (ys, r') \<Longrightarrow> length r' < length s"
  shows "length r' < length r"
proof (cases "starts close (skip_ws r)")
  case True
  with assms(1) after_delimiter [OF True] show ?thesis by (simp add: list_step_def)
next
  case False
  with assms(1) have c: "starts (CHR '','') (skip_ws r)" by (auto simp: list_step_def split: if_splits)
  with False assms(1) obtain ys where "again (skip_ws (tl (skip_ws r))) = Inr (ys, r')"
    by (auto simp: list_step_def bindE_eq_Inr)
  from assms(2) [OF this] after_delimiter_ws [OF c] show ?thesis by linarith
qed

lemma json_elements_step:
  "json_elements cfg (Suc n) s =
     bindE (json_value cfg n s) (\<lambda>(v, r). list_step (CHR 0x5D) v (json_elements cfg n) r)"
  by (simp add: list_step_def)

lemma json_members_step:
  "json_members cfg (Suc n) s =
     (if \<not> starts (CHR 0x22) s then Inl JSONDecodeError
      else (case scan_string (tl s) of None \<Rightarrow> Inl JSONDecodeError | Some (k, r) \<Rightarrow>
        if \<not> starts (CHR '':'') (skip_ws r) then Inl JSONDecodeError
        else bindE (json_value cfg n (skip_ws (tl (skip_ws r)))) (\<lambda>(v, r'). list_step (CHR 0x7D) (k, v) (json_members cfg n) r')))"
  by (simp add: list_step_def cong: if_cong option.case_cong)

lemma json_shorter:
  "(\<forall>v r. json_value cfg n s = Inr (v, r) \<longrightarrow> length r < length s) \<and>
   (\<forall>vs r. json_elements cfg n s = Inr (vs, r) \<longrightarrow> length r < length s) \<and>
   (\<forall>kvs r. json_members cfg n s = Inr (kvs, r) \<longrightarrow> length r < length s)"
proof (induction n arbitrary: s)
  case (Suc n)
  note IH = Suc.IH [THEN conjunct1, rule_format] Suc.IH [THEN conjunct2, THEN conjunct1, rule_format]
    Suc.IH [THEN conjunct2, THEN conjunct2, rule_format]
  have "length r < length s" if e: "json_value cfg (Suc n) s = Inr (v, r)" for v r
  proof -
    consider "starts (CHR 0x22) s" | "\<not> starts (CHR 0x22) s" "starts (CHR 0x7B) s"
      | "\<not> starts (CHR 0x22) s" "\<not> starts (CHR 0x7B) s" "starts (CHR 0x5B) s"
      | "json_scalar cfg s = Inr (v, r)"
      using e by (auto split: if_splits)
    then show ?thesis
    proof cases
      case 1
      with e have "scan_string (tl s) = Some (the_str v, r)" by (auto split: option.splits)
      from scan_string_shorter [OF this] starts_tl [OF 1] show ?thesis by linarith
    next
      case 2
      with e consider "starts (CHR 0x7D) (skip_ws (tl s))" "r = tl (skip_ws (tl s))"
        | kvs where "json_members cfg n (skip_ws (tl s)) = Inr (kvs, r)"
        by (auto simp: bindE_eq_Inr split: if_splits)
      then show ?thesis
        using starts_tl [OF 2(2)] after_delimiter [of "CHR 0x7D" "tl s"] after_opening_ws [OF 2(2)] IH(3)
        by cases fastforce+
    next
      case 3
      with e consider "starts (CHR 0x5D) (skip_ws (tl s))" "r = tl (skip_ws (tl s))"
        | vs where "json_elements cfg n (skip_ws (tl s)) = Inr (vs, r)"
        by (auto simp: bindE_eq_Inr split: if_splits)
      then show ?thesis
        using starts_tl [OF 3(3)] after_delimiter [of "CHR 0x5D" "tl s"] after_opening_ws [OF 3(3)] IH(2)
        by cases fastforce+
    qed (rule json_scalar_shorter)
  qed
  moreover have "length r < length s" if e: "json_elements cfg (Suc n) s = Inr (vs, r)" for vs r
  proof -
    from e obtain v r1 where v: "json_value cfg n s = Inr (v, r1)"
      and l: "list_step (CHR 0x5D) v (json_elements cfg n) r1 = Inr (vs, r)"
      unfolding json_elements_step by (auto simp: bindE_eq_Inr)
    have "length r < length r1" by (rule list_step_shorter [OF l]) (rule IH(2))
    with IH(1) [OF v] show ?thesis by linarith
  qed
  moreover have "length r < length s" if e: "json_members cfg (Suc n) s = Inr (kvs, r)" for kvs r
  proof -
    from e obtain k r1 v r2 where q: "starts (CHR 0x22) s" and k: "scan_string (tl s) = Some (k, r1)"
      and c: "starts (CHR '':'') (skip_ws r1)" and v: "json_value cfg n (skip_ws (tl (skip_ws r1))) = Inr (v, r2)"
      and l: "list_step (CHR 0x7D) (k, v) (json_members cfg n) r2 = Inr (kvs, r)"
      unfolding json_members_step by (auto simp: bindE_eq_Inr split: if_splits option.splits)
    have "length r < length r2" by (rule list_step_shorter [OF l]) (rule IH(3))
    with IH(1) [OF v] after_delimiter_ws [OF c] scan_string_shorter [OF k] starts_tl [OF q]
    show ?thesis by linarith
  qed
  ultimately show ?case by blast
qed simp_all

text \<open>With fuel for two calls per byte the functions no longer depend on the fuel.\<close>

lemma list_step_cong:
  "(\<And>s. length s < length r \<Longrightarrow> again s = again' s) \<Longrightarrow> list_step close x again r = list_step close x again' r"
  by (auto simp: list_step_def after_delimiter_ws)

lemma json_fuel_step:
  "(2 * length s < n \<longrightarrow> json_value cfg (Suc n) s = json_value cfg n s) \<and>
   (2 * length s + 1 < n \<longrightarrow> json_elements cfg (Suc n) s = json_elements cfg n s) \<and>
   (2 * length s + 1 < n \<longrightarrow> json_members cfg (Suc n) s = json_members cfg n s)"
proof (induction n arbitrary: s)
  case (Suc n)
  note IH = Suc.IH [THEN conjunct1, rule_format] Suc.IH [THEN conjunct2, THEN conjunct1, rule_format]
    Suc.IH [THEN conjunct2, THEN conjunct2, rule_format]
  have "json_value cfg (Suc (Suc n)) s = json_value cfg (Suc n) s" if l: "2 * length s < Suc n"
  proof -
    have "2 * length (skip_ws (tl s)) + 1 < n" if "starts c s" for c
      using after_opening_ws [OF that] l by linarith
    from IH(2,3) [OF this] show ?thesis
      unfolding json_value.simps(2) [of cfg "Suc n"] json_value.simps(2) [of cfg n]
      by (simp cong: if_cong)
  qed
  moreover have "json_elements cfg (Suc (Suc n)) s = json_elements cfg (Suc n) s" if l: "2 * length s + 1 < Suc n"
  proof (rule trans [OF json_elements_step trans [OF bindE_cong json_elements_step [symmetric]]], goal_cases)
    case 1
    from l show ?case by (intro IH(1)) simp
  next
    case (2 x)
    then obtain v r where x: "x = (v, r)" "json_value cfg n s = Inr (v, r)" by (cases x) auto
    with json_shorter have "length r < length s" by blast
    with l show ?case unfolding x(1) prod.case by (intro list_step_cong IH(2)) linarith
  qed
  moreover have "json_members cfg (Suc (Suc n)) s = json_members cfg (Suc n) s" if l: "2 * length s + 1 < Suc n"
  proof -
    have "bindE (json_value cfg (Suc n) (skip_ws (tl (skip_ws r)))) (\<lambda>(v, r'). list_step (CHR 0x7D) (k, v) (json_members cfg (Suc n)) r') =
      bindE (json_value cfg n (skip_ws (tl (skip_ws r)))) (\<lambda>(v, r'). list_step (CHR 0x7D) (k, v) (json_members cfg n) r')"
      if q: "starts (CHR 0x22) s" and k: "scan_string (tl s) = Some (k, r)" and c: "starts (CHR '':'') (skip_ws r)" for k r
    proof -
      let ?t = "skip_ws (tl (skip_ws r))"
      have t: "length ?t < length s"
        using after_delimiter_ws [OF c] scan_string_shorter [OF k] starts_tl [OF q] by linarith
      show ?thesis
      proof (rule bindE_cong, goal_cases)
      case 1
      from l t show ?case by (intro IH(1)) linarith
    next
      case (2 x)
      then obtain v r' where x: "x = (v, r')" "json_value cfg n ?t = Inr (v, r')" by (cases x) auto
      with json_shorter have "length r' < length ?t" by blast
      with l t show ?case unfolding x(1) prod.case by (intro list_step_cong IH(3)) linarith
      qed
    qed
    then show ?thesis
      by (simp add: json_members_step [of cfg "Suc n" s] json_members_step [of cfg n s] split: option.split del: json_members.simps json_value.simps)
  qed
  ultimately show ?case by blast
qed simp

lemma json_fuel: "2 * length s < n \<Longrightarrow> json_value cfg (n + k) s = json_value cfg n s"
  by (induction k) (use json_fuel_step in \<open>auto\<close>)

section \<open>Decoding what was rendered\<close>

text \<open>Values without floats, made of acceptable strings, and the copy the decoder makes of them.\<close>

fun renderable :: "(string \<Rightarrow> bool) \<Rightarrow> py \<Rightarrow> bool" where
  "renderable ok (PStr s) = ok s"
| "renderable ok (PInt i) = (length (dec (nat \<bar>i\<bar>)) \<le> 4300)"
| "renderable ok (PFloat r s) = False"
| "renderable ok (PList xs) = (\<forall>x \<in> set xs. renderable ok x)"
| "renderable ok (PDict kvs) = (distinct (map fst kvs) \<and> (\<forall>(k, v) \<in> set kvs. ok k \<and> renderable ok v))"
| "renderable ok v = True"

text \<open>The hook that refuses a key that occurs twice, with the exception it raises.\<close>

fun unique_pairs :: "(string \<Rightarrow> exn) \<Rightarrow> (string \<times> py) list \<Rightarrow> (string \<times> py) list \<Rightarrow> exn + py" where
  "unique_pairs twice result [] = Inr (PDict result)"
| "unique_pairs twice result ((k, v) # kvs) =
     (if k \<in> set (map fst result) then Inl (twice k) else unique_pairs twice (result @ [(k, v)]) kvs)"

lemma unique_pairs_distinct: "distinct (map fst (rs @ kvs)) \<Longrightarrow> unique_pairs e rs kvs = Inr (PDict (rs @ kvs))"
  by (induction e rs kvs rule: unique_pairs.induct) auto

lemma unique_pairs_Inr: "unique_pairs e rs kvs = Inr d \<Longrightarrow> distinct (map fst rs) \<Longrightarrow> d = PDict (rs @ kvs) \<and> distinct (map fst (rs @ kvs))"
  by (induction e rs kvs rule: unique_pairs.induct) (auto split: if_splits)

text \<open>A hook that keeps the pairs of an object, as long as no key occurs twice.\<close>

definition keeps_pairs :: "decoder \<Rightarrow> bool" where
  "keeps_pairs cfg \<longleftrightarrow> (\<forall>kvs. distinct (map fst kvs) \<longrightarrow> dec_pairs cfg kvs = Inr (PDict kvs))"

text \<open>What may follow a value in a rendering.\<close>

definition delimited :: "string \<Rightarrow> bool" where
  "delimited r \<longleftrightarrow> (r = [] \<or> hd r \<in> {CHR '','', CHR 0x5D, CHR 0x7D, CHR 0x0A})"

lemma dec_no_leading_zero: "0 < n \<Longrightarrow> hd (dec n) \<noteq> CHR ''0''"
proof (induction n rule: dec.induct)
  case (1 n)
  show ?case
  proof (cases "n < 10")
    case True
    have "digit_char n \<noteq> CHR ''0''"
    proof
      assume "digit_char n = CHR ''0''"
      then have "byte (digit_char n) = (byte (CHR ''0'') :: nat)" by simp
      with True 1(2) show False by simp
    qed
    with True show ?thesis by (simp add: dec.simps [of n])
  next
    case False
    then have "hd (dec (n div 10)) \<noteq> CHR ''0''" using 1 by simp
    with False show ?thesis by (simp add: dec.simps [of n])
  qed
qed

lemma dec_zero: "dec 0 = ''0''"
  by code_simp

lemma starts_append [simp]: "s \<noteq> [] \<Longrightarrow> starts c (s @ r) = starts c s"
  by (simp add: starts_def)

lemma starts_Cons [simp]: "starts c (d # s) \<longleftrightarrow> d = c"
  by (auto simp: starts_def)

lemma starts_Nil [simp]: "\<not> starts c []"
  by (simp add: starts_def)

lemma hd_dec_digit: "is_digit (hd (dec n))"
  using dec_digits [of n] by (cases "dec n") auto

lemma delimited_not_number:
  assumes "delimited r"
  shows "\<not> starts_digit r" "\<not> starts (CHR ''.'') r" "\<not> starts (CHR ''e'') r" "\<not> starts (CHR ''E'') r"
  using assms by (auto simp: delimited_def starts_digit_def starts_def is_digit_def)

lemma takeWhile_dec: "\<not> starts_digit r \<Longrightarrow> takeWhile is_digit (dec n @ r) = dec n"
  using dec_digits [of n] by (cases r) (auto simp: starts_digit_def takeWhile_append list_all_iff takeWhile_eq_Nil_iff)

lemma int_width_dec:
  assumes "\<not> starts_digit r"
  shows "int_width (dec n @ r) = length (dec n)" "int_width (CHR ''-'' # dec n @ r) = Suc (length (dec n))"
proof -
  have s: "starts_digit (dec n @ r)" using hd_dec_digit [of n] by (simp add: starts_digit_def)
  have m: "\<not> starts (CHR ''-'') (dec n @ r)" using hd_dec_digit [of n] by (auto simp: starts_def is_digit_def)
  have z: "starts (CHR ''0'') (dec n @ r) \<longleftrightarrow> n = 0"
    using dec_no_leading_zero [of n] by (auto simp: starts_def dec_zero)
  have "length (dec 0) = 1" by (simp add: dec_zero)
  with s m z show "int_width (dec n @ r) = length (dec n)" "int_width (CHR ''-'' # dec n @ r) = Suc (length (dec n))"
    by (auto simp: int_width_def Let_def takeWhile_dec [OF assms])
qed

lemma json_number_int:
  assumes "delimited r" and "length (dec (nat \<bar>i\<bar>)) \<le> 4300"
  shows "json_number cfg (dec_int i @ r) = Inr (PInt i, r)"
proof -
  note d = delimited_not_number [OF assms(1)]
  have w: "int_width (dec_int i @ r) = length (dec_int i)" by (simp add: dec_int_def int_width_dec d)
  have f: "frac_width r = 0" "exp_width r = 0" using d by (simp_all add: frac_width_def exp_width_def)
  have n: "length (dec_int i) = 0 \<longleftrightarrow> False" by (simp add: dec_int_def)
  have l: "int_literal (dec_int i) = Inr (PInt i)"
  proof (cases "i < 0")
    case True
    with assms(2) show ?thesis by (simp add: int_literal_def dec_int_def int_digits_def)
  next
    case False
    then have "\<not> starts (CHR ''-'') (dec (nat i))" using hd_dec_digit [of "nat i"] by (auto simp: starts_def is_digit_def)
    with False assms(2) show ?thesis by (simp add: int_literal_def dec_int_def int_digits_def)
  qed
  show ?thesis unfolding json_number_def Let_def w by (simp add: f l n del: length_0_conv)
qed

lemma json_scalar_int:
  assumes "delimited r" and "length (dec (nat \<bar>i\<bar>)) \<le> 4300"
  shows "json_scalar cfg (dec_int i @ r) = Inr (PInt i, r)"
proof -
  obtain c s where c: "dec (nat \<bar>i\<bar>) = c # s" by (cases "dec (nat \<bar>i\<bar>)") simp_all
  with hd_dec_digit [of "nat \<bar>i\<bar>"] have "is_digit c" by simp
  then have n: "CHR ''n'' \<noteq> c" "CHR ''t'' \<noteq> c" "CHR ''f'' \<noteq> c" "CHR ''N'' \<noteq> c" "CHR ''I'' \<noteq> c" "CHR ''-'' \<noteq> c"
    by (auto simp: is_digit_def)
  have "dec_int i = c # s \<or> dec_int i = CHR ''-'' # c # s" using c by (auto simp: dec_int_def)
  then have "find (\<lambda>(w, _). prefix w (dec_int i @ r)) json_literals = None"
    by (auto simp: json_literals_def n)
  then show ?thesis unfolding json_scalar_def by (simp only: option.case json_number_int [OF assms])
qed

text \<open>A rendering of strings that the decoder reads back.\<close>

locale json_quoting =
  fixes quote :: "string \<Rightarrow> string" and ok :: "string \<Rightarrow> bool"
  assumes opens: "starts (CHR 0x22) (quote s)"
    and scans: "ok s \<Longrightarrow> scan_string (tl (quote s) @ r) = Some (s, r)"
begin

lemma quote_nonempty: "quote s \<noteq> []"
  using opens [of s] by (auto simp: starts_def)

lemma quote_head: "hd (quote s) = CHR 0x22"
  using opens [of s] by (auto simp: starts_def)

lemma render_nonempty: "renderable ok v \<Longrightarrow> render quote v \<noteq> []"
  by (cases v) (auto simp: quote_nonempty dec_int_def)

lemma render_no_space: "renderable ok v \<Longrightarrow> \<not> is_json_space (hd (render quote v))"
  using hd_dec_digit [of "nat (the_int v)"]
  by (cases v) (auto simp: quote_head dec_int_def is_json_space_def is_digit_def)

lemma skip_render: "renderable ok v \<Longrightarrow> skip_ws (render quote v @ r) = render quote v @ r"
  using render_nonempty [of v] render_no_space [of v] by (cases "render quote v") (auto simp: skip_ws_def)

lemma skip_quote: "skip_ws (quote s @ r) = quote s @ r"
  using quote_head [of s] quote_nonempty [of s] by (cases "quote s") (auto simp: skip_ws_def is_json_space_def)

text \<open>The elements of a list, and the items of an object, given that each value is read back.\<close>

lemma elements_read:
  assumes "\<And>v n r. v \<in> set vs \<Longrightarrow> length (render quote v) \<le> n \<Longrightarrow> delimited r \<Longrightarrow>
      json_value cfg n (render quote v @ r) = Inr (detach v, r)"
    and "vs \<noteq> []" and "\<forall>v \<in> set vs. renderable ok v"
    and "length (join_with '','' (map (render quote) vs)) < n"
  shows "json_elements cfg n (join_with '','' (map (render quote) vs) @ CHR 0x5D # r) = Inr (map detach vs, r)"
  using assms
proof (induction vs arbitrary: n)
  case (Cons v vs)
  then obtain m where n: "n = Suc m" by (cases n) auto
  have v: "renderable ok v" using Cons.prems(3) by simp
  show ?case
  proof (cases vs)
    case Nil
    with Cons.prems(4) n have "json_value cfg m (render quote v @ CHR 0x5D # r) = Inr (detach v, CHR 0x5D # r)"
      by (intro Cons.prems(1)) (auto simp: delimited_def)
    with n Nil show ?thesis by (simp add: skip_ws_def is_json_space_def del: json_value.simps)
  next
    case (Cons w ws)
    let ?tail = "join_with '','' (map (render quote) vs) @ CHR 0x5D # r"
    have j: "join_with '','' (map (render quote) (v # vs)) = render quote v @ '','' @ join_with '','' (map (render quote) vs)"
      by (simp add: Cons)
    have l: "length (render quote v) \<le> m" "length (join_with '','' (map (render quote) vs)) < m"
      using Cons.prems(4) n render_nonempty [OF v] unfolding j by (auto simp: Suc_le_eq)
    have h: "json_value cfg m (render quote v @ CHR '','' # ?tail) = Inr (detach v, CHR '','' # ?tail)"
      using l by (intro Cons.prems(1)) (auto simp: delimited_def)
    have t: "json_elements cfg m ?tail = Inr (map detach vs, r)"
      using Cons.prems l Cons by (intro Cons.IH) auto
    have s: "skip_ws ?tail = ?tail"
    proof -
      obtain x where "?tail = render quote w @ x" by (cases ws) (auto simp: Cons)
      with skip_render [of w x] Cons.prems(3) Cons show ?thesis by simp
    qed
    have "json_elements cfg n (render quote v @ CHR '','' # ?tail) = Inr (map detach (v # vs), r)"
      unfolding n json_elements_step h by (simp add: list_step_def skip_ws_def is_json_space_def s [unfolded skip_ws_def] t)
    then show ?thesis unfolding j by simp
  qed
qed simp

definition item_text :: "string \<times> py \<Rightarrow> string" where
  "item_text kv = quote (fst kv) @ '':'' @ render quote (snd kv)"

lemma members_read:
  assumes "\<And>k v n r. (k, v) \<in> set kvs \<Longrightarrow> length (render quote v) \<le> n \<Longrightarrow> delimited r \<Longrightarrow>
      json_value cfg n (render quote v @ r) = Inr (detach v, r)"
    and "kvs \<noteq> []" and "\<forall>(k, v) \<in> set kvs. ok k \<and> renderable ok v"
    and "length (join_with '','' (map item_text kvs)) < n"
  shows "json_members cfg n (join_with '','' (map item_text kvs) @ CHR 0x7D # r) = Inr (map (\<lambda>(k, v). (k, detach v)) kvs, r)"
  using assms
proof (induction kvs arbitrary: n)
  case (Cons kv kvs)
  obtain k v where kv: "kv = (k, v)" by (cases kv)
  from Cons.prems(4) obtain m where n: "n = Suc m" by (cases n) auto
  have v: "renderable ok v" and k: "ok k" using Cons.prems(3) by (auto simp: kv)
  have first: "json_members cfg n (quote k @ CHR '':'' # x) =
      bindE (json_value cfg m (skip_ws x)) (\<lambda>(v, r'). list_step (CHR 0x7D) (k, v) (json_members cfg m) r')" for x
    using scans [OF k, of "CHR '':'' # x"] opens [of k] quote_nonempty [of k]
    unfolding n json_members_step by (simp add: skip_ws_def is_json_space_def)
  show ?case
  proof (cases kvs)
    case Nil
    with Cons.prems(4) n kv have "json_value cfg m (render quote v @ CHR 0x7D # r) = Inr (detach v, CHR 0x7D # r)"
      by (intro Cons.prems(1) [of k]) (auto simp: delimited_def item_text_def)
    with first [of "render quote v @ CHR 0x7D # r"] Nil show ?thesis
      by (simp add: kv item_text_def skip_render [OF v] list_step_def skip_ws_def [of "CHR 0x7D # r"] is_json_space_def)
  next
    case (Cons w ws)
    let ?tail = "join_with '','' (map item_text kvs) @ CHR 0x7D # r"
    have j: "join_with '','' (map item_text (kv # kvs)) =
        quote k @ CHR '':'' # render quote v @ '','' @ join_with '','' (map item_text kvs)"
      by (simp add: Cons kv item_text_def)
    have l: "length (render quote v) \<le> m" "length (join_with '','' (map item_text kvs)) < m"
      using Cons.prems(4) n unfolding j by auto
    have h: "json_value cfg m (render quote v @ CHR '','' # ?tail) = Inr (detach v, CHR '','' # ?tail)"
      using l kv by (intro Cons.prems(1) [of k]) (auto simp: delimited_def)
    have t: "json_members cfg m ?tail = Inr (map (\<lambda>(k, v). (k, detach v)) kvs, r)"
      using Cons.prems l Cons by (intro Cons.IH) auto
    have s: "skip_ws ?tail = ?tail"
    proof -
      obtain x where "?tail = quote (fst w) @ x" by (cases ws) (auto simp: Cons item_text_def)
      with skip_quote [of "fst w" x] show ?thesis by simp
    qed
    have c: "skip_ws (CHR '','' # x) = CHR '','' # x" for x by (simp add: skip_ws_def is_json_space_def)
    have "json_members cfg n (quote k @ CHR '':'' # render quote v @ CHR '','' # ?tail) = Inr ((k, detach v) # map (\<lambda>(k, v). (k, detach v)) kvs, r)"
      by (simp add: first skip_render [OF v] h list_step_def c s t)
    then show ?thesis unfolding j by (simp add: kv)
  qed
qed simp


lemma render_dict: "render quote (PDict kvs) = ''{'' @ join_with '','' (map item_text (sort_key fst kvs)) @ ''}''"
proof -
  have "item_text = (\<lambda>x. quote (fst x) @ CHR '':'' # render quote (snd x))" by (auto simp: item_text_def)
  then show ?thesis by (simp add: render_items_map sort_key_map_val [symmetric] comp_def case_prod_beta)
qed

lemma detach_dict: "detach (PDict kvs) = PDict (map (\<lambda>(k, v). (k, detach v)) (sort_key fst kvs))"
  by (simp add: detach_items_map sort_key_map_val)

lemma value_read:
  assumes "keeps_pairs cfg" and "renderable ok v" and "length (render quote v) \<le> n" and "delimited r"
  shows "json_value cfg n (render quote v @ r) = Inr (detach v, r)"
  using assms(2-4)
proof (induction v arbitrary: n r)
  case (PList xs)
  then obtain m where n: "n = Suc m" by (cases n) auto
  show ?case
  proof (cases "xs = []")
    case True
    with n show ?thesis by (simp add: skip_ws_def is_json_space_def)
  next
    case False
    then obtain x ys where xs: "xs = x # ys" by (cases xs) auto
    let ?t = "join_with '','' (map (render quote) xs) @ CHR 0x5D # r"
    have e: "json_elements cfg m ?t = Inr (map detach xs, r)"
      using PList n False by (intro elements_read) (auto simp: render_list_map)
    obtain y where y: "?t = render quote x @ y" by (cases ys) (auto simp: xs)
    have x: "renderable ok x" using PList.prems(1) xs by simp
    have s: "skip_ws ?t = ?t" unfolding y by (rule skip_render [OF x])
    have "hd (render quote x) \<noteq> CHR 0x5D"
      using x hd_dec_digit [of "nat (the_int x)"] by (cases x) (auto simp: quote_head dec_int_def is_digit_def)
    then have c: "\<not> starts (CHR 0x5D) ?t" unfolding y using render_nonempty [OF x] by (simp add: starts_def)
    have "render quote (PList xs) @ r = CHR 0x5B # ?t" by (simp add: render_list_map)
    then show ?thesis unfolding n by (simp add: s c e detach_list_map)
  qed
next
  case (PDict kvs)
  then obtain m where n: "n = Suc m" by (cases n) auto
  have dk: "distinct (map fst (sort_key fst kvs))" using PDict.prems(1) by (simp add: distinct_map)
  show ?case
  proof (cases "kvs = []")
    case True
    with n assms(1) show ?thesis by (simp add: skip_ws_def is_json_space_def keeps_pairs_def)
  next
    case False
    let ?ks = "sort_key fst kvs"
    have ne: "?ks \<noteq> []" using False by (metis set_sort set_empty)
    then obtain w ws where ks: "?ks = w # ws" by (cases ?ks) auto
    let ?t = "join_with '','' (map item_text ?ks) @ CHR 0x7D # r"
    have "json_members cfg m ?t = Inr (map (\<lambda>(k, v). (k, detach v)) ?ks, r)"
    proof (rule members_read)
      show "length (join_with '','' (map item_text ?ks)) < m" using PDict.prems(2) n unfolding render_dict by simp
    qed (use PDict ne in auto)
    moreover obtain y where y: "?t = quote (fst w) @ y" by (cases ws) (auto simp: ks item_text_def)
    moreover have "skip_ws ?t = ?t" unfolding y by (rule skip_quote)
    moreover have "\<not> starts (CHR 0x7D) ?t"
      unfolding y using quote_nonempty quote_head by (simp add: starts_def)
    moreover have "dec_pairs cfg (map (\<lambda>(k, v). (k, detach v)) ?ks) = Inr (detach (PDict kvs))"
      using assms(1) dk by (simp add: keeps_pairs_def detach_dict comp_def case_prod_beta del: detach.simps)
    moreover have "render quote (PDict kvs) @ r = CHR 0x7B # ?t" unfolding render_dict by simp
    ultimately show ?thesis unfolding n by (simp del: render.simps detach.simps)
  qed
next
  case (PStr s)
  then obtain m where n: "n = Suc m" using quote_nonempty [of s] by (cases n) auto
  from PStr scans [of s r] opens [of s] quote_nonempty [of s] show ?case unfolding n by simp
next
  case (PInt i)
  then obtain m where n: "n = Suc m" by (cases n) (auto simp: dec_int_def split: if_splits)
  obtain c t where c: "dec (nat \<bar>i\<bar>) = c # t" by (cases "dec (nat \<bar>i\<bar>)") simp_all
  with hd_dec_digit [of "nat \<bar>i\<bar>"] have "is_digit c" by simp
  then have "c \<noteq> CHR 0x22" "c \<noteq> CHR 0x7B" "c \<noteq> CHR 0x5B" by (auto simp: is_digit_def)
  moreover have "dec_int i = c # t \<or> dec_int i = CHR ''-'' # c # t" using c by (auto simp: dec_int_def)
  ultimately have "\<not> starts x (dec_int i @ r)" if "x \<in> {CHR 0x22, CHR 0x7B, CHR 0x5B}" for x using that by auto
  with json_scalar_int [of r i cfg] PInt.prems n show ?case by simp
qed (auto simp: json_scalar_def json_literals_def less_Suc_eq_le dest!: Suc_le_D split: if_splits)

text \<open>\<open>json.loads\<close> of a rendering, alone or as a line.\<close>

theorem loads_render:
  assumes "keeps_pairs cfg" and "renderable ok v" and "list_all is_json_space e" and "delimited e"
  shows "json_loads cfg (render quote v @ e) = Inr (detach v)"
proof -
  have "json_value cfg (Suc (2 * length (render quote v @ e))) (render quote v @ e) = Inr (detach v, e)"
    by (rule value_read) (use assms in auto)
  moreover have "skip_ws e = []" using assms(3) by (simp add: skip_ws_def list_all_iff)
  ultimately show ?thesis by (simp add: json_loads_def skip_render [OF assms(2)])
qed

end

section \<open>The two renderings are read back\<close>

lemma hex_value_hex_digit [simp]: "d < 16 \<Longrightarrow> hex_value (hex_digit d) = Some d"
  by (auto simp: hex_value_def hex_digit_def)

definition digits4 :: "nat \<Rightarrow> string" where
  "digits4 n = [hex_digit (n div 4096 mod 16), hex_digit (n div 256 mod 16), hex_digit (n div 16 mod 16), hex_digit (n mod 16)]"

lemma u_escape_digits: "u_escape n = CHR 0x5C # CHR ''u'' # digits4 n"
  by (simp add: u_escape_def digits4_def)

lemma length_digits4 [simp]: "length (digits4 n) = 4"
  by (simp add: digits4_def)

lemma hex4_digits: "n < 65536 \<Longrightarrow> hex4 (digits4 n @ r) = Some n"
proof -
  assume "n < 65536"
  then have "n div 4096 mod 16 = n div 4096" by (intro mod_less) linarith
  moreover have "n div 4096 < 16" using \<open>n < 65536\<close> by linarith
  moreover have "n div 4096 = n div 256 div 16" "n div 256 = n div 16 div 16" by (simp_all add: div_mult2_eq [symmetric])
  then have "((n div 4096 * 16 + n div 256 mod 16) * 16 + n div 16 mod 16) * 16 + n mod 16 = n"
    by (metis div_mult_mod_eq)
  ultimately show ?thesis by (simp add: digits4_def hex4_def)
qed

text \<open>One escaped code point, followed by the rest of the string.\<close>

lemma scan_plain: "c \<noteq> CHR 0x22 \<Longrightarrow> c \<noteq> CHR 0x5C \<Longrightarrow> 32 \<le> byte c \<Longrightarrow> scan_string (c # r) = push_front [c] (scan_string r)"
  by (simp add: scan_string.simps(2))

lemma scan_simple: "simple_escape e = Some d \<Longrightarrow> scan_string (CHR 0x5C # e # r) = push_front [d] (scan_string r)"
  by (auto simp: scan_string.simps(2) [of "CHR 0x5C"] simple_escape_def split: if_splits)

lemma scan_unicode:
  assumes "n < 65536" and "\<not> (55296 \<le> n \<and> n \<le> 56319)"
  shows "scan_string (u_escape n @ r) = push_front (utf8_of n) (scan_string r)"
  using assms by (auto simp: scan_string.simps(2) [of "CHR 0x5C"] u_escape_digits hex4_digits)

lemma scan_pair:
  assumes "h < 1024" and "l < 1024"
  shows "scan_string (u_escape (55296 + h) @ u_escape (56320 + l) @ r) = push_front (utf8_of (65536 + h * 1024 + l)) (scan_string r)"
proof -
  have "low_escape (CHR 0x5C # CHR ''u'' # digits4 (56320 + l) @ r) = Some (56320 + l)"
    using assms by (simp add: low_escape_def hex4_digits)
  with assms show ?thesis
    by (simp add: scan_string.simps(2) [of "CHR 0x5C"] u_escape_digits hex4_digits)
qed

lemma scan_escape_byte: "scan_string (escape_byte c @ r) = push_front [c] (scan_string r)"
proof -
  let ?special = "{CHR 0x22, CHR 0x5C, CHR 0x0A, CHR 0x0D, CHR 0x09, CHR 0x08, CHR 0x0C}"
  consider "c \<in> ?special" | "c \<notin> ?special" "byte c < (32 :: nat)" | "c \<notin> ?special" "32 \<le> (byte c :: nat)" by fastforce
  then show ?thesis
  proof cases
    case 1
    then show ?thesis by (elim insertE emptyE) (simp_all add: escape_byte_def scan_simple [unfolded simple_escape_def])
  next
    case 2
    then have "escape_byte c = u_escape (byte c)" by (simp add: escape_byte_def)
    with 2 scan_unicode [of "byte c" r] show ?thesis by (simp add: utf8_of_def)
  next
    case 3
    then have "escape_byte c = [c]" by (simp add: escape_byte_def)
    with 3 show ?thesis by (simp add: scan_plain)
  qed
qed

lemma scan_utf8_string: "scan_string (concat (map escape_byte s) @ CHR 0x22 # r) = Some (s, r)"
  by (induction s) (simp_all add: scan_escape_byte scan_string.simps(2) push_front_def)

interpretation utf8_json: json_quoting utf8_string "\<lambda>_. True"
  by unfold_locales (simp_all add: utf8_string_def scan_utf8_string)

text \<open>The code points of valid UTF-8 are read back as the bytes they came from.\<close>

definition scalar_value :: "nat \<Rightarrow> bool" where
  "scalar_value n \<longleftrightarrow> n < 55296 \<or> (57344 \<le> n \<and> n < 1114112)"

lemma char_of_eq_iff:
  "n < 256 \<Longrightarrow> char_of n = c \<longleftrightarrow> n = (byte c :: nat)" "n < 256 \<Longrightarrow> c = char_of n \<longleftrightarrow> n = (byte c :: nat)"
  by (metis char_of_char mod_less of_char_of)+

lemma utf8_of_two: "2 \<le> x \<Longrightarrow> x < 32 \<Longrightarrow> y < 64 \<Longrightarrow> utf8_of (x * 64 + y) = [char_of (192 + x), char_of (128 + y)]"
  by (simp add: utf8_of_def)

lemma utf8_of_three:
  assumes "y < 64" "z < 64" "2048 \<le> (x * 64 + y) * 64 + z" "(x * 64 + y) * 64 + z < 65536"
  shows "utf8_of ((x * 64 + y) * 64 + z) = [char_of (224 + x), char_of (128 + y), char_of (128 + z)]"
proof -
  let ?n = "(x * 64 + y) * 64 + z"
  have "?n mod 64 = z" unfolding mod_mult_self3 using assms(2) by simp
  moreover have "?n div 64 = x * 64 + y" using assms(2) by simp
  moreover from this have "?n div 64 mod 64 = y" "?n div 4096 = x"
    using assms(1) div_mult2_eq [of ?n 64 64] by simp_all
  ultimately show ?thesis using assms(3,4) by (simp add: utf8_of_def)
qed

lemma utf8_of_four:
  assumes "x < 64" "y < 64" "z < 64" "65536 \<le> ((w * 64 + x) * 64 + y) * 64 + z"
  shows "utf8_of (((w * 64 + x) * 64 + y) * 64 + z) = [char_of (240 + w), char_of (128 + x), char_of (128 + y), char_of (128 + z)]"
proof -
  let ?n = "((w * 64 + x) * 64 + y) * 64 + z"
  have a: "?n mod 64 = z" unfolding mod_mult_self3 using assms(3) by simp
  have c: "?n div 64 = (w * 64 + x) * 64 + y" using assms(3) by simp
  have b: "?n div 64 mod 64 = y" unfolding c mod_mult_self3 using assms(2) by simp
  have d: "?n div 4096 = w * 64 + x" using c assms(2) div_mult2_eq [of ?n 64 64] by simp
  then have "?n div 4096 mod 64 = x" "?n div 262144 = w"
    using assms(1) div_mult2_eq [of ?n 4096 64] by simp_all
  with a b c d assms(4) show ?thesis by (simp add: utf8_of_def)
qed

lemma scan_escape_code:
  assumes "scalar_value n"
  shows "scan_string (escape_code n @ r) = push_front (utf8_of n) (scan_string r)"
proof -
  consider "n < 127" | "127 \<le> n" "n < 65536" | "65536 \<le> n" by linarith
  then show ?thesis
  proof cases
    case 1
    then have "escape_code n = escape_byte (char_of n)"
      by (simp add: escape_code_def escape_byte_def char_of_eq_iff)
    with 1 scan_escape_byte [of "char_of n" r] show ?thesis by (simp add: utf8_of_def)
  next
    case 2
    then have "escape_code n = u_escape n" by (simp add: escape_code_def)
    with 2 assms show ?thesis using scan_unicode [of n r] by (auto simp: scalar_value_def)
  next
    case 3
    let ?h = "(n - 65536) div 1024" and ?l = "(n - 65536) mod 1024"
    have "?h < 1024" using assms 3 by (auto simp: scalar_value_def)
    moreover have "n = 65536 + ?h * 1024 + ?l" using 3 by simp
    moreover have "escape_code n = u_escape (55296 + ?h) @ u_escape (56320 + ?l)" using 3 by (simp add: escape_code_def)
    ultimately show ?thesis using scan_pair [of ?h ?l r] by simp
  qed
qed

lemma code_points_valid:
  "utf8_valid s \<Longrightarrow> concat (map utf8_of (code_points s)) = s \<and> list_all scalar_value (code_points s)"
proof (induction s rule: utf8_valid.induct)
  case (2 a r)
  have char_id: "char_of m = c" if "m = (byte c :: nat)" for m c using that by simp
  consider "byte a \<le> (127 :: nat)" | "in_range 194 223 a" | "in_range 224 239 a" | "in_range 240 244 a"
    using utf8_lead [OF 2(5)] by blast
  then show ?case
  proof cases
    case 1
    with 2 show ?thesis by (simp add: utf8_one utf8_of_def scalar_value_def)
  next
    case two: 2
    with 2(5) obtain b r' where r: "r = b # r'" "is_cont b" "utf8_valid r'" by (auto simp: utf8_two)
    let ?n = "(byte a - 192) * 64 + (byte b - 128) :: nat"
    have d: "2 \<le> byte a - (192 :: nat)" "byte a - 192 < (32 :: nat)" "byte b - 128 < (64 :: nat)"
      using two r(2) by (auto simp: in_range_def is_cont_def)
    have "utf8_of ?n = [a, b]"
      unfolding utf8_of_two [OF d] using two r(2) by (auto simp: in_range_def is_cont_def intro!: char_id)
    moreover have "?n < 2048" using d(2,3) by linarith
    ultimately show ?thesis using 2 two r d by (simp add: in_range_def scalar_value_def)
  next
    case three: 3
    with 2(5) obtain b c r' where r: "r = b # c # r'" "second_of_three a b" "is_cont c" "utf8_valid r'" by (auto simp: utf8_three)
    let ?n = "(byte a - 224) * 4096 + (byte b - 128) * 64 + (byte c - 128) :: nat"
    have b: "is_cont b" using r(2) by (rule second_is_cont)
    have q: "?n = ((byte a - 224) * 64 + (byte b - 128)) * 64 + (byte c - 128)" by (simp add: algebra_simps)
    have l: "2048 \<le> ?n" "?n < 65536" "\<not> (55296 \<le> ?n \<and> ?n < 57344)"
      using three r(2,3) by (auto simp: in_range_def second_of_three_def is_cont_def split: if_splits)
    have "utf8_of ?n = [char_of (224 + (byte a - 224)), char_of (128 + (byte b - 128)), char_of (128 + (byte c - 128))]"
      unfolding q by (rule utf8_of_three) (use l q r(3) b in \<open>auto simp: is_cont_def\<close>)
    moreover have "\<dots> = [a, b, c]" using three r(3) b by (auto simp: in_range_def is_cont_def intro!: char_id)
    ultimately have "utf8_of ?n = [a, b, c]" by simp
    then show ?thesis using 2 three r l by (auto simp: in_range_def scalar_value_def)
  next
    case four: 4
    with 2(5) obtain b c d r' where r: "r = b # c # d # r'" "second_of_four a b" "is_cont c" "is_cont d" "utf8_valid r'"
      by (auto simp: utf8_four)
    let ?n = "(byte a - 240) * 262144 + (byte b - 128) * 4096 + (byte c - 128) * 64 + (byte d - 128) :: nat"
    have b: "is_cont b" using r(2) by (rule second_is_cont)
    have q: "?n = (((byte a - 240) * 64 + (byte b - 128)) * 64 + (byte c - 128)) * 64 + (byte d - 128)" by (simp add: algebra_simps)
    have l: "65536 \<le> ?n" "?n < 1114112"
      using four r(2-4) by (auto simp: in_range_def second_of_four_def is_cont_def split: if_splits)
    have s: "byte b - 128 < (64 :: nat)" "byte c - 128 < (64 :: nat)" "byte d - 128 < (64 :: nat)"
      using r(3,4) b by (auto simp: is_cont_def)
    have "utf8_of ?n = [char_of (240 + (byte a - 240)), char_of (128 + (byte b - 128)), char_of (128 + (byte c - 128)), char_of (128 + (byte d - 128))]"
      unfolding q by (rule utf8_of_four [OF s l(1) [unfolded q]])
    moreover have "\<dots> = [a, b, c, d]" using four r(3,4) b by (auto simp: in_range_def is_cont_def intro!: char_id)
    ultimately have "utf8_of ?n = [a, b, c, d]" by simp
    then show ?thesis using 2 four r l by (auto simp: in_range_def scalar_value_def)
  qed
qed simp

lemma scan_json_string: "utf8_valid s \<Longrightarrow> scan_string (concat (map escape_code (code_points s)) @ CHR 0x22 # r) = Some (s, r)"
proof -
  have "list_all scalar_value ns \<Longrightarrow>
      scan_string (concat (map escape_code ns) @ CHR 0x22 # r) = Some (concat (map utf8_of ns), r)" for ns
    by (induction ns) (simp_all add: scan_escape_code scan_string.simps(2) push_front_def)
  moreover assume "utf8_valid s"
  ultimately show ?thesis using code_points_valid by metis
qed

interpretation ascii_json: json_quoting json_string utf8_valid
  by unfold_locales (simp_all add: json_string_def scan_json_string)

section \<open>How long a rendering is\<close>

text \<open>Values made of ASCII strings and without floats, and a bound on the bytes of their renderings.\<close>

fun ascii_value :: "py \<Rightarrow> bool" where
  "ascii_value (PStr s) = list_all (\<lambda>c. byte c < (128 :: nat)) s"
| "ascii_value (PList xs) = (\<forall>x \<in> set xs. ascii_value x)"
| "ascii_value (PDict kvs) = (\<forall>(k, v) \<in> set kvs. list_all (\<lambda>c. byte c < (128 :: nat)) k \<and> ascii_value v)"
| "ascii_value (PFloat r s) = False"
| "ascii_value v = True"

fun text_bound :: "py \<Rightarrow> nat" where
  "text_bound (PStr s) = 6 * length s + 2"
| "text_bound (PList xs) = 2 + sum_list (map (\<lambda>x. text_bound x + 1) xs)"
| "text_bound (PDict kvs) = 2 + sum_list (map (\<lambda>(k, v). 6 * length k + text_bound v + 4) kvs)"
| "text_bound (PInt i) = length (dec_int i)"
| "text_bound (PFloat r s) = length s"
| "text_bound v = 5"

lemma ascii_hex_digit: "d < 16 \<Longrightarrow> byte (hex_digit d) < (128 :: nat)"
  by (simp add: hex_digit_def)

lemma ascii_utf8_string: "ascii s \<Longrightarrow> ascii (utf8_string s)"
proof -
  have "ascii (escape_byte c)" if "byte c < (128 :: nat)" for c
    using that by (auto simp: escape_byte_def u_escape_def ascii_hex_digit)
  moreover assume "ascii s"
  ultimately show ?thesis by (induction s) (auto simp: utf8_string_def)
qed

lemma length_utf8_string: "length (utf8_string s) \<le> 6 * length s + 2"
proof -
  have "length (escape_byte c) \<le> 6" for c by (auto simp: escape_byte_def u_escape_def)
  then have "length (concat (map escape_byte s)) \<le> 6 * length s"
    by (induction s) (auto simp: add_mono)
  then show ?thesis by (simp add: utf8_string_def)
qed

lemma ascii_render: "ascii_value v \<Longrightarrow> ascii (render utf8_string v)"
proof (induction v)
  case (PInt i)
  have "ascii (dec n)" for n using dec_digits [of n] by (auto simp: list_all_iff is_digit_def)
  then show ?case by (simp add: dec_int_def)
next
  case (PList xs)
  then show ?case by (auto simp: render_list_map intro!: join_with_all)
next
  case (PDict kvs)
  have "ascii (utf8_string k @ '':'' @ render utf8_string v)" if "(k, v) \<in> set kvs" for k v
    using PDict that by (fastforce simp: ascii_utf8_string)
  then show ?case by (auto simp: render_items_map intro!: join_with_all)
qed (simp_all add: ascii_utf8_string)

lemma length_json_string: "ascii s \<Longrightarrow> length (json_string s) \<le> 6 * length s + 2"
proof -
  assume a: "ascii s"
  have "length (escape_code n) \<le> 6" if "n < 128" for n using that by (auto simp: escape_code_def u_escape_def)
  with a have "length (concat (map (escape_code \<circ> byte) s)) \<le> 6 * length s"
    by (induction s) (auto simp: add_mono)
  then show ?thesis using a by (simp add: json_string_def code_points_ascii comp_def)
qed

lemma length_render:
  assumes quote: "\<And>s. ascii s \<Longrightarrow> length (quote s) \<le> 6 * length s + 2"
  shows "ascii_value v \<Longrightarrow> length (render quote v) \<le> text_bound v"
proof (induction v)
  case (PList xs)
  have "length (join_with '','' (render_list quote xs)) \<le> sum_list (map (\<lambda>x. length (render quote x) + 1) xs)"
    using join_with_length [of "'',''" "render_list quote xs"] by (simp add: render_list_map comp_def)
  also have "\<dots> \<le> sum_list (map (\<lambda>x. text_bound x + 1) xs)" using PList by (intro sum_list_mono) simp
  finally show ?case by simp
next
  case (PDict kvs)
  let ?f = "\<lambda>(k, v). quote k @ '':'' @ render quote v" and ?ks = "sort_key fst kvs"
  have "length (join_with '','' (map ?f ?ks)) \<le> sum_list (map (\<lambda>kv. length (?f kv) + 1) ?ks)"
    using join_with_length [of "'',''" "map ?f ?ks"] by (simp add: comp_def)
  also have "\<dots> = sum_list (map (\<lambda>kv. length (?f kv) + 1) kvs)"
    by (rule sum_list_sort_key)
  also have "\<dots> \<le> sum_list (map (\<lambda>(k, v). 6 * length k + text_bound v + 4) kvs)"
  proof (rule sum_list_mono)
    fix kv assume kv: "kv \<in> set kvs"
    obtain k v where e: "kv = (k, v)" by (cases kv)
    with PDict kv have "length (render quote v) \<le> text_bound v" by fastforce
    moreover from PDict kv e have "length (quote k) \<le> 6 * length k + 2" by (intro quote) auto
    ultimately
    show "length (?f kv) + 1 \<le> (case kv of (k, v) \<Rightarrow> 6 * length k + text_bound v + 4)" using e by simp
  qed
  also have "map ?f ?ks = map (\<lambda>(k, v). quote k @ '':'' @ v) (sort_key fst (render_items quote kvs))"
    by (simp add: render_items_map sort_key_map_val [symmetric] comp_def case_prod_beta)
  finally show ?case by simp
qed (use quote in \<open>simp_all\<close>)

end
