(* ===== verification/File_Tree.thy ===== *)
theory File_Tree
  imports Py_Text
begin

text \<open>
  The file trees the release scripts look at: what \<open>pathlib\<close> reports of an entry, and opening
  an entry below a trusted root without following symbolic links. A regular file carries the
  size \<open>fstat\<close> reports and the bytes a read returns, which differ when the file grows in
  between. A symbolic link carries the entry it resolves to, if any. The tree does not change
  while a script runs, other than by a file growing.
\<close>

datatype node =
    Directory "(string \<times> node) list"
  | Regular nat string
  | Link "node option"
  | Special

fun follow :: "node \<Rightarrow> node option" where
  "follow (Link None) = None"
| "follow (Link (Some n)) = follow n"
| "follow n = Some n"

text \<open>The entry at a path, its last component not followed.\<close>

fun lstat :: "node \<Rightarrow> string list \<Rightarrow> node option" where
  "lstat n [] = Some n"
| "lstat n (p # ps) = (case follow n of
     Some (Directory es) \<Rightarrow> (case map_of es p of None \<Rightarrow> None | Some m \<Rightarrow> lstat m ps)
   | _ \<Rightarrow> None)"

definition path_stat :: "node \<Rightarrow> string list \<Rightarrow> node option" where
  "path_stat tree parts = Option.bind (lstat tree parts) follow"

definition path_exists :: "node \<Rightarrow> string list \<Rightarrow> bool" where
  "path_exists tree parts \<longleftrightarrow> path_stat tree parts \<noteq> None"

definition is_link_node :: "node \<Rightarrow> bool" where
  "is_link_node n = (case n of Link _ \<Rightarrow> True | _ \<Rightarrow> False)"

definition is_file_node :: "node \<Rightarrow> bool" where
  "is_file_node n = (case follow n of Some (Regular _ _) \<Rightarrow> True | _ \<Rightarrow> False)"

definition path_is_symlink :: "node \<Rightarrow> string list \<Rightarrow> bool" where
  "path_is_symlink tree parts = (case lstat tree parts of Some n \<Rightarrow> is_link_node n | None \<Rightarrow> False)"

definition path_is_file :: "node \<Rightarrow> string list \<Rightarrow> bool" where
  "path_is_file tree parts = (case lstat tree parts of Some n \<Rightarrow> is_file_node n | None \<Rightarrow> False)"

definition path_is_dir :: "node \<Rightarrow> string list \<Rightarrow> bool" where
  "path_is_dir tree parts = (case path_stat tree parts of Some (Directory _) \<Rightarrow> True | _ \<Rightarrow> False)"

definition path_entries :: "node \<Rightarrow> string list \<Rightarrow> (string \<times> node) list" where
  "path_entries tree parts = (case path_stat tree parts of Some (Directory es) \<Rightarrow> es | _ \<Rightarrow> [])"

text \<open>
  A name the operating system accepts: no NUL byte, and no surrogate but those that stand for
  a byte that is not UTF-8. Any other name makes \<open>os.open\<close> raise \<open>ValueError\<close>.
\<close>

definition os_name :: "string \<Rightarrow> bool" where
  "os_name s \<longleftrightarrow> CHR 0x00 \<notin> set s
     \<and> list_all (\<lambda>n. \<not> (55296 \<le> n \<and> n \<le> 57343) \<or> (56448 \<le> n \<and> n \<le> 56575)) (code_points s)"

text \<open>\<open>os.open(name, flags, dir_fd=directory)\<close> with \<open>O_NOFOLLOW\<close>, of any kind of entry and of directories only.\<close>

definition open_entry :: "string \<Rightarrow> node \<Rightarrow> exn + node" where
  "open_entry name n =
     (if \<not> os_name name then Inl (ValueError ''path'')
      else case n of
        Directory es \<Rightarrow> (case map_of es name of
            None \<Rightarrow> Inl OSError
          | Some (Link _) \<Rightarrow> Inl OSError
          | Some m \<Rightarrow> Inr m)
      | _ \<Rightarrow> Inl OSError)"

definition need_directory :: "node \<Rightarrow> exn + node" where
  "need_directory n = (case n of Directory _ \<Rightarrow> Inr n | _ \<Rightarrow> Inl OSError)"

definition open_directory :: "string \<Rightarrow> node \<Rightarrow> exn + node" where
  "open_directory name n = bindE (open_entry name n) need_directory"

text \<open>Directories one below the other, then the last component.\<close>

definition open_beneath :: "node \<Rightarrow> string list \<Rightarrow> exn + node" where
  "open_beneath tree parts =
     bindE (need_directory tree) (\<lambda>base.
     bindE (foldE (\<lambda>d name. open_directory name d) base (butlast parts)) (\<lambda>parent.
     open_entry (last parts) parent))"

lemmas [run_simps] = path_stat_def path_exists_def is_link_node_def is_file_node_def path_is_symlink_def path_is_file_def
  path_is_dir_def path_entries_def os_name_def open_entry_def need_directory_def open_directory_def open_beneath_def

text \<open>An entry opened without following links is the one \<open>lstat\<close> finds, and no link.\<close>

lemma open_entry_Inr:
  "open_entry name n = Inr m \<longleftrightarrow> os_name name \<and> (\<exists>es. n = Directory es \<and> map_of es name = Some m \<and> \<not> is_link_node m)"
  by (auto simp: open_entry_def is_link_node_def split: node.splits option.splits)

lemma need_directory_Inr: "need_directory n = Inr m \<longleftrightarrow> m = n \<and> (\<exists>es. n = Directory es)"
  by (auto simp: need_directory_def split: node.splits)

lemma open_directories_lstat:
  "foldE (\<lambda>d name. open_directory name d) (Directory es) ps = Inr m \<Longrightarrow>
     (\<exists>fs. m = Directory fs) \<and> (\<forall>qs. lstat (Directory es) (ps @ qs) = lstat m qs)"
proof (induction ps arbitrary: es)
  case (Cons p ps)
  then obtain fs where p: "map_of es p = Some (Directory fs)"
    and r: "foldE (\<lambda>d name. open_directory name d) (Directory fs) ps = Inr m"
    by (auto simp: bindE_eq_Inr open_directory_def open_entry_Inr need_directory_Inr)
  with Cons.IH [OF r] show ?case by simp
qed auto

lemma open_beneath_lstat:
  assumes "open_beneath tree parts = Inr n" and "parts \<noteq> []"
  shows "lstat tree parts = Some n \<and> \<not> is_link_node n"
proof -
  from assms(1) obtain es m where r: "tree = Directory es"
    and m: "foldE (\<lambda>d name. open_directory name d) (Directory es) (butlast parts) = Inr m"
    and l: "open_entry (last parts) m = Inr n"
    by (auto simp: open_beneath_def bindE_eq_Inr need_directory_Inr)
  from l obtain fs where "m = Directory fs" "map_of fs (last parts) = Some n" "\<not> is_link_node n"
    by (auto simp: open_entry_Inr)
  with open_directories_lstat [OF m] have "lstat tree (butlast parts @ [last parts]) = Some n"
    by (simp add: r)
  with assms(2) \<open>\<not> is_link_node n\<close> show ?thesis by simp
qed

end
