(* ===== verification/Release_Contract.thy ===== *)
theory Release_Contract
  imports Release_Constants Json_Text Iso_Time File_Tree
begin

text \<open>
  The documents of the Security release chain (\<open>scripts/security_release_contract.py\<close>): the
  patterns of its identities, canonical JSON and its digest, bounded reading below a trusted
  root, and the validators of a request, of release metadata, of the profile registry and of
  a changelog fragment. \<open>sha\<close> stands for the hexadecimal SHA-256 digest, \<open>flt\<close> for what
  \<open>float\<close> makes of a numeral; times are microseconds (\<^const>\<open>instant\<close>).

  The messages are those of the code up to details appended to them (the offending names of
  \<open>exact_keys\<close>, the text of a nested exception).
\<close>

section \<open>Patterns\<close>

definition is_upper :: "char \<Rightarrow> bool" where
  "is_upper c \<longleftrightarrow> 65 \<le> byte c \<and> byte c \<le> (90 :: nat)"

definition is_lower :: "char \<Rightarrow> bool" where
  "is_lower c \<longleftrightarrow> 97 \<le> byte c \<and> byte c \<le> (122 :: nat)"

definition is_upper_digit :: "char \<Rightarrow> bool" where
  "is_upper_digit c \<longleftrightarrow> is_upper c \<or> is_digit c"

definition is_alnum :: "char \<Rightarrow> bool" where
  "is_alnum c \<longleftrightarrow> is_upper c \<or> is_lower c \<or> is_digit c"

text \<open>A first character of one class, then between \<open>lo\<close> and \<open>hi\<close> of another.\<close>

definition class_name :: "(char \<Rightarrow> bool) \<Rightarrow> (char \<Rightarrow> bool) \<Rightarrow> nat \<Rightarrow> nat \<Rightarrow> string \<Rightarrow> bool" where
  "class_name first other lo hi s \<longleftrightarrow> (case s of [] \<Rightarrow> False | c # r \<Rightarrow>
     first c \<and> lo \<le> length r \<and> length r \<le> hi \<and> list_all other r)"

definition digest :: "string \<Rightarrow> bool" where
  "digest s \<longleftrightarrow> prefix ''sha256:'' s \<and> hex_id 64 (drop 7 s)"

definition evidence_id :: "string \<Rightarrow> bool" where
  "evidence_id s \<longleftrightarrow> prefix ''MLX90-'' s
     \<and> class_name is_upper_digit (\<lambda>c. is_upper_digit c \<or> c \<in> set ''._-'') 2 127 (drop 6 s)"

text \<open>\<open>0|[1-9][0-9]*\<close>\<close>

definition plain_numeral :: "string \<Rightarrow> bool" where
  "plain_numeral p \<longleftrightarrow> p = ''0'' \<or> (p \<noteq> [] \<and> hd p \<noteq> CHR ''0'' \<and> list_all is_digit p)"

definition semver :: "string \<Rightarrow> bool" where
  "semver s \<longleftrightarrow> (case split_on (CHR ''.'') s of
     [major, minor, patch] \<Rightarrow> plain_numeral major \<and> plain_numeral minor \<and> plain_numeral patch | _ \<Rightarrow> False)"

definition path_char :: "char \<Rightarrow> bool" where
  "path_char c \<longleftrightarrow> is_alnum c \<or> c \<in> set ''._/-''"

definition ref_name :: "string \<Rightarrow> bool" where
  "ref_name s \<longleftrightarrow> class_name is_alnum path_char 0 199 s"

definition profile_name :: "string \<Rightarrow> bool" where
  "profile_name s \<longleftrightarrow> class_name is_alnum path_char 2 127 s"

definition ghsa_part :: "string \<Rightarrow> bool" where
  "ghsa_part p \<longleftrightarrow> length p = 4 \<and> list_all (\<lambda>c. c \<in> set ''23456789cfghjmpqrvwx'') p"

definition security_id :: "string \<Rightarrow> bool" where
  "security_id s \<longleftrightarrow>
     (case split_on (CHR ''-'') s of
        [name, year, n] \<Rightarrow> name = ''CVE'' \<and> length year = 4 \<and> list_all is_digit year \<and> 4 \<le> length n \<and> list_all is_digit n
      | [name, a, b, c] \<Rightarrow> name = ''GHSA'' \<and> ghsa_part a \<and> ghsa_part b \<and> ghsa_part c
      | _ \<Rightarrow> False)
     \<or> (prefix ''LIT-SEC-'' s \<and> drop 8 s \<noteq> [] \<and> list_all (\<lambda>c. is_upper_digit c \<or> c \<in> set ''._-'') (drop 8 s))"

definition canonical_time :: "string \<Rightarrow> bool" where
  "canonical_time s \<longleftrightarrow> (case fields_at stamp_fields s of Some (_, r) \<Rightarrow> r = ''Z'' | None \<Rightarrow> False)"

text \<open>\<open>[1-9][0-9]*\<close>\<close>

definition positive_numeral :: "string \<Rightarrow> bool" where
  "positive_numeral s \<longleftrightarrow> s \<noteq> ''0'' \<and> plain_numeral s"

text \<open>\<open>changelogs/fragments/[^/]+\.ya?ml\<close>\<close>

definition fragment_prefix :: string where
  "fragment_prefix = ''changelogs/fragments/''"

definition fragment_path :: "string \<Rightarrow> bool" where
  "fragment_path s \<longleftrightarrow> prefix fragment_prefix s \<and>
     (let n = drop 21 s in CHR 0x2F \<notin> set n \<and> ((suffix ''.yml'' n \<and> 4 < length n) \<or> (suffix ''.yaml'' n \<and> 5 < length n)))"

section \<open>Checks\<close>

definition fail :: "string \<Rightarrow> exn + 'a" where
  "fail message = Inl (ContractError message)"

definition need :: "bool \<Rightarrow> string \<Rightarrow> exn + unit" where
  "need c message = requireE c (ContractError message)"

lemma fail_not_Inr [simp]: "fail m \<noteq> Inr x" "Inr x \<noteq> fail m"
  by (simp_all add: fail_def)

lemma need_eq_Inr [simp]: "need c m = Inr u \<longleftrightarrow> c"
  by (simp add: need_def)

lemma need_True [simp]: "need True m = Inr ()"
  by (simp add: need_def)

text \<open>\<open>value in {...}\<close> for a set of strings: a list or a dictionary cannot be hashed.\<close>

definition py_in :: "py \<Rightarrow> string list \<Rightarrow> exn + bool" where
  "py_in v names = (if is_list v \<or> is_dict v then Inl TypeError else Inr (is_str v \<and> the_str v \<in> set names))"

definition exact_keys :: "py \<Rightarrow> string list \<Rightarrow> string \<Rightarrow> exn + unit" where
  "exact_keys v expected label = need (set (keys_of v) = set expected) (label @ '' fields mismatch'')"

definition require_string :: "py \<Rightarrow> string \<Rightarrow> exn + string" where
  "require_string v label =
     (if \<not> is_str v \<or> the_str v = [] \<or> the_str v \<noteq> py_strip (the_str v) then fail (label @ '' must be a non-empty trimmed string'')
      else if CHR 0x0A \<in> set (the_str v) \<or> CHR 0x0D \<in> set (the_str v) \<or> CHR 0x00 \<in> set (the_str v)
      then fail (label @ '' must be a single-line string'')
      else Inr (the_str v))"

text \<open>\<open>strptime\<close> refuses a date, an hour, a minute or a second out of range.\<close>

definition timestamp :: "py \<Rightarrow> string \<Rightarrow> exn + int" where
  "timestamp v label =
     bindE (require_string v label) (\<lambda>text.
     if \<not> canonical_time text then fail (label @ '' must be canonical UTC RFC3339'')
     else case instant text of None \<Rightarrow> fail (label @ '' is not a valid timestamp'') | Some t \<Rightarrow> Inr t)"

section \<open>JSON documents\<close>

definition reject_duplicate_keys :: "(string \<times> py) list \<Rightarrow> exn + py" where
  "reject_duplicate_keys = unique_pairs (\<lambda>k. ContractError (''duplicate JSON key: '' @ k)) []"

definition contract_decoder :: "(string \<Rightarrow> exn + py) \<Rightarrow> decoder" where
  "contract_decoder flt = \<lparr>dec_pairs = reject_duplicate_keys,
     dec_constant = (\<lambda>name. fail (''invalid JSON constant: '' @ name)), dec_float = flt\<rparr>"

definition load_json_bytes :: "(string \<Rightarrow> exn + py) \<Rightarrow> string \<Rightarrow> string \<Rightarrow> exn + py" where
  "load_json_bytes flt raw label =
     bindE (need (length raw \<le> MAX_JSON_BYTES) (label @ '' exceeds '' @ dec MAX_JSON_BYTES @ '' bytes'')) (\<lambda>_.
     bindE (need (utf8_valid raw) (label @ '' is not valid UTF-8 JSON'')) (\<lambda>_.
     bindE (rescue (\<lambda>e. e = JSONDecodeError) (ContractError (label @ '' is not valid UTF-8 JSON''))
              (json_loads (contract_decoder flt) raw)) (\<lambda>v.
     bindE (need (is_dict v) (label @ '' must be a JSON object'')) (\<lambda>_. Inr v))))"

definition canonical_json_bytes :: "py \<Rightarrow> exn + string" where
  "canonical_json_bytes v =
     (let rendered = canonical_utf8 v in if utf8_valid rendered then Inr rendered else Inl UnicodeEncodeError)"

definition sha256_bytes :: "(string \<Rightarrow> string) \<Rightarrow> string \<Rightarrow> string" where
  "sha256_bytes sha raw = ''sha256:'' @ sha raw"

definition canonical_sha256 :: "(string \<Rightarrow> string) \<Rightarrow> py \<Rightarrow> exn + string" where
  "canonical_sha256 sha v = bindE (canonical_json_bytes v) (\<lambda>raw. Inr (sha256_bytes sha raw))"

definition canonical_document_bytes :: "py \<Rightarrow> exn + string" where
  "canonical_document_bytes v = bindE (canonical_json_bytes v) (\<lambda>raw. Inr (raw @ [newline]))"

section \<open>Files\<close>

text \<open>The relative path is its list of parts, an absolute one starts with the part \<open>/\<close>.\<close>

definition read_bounded_regular_file :: "node \<Rightarrow> string list \<Rightarrow> string \<Rightarrow> nat \<Rightarrow> exn + string" where
  "read_bounded_regular_file tree parts label limit =
     bindE (need (parts \<noteq> [] \<and> hd parts \<noteq> ''/'' \<and> (\<forall>p \<in> set parts. p \<notin> {'''', ''.'', ''..''}))
              (label @ '' path must be a canonical relative path beneath the trusted root'')) (\<lambda>_.
     bindE (rescue (\<lambda>e. e = OSError) (ContractError (label @ '' must be a regular non-symlink file''))
              (open_beneath tree parts)) (\<lambda>n.
     case n of
       Regular st_size content \<Rightarrow>
         bindE (need (st_size \<le> limit) (label @ '' exceeds '' @ dec limit @ '' bytes'')) (\<lambda>_.
         let raw = take (limit + 1) content in
         bindE (need (length raw \<le> limit) (label @ '' exceeds '' @ dec limit @ '' bytes'')) (\<lambda>_. Inr raw))
     | _ \<Rightarrow> fail (label @ '' must be a regular non-symlink file'')))"

definition load_json_file :: "(string \<Rightarrow> exn + py) \<Rightarrow> node \<Rightarrow> string list \<Rightarrow> string \<Rightarrow> exn + py" where
  "load_json_file flt tree parts label =
     bindE (read_bounded_regular_file tree parts label MAX_JSON_BYTES) (\<lambda>raw. load_json_bytes flt raw label)"

section \<open>The request\<close>

definition chain_binding :: "string \<Rightarrow> string \<Rightarrow> string \<Rightarrow> string \<Rightarrow> string \<Rightarrow> string \<Rightarrow> string \<Rightarrow> string \<Rightarrow> exn + py" where
  "chain_binding repository repository_id base_sha candidate_head_sha candidate_diff_sha256 evidence fixed_version profile =
     (let binding = PDict
        [(''repository'', PStr repository), (''repositoryId'', PStr repository_id), (''baseSha'', PStr base_sha),
         (''candidateHeadSha'', PStr candidate_head_sha), (''candidateDiffSha256'', PStr candidate_diff_sha256),
         (''evidenceId'', PStr evidence), (''fixedVersion'', PStr fixed_version), (''acceptanceProfile'', PStr profile)]
      in bindE (exact_keys binding CHAIN_BINDING_KEYS ''Security chain binding'') (\<lambda>_.
         bindE (checks
           [(repository = PRODUCER_REPOSITORY \<and> repository_id = PRODUCER_REPOSITORY_ID,
               ContractError ''Security chain repository identity is unauthorized''),
            (oid base_sha \<and> oid candidate_head_sha, ContractError ''Security chain commit identity is invalid''),
            (digest candidate_diff_sha256, ContractError ''Security chain candidate digest is invalid''),
            (evidence_id evidence, ContractError ''Security chain evidenceId is invalid''),
            (semver fixed_version, ContractError ''Security chain fixedVersion is invalid''),
            (profile_name profile, ContractError ''Security chain acceptanceProfile is invalid'')]) (\<lambda>_.
         Inr binding)))"

definition compute_chain_id :: "(string \<Rightarrow> string) \<Rightarrow> string \<Rightarrow> string \<Rightarrow> string \<Rightarrow> string \<Rightarrow> string \<Rightarrow> string \<Rightarrow> string
    \<Rightarrow> string \<Rightarrow> exn + string" where
  "compute_chain_id sha repository repository_id base_sha candidate_head_sha candidate_diff_sha256 evidence fixed_version profile =
     bindE (chain_binding repository repository_id base_sha candidate_head_sha candidate_diff_sha256 evidence
              fixed_version profile) (canonical_sha256 sha)"

definition is_recovery_request :: "py \<Rightarrow> bool" where
  "is_recovery_request request = py_eq (get_or request ''event'' PNone) (PStr RECOVERY_EVENT)"

definition exact_recovery_binding :: "(string \<times> string) list" where
  "exact_recovery_binding =
     [(''candidateBaseSha'', RECOVERY_CANDIDATE_BASE_SHA), (''candidateHeadSha'', RECOVERY_CANDIDATE_HEAD_SHA),
      (''candidateDiffSha256'', RECOVERY_CANDIDATE_DIFF_SHA256), (''evidenceId'', RECOVERY_EVIDENCE_ID),
      (''fixedVersion'', RECOVERY_FIXED_VERSION), (''acceptanceProfile'', RECOVERY_ACCEPTANCE_PROFILE),
      (''metadataSha256'', RECOVERY_METADATA_SHA256), (''issuedAt'', RECOVERY_ISSUED_AT),
      (''expiresAt'', RECOVERY_EXPIRES_AT)]"

text \<open>A field that is a trimmed string of a given form.\<close>

definition string_field :: "py \<Rightarrow> string \<Rightarrow> (string \<Rightarrow> bool) \<Rightarrow> string \<Rightarrow> exn + string" where
  "string_field request name form message =
     bindE (require_string (get_or request name PNone) name) (\<lambda>s.
     bindE (need (form s) message) (\<lambda>_. Inr s))"

definition request_identity :: "py \<Rightarrow> string \<Rightarrow> exn + unit" where
  "request_identity request repository =
     (let field = (\<lambda>k. get_or request k PNone) in
      bindE (exact_keys request REQUEST_KEYS ''Security intake request'') (\<lambda>_.
      bindE (checks
        [(field ''schemaVersion'' = PInt INTAKE_REQUEST_SCHEMA_VERSION, ContractError ''Security intake schemaVersion must be 2''),
         (repository = PRODUCER_REPOSITORY \<and> py_eq (field ''repository'') (PStr repository),
            ContractError ''Security intake repository does not match the exact producer repository''),
         (py_eq (field ''repositoryId'') (PStr PRODUCER_REPOSITORY_ID),
            ContractError ''Security intake repositoryId does not match the exact producer repository'')]) (\<lambda>_.
      bindE (py_in (field ''event'') [''mlx90-security-release'', RECOVERY_EVENT]) (\<lambda>known.
      checks
        [(known, ContractError ''Security intake event is unsupported''),
         (field ''humanActions'' = PInt 0, ContractError ''Security Zero-Touch intake must declare humanActions=0'')]))))"

definition request_range :: "py \<Rightarrow> exn + unit" where
  "request_range request =
     (let field = (\<lambda>k. get_or request k PNone) in
      bindE (forE (\<lambda>k. bindE (string_field request k oid (k @ '' must be a full lowercase commit SHA'')) (\<lambda>_. Inr ()))
               [''baseSha'', ''candidateBaseSha'', ''candidateHeadSha'']) (\<lambda>_.
      checks
        [(\<not> py_eq (field ''candidateBaseSha'') (field ''candidateHeadSha''),
            ContractError ''candidate source range must not be empty''),
         (is_recovery_request request \<or> py_eq (field ''candidateBaseSha'') (field ''baseSha''),
            ContractError ''candidate source range must start at the authorized protected-main SHA'')]))"

definition validate_request :: "(string \<Rightarrow> string) \<Rightarrow> py \<Rightarrow> string \<Rightarrow> int \<Rightarrow> exn + py" where
  "validate_request sha request repository now =
     (let field = (\<lambda>k. get_or request k PNone) in
      bindE (request_identity request repository) (\<lambda>_.
      bindE (request_range request) (\<lambda>_.
      bindE (string_field request ''candidateDiffSha256'' digest ''candidateDiffSha256 must be a canonical SHA-256 digest'') (\<lambda>diff.
      bindE (string_field request ''metadataSha256'' digest ''metadataSha256 must be a canonical SHA-256 digest'') (\<lambda>_.
      bindE (string_field request ''evidenceId'' evidence_id ''evidenceId is invalid'') (\<lambda>evidence.
      bindE (string_field request ''fixedVersion'' semver ''fixedVersion must be stable SemVer'') (\<lambda>version.
      bindE (string_field request ''acceptanceProfile'' profile_name ''acceptanceProfile is invalid'') (\<lambda>profile.
      bindE (string_field request ''candidateRef'' (\<lambda>s. ref_name s \<and> \<not> prefix ''/'' s) ''candidateRef is invalid'') (\<lambda>candidate_ref.
      bindE (need (candidate_ref = ''develop'') ''candidateRef must be the protected develop integration branch'') (\<lambda>_.
      bindE (timestamp (field ''issuedAt'') ''issuedAt'') (\<lambda>issued.
      bindE (timestamp (field ''expiresAt'') ''expiresAt'') (\<lambda>expires.
      bindE (checks
        [(issued < expires, ContractError ''Security intake validity interval is empty''),
         (issued \<le> now \<and> now < expires, ContractError ''Security intake request is not currently valid''),
         (\<not> is_recovery_request request
            \<or> list_all (\<lambda>(k, expected). py_eq (field k) (PStr expected)) exact_recovery_binding,
            ContractError ''Security recovery request differs from the one-time approved binding'')]) (\<lambda>_.
      bindE (compute_chain_id sha repository PRODUCER_REPOSITORY_ID (the_str (field ''baseSha''))
               (the_str (field ''candidateHeadSha'')) diff evidence version profile) (\<lambda>expected_chain_id.
      bindE (need (py_eq (field ''chainId'') (PStr expected_chain_id))
               ''Security intake chainId does not match its canonical binding'') (\<lambda>_.
      Inr request)))))))))))))))"

section \<open>Metadata, profiles and fragments\<close>

definition validate_metadata_payload :: "py \<Rightarrow> string \<Rightarrow> string \<Rightarrow> string \<Rightarrow> int \<Rightarrow> exn + py" where
  "validate_metadata_payload metadata evidence version profile checked_at =
     (let field = (\<lambda>k. get_or metadata k PNone); identifiers = field ''securityIdentifiers'';
          validity = field ''validity'' in
      bindE (exact_keys metadata METADATA_KEYS ''Security release metadata'') (\<lambda>_.
      bindE (checks
        [(field ''schemaVersion'' = PInt 1, ContractError ''Security release metadata schemaVersion must be 1''),
         (py_eq (field ''evidenceId'') (PStr evidence), ContractError ''Security metadata evidenceId does not match the intake''),
         (py_eq (field ''fixedVersion'') (PStr version), ContractError ''Security metadata fixedVersion does not match the intake''),
         (py_eq (field ''acceptanceProfile'') (PStr profile),
            ContractError ''Security metadata acceptanceProfile does not match the intake''),
         (is_list identifiers \<and> the_list identifiers \<noteq> []
            \<and> list_all (\<lambda>i. is_str i \<and> security_id (the_str i)) (the_list identifiers) \<and> distinct (the_list identifiers),
            ContractError ''Security metadata identifiers are invalid'')]) (\<lambda>_.
      bindE (require_string (field ''affectedVersion'') ''affectedVersion'') (\<lambda>affected.
      bindE (checks
        [(semver affected \<and> affected \<noteq> version, ContractError ''Security metadata affectedVersion is invalid''),
         (py_eq (field ''consumers'') (PList [PStr CONSUMER_REPOSITORY]),
            ContractError ''Security metadata consumer allowlist must contain only the exact MLX-90 consumer''),
         (is_dict validity, ContractError ''Security metadata validity must be an object'')]) (\<lambda>_.
      bindE (exact_keys validity VALIDITY_KEYS ''Security release validity'') (\<lambda>_.
      bindE (need (get_or validity ''revoked'' PNone = PBool False) ''Security release metadata is revoked'') (\<lambda>_.
      bindE (timestamp (field ''createdAt'') ''createdAt'') (\<lambda>created.
      bindE (timestamp (get_or validity ''notBefore'' PNone) ''validity.notBefore'') (\<lambda>not_before.
      bindE (timestamp (get_or validity ''expiresAt'' PNone) ''validity.expiresAt'') (\<lambda>expires.
      bindE (checks
        [(not_before \<le> created \<and> created < expires,
            ContractError ''Security metadata createdAt is outside its validity interval''),
         (not_before \<le> checked_at \<and> checked_at < expires,
            ContractError ''Security release metadata is not currently valid'')]) (\<lambda>_.
      Inr metadata)))))))))))"

definition validate_request_metadata_binding :: "py \<Rightarrow> py \<Rightarrow> exn + unit" where
  "validate_request_metadata_binding request metadata = checks
     [(py_eq (get_or request ''issuedAt'' PNone) (get_or metadata ''createdAt'' PNone),
         ContractError ''Security intake issuedAt differs from metadata createdAt''),
      (py_eq (get_or request ''expiresAt'' PNone) (get_or (get_or metadata ''validity'' PNone) ''expiresAt'' PNone),
         ContractError ''Security intake expiresAt differs from metadata validity.expiresAt'')]"

definition check_profile :: "string \<times> py \<Rightarrow> exn + unit" where
  "check_profile item = (case item of (name, profile) \<Rightarrow>
     bindE (need (profile_name name) ''acceptance-profile registry contains an invalid profile id'') (\<lambda>_.
     bindE (need (is_dict profile) (''acceptance profile '' @ name @ '' must be an object'')) (\<lambda>_.
     bindE (exact_keys profile PROFILE_KEYS (''acceptance profile '' @ name)) (\<lambda>_.
     bindE (require_string (get_or profile ''description'' PNone) (''acceptance profile '' @ name @ '' description'')) (\<lambda>_.
     need (is_bool (get_or profile ''releaseEligible'' PNone))
       (''acceptance profile '' @ name @ '' releaseEligible must be boolean''))))))"

definition validate_profile_registry :: "py \<Rightarrow> string \<Rightarrow> exn + py" where
  "validate_profile_registry registry profile_id =
     (let profiles = get_or registry ''profiles'' PNone; selected = get_or profiles profile_id PNone in
      bindE (exact_keys registry [''schemaVersion'', ''profiles''] ''acceptance-profile registry'') (\<lambda>_.
      bindE (checks
        [(get_or registry ''schemaVersion'' PNone = PInt 1, ContractError ''acceptance-profile registry is unsupported''),
         (is_dict profiles \<and> the_items profiles \<noteq> [],
            ContractError ''acceptance-profile registry profiles must be a non-empty object'')]) (\<lambda>_.
      bindE (forE check_profile (the_items profiles)) (\<lambda>_.
      bindE (need (is_dict selected \<and> get_or selected ''releaseEligible'' PNone = PBool True)
               ''acceptance profile was not pre-approved on protected main'') (\<lambda>_.
      Inr selected)))))"

definition fragment_line :: "string \<Rightarrow> string" where
  "fragment_line entry = ''  - '' @ json_string entry"

definition canonical_security_fragment_bytes :: "py list \<Rightarrow> exn + string" where
  "canonical_security_fragment_bytes entries =
     bindE (need (1 \<le> length entries \<and> length entries \<le> 64)
              ''security_fixes entries must be a list containing 1..64 items'') (\<lambda>_.
     bindE (mapE (\<lambda>e. require_string e ''security_fixes entry'') entries) (\<lambda>validated.
     let raw = join_with [newline] ([''---'', ''security_fixes:''] @ map fragment_line validated) @ [newline] in
     bindE (need (length raw \<le> MAX_SECURITY_FRAGMENT_BYTES)
              (''security_fixes fragment exceeds '' @ dec MAX_SECURITY_FRAGMENT_BYTES @ '' bytes'')) (\<lambda>_.
     Inr raw)))"

definition fragment_decoder :: "(string \<Rightarrow> exn + py) \<Rightarrow> string \<Rightarrow> decoder" where
  "fragment_decoder flt label = \<lparr>dec_pairs = (\<lambda>kvs. Inr (PDict (dict_update [] kvs))),
     dec_constant = (\<lambda>name. fail (label @ '' has invalid scalar: '' @ name)), dec_float = flt\<rparr>"

definition fragment_entry :: "(string \<Rightarrow> exn + py) \<Rightarrow> string \<Rightarrow> string \<Rightarrow> exn + string" where
  "fragment_entry flt label line =
     bindE (need (prefix ''  - '' line) (label @ '' must use canonical repository security_fixes YAML'')) (\<lambda>_.
     bindE (rescue (\<lambda>e. e = JSONDecodeError) (ContractError (label @ '' contains an invalid quoted YAML scalar''))
              (json_loads (fragment_decoder flt label) (drop 4 line))) (\<lambda>entry.
     bindE (need (is_str entry) (label @ '' security_fixes entries must be strings'')) (\<lambda>_.
     require_string entry (label @ '' security_fixes entry''))))"

definition validate_security_fragment :: "(string \<Rightarrow> exn + py) \<Rightarrow> string \<Rightarrow> string \<Rightarrow> exn + string list" where
  "validate_security_fragment flt raw label =
     bindE (need (length raw \<le> MAX_SECURITY_FRAGMENT_BYTES)
              (label @ '' exceeds '' @ dec MAX_SECURITY_FRAGMENT_BYTES @ '' bytes'')) (\<lambda>_.
     bindE (need (utf8_valid raw) (label @ '' is not valid UTF-8 YAML'')) (\<lambda>_.
     let lines = py_splitlines raw in
     bindE (need (3 \<le> length lines \<and> take 2 lines = [''---'', ''security_fixes:''])
              (label @ '' must use canonical repository security_fixes YAML'')) (\<lambda>_.
     bindE (mapE (fragment_entry flt label) (drop 2 lines)) (\<lambda>entries.
     bindE (need (entries \<noteq> [] \<and> length entries \<le> 64)
              (label @ '' must contain 1..64 non-empty trimmed security_fixes entries'')) (\<lambda>_.
     bindE (canonical_security_fragment_bytes (map PStr entries)) (\<lambda>canonical_raw.
     bindE (need (raw = canonical_raw) (label @ '' must be canonical repository YAML with one trailing newline'')) (\<lambda>_.
     Inr entries)))))))"

definition validate_immutable_marker_changes :: "(string \<times> string) list \<Rightarrow> string \<Rightarrow> exn + unit" where
  "validate_immutable_marker_changes changes fixed_version = checks
     [(filter (\<lambda>(_, path). prefix ''.lit/security-releases/'' path) changes
         = [(''A'', ''.lit/security-releases/'' @ fixed_version @ ''.json'')],
         ContractError ''candidate must add exactly one immutable Security metadata file and preserve every existing marker''),
      (filter (\<lambda>(_, path). prefix ''.lit/security-release-intakes/'' path) changes = [],
         ContractError ''candidate must not create, modify, or delete App-owned Security intake receipts''),
      (\<not> list_ex (\<lambda>(_, path). path = ''.lit/security-release-profiles.json'') changes,
         ContractError ''candidate must not modify the protected-main Security profile registry'')]"

lemmas [run_simps] = is_upper_def is_lower_def is_upper_digit_def is_alnum_def class_name_def digest_def evidence_id_def
  plain_numeral_def semver_def path_char_def ref_name_def profile_name_def ghsa_part_def security_id_def canonical_time_def
  positive_numeral_def fragment_prefix_def fragment_path_def fail_def need_def py_in_def exact_keys_def require_string_def timestamp_def
  reject_duplicate_keys_def contract_decoder_def load_json_bytes_def canonical_json_bytes_def sha256_bytes_def canonical_sha256_def
  canonical_document_bytes_def read_bounded_regular_file_def load_json_file_def chain_binding_def compute_chain_id_def
  is_recovery_request_def exact_recovery_binding_def string_field_def request_identity_def request_range_def validate_request_def
  validate_metadata_payload_def validate_request_metadata_binding_def check_profile_def validate_profile_registry_def
  fragment_line_def canonical_security_fragment_bytes_def fragment_decoder_def fragment_entry_def validate_security_fragment_def
  validate_immutable_marker_changes_def

end
