(* ===== verification/Release_Receipt.thy ===== *)
theory Release_Receipt
  imports Release_Contract "HOL-Library.Product_Lexorder"
begin

text \<open>
  The receipt of a Security intake and the binding a release loads from it
  (\<open>scripts/security_release_contract.py\<close>): the result of an intake against its request, the
  receipt the release App signs for, and the selection of the pending marker of a release
  target in the checked-out tree.
\<close>

section \<open>The intake result\<close>

definition expected_result :: "py \<Rightarrow> (string \<times> py) list" where
  "expected_result request =
     (let field = (\<lambda>k. get_or request k PNone) in
      [(''chainId'', field ''chainId''),
       (''branch'', PStr (''security-release/'' @ the_str (field ''evidenceId''))),
       (''baseSha'', field ''baseSha''),
       (''candidateBaseSha'', field ''candidateBaseSha''),
       (''candidateHeadSha'', field ''candidateHeadSha''),
       (''candidateDiffSha256'', field ''candidateDiffSha256''),
       (''evidenceId'', field ''evidenceId''),
       (''fixedVersion'', field ''fixedVersion''),
       (''metadataPath'', PStr (''.lit/security-releases/'' @ the_str (field ''fixedVersion'') @ ''.json'')),
       (''metadataSha256'', field ''metadataSha256''),
       (''acceptanceProfile'', field ''acceptanceProfile''),
       (''humanActions'', PInt 0)])"

text \<open>
  \<open>str(v)\<close> of a value that is no string never matches the pattern of a digest. A sorted list
  without duplicates is strictly increasing.
\<close>

definition changed_paths_ok :: "py \<Rightarrow> string list \<Rightarrow> bool" where
  "changed_paths_ok v required \<longleftrightarrow> is_list v \<and> the_list v \<noteq> []
     \<and> list_all (\<lambda>p. is_str p \<and> the_str p \<noteq> []) (the_list v)
     \<and> sorted_wrt (<) (map the_str (the_list v)) \<and> set required \<subseteq> set (map the_str (the_list v))"

definition validate_intake_result :: "py \<Rightarrow> py \<Rightarrow> exn + py" where
  "validate_intake_result request verified =
     (let field = (\<lambda>k. get_or verified k PNone); fragment = field ''changelogFragmentPath''; fragment_digest = field ''changelogFragmentSha256'' in
      bindE (exact_keys verified VERIFIED_KEYS ''verified Security intake'') (\<lambda>_.
      bindE (checks
        [(field ''schemaVersion'' = PInt INTAKE_RESULT_SCHEMA_VERSION, ContractError ''verified Security intake schemaVersion must be 2''),
         (field ''humanActions'' = PInt 0, ContractError ''verified Security intake must declare humanActions=0'')]) (\<lambda>_.
      bindE (forE (\<lambda>(k, expected). need (py_eq (field k) expected)
               (''verified Security intake '' @ k @ '' differs from its request'')) (expected_result request)) (\<lambda>_.
      bindE (checks
        [(is_str fragment \<and> fragment_path (the_str fragment),
            ContractError ''verified Security intake changelog fragment path is invalid''),
         (is_str fragment_digest \<and> digest (the_str fragment_digest),
            ContractError ''verified Security intake changelog fragment digest is invalid''),
         (changed_paths_ok (field ''changedPaths'')
            [''.lit/security-releases/'' @ the_str (get_or request ''fixedVersion'' PNone) @ ''.json'', the_str fragment],
            ContractError ''verified Security intake changedPaths are incomplete, duplicate, or unsorted'')]) (\<lambda>_.
      Inr verified)))))"

section \<open>The receipt\<close>

definition workflow_path :: string where
  "workflow_path = ''.github/workflows/security-release-intake.yml''"

definition expected_ref :: string where
  "expected_ref = PRODUCER_REPOSITORY @ ''/.github/workflows/security-release-intake.yml@refs/heads/main''"

definition numeral_field :: "py \<Rightarrow> bool" where
  "numeral_field v \<longleftrightarrow> is_str v \<and> positive_numeral (the_str v)"

definition controller_ok :: "py \<Rightarrow> py \<Rightarrow> bool" where
  "controller_ok request controller \<longleftrightarrow>
     (let field = (\<lambda>k. get_or controller k PNone) in
      py_eq (field ''path'') (PStr workflow_path) \<and> py_eq (field ''ref'') (PStr expected_ref)
      \<and> py_eq (field ''sourceSha'') (get_or request ''baseSha'' PNone)
      \<and> py_eq (field ''event'') (PStr ''workflow_dispatch'') \<and> py_eq (field ''gitRef'') (PStr ''refs/heads/main'')
      \<and> py_eq (field ''actor'') (PStr RELEASE_APP_LOGIN) \<and> py_eq (field ''triggeringActor'') (PStr RELEASE_APP_LOGIN)
      \<and> numeral_field (field ''runId'') \<and> numeral_field (field ''runAttempt''))"

definition verify_intake_receipt :: "(string \<Rightarrow> string) \<Rightarrow> py \<Rightarrow> int \<Rightarrow> exn + py" where
  "verify_intake_receipt sha receipt checked_at =
     (let field = (\<lambda>k. get_or receipt k PNone); request = field ''request''; verified = field ''verified'';
          controller = field ''controller'' in
      bindE (exact_keys receipt INTAKE_RECEIPT_KEYS ''Security intake receipt'') (\<lambda>_.
      bindE (checks
        [(field ''schemaVersion'' = PInt INTAKE_RECEIPT_SCHEMA_VERSION, ContractError ''Security intake receipt schemaVersion must be 2''),
         (is_dict request \<and> is_dict verified,
            ContractError ''Security intake receipt request and verified values must be objects'')]) (\<lambda>_.
      bindE (validate_request sha request PRODUCER_REPOSITORY checked_at) (\<lambda>_.
      bindE (validate_intake_result request verified) (\<lambda>_.
      bindE (checks
        [(py_eq (field ''chainId'') (get_or request ''chainId'' PNone),
            ContractError ''Security intake receipt chainId differs from its request''),
         (py_eq (field ''automation'') RELEASE_APP_IDENTITY,
            ContractError ''Security intake receipt automation identity is unauthorized''),
         (is_dict controller, ContractError ''Security intake receipt controller must be an object'')]) (\<lambda>_.
      bindE (exact_keys controller CONTROLLER_KEYS ''Security intake receipt controller'') (\<lambda>_.
      bindE (need (controller_ok request controller) ''Security intake receipt controller identity is unauthorized'') (\<lambda>_.
      Inr receipt))))))))"

text \<open>The run of the workflow that builds a receipt.\<close>

record workflow_run =
  wf_run_id :: string
  wf_attempt :: string
  wf_ref :: string
  wf_event :: string
  wf_actor :: string
  wf_triggering_actor :: string

text \<open>\<open>automation\<close> is a copy of the observed identity, equal to it.\<close>

definition intake_receipt :: "py \<Rightarrow> py \<Rightarrow> workflow_run \<Rightarrow> py \<Rightarrow> py" where
  "intake_receipt request verified run automation = PDict
     [(''schemaVersion'', PInt INTAKE_RECEIPT_SCHEMA_VERSION),
      (''chainId'', get_or request ''chainId'' PNone),
      (''request'', request),
      (''verified'', verified),
      (''automation'', automation),
      (''controller'', PDict
        [(''path'', PStr workflow_path), (''ref'', PStr (wf_ref run)), (''sourceSha'', get_or request ''baseSha'' PNone),
         (''runId'', PStr (wf_run_id run)), (''runAttempt'', PStr (wf_attempt run)), (''event'', PStr (wf_event run)),
         (''gitRef'', PStr ''refs/heads/main''), (''actor'', PStr (wf_actor run)),
         (''triggeringActor'', PStr (wf_triggering_actor run))])]"

definition build_intake_receipt :: "(string \<Rightarrow> string) \<Rightarrow> py \<Rightarrow> py \<Rightarrow> int \<Rightarrow> workflow_run \<Rightarrow> py \<Rightarrow> exn + py" where
  "build_intake_receipt sha request verified checked_at run observed_automation =
     bindE (validate_request sha request PRODUCER_REPOSITORY checked_at) (\<lambda>_.
     bindE (validate_intake_result request verified) (\<lambda>_.
     bindE (need (py_eq observed_automation RELEASE_APP_IDENTITY) ''observed release automation identity is unauthorized'') (\<lambda>_.
     let receipt = intake_receipt request verified run observed_automation in
     bindE (verify_intake_receipt sha receipt checked_at) (\<lambda>_. Inr receipt))))"

section \<open>The binding of a release\<close>

definition metadata_parts :: "string \<Rightarrow> string list" where
  "metadata_parts version = [''.lit'', ''security-releases'', version @ ''.json'']"

definition intake_parts :: "string \<Rightarrow> string list" where
  "intake_parts version = [''.lit'', ''security-release-intakes'', version @ ''.json'']"

definition posix :: "string list \<Rightarrow> string" where
  "posix parts = join_with ''/'' parts"

text \<open>What a release keeps of the marker, after the checks on the three files.\<close>

definition binding_of :: "(string \<Rightarrow> string) \<Rightarrow> string \<Rightarrow> py \<Rightarrow> string \<Rightarrow> string \<Rightarrow> string \<Rightarrow> py" where
  "binding_of sha version receipt metadata_raw intake_raw fragment_raw =
     (let request = get_or receipt ''request'' PNone; verified = get_or receipt ''verified'' PNone in
      PDict
        [(''chain_id'', get_or request ''chainId'' PNone),
         (''evidence_id'', get_or request ''evidenceId'' PNone),
         (''fixed_version'', PStr version),
         (''acceptance_profile'', get_or request ''acceptanceProfile'' PNone),
         (''candidate_diff_sha256'', get_or request ''candidateDiffSha256'' PNone),
         (''metadata_path'', PStr (posix (metadata_parts version))),
         (''metadata_sha256'', PStr (sha256_bytes sha metadata_raw)),
         (''intake_receipt_path'', PStr (posix (intake_parts version))),
         (''intake_receipt_sha256'', PStr (sha256_bytes sha intake_raw)),
         (''changelog_fragment_path'', get_or verified ''changelogFragmentPath'' PNone),
         (''changelog_fragment_sha256'', PStr (sha256_bytes sha fragment_raw)),
         (''human_actions'', PInt 0)])"

definition check_metadata :: "(string \<Rightarrow> string) \<Rightarrow> string \<Rightarrow> py \<Rightarrow> string \<Rightarrow> py \<Rightarrow> int \<Rightarrow> exn + unit" where
  "check_metadata sha version receipt metadata_raw metadata checked_at =
     (let request = get_or receipt ''request'' PNone; verified = get_or receipt ''verified'' PNone;
          expected = PStr (sha256_bytes sha metadata_raw) in
      bindE (checks
        [(py_eq (get_or request ''fixedVersion'' PNone) (PStr version),
            ContractError ''Security intake receipt fixedVersion differs from its path''),
         (py_eq (get_or request ''metadataSha256'' PNone) expected \<and> py_eq (get_or verified ''metadataSha256'' PNone) expected,
            ContractError ''Security metadata digest differs from the immutable intake binding'')]) (\<lambda>_.
      bindE (validate_metadata_payload metadata (the_str (get_or request ''evidenceId'' PNone)) version
               (the_str (get_or request ''acceptanceProfile'' PNone)) checked_at) (\<lambda>_.
      validate_request_metadata_binding request metadata)))"

definition check_fragment :: "(string \<Rightarrow> string) \<Rightarrow> (string \<Rightarrow> exn + py) \<Rightarrow> string \<Rightarrow> py \<Rightarrow> string \<Rightarrow> exn + unit" where
  "check_fragment sha flt version receipt fragment_raw =
     (let request = get_or receipt ''request'' PNone; verified = get_or receipt ''verified'' PNone;
          fragment_digest = sha256_bytes sha fragment_raw in
      bindE (if is_recovery_request request
             then need (version = RECOVERY_FIXED_VERSION
                     \<and> py_eq (get_or verified ''changelogFragmentPath'' PNone) (PStr RECOVERY_FRAGMENT_PATH)
                     \<and> fragment_digest = RECOVERY_FRAGMENT_SHA256)
                    ''Security recovery changelog fragment differs from the one-time approved binding''
             else bindE (validate_security_fragment flt fragment_raw ''Security changelog fragment'') (\<lambda>_. Inr ())) (\<lambda>_.
      need (py_eq (get_or verified ''changelogFragmentSha256'' PNone) (PStr fragment_digest))
        ''Security changelog fragment digest differs from the immutable intake binding''))"

definition load_marker :: "(string \<Rightarrow> string) \<Rightarrow> (string \<Rightarrow> exn + py) \<Rightarrow> node \<Rightarrow> string \<Rightarrow> int \<Rightarrow> exn + py" where
  "load_marker sha flt tree version checked_at =
     bindE (read_bounded_regular_file tree (metadata_parts version) ''Security metadata'' MAX_JSON_BYTES) (\<lambda>metadata_raw.
     bindE (need (metadata_raw \<noteq> []) ''Security metadata must be a non-empty regular non-symlink file'') (\<lambda>_.
     bindE (load_json_bytes flt metadata_raw ''Security release metadata'') (\<lambda>metadata.
     bindE (read_bounded_regular_file tree (intake_parts version) ''Security intake receipt'' MAX_JSON_BYTES) (\<lambda>intake_raw.
     bindE (load_json_bytes flt intake_raw ''Security intake receipt'') (\<lambda>receipt.
     bindE (canonical_document_bytes receipt) (\<lambda>canonical_raw.
     bindE (need (intake_raw = canonical_raw) ''Security intake receipt is not canonical JSON'') (\<lambda>_.
     bindE (verify_intake_receipt sha receipt checked_at) (\<lambda>_.
     bindE (check_metadata sha version receipt metadata_raw metadata checked_at) (\<lambda>_.
     let request = get_or receipt ''request'' PNone; verified = get_or receipt ''verified'' PNone in
     bindE (read_bounded_regular_file tree (split_on (CHR 0x2F) (the_str (get_or verified ''changelogFragmentPath'' PNone)))
              ''Security changelog fragment'' MAX_SECURITY_FRAGMENT_BYTES) (\<lambda>fragment_raw.
     bindE (check_fragment sha flt version receipt fragment_raw) (\<lambda>_.
     bindE (load_json_file flt tree [''.lit'', ''security-release-profiles.json'']
              ''protected-main acceptance-profile registry'') (\<lambda>profiles.
     bindE (validate_profile_registry profiles (the_str (get_or request ''acceptanceProfile'' PNone))) (\<lambda>_.
     Inr (binding_of sha version receipt metadata_raw intake_raw fragment_raw))))))))))))))"

definition marker_exists :: "node \<Rightarrow> string list \<Rightarrow> bool" where
  "marker_exists tree parts \<longleftrightarrow> path_exists tree parts \<or> path_is_symlink tree parts"

definition load_security_binding :: "(string \<Rightarrow> string) \<Rightarrow> (string \<Rightarrow> exn + py) \<Rightarrow> node \<Rightarrow> string \<Rightarrow> int \<Rightarrow> exn + py option" where
  "load_security_binding sha flt tree version checked_at =
     (let metadata_exists = marker_exists tree (metadata_parts version);
          intake_exists = marker_exists tree (intake_parts version) in
      bindE (need (semver version) ''Security binding version must be stable SemVer'') (\<lambda>_.
      if \<not> metadata_exists \<and> \<not> intake_exists then Inr None
      else bindE (need (metadata_exists = intake_exists)
                    ''partial Security marker: metadata and App-owned intake receipt must exist together'') (\<lambda>_.
           bindE (load_marker sha flt tree version checked_at) (\<lambda>binding. Inr (Some binding)))))"

section \<open>The pending marker\<close>

type_synonym version = "nat \<times> nat \<times> nat"

definition version_of :: "string \<Rightarrow> exn + version" where
  "version_of s = bindE (mapE int_digits (split_on (CHR ''.'') s)) (\<lambda>ps. case ps of
     [major, minor, patch] \<Rightarrow> Inr (major, minor, patch) | _ \<Rightarrow> Inl (ValueError ''unpack''))"

definition version_text :: "version \<Rightarrow> string" where
  "version_text v = (case v of (major, minor, patch) \<Rightarrow> join_with ''.'' (map dec [major, minor, patch]))"

definition marker_entry :: "string \<Rightarrow> version list \<Rightarrow> string \<times> node \<Rightarrow> exn + version list" where
  "marker_entry relative found item = (case item of (name, n) \<Rightarrow>
     if name = ''.gitkeep'' then Inr found
     else let stem = removesuffix ''.json'' name in
       bindE (need (suffix ''.json'' name \<and> semver stem)
                (''Security marker namespace contains an invalid entry: '' @ relative @ ''/'' @ name)) (\<lambda>_.
       bindE (need (\<not> is_link_node n \<and> is_file_node n)
                (''Security marker must be a regular non-symlink file: '' @ relative @ ''/'' @ name)) (\<lambda>_.
       bindE (version_of stem) (\<lambda>v. Inr (found @ [v])))))"

definition security_marker_versions :: "node \<Rightarrow> string \<Rightarrow> exn + version list" where
  "security_marker_versions tree relative =
     (let parts = split_on (CHR 0x2F) relative in
      if \<not> path_exists tree parts \<and> \<not> path_is_symlink tree parts then Inr []
      else bindE (need (\<not> path_is_symlink tree parts \<and> path_is_dir tree parts)
                    (''Security marker namespace '' @ relative @ '' must be a regular directory'')) (\<lambda>_.
           foldE (marker_entry relative) [] (path_entries tree parts)))"

definition load_release_security_binding ::
    "(string \<Rightarrow> string) \<Rightarrow> (string \<Rightarrow> exn + py) \<Rightarrow> node \<Rightarrow> string \<Rightarrow> string \<Rightarrow> int \<Rightarrow> exn + py option" where
  "load_release_security_binding sha flt tree current_version target_version checked_at =
     bindE (need (semver current_version \<and> semver target_version) ''release Security marker versions must be stable SemVer'') (\<lambda>_.
     bindE (version_of current_version) (\<lambda>current.
     bindE (version_of target_version) (\<lambda>target.
     bindE (need (current < target) ''release Security marker target must be newer than the current version'') (\<lambda>_.
     bindE (security_marker_versions tree ''.lit/security-releases'') (\<lambda>metadata_versions.
     bindE (security_marker_versions tree ''.lit/security-release-intakes'') (\<lambda>intake_versions.
     let pending = filter (\<lambda>v. current < v) (metadata_versions @ intake_versions) in
     bindE (need (pending = [] \<or> set pending = {target})
              (''pending Security marker does not match the selected release target: ''
                 @ join_with '', '' (map version_text (sort (remdups pending))))) (\<lambda>_.
     if target \<notin> set pending then Inr None
     else load_security_binding sha flt tree target_version checked_at)))))))"

lemmas [run_simps] = expected_result_def changed_paths_ok_def validate_intake_result_def workflow_path_def expected_ref_def
  numeral_field_def controller_ok_def verify_intake_receipt_def intake_receipt_def build_intake_receipt_def metadata_parts_def
  intake_parts_def posix_def binding_of_def check_metadata_def check_fragment_def load_marker_def marker_exists_def
  load_security_binding_def version_of_def version_text_def marker_entry_def security_marker_versions_def
  load_release_security_binding_def

end
