(* ===== verification/Release_Chain.thy ===== *)
theory Release_Chain
  imports Release_Receipt
begin

text \<open>
  What the documents of the Security release chain guarantee: the binding a release loads is
  about the regular files of the checked-out tree, a pending marker excludes a normal
  release, a receipt survives its own serialization, and a changelog fragment is accepted
  exactly in its canonical form.
\<close>

section \<open>Reading below the trusted root\<close>

lemma read_bounded_Inr:
  assumes "read_bounded_regular_file tree parts label limit = Inr raw"
  shows "\<exists>st_size. lstat tree parts = Some (Regular st_size raw) \<and> length raw \<le> limit"
proof -
  from assms have p: "parts \<noteq> []" by (auto simp: read_bounded_regular_file_def bindE_eq_Inr)
  from assms obtain n where o: "open_beneath tree parts = Inr n"
    and r: "(case n of Regular st_size content \<Rightarrow>
         bindE (need (st_size \<le> limit) (label @ '' exceeds '' @ dec limit @ '' bytes'')) (\<lambda>_.
         let raw = take (limit + 1) content in
         bindE (need (length raw \<le> limit) (label @ '' exceeds '' @ dec limit @ '' bytes'')) (\<lambda>_. Inr raw))
     | _ \<Rightarrow> fail (label @ '' must be a regular non-symlink file'')) = Inr raw"
    unfolding read_bounded_regular_file_def bindE_eq_Inr rescue_eq_Inr by blast
  from r obtain s c where n: "n = Regular s c" "raw = take (Suc limit) c" "length raw \<le> limit"
    by (cases n) (auto simp: bindE_eq_Inr Let_def)
  from n(2,3) have "raw = c" by simp
  with n have "n = Regular s raw \<and> length raw \<le> limit" by simp
  with open_beneath_lstat [OF o p] show ?thesis by auto
qed

section \<open>The binding of a release\<close>

lemma load_marker_Inr:
  assumes "load_marker sha flt tree version checked_at = Inr b"
  obtains metadata_raw metadata intake_raw fragment_raw receipt v u u' where
    "read_bounded_regular_file tree (metadata_parts version) ''Security metadata'' MAX_JSON_BYTES = Inr metadata_raw"
    "read_bounded_regular_file tree (intake_parts version) ''Security intake receipt'' MAX_JSON_BYTES = Inr intake_raw"
    "read_bounded_regular_file tree
       (split_on (CHR 0x2F) (the_str (get_or (get_or receipt ''verified'' PNone) ''changelogFragmentPath'' PNone)))
       ''Security changelog fragment'' MAX_SECURITY_FRAGMENT_BYTES = Inr fragment_raw"
    "load_json_bytes flt intake_raw ''Security intake receipt'' = Inr receipt"
    "canonical_document_bytes receipt = Inr intake_raw"
    "verify_intake_receipt sha receipt checked_at = Inr v"
    "check_metadata sha version receipt metadata_raw metadata checked_at = Inr u"
    "check_fragment sha flt version receipt fragment_raw = Inr u'"
    "b = binding_of sha version receipt metadata_raw intake_raw fragment_raw"
proof -
  show thesis
    using assms unfolding load_marker_def Let_def bindE_eq_Inr need_eq_Inr sum.inject
    by (elim exE conjE) (simp only:, rule that, (assumption | rule refl | erule sym)+)
qed

text \<open>
  A binding is about regular files of the tree itself: no symbolic link stands for the
  metadata, the receipt or the fragment, and the digests of the binding are those of the
  bytes of these files.
\<close>

definition bound_file :: "(string \<Rightarrow> string) \<Rightarrow> node \<Rightarrow> string list \<Rightarrow> py \<Rightarrow> bool" where
  "bound_file sha tree parts sha256 \<longleftrightarrow>
     (\<exists>st_size raw. lstat tree parts = Some (Regular st_size raw) \<and> sha256 = PStr (sha256_bytes sha raw))"

lemma read_bounded_bound:
  "read_bounded_regular_file tree parts label limit = Inr raw \<Longrightarrow> bound_file sha tree parts (PStr (sha256_bytes sha raw))"
  using read_bounded_Inr by (fastforce simp: bound_file_def)

lemma load_marker_bound:
  assumes "load_marker sha flt tree version checked_at = Inr b"
  shows "get_or b ''fixed_version'' PNone = PStr version \<and>
    get_or b ''metadata_path'' PNone = PStr (posix (metadata_parts version)) \<and>
    bound_file sha tree (metadata_parts version) (get_or b ''metadata_sha256'' PNone) \<and>
    bound_file sha tree (intake_parts version) (get_or b ''intake_receipt_sha256'' PNone) \<and>
    bound_file sha tree (split_on (CHR 0x2F) (the_str (get_or b ''changelog_fragment_path'' PNone)))
      (get_or b ''changelog_fragment_sha256'' PNone)"
  using assms
proof (rule load_marker_Inr)
  fix metadata_raw intake_raw fragment_raw receipt
  assume r: "read_bounded_regular_file tree (metadata_parts version) ''Security metadata'' MAX_JSON_BYTES = Inr metadata_raw"
    "read_bounded_regular_file tree (intake_parts version) ''Security intake receipt'' MAX_JSON_BYTES = Inr intake_raw"
    "read_bounded_regular_file tree
       (split_on (CHR 0x2F) (the_str (get_or (get_or receipt ''verified'' PNone) ''changelogFragmentPath'' PNone)))
       ''Security changelog fragment'' MAX_SECURITY_FRAGMENT_BYTES = Inr fragment_raw"
  assume b: "b = binding_of sha version receipt metadata_raw intake_raw fragment_raw"
  show ?thesis
    unfolding b using r [THEN read_bounded_bound, of sha]
    by (simp add: binding_of_def Let_def get_or_def)
qed

lemma load_security_binding_Some:
  assumes "load_security_binding sha flt tree version checked_at = Inr (Some b)"
  shows "load_marker sha flt tree version checked_at = Inr b"
  using assms by (auto simp: load_security_binding_def Let_def bindE_eq_Inr split: if_splits)

section \<open>The pending marker\<close>

lemma load_release_Inr:
  assumes "load_release_security_binding sha flt tree current_version target_version checked_at = Inr r"
  obtains current target metadata_versions intake_versions where
    "semver target_version" "version_of current_version = Inr current" "version_of target_version = Inr target" "current < target"
    "security_marker_versions tree ''.lit/security-releases'' = Inr metadata_versions"
    "security_marker_versions tree ''.lit/security-release-intakes'' = Inr intake_versions"
    "\<forall>v \<in> set (metadata_versions @ intake_versions). current < v \<longrightarrow> v = target"
    "if target \<in> set (metadata_versions @ intake_versions)
     then load_security_binding sha flt tree target_version checked_at = Inr r else r = None"
proof -
  from assms obtain current target metadata_versions intake_versions where
    a: "semver target_version" "version_of current_version = Inr current" "version_of target_version = Inr target" "current < target"
      "security_marker_versions tree ''.lit/security-releases'' = Inr metadata_versions"
      "security_marker_versions tree ''.lit/security-release-intakes'' = Inr intake_versions"
    and p: "filter (\<lambda>v. current < v) (metadata_versions @ intake_versions) = []
      \<or> set (filter (\<lambda>v. current < v) (metadata_versions @ intake_versions)) = {target}"
    and r: "(if target \<notin> set (filter (\<lambda>v. current < v) (metadata_versions @ intake_versions)) then Inr None
      else load_security_binding sha flt tree target_version checked_at) = Inr r"
    unfolding load_release_security_binding_def Let_def bindE_eq_Inr need_eq_Inr by (elim exE conjE) blast
  show ?thesis
  proof (rule that [OF a])
    show "\<forall>v \<in> set (metadata_versions @ intake_versions). current < v \<longrightarrow> v = target"
      using p by (fastforce simp: filter_empty_conv)
    show "if target \<in> set (metadata_versions @ intake_versions)
     then load_security_binding sha flt tree target_version checked_at = Inr r else r = None"
      using r a(4) by (auto split: if_splits)
  qed
qed

text \<open>The entries of a marker directory.\<close>

definition marker_names :: "node \<Rightarrow> string \<Rightarrow> string set" where
  "marker_names tree relative =
     (case lstat tree (split_on (CHR 0x2F) relative) of
        Some (Directory es) \<Rightarrow> {name. name \<in> fst ` set es \<and> name \<noteq> ''.gitkeep''} | _ \<Rightarrow> {})"

lemma marker_entry_Inr:
  assumes "marker_entry relative found (name, n) = Inr vs" and "name \<noteq> ''.gitkeep''"
  shows "\<exists>v. suffix ''.json'' name \<and> semver (removesuffix ''.json'' name)
    \<and> version_of (removesuffix ''.json'' name) = Inr v \<and> vs = found @ [v]"
  using assms unfolding marker_entry_def by (simp add: Let_def bindE_eq_Inr) blast

lemma marker_entries:
  assumes "foldE (marker_entry relative) found es = Inr vs"
  shows "set found \<subseteq> set vs \<and> (\<forall>(name, n) \<in> set es. name \<noteq> ''.gitkeep'' \<longrightarrow>
    (\<exists>stem v. name = stem @ ''.json'' \<and> semver stem \<and> version_of stem = Inr v \<and> v \<in> set vs))"
  using assms
proof (induction es arbitrary: found)
  case (Cons e es)
  obtain name n where e: "e = (name, n)" by (cases e)
  show ?case
  proof (cases "name = ''.gitkeep''")
    case True
    with Cons e show ?thesis by (simp add: marker_entry_def)
  next
    case False
    from Cons.prems e obtain fs where f: "marker_entry relative found (name, n) = Inr fs" and
      r': "foldE (marker_entry relative) fs es = Inr vs" by (auto simp: bindE_eq_Inr)
    from marker_entry_Inr [OF f False] r' obtain v where s: "suffix ''.json'' name" "semver (removesuffix ''.json'' name)"
        "version_of (removesuffix ''.json'' name) = Inr v" and r: "foldE (marker_entry relative) (found @ [v]) es = Inr vs"
      by blast
    from s(1) have "name = removesuffix ''.json'' name @ ''.json''" by (auto simp: removesuffix_def suffix_def)
    with s have n: "\<exists>stem v'. name = stem @ ''.json'' \<and> semver stem \<and> version_of stem = Inr v' \<and> v' = v" by blast
    from Cons.IH [OF r] have "set (found @ [v]) \<subseteq> set vs" and rest: "\<forall>(name, n) \<in> set es. name \<noteq> ''.gitkeep'' \<longrightarrow>
        (\<exists>stem v. name = stem @ ''.json'' \<and> semver stem \<and> version_of stem = Inr v \<and> v \<in> set vs)"
      by blast+
    with n have "set found \<subseteq> set vs" "\<exists>stem v. name = stem @ ''.json'' \<and> semver stem \<and> version_of stem = Inr v \<and> v \<in> set vs"
      by auto
    with rest e show ?thesis by simp
  qed
qed simp

lemma marker_versions:
  assumes "security_marker_versions tree relative = Inr vs" and "name \<in> marker_names tree relative"
  shows "\<exists>stem v. name = stem @ ''.json'' \<and> semver stem \<and> version_of stem = Inr v \<and> v \<in> set vs"
proof -
  from assms(2) obtain es n where l: "lstat tree (split_on (CHR 0x2F) relative) = Some (Directory es)"
    and n: "(name, n) \<in> set es" "name \<noteq> ''.gitkeep''"
    by (auto simp: marker_names_def split: option.splits node.splits)
  with assms(1) have "foldE (marker_entry relative) [] es = Inr vs"
    by (auto simp: security_marker_versions_def Let_def bindE_eq_Inr path_exists_def path_stat_def path_entries_def split: if_splits)
  from marker_entries [OF this] n show ?thesis by fastforce
qed

lemma marker_entries_origin:
  "foldE (marker_entry relative) found es = Inr vs \<Longrightarrow> v \<in> set vs \<Longrightarrow>
     v \<in> set found \<or> (\<exists>stem. stem @ ''.json'' \<in> fst ` set es \<and> semver stem \<and> version_of stem = Inr v)"
proof (induction es arbitrary: found)
  case (Cons e es)
  obtain name n where e: "e = (name, n)" by (cases e)
  from Cons.prems(1) e obtain fs where f: "marker_entry relative found (name, n) = Inr fs" and
    r: "foldE (marker_entry relative) fs es = Inr vs" by (auto simp: bindE_eq_Inr)
  from Cons.IH [OF r Cons.prems(2)] consider "v \<in> set fs"
    | stem where "stem @ ''.json'' \<in> fst ` set es" "semver stem" "version_of stem = Inr v" by blast
  then show ?case
  proof cases
    case 1
    show ?thesis
    proof (cases "name = ''.gitkeep''")
      case True
      with f 1 show ?thesis by (simp add: marker_entry_def)
    next
      case False
      from marker_entry_Inr [OF f False] obtain w where s: "suffix ''.json'' name" "semver (removesuffix ''.json'' name)"
          "version_of (removesuffix ''.json'' name) = Inr w" and fs: "fs = found @ [w]" by blast
      from s(1) have "name = removesuffix ''.json'' name @ ''.json''" by (auto simp: removesuffix_def suffix_def)
      with s(2,3) have "\<exists>stem. stem @ ''.json'' \<in> fst ` set (e # es) \<and> semver stem \<and> version_of stem = Inr w"
        unfolding e by (intro exI [of _ "removesuffix ''.json'' name"]) simp
      moreover from fs 1 have "v \<in> set found \<or> v = w" by auto
      ultimately show ?thesis by blast
    qed
  qed (auto simp: e)
qed simp

text \<open>A version has one text.\<close>

lemma dec_plain_numeral: "plain_numeral p \<Longrightarrow> dec (digits_val p) = p"
  by (rule dec_digits_val) (auto simp: plain_numeral_def is_digit_def)

lemma version_of_semver:
  assumes "semver s" and "version_of s = Inr v"
  shows "s = version_text v"
proof -
  from assms(1) obtain a b c where s: "split_on (CHR ''.'') s = [a, b, c]"
    and n: "plain_numeral a" "plain_numeral b" "plain_numeral c"
    by (auto simp: semver_def split: list.splits)
  with assms(2) have "v = (digits_val a, digits_val b, digits_val c)"
    by (auto simp: version_of_def int_digits_def bindE_eq_Inr split: if_splits)
  with n have "version_text v = join_with ''.'' (split_on (CHR ''.'') s)"
    by (simp add: version_text_def s dec_plain_numeral)
  then show ?thesis by simp
qed

lemma lstat_snoc:
  "lstat n (ps @ [q]) = (case Option.bind (lstat n ps) follow of Some (Directory es) \<Rightarrow> map_of es q | _ \<Rightarrow> None)"
proof (induction ps arbitrary: n)
  case Nil
  show ?case by (auto split: option.splits node.splits)
next
  case (Cons p ps)
  then show ?case by (auto split: option.splits node.splits)
qed

lemma marker_exists_lstat: "lstat tree parts \<noteq> None \<Longrightarrow> marker_exists tree parts"
proof -
  assume "lstat tree parts \<noteq> None"
  then obtain n where n: "lstat tree parts = Some n" by auto
  have "follow n \<noteq> None \<or> is_link_node n" by (cases n) (auto simp: is_link_node_def)
  with n show ?thesis by (auto simp: marker_exists_def path_exists_def path_stat_def path_is_symlink_def)
qed

text \<open>A version of the namespace is the version of a file that exists there.\<close>

lemma marker_versions_exist:
  assumes "security_marker_versions tree relative = Inr vs" and "v \<in> set vs"
    and "semver s" and "version_of s = Inr v"
  shows "marker_exists tree (split_on (CHR 0x2F) relative @ [s @ ''.json''])"
proof -
  let ?parts = "split_on (CHR 0x2F) relative"
  from assms(1,2) have p: "path_exists tree ?parts \<or> path_is_symlink tree ?parts"
    by (auto simp: security_marker_versions_def Let_def split: if_splits)
  with assms(1) have d: "path_is_dir tree ?parts" and f: "foldE (marker_entry relative) [] (path_entries tree ?parts) = Inr vs"
    by (auto simp: security_marker_versions_def Let_def bindE_eq_Inr split: if_splits)
  from marker_entries_origin [OF f assms(2)] obtain stem where e: "stem @ ''.json'' \<in> fst ` set (path_entries tree ?parts)"
    and s: "semver stem" "version_of stem = Inr v" by auto
  have "stem = s" using version_of_semver s assms(3,4) by metis
  from d obtain es where es: "path_stat tree ?parts = Some (Directory es)"
    by (auto simp: path_is_dir_def split: option.splits node.splits)
  with e \<open>stem = s\<close> have "map_of es (s @ ''.json'') \<noteq> None" by (simp add: path_entries_def map_of_eq_None_iff)
  with es have "lstat tree (?parts @ [s @ ''.json'']) \<noteq> None" by (simp add: lstat_snoc path_stat_def)
  then show ?thesis by (rule marker_exists_lstat)
qed

section \<open>The receipt survives its serialization\<close>

lemma get_or_detach_PNone [simp]: "get_or (detach d) k PNone = detach (get_or d k PNone)"
  by (rule get_or_detach)

lemma require_string_detach [simp]: "require_string (detach v) label = require_string v label"
  by (simp add: require_string_def)

lemma py_in_detach [simp]: "py_in (detach v) names = py_in v names"
  by (simp add: py_in_def)

lemma exact_keys_detach [simp]: "exact_keys (detach v) ks label = exact_keys v ks label"
  by (simp add: exact_keys_def)

lemma request_detach [simp]:
  "string_field (detach v) k form m = string_field v k form m"
  "is_recovery_request (detach v) = is_recovery_request v"
  "request_identity (detach v) repository = request_identity v repository"
  "request_range (detach v) = request_range v"
  by (simp_all add: string_field_def is_recovery_request_def request_identity_def request_range_def timestamp_def del: checks.simps)

lemma timestamp_detach [simp]: "timestamp (detach v) label = timestamp v label"
  by (simp add: timestamp_def)

lemma validate_request_detach:
  "validate_request sha (detach v) repository now = bindE (validate_request sha v repository now) (\<lambda>r. Inr (detach r))"
  by (simp add: validate_request_def bindE_assoc del: checks.simps)


lemma validate_request_Inr:
  assumes "validate_request sha v repository now = Inr r"
  shows "r = v \<and> (\<forall>k \<in> {''chainId'', ''baseSha'', ''candidateBaseSha'', ''candidateHeadSha'', ''candidateDiffSha256'',
    ''metadataSha256'', ''evidenceId'', ''fixedVersion'', ''acceptanceProfile''}. is_str (get_or v k PNone))"
  using assms
  by (auto simp: validate_request_def Let_def bindE_eq_Inr request_range_def string_field_def require_string_def is_str_iff
      split: if_splits)

lemma changed_paths_detach [simp]: "changed_paths_ok (detach v) ps = changed_paths_ok v ps"
  by (simp add: changed_paths_ok_def comp_def list_all_iff)

lemma validate_intake_result_detach:
  assumes "validate_intake_result v w = Inr r"
  shows "is_ok (validate_intake_result (detach v) (detach w))"
proof -
  have e: "expected_result (detach v) = map (\<lambda>(k, x). (k, detach x)) (expected_result v)"
    by (simp add: expected_result_def Let_def)
  show ?thesis using assms(1)
    by (auto simp add: validate_intake_result_def Let_def bindE_eq_Inr is_ok_iff e forE_eq_Inr case_prod_beta simp del: checks.simps)
qed

lemma controller_ok_detach [simp]: "controller_ok (detach v) (detach c) = controller_ok v c"
  by (simp add: controller_ok_def numeral_field_def)

lemma verify_intake_receipt_detach:
  assumes "verify_intake_receipt sha r t = Inr r'"
  shows "verify_intake_receipt sha (detach r) t = Inr (detach r)"
proof -
  let ?f = "\<lambda>k. get_or r k PNone"
  from assms obtain q w where q: "validate_request sha (?f ''request'') PRODUCER_REPOSITORY t = Inr q"
    and w: "validate_intake_result (?f ''request'') (?f ''verified'') = Inr w"
    by (auto simp: verify_intake_receipt_def Let_def bindE_eq_Inr)
  from w have "is_ok (validate_intake_result (detach (?f ''request'')) (detach (?f ''verified'')))"
    by (rule validate_intake_result_detach)
  with assms q show ?thesis
    by (auto simp: verify_intake_receipt_def Let_def bindE_eq_Inr validate_request_detach is_ok_iff
        simp del: checks.simps)
qed

lemma utf8_valid_append: "utf8_valid s \<Longrightarrow> utf8_valid t \<Longrightarrow> utf8_valid (s @ t)"
proof (induction "length s" arbitrary: s rule: less_induct)
  case less
  show ?case
  proof (cases s)
    case (Cons a r)
    with less.prems utf8_lead consider "byte a \<le> (127 :: nat)" | "in_range 194 223 a" | "in_range 224 239 a" | "in_range 240 244 a"
      by blast
    then show ?thesis
    proof cases
      case 1
      with Cons less show ?thesis by (simp add: utf8_one)
    next
      case 2
      with Cons less.prems obtain b r' where r: "r = b # r'" "is_cont b" "utf8_valid r'" by (auto simp: utf8_two)
      with Cons less have "utf8_valid (r' @ t)" by simp
      with r Cons 2 show ?thesis by (simp add: utf8_two)
    next
      case 3
      with Cons less.prems obtain b c r' where r: "r = b # c # r'" "second_of_three a b" "is_cont c" "utf8_valid r'"
        by (auto simp: utf8_three)
      with Cons less have "utf8_valid (r' @ t)" by simp
      with r Cons 3 show ?thesis by (simp add: utf8_three)
    next
      case 4
      with Cons less.prems obtain b c d r' where
          r: "r = b # c # d # r'" "second_of_four a b" "is_cont c" "is_cont d" "utf8_valid r'"
        by (auto simp: utf8_four)
      with Cons less have "utf8_valid (r' @ t)" by simp
      with r Cons 4 show ?thesis by (simp add: utf8_four)
    qed
  qed (use less.prems in simp)
qed

text \<open>Reading a canonical document gives the copy \<^const>\<open>detach\<close> of what was written.\<close>

lemma contract_keeps_pairs: "keeps_pairs (contract_decoder flt)"
  by (simp add: keeps_pairs_def contract_decoder_def reject_duplicate_keys_def unique_pairs_distinct)

lemma load_canonical_document:
  assumes "canonical_document_bytes v = Inr raw" and "renderable (\<lambda>_. True) v" and "is_dict v"
    and "length raw \<le> MAX_JSON_BYTES"
  shows "load_json_bytes flt raw label = Inr (detach v)"
proof -
  from assms(1) have raw: "raw = render utf8_string v @ [newline]" and u: "utf8_valid (render utf8_string v)"
    by (auto simp: canonical_document_bytes_def canonical_json_bytes_def canonical_utf8_def Let_def bindE_eq_Inr split: if_splits)
  have "json_loads (contract_decoder flt) raw = Inr (detach v)"
    unfolding raw by (rule utf8_json.loads_render [OF contract_keeps_pairs assms(2)])
      (simp_all add: newline_def is_json_space_def delimited_def)
  moreover have "utf8_valid raw"
    unfolding raw by (rule utf8_valid_append [OF u]) (simp add: newline_def utf8_one)
  ultimately show ?thesis using assms(3,4) unfolding load_json_bytes_def by simp
qed

lemma render_detach: "render q (detach v) = render q v"
  and "render_list q (detach_list xs) = render_list q xs"
  and "render_items q (detach_items kvs) = render_items q kvs"
proof (induction v and xs and kvs rule: detach_detach_list_detach_items.induct)
  case (2 kvs)
  then show ?case by (simp add: render_items_map sort_key_map_val)
qed auto

lemma canonical_document_detach [simp]: "canonical_document_bytes (detach v) = canonical_document_bytes v"
  by (simp add: canonical_document_bytes_def canonical_json_bytes_def canonical_utf8_def render_detach)

lemma build_intake_receipt_Inr:
  assumes "build_intake_receipt sha request verified t run automation = Inr r"
  shows "r = intake_receipt request verified run automation \<and> is_ok (verify_intake_receipt sha r t)"
  using assms by (auto simp: build_intake_receipt_def Let_def bindE_eq_Inr is_ok_iff)


section \<open>Changelog fragments\<close>

lemma lines_of_line:
  assumes "printable l" and "\<forall>g \<in> set gs. g \<noteq> []"
  shows "lines_of acc (map (\<lambda>c. [c]) l @ [newline] # gs) = (acc @ l) # lines_of [] gs"
  using assms
proof (induction l arbitrary: acc)
  case Nil
  then show ?case by (cases gs) (simp_all add: is_break_def newline_def)
next
  case (Cons c l)
  have "\<not> is_break [c]" using Cons.prems by (simp add: printable_def is_break_def)
  with Cons show ?case by (cases l) (simp_all add: printable_def)
qed

lemma lines_ascii:
  "\<forall>l \<in> set ls. printable l \<Longrightarrow> list_all (\<lambda>c. byte c < (128 :: nat)) (concat (map (\<lambda>l. l @ [newline]) ls))"
  by (induction ls) (auto simp: printable_def newline_def list_all_iff)

lemma splitlines_lines:
  assumes "\<forall>l \<in> set ls. printable l"
  shows "py_splitlines (concat (map (\<lambda>l. l @ [newline]) ls)) = ls"
proof -
  have "lines_of [] (map (\<lambda>c. [c]) (concat (map (\<lambda>l. l @ [newline]) ls))) = ls"
    using assms
  proof (induction ls)
    case (Cons l ls)
    have "lines_of [] (map (\<lambda>c. [c]) l @ [newline] # map (\<lambda>c. [c]) (concat (map (\<lambda>l. l @ [newline]) ls)))
        = ([] @ l) # lines_of [] (map (\<lambda>c. [c]) (concat (map (\<lambda>l. l @ [newline]) ls)))"
      using Cons.prems by (intro lines_of_line) auto
    with Cons show ?case by simp
  qed simp
  with lines_ascii [OF assms] show ?thesis by (simp add: py_splitlines_def str_chars_ascii)
qed

lemma printable_fragment_line: "printable (fragment_line e)"
proof -
  have "printable (concat (map escape_code (code_points e)))" by (simp add: printable_concat printable_escape)
  then show ?thesis by (simp add: fragment_line_def json_string_def printable_def)
qed

lemma join_lines: "ls \<noteq> [] \<Longrightarrow> join_with [newline] ls @ [newline] = concat (map (\<lambda>l. l @ [newline]) ls)"
  by (induction "[newline]" ls rule: join_with.induct) simp_all

definition fragment_lines :: "string list \<Rightarrow> string list" where
  "fragment_lines entries = [''---'', ''security_fixes:''] @ map fragment_line entries"

lemma fragment_raw:
  "canonical_security_fragment_bytes (map PStr entries) = Inr raw \<longleftrightarrow>
     1 \<le> length entries \<and> length entries \<le> 64 \<and> (\<forall>e \<in> set entries. require_string (PStr e) ''security_fixes entry'' = Inr e) \<and>
     length raw \<le> MAX_SECURITY_FRAGMENT_BYTES \<and> raw = concat (map (\<lambda>l. l @ [newline]) (fragment_lines entries))"
proof -
  have m: "mapE (\<lambda>e. require_string e ''security_fixes entry'') (map PStr entries) = Inr ys \<longleftrightarrow>
      ys = entries \<and> (\<forall>e \<in> set entries. require_string (PStr e) ''security_fixes entry'' = Inr e)" for ys
  proof (induction entries arbitrary: ys)
    case (Cons x xs)
    have "require_string (PStr x) l = Inr y \<Longrightarrow> y = x" for y l by (auto simp: require_string_def split: if_splits)
    with Cons show ?case by (auto simp: bindE_eq_Inr)
  qed auto
  have j: "join_with [newline] ([''---'', ''security_fixes:''] @ map fragment_line es) @ [newline]
      = concat (map (\<lambda>l. l @ [newline]) (fragment_lines es))" for es
    unfolding fragment_lines_def by (rule join_lines) simp
  show ?thesis
    unfolding canonical_security_fragment_bytes_def bindE_eq_Inr m Let_def j by auto
qed

lemma fragment_keeps_pairs: "keeps_pairs (fragment_decoder flt label)"
proof -
  have "distinct (map fst (rs @ kvs)) \<Longrightarrow> dict_update rs kvs = rs @ kvs" for rs kvs :: "(string \<times> py) list"
  proof (induction kvs arbitrary: rs)
    case (Cons kv kvs)
    obtain k v where kv: "kv = (k, v)" by (cases kv)
    have "k \<notin> fst ` set rs \<Longrightarrow> dict_put k v rs = rs @ [(k, v)]" by (induction rs) auto
    with Cons.prems kv have "dict_put k v rs = rs @ [(k, v)]" by auto
    with Cons kv show ?case by simp
  qed simp
  from this [of "[]"] show ?thesis by (simp add: keeps_pairs_def fragment_decoder_def)
qed

lemma fragment_entry_line:
  assumes "utf8_valid e" and "require_string (PStr e) label' = Inr e"
  shows "fragment_entry flt label (fragment_line e) = Inr e"
proof -
  have "json_loads (fragment_decoder flt label) (json_string e) = Inr (PStr e)"
    using ascii_json.loads_render [OF fragment_keeps_pairs, of "PStr e" "[]" flt label] assms(1)
    by (simp add: delimited_def)
  moreover have "require_string (PStr e) l = Inr e" for l
    using assms(2) by (auto simp: require_string_def split: if_splits)
  ultimately show ?thesis by (simp add: fragment_entry_def fragment_line_def)
qed

lemma canonical_fragment_accepted:
  assumes "canonical_security_fragment_bytes (map PStr entries) = Inr raw" and "list_all utf8_valid entries"
  shows "validate_security_fragment flt raw label = Inr entries"
proof -
  note c = assms(1)
  note f = c [unfolded fragment_raw]
  have p: "\<forall>l \<in> set (fragment_lines entries). printable l"
    using printable_fragment_line by (auto simp: fragment_lines_def printable_def)
  have lines: "py_splitlines raw = fragment_lines entries" using f splitlines_lines [OF p] by simp
  have "list_all (\<lambda>c. byte c < (128 :: nat)) raw" using lines_ascii [OF p] f by simp
  then have u: "utf8_valid raw" by (induction raw) (simp_all add: utf8_one)
  have e: "mapE (fragment_entry flt label) (map fragment_line entries) = Inr entries"
    using f assms(2) by (auto simp: mapE_eq_Inr list_all2_conv_all_nth list_all_iff intro!: fragment_entry_line)
  have d: "drop 2 (fragment_lines entries) = map fragment_line entries"
    "take 2 (fragment_lines entries) = [''---'', ''security_fixes:'']" by (simp_all add: fragment_lines_def)
  have n: "3 \<le> length (fragment_lines entries)" "entries \<noteq> []" "length entries \<le> 64"
    using f by (auto simp: fragment_lines_def)
  have l: "length raw \<le> MAX_SECURITY_FRAGMENT_BYTES" using f by blast
  show ?thesis
    unfolding validate_security_fragment_def Let_def bindE_eq_Inr need_eq_Inr lines d
    using u e c n l by simp
qed

text \<open>
  a changelog fragment is accepted exactly in its canonical form: the bytes a fragment
  is serialized to are accepted and give the entries back, and every accepted file is byte for
  byte the serialization of the entries it is read as.
\<close>

lemma fragment_canonical:
  assumes "list_all utf8_valid entries"
  shows "validate_security_fragment flt raw label = Inr entries \<longleftrightarrow>
    canonical_security_fragment_bytes (map PStr entries) = Inr raw"
proof
  assume "validate_security_fragment flt raw label = Inr entries"
  then show "canonical_security_fragment_bytes (map PStr entries) = Inr raw"
    by (auto simp: validate_security_fragment_def Let_def bindE_eq_Inr)
qed (rule canonical_fragment_accepted [OF _ assms])

section \<open>What a loaded binding says\<close>

lemma loaded_binding:
  assumes "load_release_security_binding sha flt tree current_version target_version checked_at = Inr (Some b)"
  shows "\<exists>current target. version_of current_version = Inr current \<and> version_of target_version = Inr target
      \<and> current < target
    \<and> get_or b ''fixed_version'' PNone = PStr target_version
    \<and> bound_file sha tree (metadata_parts target_version) (get_or b ''metadata_sha256'' PNone)
    \<and> bound_file sha tree (intake_parts target_version) (get_or b ''intake_receipt_sha256'' PNone)
    \<and> bound_file sha tree (split_on (CHR 0x2F) (the_str (get_or b ''changelog_fragment_path'' PNone)))
        (get_or b ''changelog_fragment_sha256'' PNone)"
  using assms
proof (rule load_release_Inr)
  fix current target metadata_versions intake_versions
  assume v: "version_of current_version = Inr current" "version_of target_version = Inr target" "current < target"
    and "if target \<in> set (metadata_versions @ intake_versions)
     then load_security_binding sha flt tree target_version checked_at = Inr (Some b) else Some b = None"
  then have "load_marker sha flt tree target_version checked_at = Inr b"
    by (auto intro: load_security_binding_Some split: if_splits)
  from load_marker_bound [OF this] v show ?thesis by blast
qed

lemma normal_markers:
  assumes "load_release_security_binding sha flt tree current_version target_version checked_at = Inr None"
    and "relative \<in> {''.lit/security-releases'', ''.lit/security-release-intakes''}"
    and "name \<in> marker_names tree relative"
  shows "\<exists>current v stem. version_of current_version = Inr current \<and> name = stem @ ''.json''
    \<and> version_of stem = Inr v \<and> v \<le> current"
  using assms(1)
proof (rule load_release_Inr)
  fix current target metadata_versions intake_versions
  assume v: "version_of current_version = Inr current"
    and s: "semver target_version" "version_of target_version = Inr target"
    and m: "security_marker_versions tree ''.lit/security-releases'' = Inr metadata_versions"
      "security_marker_versions tree ''.lit/security-release-intakes'' = Inr intake_versions"
    and p: "\<forall>v \<in> set (metadata_versions @ intake_versions). current < v \<longrightarrow> v = target"
    and n: "if target \<in> set (metadata_versions @ intake_versions)
     then load_security_binding sha flt tree target_version checked_at = Inr None else None = None"
  have parts: "split_on (CHR 0x2F) ''.lit/security-releases'' = [''.lit'', ''security-releases'']"
    "split_on (CHR 0x2F) ''.lit/security-release-intakes'' = [''.lit'', ''security-release-intakes'']" by simp_all
  have "target \<notin> set (metadata_versions @ intake_versions)"
  proof
    assume t: "target \<in> set (metadata_versions @ intake_versions)"
    have "marker_exists tree (metadata_parts target_version) \<or> marker_exists tree (intake_parts target_version)"
      using t marker_versions_exist [OF m(1) _ s(1) s(2)] marker_versions_exist [OF m(2) _ s(1) s(2)]
      unfolding parts metadata_parts_def intake_parts_def by auto
    with t n show False by (auto simp: load_security_binding_def Let_def bindE_eq_Inr split: if_splits)
  qed
  moreover from assms(2,3) m obtain stem w where "name = stem @ ''.json''" "version_of stem = Inr w"
    "w \<in> set (metadata_versions @ intake_versions)"
    using marker_versions [OF m(1)] marker_versions [OF m(2)] by fastforce
  ultimately show ?thesis using p v(1) by (metis not_less)
qed

text \<open>
  C4: a Security binding that a release loads for a target is about that target, which is newer
  than the current version, and about regular files of the checked-out tree: the metadata, the
  receipt and the changelog fragment are found there without any symbolic link in their place,
  and the digests of the binding are the digests of exactly these bytes.
\<close>

theorem release_binding_sound:
  assumes "load_release_security_binding sha flt tree current_version target_version checked_at = Inr (Some b)"
  shows "\<exists>current target. version_of current_version = Inr current \<and> version_of target_version = Inr target
      \<and> current < target
    \<and> get_or b ''fixed_version'' PNone = PStr target_version
    \<and> bound_file sha tree (metadata_parts target_version) (get_or b ''metadata_sha256'' PNone)
    \<and> bound_file sha tree (intake_parts target_version) (get_or b ''intake_receipt_sha256'' PNone)
    \<and> bound_file sha tree (split_on (CHR 0x2F) (the_str (get_or b ''changelog_fragment_path'' PNone)))
        (get_or b ''changelog_fragment_sha256'' PNone)"
  by (rule loaded_binding [OF assms])

text \<open>
  C7: a release falls back to normal mode only when nothing is pending: without a binding,
  every entry of the two marker namespaces, apart from the placeholder file, is the marker of a
  version that is not newer than the current one.
\<close>

theorem pending_marker_excludes_normal:
  assumes "load_release_security_binding sha flt tree current_version target_version checked_at = Inr None"
    and "relative \<in> {''.lit/security-releases'', ''.lit/security-release-intakes''}"
    and "name \<in> marker_names tree relative"
  shows "\<exists>current v stem. version_of current_version = Inr current \<and> name = stem @ ''.json''
    \<and> version_of stem = Inr v \<and> v \<le> current"
  by (rule normal_markers [OF assms])

end
