(* ===== verification/Release_Version.thy ===== *)
theory Release_Version
  imports Release_Chain
begin

text \<open>
  The version of a release and the receipt of its preparation (\<open>scripts/release-version.py\<close>):
  the impact of the changelog fragments, the next version, and the receipt that binds the
  fragments, the pending Security marker and the workflow run.

  Paths are lists of parts below the repository root. Parameters are the YAML parser, which is
  given the constructor of mappings the script installs (\<open>yaml\<close>; a key that is no string has
  a name that no category has), the resolution of symbolic links (\<open>realpath\<close>) and the digits
  outside ASCII (\<open>digits\<close>).
\<close>

section \<open>Fragments and their impact\<close>

definition IMPACT_CATEGORIES :: "(string \<times> string list) list" where
  "IMPACT_CATEGORIES =
     [(''major'', [''breaking_changes'', ''major_changes'', ''removed_features'']),
      (''minor'', [''deprecated_features'', ''minor_changes'']),
      (''patch'', [''bugfixes'', ''security_fixes''])]"

definition NEUTRAL_CATEGORIES :: "string list" where
  "NEUTRAL_CATEGORIES = [''known_issues'', ''release_summary'', ''trivial'']"

definition KNOWN_CATEGORIES :: "string list" where
  "KNOWN_CATEGORIES = concat (map snd IMPACT_CATEGORIES) @ NEUTRAL_CATEGORIES"

definition MAX_FRAGMENT_BYTES :: nat where
  "MAX_FRAGMENT_BYTES = 1024 * 1024"

definition RELEASE_PREPARATION_SCHEMA_VERSION :: int where
  "RELEASE_PREPARATION_SCHEMA_VERSION = 3"

definition RELEASE_PREPARER :: py where
  "RELEASE_PREPARER = PDict
     [(''login'', PStr RELEASE_APP_LOGIN), (''account_id'', PStr RELEASE_APP_ACCOUNT_ID), (''email'', PStr RELEASE_APP_EMAIL)]"

definition SECURITY_RECEIPT_KEYS :: "string list" where
  "SECURITY_RECEIPT_KEYS =
     [''evidence_id'', ''metadata_path'', ''metadata_sha256'', ''intake_receipt_path'', ''intake_receipt_sha256'',
      ''candidate_diff_sha256'', ''human_actions'']"

definition require_version :: "bool \<Rightarrow> string \<Rightarrow> exn + unit" where
  "require_version unless message = requireE unless (VersionError message)"

definition construct_unique_mapping :: "(string \<times> py) list \<Rightarrow> exn + py" where
  "construct_unique_mapping = unique_pairs (\<lambda>k. VersionError (''duplicate YAML key: '' @ k)) []"

type_synonym yaml = "((string \<times> py) list \<Rightarrow> exn + py) \<Rightarrow> string \<Rightarrow> exn + py"

definition read_bytes :: "node \<Rightarrow> string list \<Rightarrow> exn + string" where
  "read_bytes tree parts = (case path_stat tree parts of Some (Regular _ content) \<Rightarrow> Inr content | _ \<Rightarrow> Inl OSError)"

definition read_text :: "node \<Rightarrow> string list \<Rightarrow> exn + string" where
  "read_text tree parts = bindE (read_bytes tree parts) (\<lambda>raw.
     if utf8_valid raw then Inr (universal_newlines raw) else Inl UnicodeDecodeError)"

definition path_size :: "node \<Rightarrow> string list \<Rightarrow> nat" where
  "path_size tree parts = (case path_stat tree parts of Some (Regular st_size _) \<Rightarrow> st_size | _ \<Rightarrow> 0)"

definition plain_document :: "node \<Rightarrow> string list \<Rightarrow> bool" where
  "plain_document tree parts \<longleftrightarrow> \<not> path_is_symlink tree parts \<and> path_is_file tree parts"

text \<open>\<open>yaml.load(text) or {}\<close>\<close>

definition load_mapping :: "yaml \<Rightarrow> node \<Rightarrow> string list \<Rightarrow> string \<Rightarrow> exn + py" where
  "load_mapping yaml tree parts message =
     bindE (rescue (\<lambda>e. e \<in> {OSError, UnicodeDecodeError, YAMLError}) (VersionError message)
              (bindE (read_text tree parts) (yaml construct_unique_mapping))) (\<lambda>v.
     Inr (if py_truth v then v else PDict []))"

definition load_yaml :: "yaml \<Rightarrow> node \<Rightarrow> string list \<Rightarrow> exn + py" where
  "load_yaml yaml tree parts =
     bindE (checks
       [(plain_document tree parts, VersionError ''unsafe changelog fragment''),
        (path_size tree parts \<le> MAX_FRAGMENT_BYTES, VersionError ''oversized changelog fragment'')]) (\<lambda>_.
     bindE (load_mapping yaml tree parts ''cannot parse changelog fragment'') (\<lambda>payload.
     bindE (require_version (is_dict payload) ''changelog fragment must be a mapping'') (\<lambda>_. Inr payload)))"

definition category_ok :: "py \<Rightarrow> bool" where
  "category_ok entries \<longleftrightarrow> is_list entries \<and> the_list entries \<noteq> []
     \<and> list_all (\<lambda>e. is_str e \<and> py_strip (the_str e) \<noteq> []) (the_list entries)"

text \<open>The categories of a fragment that have an impact, added to those observed so far.\<close>

definition observe_fragment :: "yaml \<Rightarrow> node \<Rightarrow> string list \<Rightarrow> string list \<Rightarrow> exn + string list" where
  "observe_fragment yaml tree observed parts =
     bindE (load_yaml yaml tree parts) (\<lambda>payload.
     bindE (checks
       [(set (keys_of payload) \<subseteq> set KNOWN_CATEGORIES, VersionError ''unknown changelog impact categories''),
        (the_items payload \<noteq> [], VersionError ''empty changelog fragment'')]) (\<lambda>_.
     foldE (\<lambda>seen (category, entries).
        bindE (require_version (category_ok entries) ''changelog category must contain nonempty text entries'') (\<lambda>_.
        Inr (if category \<in> set NEUTRAL_CATEGORIES then seen else seen @ [category]))) observed (the_items payload)))"

definition strongest_impact :: "string list \<Rightarrow> string option" where
  "strongest_impact observed = map_option fst (find (\<lambda>(_, names). list_ex (\<lambda>n. n \<in> set observed) names) IMPACT_CATEGORIES)"

definition derive_impact_from_paths :: "yaml \<Rightarrow> node \<Rightarrow> string list list \<Rightarrow> exn + string \<times> string list" where
  "derive_impact_from_paths yaml tree paths =
     bindE (checks
       [(length paths \<le> 256, VersionError ''more than 256 changelog fragments require an explicit split release''),
        (paths \<noteq> [], VersionError ''no reviewed changelog fragments exist'')]) (\<lambda>_.
     bindE (foldE (observe_fragment yaml tree) [] paths) (\<lambda>observed.
     case strongest_impact observed of
       Some impact \<Rightarrow> Inr (impact, map last paths)
     | None \<Rightarrow> Inl (VersionError ''changelog fragments have no explicit semantic-version impact category'')))"

text \<open>\<open>Path(name).suffix\<close>: from the last dot, unless that is the first or the last character.\<close>

definition path_suffix :: "string \<Rightarrow> string" where
  "path_suffix name =
     (let stem = rev (dropWhile (\<lambda>c. c \<noteq> CHR ''.'') (rev name)); i = length stem - 1 in
      if stem \<noteq> [] \<and> 0 < i \<and> i < length name - 1 then drop i name else [])"

definition yaml_name :: "string \<Rightarrow> bool" where
  "yaml_name name \<longleftrightarrow> py_lower (path_suffix name) \<in> {''.yml'', ''.yaml''}"

definition derive_impact :: "yaml \<Rightarrow> node \<Rightarrow> string list \<Rightarrow> exn + string \<times> string list" where
  "derive_impact yaml tree fragments_root =
     bindE (require_version (path_is_dir tree fragments_root \<and> \<not> path_is_symlink tree fragments_root)
              ''unsafe changelog fragment directory'') (\<lambda>_.
     let candidates = map (\<lambda>name. fragments_root @ [name]) (sort (filter yaml_name (map fst (path_entries tree fragments_root)))) in
     bindE (require_version (list_all (plain_document tree) candidates) ''unsafe changelog fragment'') (\<lambda>_.
     derive_impact_from_paths yaml tree candidates))"

definition fragment_digests :: "(string \<Rightarrow> string) \<Rightarrow> node \<Rightarrow> string list \<Rightarrow> string list \<Rightarrow> exn + py" where
  "fragment_digests sha tree fragments_root names =
     bindE (mapE (\<lambda>name. bindE (read_bytes tree (fragments_root @ [name])) (\<lambda>raw.
        Inr (PDict [(''path'', PStr name), (''sha256'', PStr (sha raw))]))) names) (\<lambda>rows. Inr (PList rows))"

section \<open>The next version\<close>

text \<open>\<open>str(value or "").strip()\<close> can match the pattern only if the value is a string.\<close>

definition parse_stable_version :: "py \<Rightarrow> string \<Rightarrow> exn + version" where
  "parse_stable_version v label =
     bindE (require_version (is_str v \<and> semver (py_strip (the_str v)))
              (label @ '' must be stable semantic versioning (MAJOR.MINOR.PATCH)'')) (\<lambda>_.
     version_of (py_strip (the_str v)))"

definition next_version :: "version \<Rightarrow> string \<Rightarrow> exn + version" where
  "next_version current impact = (case current of (major, minor, patch) \<Rightarrow>
     if impact = ''major'' then Inr (major + 1, 0, 0)
     else if impact = ''minor'' then Inr (major, minor + 1, 0)
     else if impact = ''patch'' then Inr (major, minor, patch + 1)
     else Inl (VersionError (''unsupported release impact: '' @ impact)))"

definition security_binding ::
    "(string \<Rightarrow> string) \<Rightarrow> (string \<Rightarrow> exn + py) \<Rightarrow> node \<Rightarrow> string \<Rightarrow> string \<Rightarrow> int \<Rightarrow> exn + py option" where
  "security_binding sha flt tree current_version target_version checked_at =
     (case load_release_security_binding sha flt tree current_version target_version checked_at of
        Inl (ContractError m) \<Rightarrow> Inl (VersionError m)
      | Inl OSError \<Rightarrow> Inl (VersionError [])
      | r \<Rightarrow> r)"

text \<open>The fragment a Security release is bound to, and the impact it resolves to.\<close>

definition security_impact ::
    "yaml \<Rightarrow> (string list \<Rightarrow> exn + string list) \<Rightarrow> node \<Rightarrow> string list \<Rightarrow> py option \<Rightarrow> exn + string \<times> string list" where
  "security_impact yaml realpath tree fragments_root binding = (case binding of
     None \<Rightarrow> Inl (VersionError ''Security target has no complete immutable intake binding'')
   | Some b \<Rightarrow>
       let bound = split_on (CHR 0x2F) (the_str (get_or b ''changelog_fragment_path'' PNone)) in
       bindE (rescue (\<lambda>e. e = OSError) (VersionError ''cannot resolve Security changelog fragment'')
                (bindE (realpath fragments_root) (\<lambda>directory. bindE (realpath (butlast bound)) (\<lambda>parent. Inr (directory, parent)))))
         (\<lambda>(directory, parent).
       bindE (checks
         [(parent = directory, VersionError ''Security changelog fragment is outside the configured fragment directory''),
          (yaml_name (last bound), VersionError ''Security changelog fragment must use a .yml or .yaml extension'')]) (\<lambda>_.
       bindE (derive_impact_from_paths yaml tree [bound]) (\<lambda>(impact, fragments).
       bindE (require_version (impact = ''patch'') ''Security release fragment must resolve to patch impact'') (\<lambda>_.
       Inr (impact, fragments))))))"

definition galaxy_version :: "yaml \<Rightarrow> node \<Rightarrow> string list \<Rightarrow> exn + version" where
  "galaxy_version yaml tree galaxy_path =
     bindE (require_version (plain_document tree galaxy_path \<and> path_size tree galaxy_path \<le> MAX_FRAGMENT_BYTES)
              ''unsafe collection metadata'') (\<lambda>_.
     bindE (load_mapping yaml tree galaxy_path ''cannot parse collection metadata'') (\<lambda>galaxy.
     bindE (require_version (is_dict galaxy) ''galaxy.yml must be a mapping'') (\<lambda>_.
     parse_stable_version (get_or galaxy ''version'' PNone) ''galaxy.yml version'')))"

definition selected_version :: "version \<Rightarrow> string \<Rightarrow> string \<Rightarrow> exn + version" where
  "selected_version expected wanted label =
     bindE (parse_stable_version (PStr wanted) label) (\<lambda>selected.
     bindE (require_version (selected = expected) (label @ '' does not equal the reviewed release'')) (\<lambda>_.
     Inr selected))"

definition resolution :: "version \<Rightarrow> string \<Rightarrow> version \<Rightarrow> string list \<Rightarrow> py \<Rightarrow> py" where
  "resolution current impact selected fragments digests = PDict
     [(''schema_version'', PInt 1), (''current_version'', PStr (version_text current)), (''impact'', PStr impact),
      (''version'', PStr (version_text selected)), (''fragments'', PList (map PStr fragments)), (''fragment_sha256'', digests)]"

definition resolve_version ::
    "(string \<Rightarrow> string) \<Rightarrow> (string \<Rightarrow> exn + py) \<Rightarrow> yaml \<Rightarrow> (string list \<Rightarrow> exn + string list) \<Rightarrow> node \<Rightarrow> string list
      \<Rightarrow> string list \<Rightarrow> string \<Rightarrow> string \<Rightarrow> int \<Rightarrow> exn + py" where
  "resolve_version sha flt yaml realpath tree galaxy_path fragments_root requested security_target checked_at =
     bindE (galaxy_version yaml tree galaxy_path) (\<lambda>current.
     bindE (require_version (requested = [] \<or> security_target = [])
              ''normal requested version and Security target are mutually exclusive'') (\<lambda>_.
     bindE (if security_target \<noteq> []
            then bindE (parse_stable_version (PStr security_target) ''Security target version'') (\<lambda>target.
                 bindE (security_binding sha flt tree (version_text current) (version_text target) checked_at)
                   (security_impact yaml realpath tree fragments_root))
            else derive_impact yaml tree fragments_root) (\<lambda>(impact, fragments).
     bindE (next_version current impact) (\<lambda>expected.
     bindE (if security_target \<noteq> [] then selected_version expected security_target ''Security target version''
            else if requested \<noteq> [] then selected_version expected requested ''requested version''
            else Inr expected) (\<lambda>selected.
     bindE (fragment_digests sha tree fragments_root fragments) (\<lambda>digests.
     Inr (resolution current impact selected fragments digests)))))))"

section \<open>The preparation receipt\<close>

definition load_preparation_receipt :: "(string \<Rightarrow> exn + py) \<Rightarrow> node \<Rightarrow> string list \<Rightarrow> exn + py" where
  "load_preparation_receipt flt tree parts =
     bindE (require_version (plain_document tree parts) ''release preparation receipt must be a regular non-symlink file'') (\<lambda>_.
     bindE (case bindE (read_bytes tree parts) (\<lambda>raw.
              bindE (load_json_bytes flt raw ''release preparation receipt'') (\<lambda>payload.
              bindE (canonical_document_bytes payload) (\<lambda>canonical_raw. Inr (payload, raw = canonical_raw)))) of
            Inl e \<Rightarrow> Inl (case e of ContractError _ \<Rightarrow> VersionError ''cannot parse release preparation receipt''
                          | OSError \<Rightarrow> VersionError ''cannot parse release preparation receipt'' | _ \<Rightarrow> e)
          | Inr r \<Rightarrow> Inr r) (\<lambda>(payload, exact).
     bindE (require_version exact ''release preparation receipt is not canonical JSON'') (\<lambda>_. Inr payload)))"

text \<open>What a receipt is expected to be about.\<close>

record expectation =
  ex_repository :: string
  ex_repository_id :: string
  ex_base_sha :: string
  ex_version :: string

definition RECEIPT_KEYS :: "string list" where
  "RECEIPT_KEYS =
     [''schema_version'', ''repository'', ''repository_id'', ''base_sha'', ''release_mode'', ''chain_id'', ''security'',
      ''current_version'', ''impact'', ''next_version'', ''fragments'', ''preparer'', ''workflow'']"

definition repository_char :: "char \<Rightarrow> bool" where
  "repository_char c \<longleftrightarrow> is_alnum c \<or> c \<in> {CHR ''_'', CHR ''.'', CHR ''-''}"

definition repository_form :: "string \<Rightarrow> bool" where
  "repository_form s = (case split_on (CHR 0x2F) s of
     [owner, name] \<Rightarrow> owner \<noteq> [] \<and> name \<noteq> [] \<and> list_all repository_char (owner @ name) | _ \<Rightarrow> False)"

definition isdigit :: "(string \<Rightarrow> bool) \<Rightarrow> string \<Rightarrow> bool" where
  "isdigit digits s \<longleftrightarrow> s \<noteq> [] \<and> list_all (\<lambda>c. (length c = 1 \<and> is_digit (hd c)) \<or> digits c) (str_chars s)"

definition receipt_identity :: "(string \<Rightarrow> bool) \<Rightarrow> py \<Rightarrow> expectation \<Rightarrow> exn + unit" where
  "receipt_identity digits receipt ex =
     (let field = (\<lambda>k. get_or receipt k PNone); schema = field ''schema_version'' in
      checks
        [(set (keys_of receipt) = set RECEIPT_KEYS \<union> (if py_eq schema (PInt 3) then {''content_base'', ''publication''} else {}),
            VersionError ''release preparation receipt has missing or unknown fields''),
         (is_int schema \<and> the_int schema \<in> {2, RELEASE_PREPARATION_SCHEMA_VERSION},
            VersionError ''release preparation receipt schema is unsupported''),
         (py_eq (field ''repository'') (PStr (ex_repository ex)) \<and> repository_form (ex_repository ex),
            VersionError ''release preparation receipt repository differs''),
         (py_eq (field ''repository_id'') (PStr (ex_repository_id ex)) \<and> isdigit digits (ex_repository_id ex),
            VersionError ''release preparation receipt repository id differs''),
         (py_eq (field ''base_sha'') (PStr (ex_base_sha ex)) \<and> hex_id 40 (ex_base_sha ex),
            VersionError ''release preparation receipt base SHA differs'')])"

definition content_base :: "string \<Rightarrow> py" where
  "content_base base_sha = PDict [(''ref'', PStr ''refs/heads/develop''), (''sha'', PStr base_sha)]"

definition receipt_route :: "py \<Rightarrow> expectation \<Rightarrow> exn + unit" where
  "receipt_route receipt ex =
     (let field = (\<lambda>k. get_or receipt k PNone); publication = field ''publication'' in
      if field ''schema_version'' \<noteq> PInt 3 then Inr ()
      else checks
        [(py_eq (field ''release_mode'') (PStr ''normal''), VersionError ''schema 3 is exclusively the normal two-stage release route''),
         (py_eq (field ''content_base'') (content_base (ex_base_sha ex)),
            VersionError ''release preparation content base differs from protected develop''),
         (is_dict publication \<and> set (keys_of publication) = {''github_release'', ''galaxy''}
            \<and> list_all (\<lambda>(_, v). is_bool v) (the_items publication),
            VersionError ''release preparation publication policy is malformed'')])"

text \<open>\<open>str(v)\<close> of a value that is no string is neither an impact nor a version.\<close>

definition receipt_version :: "py \<Rightarrow> expectation \<Rightarrow> exn + unit" where
  "receipt_version receipt ex =
     (let impact = get_or receipt ''impact'' (PStr []); next_value = get_or receipt ''next_version'' (PStr []) in
      bindE (parse_stable_version (get_or receipt ''current_version'' PNone) ''receipt current version'') (\<lambda>current.
      bindE (next_version current (if is_str impact then the_str impact else [])) (\<lambda>calculated.
      bindE (parse_stable_version next_value ''receipt next version'') (\<lambda>_.
      require_version (the_str next_value = version_text calculated \<and> the_str next_value = ex_version ex)
        ''release preparation receipt next version is not fragment-derived''))))"

definition security_section :: "py \<Rightarrow> py \<Rightarrow> py" where
  "security_section b human_actions =
     (let field = (\<lambda>k. get_or b k PNone) in PDict
       [(''evidence_id'', field ''evidence_id''), (''metadata_path'', field ''metadata_path''),
        (''metadata_sha256'', field ''metadata_sha256''), (''intake_receipt_path'', field ''intake_receipt_path''),
        (''intake_receipt_sha256'', field ''intake_receipt_sha256''),
        (''candidate_diff_sha256'', field ''candidate_diff_sha256''), (''human_actions'', human_actions)])"

definition mode_of :: "py option \<Rightarrow> string" where
  "mode_of binding = (case binding of None \<Rightarrow> ''normal'' | Some _ \<Rightarrow> ''security'')"

definition receipt_markers :: "py \<Rightarrow> expectation \<Rightarrow> py option \<Rightarrow> exn + unit" where
  "receipt_markers receipt ex binding =
     (let field = (\<lambda>k. get_or receipt k PNone); security = field ''security'' in
      bindE (require_version (py_eq (field ''release_mode'') (PStr (mode_of binding)))
               ''release preparation receipt mode differs from immutable Security markers'') (\<lambda>_.
      case binding of
        None \<Rightarrow> require_version (field ''chain_id'' = PNone \<and> security = PNone)
                  ''normal release preparation receipt contains partial Security markers''
      | Some b \<Rightarrow> checks
          [(is_dict security \<and> set (keys_of security) = set SECURITY_RECEIPT_KEYS,
              VersionError ''Security release preparation receipt binding is malformed''),
           (is_int (get_or security ''human_actions'' PNone),
              VersionError ''Security release preparation human_actions must be an integer''),
           (py_eq security (security_section b (PInt 0)) \<and> py_eq (field ''chain_id'') (get_or b ''chain_id'' PNone),
              VersionError ''Security release preparation receipt differs from the immutable intake binding''),
           (ex_repository ex = PRODUCER_REPOSITORY \<and> ex_repository_id ex = PRODUCER_REPOSITORY_ID,
              VersionError ''Security release preparation repository identity is unauthorized'')]))"

definition removeprefix :: "string \<Rightarrow> string \<Rightarrow> string" where
  "removeprefix p s = (if prefix p s then drop (length p) s else s)"

text \<open>\<open>Path(name).name = name\<close> for a name without a slash other than a single dot.\<close>

definition fragment_row_ok :: "py \<Rightarrow> bool" where
  "fragment_row_ok row \<longleftrightarrow>
     (let name = get_or row ''path'' PNone; sha256 = get_or row ''sha256'' PNone in
      is_str name \<and> CHR 0x2F \<notin> set (the_str name) \<and> the_str name \<noteq> ''.'' \<and> yaml_name (the_str name)
      \<and> is_str sha256 \<and> hex_id 64 (the_str sha256))"

definition row_name :: "py \<Rightarrow> string" where
  "row_name row = the_str (get_or row ''path'' PNone)"

definition receipt_fragments :: "py \<Rightarrow> py option \<Rightarrow> exn + unit" where
  "receipt_fragments receipt binding =
     (let fragments = get_or receipt ''fragments'' PNone; rows = the_list fragments in
      bindE (require_version (is_list fragments \<and> rows \<noteq> [] \<and> length rows \<le> 256)
               ''release preparation receipt has no reviewed fragment digests'') (\<lambda>_.
      bindE (forE (\<lambda>row. checks
        [(is_dict row \<and> set (keys_of row) = {''path'', ''sha256''},
            VersionError ''release preparation receipt has a malformed fragment digest''),
         (fragment_row_ok row, VersionError ''release preparation receipt has an unsafe fragment digest'')]) rows) (\<lambda>_.
      bindE (require_version (sorted_wrt (<) (map row_name rows))
               ''release preparation receipt fragment digests are duplicate or unsorted'') (\<lambda>_.
      case binding of None \<Rightarrow> Inr ()
      | Some b \<Rightarrow>
          let expected = last (split_on (CHR 0x2F) (the_str (get_or b ''changelog_fragment_path'' PNone)));
              expected_digest = removeprefix ''sha256:'' (the_str (get_or b ''changelog_fragment_sha256'' PNone));
              bound = map (\<lambda>row. (row_name row, the_str (get_or row ''sha256'' PNone))) rows in
          require_version (map_of bound expected = Some expected_digest)
            ''Security release preparation fragments do not contain the immutable intake fragment digest''))))"

definition prepare_path :: string where
  "prepare_path = ''.github/workflows/release-prepare.yml''"

definition WORKFLOW_KEYS :: "string list" where
  "WORKFLOW_KEYS = [''path'', ''ref'', ''source_sha'', ''run_id'', ''run_attempt'', ''event'', ''git_ref'', ''actor'']"

definition receipt_workflow :: "py \<Rightarrow> expectation \<Rightarrow> py option \<Rightarrow> exn + unit" where
  "receipt_workflow receipt ex binding =
     (let workflow = get_or receipt ''workflow'' PNone; field = (\<lambda>k. get_or workflow k PNone); source = field ''source_sha'';
          refused = ''release preparation receipt does not identify an authorized workflow run'' in
      bindE (checks
        [(py_eq (get_or receipt ''preparer'' PNone) RELEASE_PREPARER,
            VersionError ''release preparation receipt preparer is unauthorized''),
         (is_dict workflow \<and> set (keys_of workflow) = set WORKFLOW_KEYS,
            VersionError ''release preparation receipt workflow identity is malformed''),
         (py_eq (field ''path'') (PStr prepare_path)
            \<and> py_eq (field ''ref'') (PStr (ex_repository ex @ ''/'' @ prepare_path @ ''@refs/heads/main''))
            \<and> is_str source \<and> hex_id 40 (the_str source)
            \<and> (get_or receipt ''schema_version'' PNone = PInt 2 \<longrightarrow> source = PStr (ex_base_sha ex))
            \<and> py_eq (field ''git_ref'') (PStr ''refs/heads/main''), VersionError refused)]) (\<lambda>_.
      bindE (py_in (field ''event'') [''push'', ''workflow_dispatch'']) (\<lambda>known.
      checks
        [(known \<and> is_str (field ''actor'') \<and> the_str (field ''actor'') \<noteq> [] \<and> numeral_field (field ''run_id'')
            \<and> numeral_field (field ''run_attempt''), VersionError refused),
         (mode_of binding = ''normal'' \<or> (field ''event'' = PStr ''push'' \<and> field ''actor'' = PStr RELEASE_APP_LOGIN),
            VersionError ''Security release preparation must be an App-authored protected-main push'')])))"

definition verify_preparation_receipt ::
    "(string \<Rightarrow> string) \<Rightarrow> (string \<Rightarrow> exn + py) \<Rightarrow> (string \<Rightarrow> bool) \<Rightarrow> node \<Rightarrow> py \<Rightarrow> expectation \<Rightarrow> int \<Rightarrow> exn + unit" where
  "verify_preparation_receipt sha flt digits tree receipt ex checked_at =
     bindE (receipt_identity digits receipt ex) (\<lambda>_.
     bindE (receipt_route receipt ex) (\<lambda>_.
     bindE (receipt_version receipt ex) (\<lambda>_.
     bindE (security_binding sha flt tree (the_str (get_or receipt ''current_version'' PNone)) (ex_version ex) checked_at) (\<lambda>binding.
     bindE (receipt_markers receipt ex binding) (\<lambda>_.
     bindE (receipt_fragments receipt binding) (\<lambda>_.
     receipt_workflow receipt ex binding))))))"

text \<open>The run that prepares a release, and what it publishes.\<close>

record preparation =
  prep_repository :: string
  prep_repository_id :: string
  prep_base_sha :: string
  prep_run_id :: string
  prep_attempt :: string
  prep_ref :: string
  prep_event :: string
  prep_actor :: string
  prep_source_sha :: string
  prep_github_release :: bool
  prep_galaxy :: bool

definition preparation_payload :: "py \<Rightarrow> preparation \<Rightarrow> py option \<Rightarrow> py" where
  "preparation_payload resolved run binding = PDict (
     [(''schema_version'', PInt (if mode_of binding = ''security'' then 2 else RELEASE_PREPARATION_SCHEMA_VERSION)),
      (''repository'', PStr (prep_repository run)),
      (''repository_id'', PStr (prep_repository_id run)),
      (''base_sha'', PStr (prep_base_sha run)),
      (''release_mode'', PStr (mode_of binding)),
      (''chain_id'', case binding of None \<Rightarrow> PNone | Some b \<Rightarrow> get_or b ''chain_id'' PNone),
      (''security'', case binding of None \<Rightarrow> PNone | Some b \<Rightarrow> security_section b (get_or b ''human_actions'' PNone)),
      (''current_version'', get_or resolved ''current_version'' PNone),
      (''impact'', get_or resolved ''impact'' PNone),
      (''next_version'', get_or resolved ''version'' PNone),
      (''fragments'', get_or resolved ''fragment_sha256'' PNone),
      (''preparer'', RELEASE_PREPARER),
      (''workflow'', PDict
        [(''path'', PStr prepare_path), (''ref'', PStr (prep_ref run)),
         (''source_sha'', PStr (if prep_source_sha run = [] then prep_base_sha run else prep_source_sha run)),
         (''run_id'', PStr (prep_run_id run)), (''run_attempt'', PStr (prep_attempt run)), (''event'', PStr (prep_event run)),
         (''git_ref'', PStr ''refs/heads/main''), (''actor'', PStr (prep_actor run))])]
     @ (if mode_of binding = ''normal''
        then [(''content_base'', content_base (prep_base_sha run)),
              (''publication'', PDict [(''github_release'', PBool (prep_github_release run)), (''galaxy'', PBool (prep_galaxy run))])]
        else []))"

text \<open>The versions of a resolution are strings (\<open>resolution\<close>).\<close>

definition build_preparation_receipt ::
    "(string \<Rightarrow> string) \<Rightarrow> (string \<Rightarrow> exn + py) \<Rightarrow> (string \<Rightarrow> bool) \<Rightarrow> node \<Rightarrow> py \<Rightarrow> preparation \<Rightarrow> int \<Rightarrow> exn + py" where
  "build_preparation_receipt sha flt digits tree resolved run checked_at =
     (let version = the_str (get_or resolved ''version'' (PStr []));
          current_version = the_str (get_or resolved ''current_version'' (PStr [])) in
      bindE (security_binding sha flt tree current_version version checked_at) (\<lambda>binding.
      let payload = preparation_payload resolved run binding in
      bindE (verify_preparation_receipt sha flt digits tree payload
               \<lparr>ex_repository = prep_repository run, ex_repository_id = prep_repository_id run,
                ex_base_sha = prep_base_sha run, ex_version = version\<rparr> checked_at) (\<lambda>_.
      Inr payload)))"

section \<open>The command\<close>

definition verify_command ::
    "(string \<Rightarrow> string) \<Rightarrow> (string \<Rightarrow> exn + py) \<Rightarrow> (string \<Rightarrow> bool) \<Rightarrow> node \<Rightarrow> string list \<Rightarrow> expectation \<Rightarrow> int \<Rightarrow> exn + py" where
  "verify_command sha flt digits tree receipt_path ex checked_at =
     bindE (load_preparation_receipt flt tree receipt_path) (\<lambda>receipt.
     bindE (verify_preparation_receipt sha flt digits tree receipt ex checked_at) (\<lambda>_. Inr receipt))"

text \<open>The resolution that is printed and the bytes of the receipt that is written.\<close>

definition prepare_command ::
    "(string \<Rightarrow> string) \<Rightarrow> (string \<Rightarrow> exn + py) \<Rightarrow> yaml \<Rightarrow> (string list \<Rightarrow> exn + string list) \<Rightarrow> (string \<Rightarrow> bool) \<Rightarrow> node
      \<Rightarrow> string list \<Rightarrow> string list \<Rightarrow> string \<Rightarrow> string \<Rightarrow> preparation \<Rightarrow> int \<Rightarrow> exn + py \<times> string" where
  "prepare_command sha flt yaml realpath digits tree galaxy_path fragments_root requested security_target run checked_at =
     bindE (resolve_version sha flt yaml realpath tree galaxy_path fragments_root requested security_target checked_at) (\<lambda>payload.
     bindE (build_preparation_receipt sha flt digits tree payload run checked_at) (\<lambda>receipt.
     bindE (canonical_document_bytes receipt) (\<lambda>raw. Inr (payload, raw))))"

lemmas [run_simps] = IMPACT_CATEGORIES_def NEUTRAL_CATEGORIES_def KNOWN_CATEGORIES_def MAX_FRAGMENT_BYTES_def
  RELEASE_PREPARATION_SCHEMA_VERSION_def RELEASE_PREPARER_def SECURITY_RECEIPT_KEYS_def require_version_def
  construct_unique_mapping_def read_bytes_def read_text_def path_size_def plain_document_def load_mapping_def load_yaml_def
  category_ok_def observe_fragment_def strongest_impact_def derive_impact_from_paths_def path_suffix_def yaml_name_def
  derive_impact_def fragment_digests_def parse_stable_version_def next_version_def security_binding_def security_impact_def
  galaxy_version_def selected_version_def resolution_def resolve_version_def load_preparation_receipt_def RECEIPT_KEYS_def
  repository_char_def repository_form_def isdigit_def receipt_identity_def content_base_def receipt_route_def
  receipt_version_def security_section_def mode_of_def receipt_markers_def removeprefix_def fragment_row_ok_def row_name_def
  receipt_fragments_def prepare_path_def WORKFLOW_KEYS_def receipt_workflow_def verify_preparation_receipt_def
  preparation_payload_def build_preparation_receipt_def verify_command_def prepare_command_def

section \<open>The impact of the fragments\<close>

definition category_rank :: "string \<Rightarrow> nat" where
  "category_rank c =
     (if c \<in> {''breaking_changes'', ''major_changes'', ''removed_features''} then 3
      else if c \<in> {''deprecated_features'', ''minor_changes''} then 2
      else if c \<in> {''bugfixes'', ''security_fixes''} then 1 else 0)"

text \<open>The next version after a change of a rank.\<close>

definition bumped :: "version \<Rightarrow> nat \<Rightarrow> version" where
  "bumped v rank = (case v of (major, minor, patch) \<Rightarrow>
     if rank = 3 then (major + 1, 0, 0) else if rank = 2 then (major, minor + 1, 0) else (major, minor, patch + 1))"

definition impact_rank :: "string \<Rightarrow> nat" where
  "impact_rank impact = (if impact = ''major'' then 3 else if impact = ''minor'' then 2 else 1)"

definition categories :: "yaml \<Rightarrow> node \<Rightarrow> string list \<Rightarrow> string set" where
  "categories yaml tree parts = (case load_yaml yaml tree parts of Inr v \<Rightarrow> set (keys_of v) | Inl _ \<Rightarrow> {})"

definition strongest :: "yaml \<Rightarrow> node \<Rightarrow> string list list \<Rightarrow> nat \<Rightarrow> bool" where
  "strongest yaml tree paths rank \<longleftrightarrow> 0 < rank
     \<and> (\<forall>p \<in> set paths. \<forall>c \<in> categories yaml tree p. category_rank c \<le> rank)
     \<and> (\<exists>p \<in> set paths. \<exists>c \<in> categories yaml tree p. category_rank c = rank)"

lemma require_version_Inr [simp]: "require_version c m = Inr u \<longleftrightarrow> c"
  by (simp add: require_version_def)

lemma require_version_True [simp]: "require_version True m = Inr ()"
  by (simp add: require_version_def)

lemma observe_fragment_Inr:
  assumes "observe_fragment yaml tree observed p = Inr seen"
  shows "categories yaml tree p \<subseteq> set KNOWN_CATEGORIES
    \<and> set seen = set observed \<union> (categories yaml tree p - set NEUTRAL_CATEGORIES)"
proof -
  let ?step = "\<lambda>seen (category, entries).
        bindE (require_version (category_ok entries) ''changelog category must contain nonempty text entries'') (\<lambda>_.
        Inr (if category \<in> set NEUTRAL_CATEGORIES then seen else seen @ [category]))"
  have f: "foldE ?step obs kvs = Inr seen \<Longrightarrow> set seen = set obs \<union> (fst ` set kvs - set NEUTRAL_CATEGORIES)"
    for obs seen :: "string list" and kvs
  proof (induction kvs arbitrary: obs)
    case (Cons kv kvs)
    obtain k v where kv: "kv = (k, v)" by (cases kv)
    with Cons.prems have "foldE ?step (if k \<in> set NEUTRAL_CATEGORIES then obs else obs @ [k]) kvs = Inr seen"
      by (simp add: bindE_eq_Inr)
    from Cons.IH [OF this] kv show ?case by auto
  qed simp
  from assms obtain payload where l: "load_yaml yaml tree p = Inr payload" "set (keys_of payload) \<subseteq> set KNOWN_CATEGORIES"
    and r: "foldE ?step observed (the_items payload) = Inr seen"
    by (auto simp: observe_fragment_def bindE_eq_Inr)
  from l(1) obtain items where "payload = PDict items" by (auto simp: load_yaml_def bindE_eq_Inr is_dict_iff)
  with l f [OF r] show ?thesis by (simp add: categories_def)
qed

lemma observe_fragments:
  assumes "foldE (observe_fragment yaml tree) observed paths = Inr seen"
  shows "(\<forall>p \<in> set paths. categories yaml tree p \<subseteq> set KNOWN_CATEGORIES)
    \<and> set seen = set observed \<union> ((\<Union>p \<in> set paths. categories yaml tree p) - set NEUTRAL_CATEGORIES)"
  using assms
proof (induction paths arbitrary: observed)
  case (Cons p ps)
  then obtain obs where "observe_fragment yaml tree observed p = Inr obs" "foldE (observe_fragment yaml tree) obs ps = Inr seen"
    by (auto simp: bindE_eq_Inr)
  with observe_fragment_Inr [OF this(1)] Cons.IH [OF this(2)] show ?case by auto
qed simp

lemma rank_known:
  "c \<in> set KNOWN_CATEGORIES \<Longrightarrow> category_rank c = 0 \<longleftrightarrow> c \<in> set NEUTRAL_CATEGORIES"
  by (auto simp: KNOWN_CATEGORIES_def IMPACT_CATEGORIES_def NEUTRAL_CATEGORIES_def category_rank_def)

lemma strongest_impact_rank:
  assumes "strongest_impact observed = Some impact"
  shows "(\<forall>c \<in> set observed. category_rank c \<le> impact_rank impact) \<and> (\<exists>c \<in> set observed. category_rank c = impact_rank impact)
    \<and> impact \<in> {''major'', ''minor'', ''patch''}"
proof -
  let ?major = "{''breaking_changes'', ''major_changes'', ''removed_features''}"
  let ?minor = "{''deprecated_features'', ''minor_changes''}"
  let ?patch = "{''bugfixes'', ''security_fixes''}"
  from assms consider "impact = ''major''" "set observed \<inter> ?major \<noteq> {}"
    | "impact = ''minor''" "set observed \<inter> ?major = {}" "set observed \<inter> ?minor \<noteq> {}"
    | "impact = ''patch''" "set observed \<inter> ?major = {}" "set observed \<inter> ?minor = {}" "set observed \<inter> ?patch \<noteq> {}"
    by (auto simp: strongest_impact_def IMPACT_CATEGORIES_def split: if_splits)
  then show ?thesis
  proof cases
    case 1
    then obtain c where "c \<in> set observed" "c \<in> ?major" by blast
    then have "\<exists>c \<in> set observed. category_rank c = 3" unfolding category_rank_def by (intro bexI [of _ c]) simp_all
    with 1 show ?thesis by (simp add: category_rank_def impact_rank_def)
  next
    case 2
    then obtain c where c: "c \<in> set observed" "c \<in> ?minor" by blast
    with 2 have "\<exists>c \<in> set observed. category_rank c = 2" unfolding category_rank_def by (intro bexI [of _ c]) auto
    moreover from 2 have "\<forall>c \<in> set observed. category_rank c \<le> 2" unfolding category_rank_def by auto
    ultimately show ?thesis using 2 by (simp add: impact_rank_def)
  next
    case 3
    then obtain c where c: "c \<in> set observed" "c \<in> ?patch" by blast
    with 3 have "\<exists>c \<in> set observed. category_rank c = 1" unfolding category_rank_def by (intro bexI [of _ c]) auto
    moreover from 3 have "\<forall>c \<in> set observed. category_rank c \<le> 1" unfolding category_rank_def by auto
    ultimately show ?thesis using 3 by (simp add: impact_rank_def)
  qed
qed

lemma derive_paths_strongest:
  assumes "derive_impact_from_paths yaml tree paths = Inr (impact, names)"
  shows "names = map last paths \<and> strongest yaml tree paths (impact_rank impact) \<and> impact \<in> {''major'', ''minor'', ''patch''}
    \<and> paths \<noteq> [] \<and> length paths \<le> 256"
proof -
  from assms obtain observed where f: "foldE (observe_fragment yaml tree) [] paths = Inr observed"
    and s: "strongest_impact observed = Some impact" and n: "names = map last paths" "paths \<noteq> []" "length paths \<le> 256"
    by (auto simp: derive_impact_from_paths_def bindE_eq_Inr split: option.splits)
  note o = observe_fragments [OF f]
  have "category_rank c \<le> impact_rank impact" if p: "p \<in> set paths" and c: "c \<in> categories yaml tree p" for p c
  proof (cases "category_rank c = 0")
    case False
    from o p c have "c \<in> set KNOWN_CATEGORIES" by blast
    from False rank_known [OF this] have "c \<notin> set NEUTRAL_CATEGORIES" by simp
    with o p c have "c \<in> set observed" by simp blast
    with strongest_impact_rank [OF s] show ?thesis by simp
  qed simp
  moreover obtain c where "c \<in> set observed" "category_rank c = impact_rank impact"
    using strongest_impact_rank [OF s] by blast
  with o have "\<exists>p \<in> set paths. \<exists>c \<in> categories yaml tree p. category_rank c = impact_rank impact" by auto
  moreover have "0 < impact_rank impact" by (simp add: impact_rank_def)
  ultimately show ?thesis
    using n strongest_impact_rank [OF s] by (auto simp: strongest_def)
qed

lemma next_version_bumped: "next_version v impact = Inr w \<Longrightarrow> w = bumped v (impact_rank impact)"
  by (auto simp: next_version_def bumped_def impact_rank_def split: prod.splits if_splits)

lemma bumped_greater: "v < bumped v rank"
  by (cases v) (auto simp: bumped_def less_prod_simp)

section \<open>The resolution\<close>

definition digest_row :: "(string \<Rightarrow> string) \<Rightarrow> node \<Rightarrow> string list \<Rightarrow> string \<Rightarrow> py \<Rightarrow> bool" where
  "digest_row sha tree fragments_root name row \<longleftrightarrow>
     (\<exists>st_size raw. path_stat tree (fragments_root @ [name]) = Some (Regular st_size raw)
        \<and> row = PDict [(''path'', PStr name), (''sha256'', PStr (sha raw))])"

lemma fragment_digests_Inr:
  assumes "fragment_digests sha tree fragments_root names = Inr d"
  shows "\<exists>rows. d = PList rows \<and> list_all2 (digest_row sha tree fragments_root) names rows"
proof -
  have r: "bindE (read_bytes tree (fragments_root @ [name])) (\<lambda>raw.
      Inr (PDict [(''path'', PStr name), (''sha256'', PStr (sha raw))])) = Inr row \<Longrightarrow> digest_row sha tree fragments_root name row"
    for name row by (auto simp: digest_row_def read_bytes_def bindE_eq_Inr split: option.splits node.splits)
  from assms obtain rows where d: "d = PList rows" and m: "mapE (\<lambda>name. bindE (read_bytes tree (fragments_root @ [name])) (\<lambda>raw.
      Inr (PDict [(''path'', PStr name), (''sha256'', PStr (sha raw))]))) names = Inr rows"
    unfolding fragment_digests_def bindE_eq_Inr by auto
  from m have "list_all2 (digest_row sha tree fragments_root) names rows"
    unfolding mapE_eq_Inr by (rule list_all2_mono) (rule r)
  with d show ?thesis by blast
qed

text \<open>The fragments of the directory in the order of their names.\<close>

definition fragment_names :: "node \<Rightarrow> string list \<Rightarrow> string list" where
  "fragment_names tree fragments_root = sort (filter yaml_name (map fst (path_entries tree fragments_root)))"

lemma derive_impact_Inr:
  assumes "derive_impact yaml tree fragments_root = Inr (impact, names)"
  shows "names = fragment_names tree fragments_root
    \<and> strongest yaml tree (map (\<lambda>name. fragments_root @ [name]) names) (impact_rank impact)
    \<and> impact \<in> {''major'', ''minor'', ''patch''} \<and> names \<noteq> [] \<and> length names \<le> 256"
proof -
  let ?paths = "map (\<lambda>name. fragments_root @ [name]) (fragment_names tree fragments_root)"
  from assms have "derive_impact_from_paths yaml tree ?paths = Inr (impact, names)"
    by (auto simp: derive_impact_def Let_def bindE_eq_Inr fragment_names_def)
  from derive_paths_strongest [OF this] show ?thesis by (simp add: comp_def)
qed

lemma security_impact_Inr:
  "security_impact yaml realpath tree fragments_root binding = Inr (impact, names) \<Longrightarrow> impact = ''patch'' \<and> binding \<noteq> None"
  by (auto simp: security_impact_def Let_def bindE_eq_Inr split: option.splits)

lemma resolve_version_Inr:
  assumes "resolve_version sha flt yaml realpath tree galaxy_path fragments_root requested security_target checked_at = Inr r"
  obtains current impact names expected digests where
    "galaxy_version yaml tree galaxy_path = Inr current" "requested = [] \<or> security_target = []"
    "if security_target = [] then derive_impact yaml tree fragments_root = Inr (impact, names) else impact = ''patch''"
    "next_version current impact = Inr expected"
    "security_target \<noteq> [] \<longrightarrow> selected_version expected security_target ''Security target version'' = Inr expected"
    "requested \<noteq> [] \<longrightarrow> selected_version expected requested ''requested version'' = Inr expected"
    "fragment_digests sha tree fragments_root names = Inr digests"
    "r = resolution current impact expected names digests"
proof -
  have sel: "selected_version e w l = Inr v \<Longrightarrow> v = e" for e w l v
    by (auto simp: selected_version_def bindE_eq_Inr)
  from assms obtain current p expected selected digests where
    v: "galaxy_version yaml tree galaxy_path = Inr current" "requested = [] \<or> security_target = []"
    and i: "(if security_target \<noteq> []
            then bindE (parse_stable_version (PStr security_target) ''Security target version'') (\<lambda>target.
                 bindE (security_binding sha flt tree (version_text current) (version_text target) checked_at)
                   (security_impact yaml realpath tree fragments_root))
            else derive_impact yaml tree fragments_root) = Inr p"
    and n: "next_version current (fst p) = Inr expected"
    and s: "(if security_target \<noteq> [] then selected_version expected security_target ''Security target version''
            else if requested \<noteq> [] then selected_version expected requested ''requested version''
            else Inr expected) = Inr selected"
    and d: "fragment_digests sha tree fragments_root (snd p) = Inr digests"
    and r: "resolution current (fst p) selected (snd p) digests = r"
    unfolding resolve_version_def bindE_eq_Inr require_version_Inr split_def sum.inject by (elim exE conjE) (rule that)
  have e: "selected = expected" using s by (auto dest: sel split: if_splits)
  show thesis
  proof (rule that [OF v _ n _ _ d r [unfolded e, symmetric]])
    show "if security_target = [] then derive_impact yaml tree fragments_root = Inr (fst p, snd p) else fst p = ''patch''"
      using i security_impact_Inr [of _ _ _ _ _ "fst p" "snd p"] by (auto simp: bindE_eq_Inr)
    show "security_target \<noteq> [] \<longrightarrow> selected_version expected security_target ''Security target version'' = Inr expected"
      using s by (simp add: e split: if_splits)
    show "requested \<noteq> [] \<longrightarrow> selected_version expected requested ''requested version'' = Inr expected"
      using s v(2) by (auto simp: e split: if_splits)
  qed
qed

lemma selected_version_Inr:
  "selected_version expected wanted label = Inr v \<Longrightarrow> version_of (py_strip wanted) = Inr expected \<and> semver (py_strip wanted)"
  by (auto simp: selected_version_def parse_stable_version_def bindE_eq_Inr)

lemma resolution_fields [simp]:
  "get_or (resolution c i s f d) ''current_version'' v = PStr (version_text c)"
  "get_or (resolution c i s f d) ''impact'' v = PStr i"
  "get_or (resolution c i s f d) ''version'' v = PStr (version_text s)"
  "get_or (resolution c i s f d) ''fragments'' v = PList (map PStr f)"
  "get_or (resolution c i s f d) ''fragment_sha256'' v = d"
  by (simp_all add: resolution_def get_or_def)

text \<open>
  C12: a resolved version is the one the reviewed fragments call for. Without a Security target
  the fragments are all YAML files of the directory, in order, and the strongest category that
  occurs in any of them decides which component of the collection's version goes up, the lower
  ones restarting at zero; a Security target is a patch release. A version that was requested or
  targeted is accepted only if it is this one, it is greater than the current version, and the
  digests are those of the bytes of the fragments.
\<close>

theorem resolved_version_exact:
  assumes "resolve_version sha flt yaml realpath tree galaxy_path fragments_root requested security_target checked_at = Inr r"
  shows "\<exists>current names rank rows.
    galaxy_version yaml tree galaxy_path = Inr current \<and> get_or r ''current_version'' PNone = PStr (version_text current)
    \<and> get_or r ''version'' PNone = PStr (version_text (bumped current rank)) \<and> current < bumped current rank
    \<and> get_or r ''fragments'' PNone = PList (map PStr names)
    \<and> (if security_target = [] then names = fragment_names tree fragments_root
         \<and> strongest yaml tree (map (\<lambda>name. fragments_root @ [name]) names) rank else rank = 1)
    \<and> (\<forall>wanted \<in> {requested, security_target}. wanted \<noteq> [] \<longrightarrow> version_of (py_strip wanted) = Inr (bumped current rank))
    \<and> get_or r ''fragment_sha256'' PNone = PList rows \<and> list_all2 (digest_row sha tree fragments_root) names rows"
  using assms
proof (rule resolve_version_Inr)
  fix current impact names expected digests
  assume a: "galaxy_version yaml tree galaxy_path = Inr current"
    "if security_target = [] then derive_impact yaml tree fragments_root = Inr (impact, names) else impact = ''patch''"
    "next_version current impact = Inr expected"
    "security_target \<noteq> [] \<longrightarrow> selected_version expected security_target ''Security target version'' = Inr expected"
    "requested \<noteq> [] \<longrightarrow> selected_version expected requested ''requested version'' = Inr expected"
    and d: "fragment_digests sha tree fragments_root names = Inr digests" and r: "r = resolution current impact expected names digests"
  from fragment_digests_Inr [OF d] obtain rows where "digests = PList rows" "list_all2 (digest_row sha tree fragments_root) names rows"
    by blast
  moreover have "if security_target = [] then names = fragment_names tree fragments_root
      \<and> strongest yaml tree (map (\<lambda>name. fragments_root @ [name]) names) (impact_rank impact) else impact_rank impact = 1"
    using a(2) derive_impact_Inr by (auto simp: impact_rank_def)
  ultimately show ?thesis
    using a next_version_bumped [OF a(3)] bumped_greater [of current "impact_rank impact"] r
    by (intro exI [of _ current] exI [of _ names] exI [of _ "impact_rank impact"] exI [of _ rows])
       (auto dest: selected_version_Inr)
qed

section \<open>What an accepted receipt says of the markers\<close>

lemma py_eq_field:
  assumes "py_eq (PDict xs) (PDict ys)" and "k \<in> fst ` set xs" and "map_of ys k = Some (PStr s)"
  shows "get_or (PDict xs) k PNone = PStr s"
proof -
  from assms(2) obtain v where "map_of xs k = Some v" by (metis option.exhaust map_of_eq_None_iff)
  then have "(k, v) \<in> set xs" by (rule map_of_SomeD)
  with assms \<open>map_of xs k = Some v\<close> show ?thesis by (fastforce simp: py_eq_items_iff get_or_def)
qed

lemma security_binding_Inr: "security_binding sha flt tree c v t = Inr b \<longleftrightarrow> load_release_security_binding sha flt tree c v t = Inr b"
  by (auto simp: security_binding_def split: sum.splits exn.splits)

lemma verify_preparation_receipt_Inr:
  assumes "verify_preparation_receipt sha flt digits tree receipt ex checked_at = Inr u"
  obtains binding where
    "receipt_identity digits receipt ex = Inr ()" "receipt_route receipt ex = Inr ()" "receipt_version receipt ex = Inr ()"
    "load_release_security_binding sha flt tree (the_str (get_or receipt ''current_version'' PNone)) (ex_version ex) checked_at = Inr binding"
    "receipt_markers receipt ex binding = Inr ()" "receipt_fragments receipt binding = Inr ()" "receipt_workflow receipt ex binding = Inr ()"
  using assms by (auto simp: verify_preparation_receipt_def bindE_eq_Inr security_binding_Inr)

text \<open>The files of the marker are the ones the receipt names by their digests, and one of its rows is the fragment.\<close>

definition bound_release :: "(string \<Rightarrow> string) \<Rightarrow> node \<Rightarrow> py \<Rightarrow> string \<Rightarrow> bool" where
  "bound_release sha tree receipt version \<longleftrightarrow>
     (let security = get_or receipt ''security'' PNone in
      bound_file sha tree (metadata_parts version) (get_or security ''metadata_sha256'' PNone)
      \<and> bound_file sha tree (intake_parts version) (get_or security ''intake_receipt_sha256'' PNone)
      \<and> (\<exists>parts st_size raw row. lstat tree parts = Some (Regular st_size raw) \<and> row \<in> set (the_list (get_or receipt ''fragments'' PNone))
           \<and> row_name row = last parts \<and> the_str (get_or row ''sha256'' PNone) = sha raw))"

lemma security_markers:
  assumes "load_release_security_binding sha flt tree current version t = Inr (Some b)"
    and "receipt_markers receipt ex (Some b) = Inr ()" and "receipt_fragments receipt (Some b) = Inr ()"
  shows "bound_release sha tree receipt version"
proof -
  let ?security = "get_or receipt ''security'' PNone"
  let ?parts = "split_on (CHR 0x2F) (the_str (get_or b ''changelog_fragment_path'' PNone))"
  from loaded_binding [OF assms(1)] have m: "bound_file sha tree (metadata_parts version) (get_or b ''metadata_sha256'' PNone)"
    "bound_file sha tree (intake_parts version) (get_or b ''intake_receipt_sha256'' PNone)"
    and f: "bound_file sha tree ?parts (get_or b ''changelog_fragment_sha256'' PNone)" by auto
  from assms(2) obtain kvs where k: "?security = PDict kvs" "fst ` set kvs = set SECURITY_RECEIPT_KEYS"
    and e: "py_eq ?security (security_section b (PInt 0))"
    by (auto simp: receipt_markers_def Let_def bindE_eq_Inr checks_eq_Inr is_dict_iff)
  from m obtain s s' where s: "get_or b ''metadata_sha256'' PNone = PStr s" "get_or b ''intake_receipt_sha256'' PNone = PStr s'"
    by (auto simp: bound_file_def)
  have "get_or ?security ''metadata_sha256'' PNone = PStr s" "get_or ?security ''intake_receipt_sha256'' PNone = PStr s'"
    unfolding k(1) by (rule py_eq_field [OF e [unfolded k(1) security_section_def Let_def]]; simp add: k(2) SECURITY_RECEIPT_KEYS_def s)+
  moreover from f obtain st_size raw where "lstat tree ?parts = Some (Regular st_size raw)"
    "get_or b ''changelog_fragment_sha256'' PNone = PStr (sha256_bytes sha raw)" by (auto simp: bound_file_def)
  moreover from this(2) assms(3) have "map_of (map (\<lambda>row. (row_name row, the_str (get_or row ''sha256'' PNone)))
      (the_list (get_or receipt ''fragments'' PNone))) (last ?parts) = Some (sha raw)"
    by (simp add: receipt_fragments_def Let_def bindE_eq_Inr removeprefix_def sha256_bytes_def)
  from map_of_SomeD [OF this] have "\<exists>row \<in> set (the_list (get_or receipt ''fragments'' PNone)).
      row_name row = last ?parts \<and> the_str (get_or row ''sha256'' PNone) = sha raw" by auto
  ultimately show ?thesis using m s by (auto simp: bound_release_def Let_def)
qed


section \<open>A receipt that was written verifies\<close>

lemma get_or_detach_PStr: "get_or (detach d) k (PStr s) = detach (get_or d k (PStr s))"
  by (cases d) (simp_all add: get_or_def map_of_sort_key map_of_detach_items split: option.splits)

lemma all_items_detach: "list_all (\<lambda>(_, v). is_bool v) (the_items (detach d)) = list_all (\<lambda>(_, v). is_bool v) (the_items d)"
  by (cases d) (auto simp: list_all_iff detach_items_map)

lemma parse_stable_version_detach [simp]: "parse_stable_version (detach v) label = parse_stable_version v label"
  by (simp add: parse_stable_version_def)

lemma receipt_parts_detach:
  "receipt_identity digits (detach r) ex = receipt_identity digits r ex"
  "receipt_route (detach r) ex = receipt_route r ex"
  "receipt_version (detach r) ex = receipt_version r ex"
  "receipt_workflow (detach r) ex binding = receipt_workflow r ex binding"
  by (simp_all add: receipt_identity_def receipt_route_def receipt_version_def receipt_workflow_def all_items_detach
      get_or_detach_PStr numeral_field_def Let_def del: checks.simps)

lemma receipt_markers_detach: "receipt_markers (detach r) ex binding = receipt_markers r ex binding"
  by (cases binding) (simp_all add: receipt_markers_def Let_def del: checks.simps)

lemma receipt_fragments_detach: "receipt_fragments (detach r) binding = Inr () \<longleftrightarrow> receipt_fragments r binding = Inr ()"
proof -
  have r: "fragment_row_ok (detach row) = fragment_row_ok row" "row_name (detach row) = row_name row" for row
    by (simp_all add: fragment_row_ok_def row_name_def Let_def)
  show ?thesis
    by (cases binding) (simp_all add: receipt_fragments_def Let_def bindE_eq_Inr forE_eq_Inr checks_eq_Inr r comp_def)
qed

lemma verify_receipt_detach:
  assumes "verify_preparation_receipt sha flt digits tree r ex t = Inr ()"
    and "security_binding sha flt tree' (the_str (get_or r ''current_version'' PNone)) (ex_version ex) t'
      = security_binding sha flt tree (the_str (get_or r ''current_version'' PNone)) (ex_version ex) t"
  shows "verify_preparation_receipt sha flt digits tree' (detach r) ex t' = Inr ()"
  using assms(1)
  by (auto simp: verify_preparation_receipt_def bindE_eq_Inr receipt_parts_detach receipt_markers_detach
      receipt_fragments_detach assms(2))

definition expected_receipt :: "preparation \<Rightarrow> string \<Rightarrow> expectation" where
  "expected_receipt run version = \<lparr>ex_repository = prep_repository run, ex_repository_id = prep_repository_id run,
     ex_base_sha = prep_base_sha run, ex_version = version\<rparr>"

lemma build_preparation_receipt_Inr:
  assumes "build_preparation_receipt sha flt digits tree resolved run t = Inr receipt"
  shows "is_dict receipt \<and> verify_preparation_receipt sha flt digits tree receipt
    (expected_receipt run (the_str (get_or resolved ''version'' (PStr [])))) t = Inr ()"
  using assms by (auto simp: build_preparation_receipt_def Let_def bindE_eq_Inr preparation_payload_def expected_receipt_def)


section \<open>What is resolved can be prepared\<close>

lemma dec_plain: "plain_numeral (dec n)"
  using dec_digits [of n] dec_no_leading_zero [of n] by (cases "n = 0") (auto simp: plain_numeral_def dec_zero)

lemma split_version_text: "split_on (CHR ''.'') (version_text (a, b, c)) = [dec a, dec b, dec c]"
proof -
  have "CHR ''.'' \<notin> set (dec n)" for n by (rule dec_no_char) simp
  then show ?thesis unfolding version_text_def by (simp only: prod.case list.map) (rule split_join; auto)
qed

lemma semver_version_text [simp]: "semver (version_text v)"
  by (cases v) (simp add: semver_def split_version_text dec_plain)

lemma version_of_text: "version_of (version_text v) = Inr w \<Longrightarrow> w = v"
  by (cases v) (auto simp: version_of_def split_version_text bindE_eq_Inr int_digits_def split: if_splits)

lemma strip_version_text: "py_strip (version_text v) = version_text v"
proof (rule strip_graphic)
  have "graphic (dec n)" for n
    using dec_digits [of n] by (auto simp: graphic_def is_digit_def list_all_iff)
  then show "graphic (version_text v)"
    by (cases v) (auto simp: version_text_def graphic_def list_all_iff dest!: join_with_all)
qed

lemma parse_version_text:
  assumes "version_of (version_text v) = Inr w"
  shows "parse_stable_version (PStr (version_text v)) label = Inr v"
  using assms version_of_text [OF assms] by (simp add: parse_stable_version_def strip_version_text)

text \<open>The identity of a run that may prepare a release.\<close>

definition run_authorized :: "(string \<Rightarrow> bool) \<Rightarrow> preparation \<Rightarrow> bool" where
  "run_authorized digits run \<longleftrightarrow>
     repository_form (prep_repository run) \<and> isdigit digits (prep_repository_id run) \<and> oid (prep_base_sha run)
     \<and> prep_ref run = prep_repository run @ ''/'' @ prepare_path @ ''@refs/heads/main''
     \<and> (prep_source_sha run = [] \<or> oid (prep_source_sha run)) \<and> prep_event run \<in> {''push'', ''workflow_dispatch''}
     \<and> prep_actor run \<noteq> [] \<and> positive_numeral (prep_run_id run) \<and> positive_numeral (prep_attempt run)"

lemma payload_fields:
  "get_or (preparation_payload r run None) ''schema_version'' PNone = PInt 3"
  "get_or (preparation_payload r run None) ''repository'' PNone = PStr (prep_repository run)"
  "get_or (preparation_payload r run None) ''repository_id'' PNone = PStr (prep_repository_id run)"
  "get_or (preparation_payload r run None) ''base_sha'' PNone = PStr (prep_base_sha run)"
  "get_or (preparation_payload r run None) ''release_mode'' PNone = PStr ''normal''"
  "get_or (preparation_payload r run None) ''chain_id'' PNone = PNone"
  "get_or (preparation_payload r run None) ''security'' PNone = PNone"
  "get_or (preparation_payload r run None) ''current_version'' PNone = get_or r ''current_version'' PNone"
  "get_or (preparation_payload r run None) ''impact'' (PStr []) = get_or r ''impact'' PNone"
  "get_or (preparation_payload r run None) ''next_version'' (PStr []) = get_or r ''version'' PNone"
  "get_or (preparation_payload r run None) ''fragments'' PNone = get_or r ''fragment_sha256'' PNone"
  "get_or (preparation_payload r run None) ''preparer'' PNone = RELEASE_PREPARER"
  "get_or (preparation_payload r run None) ''content_base'' PNone = content_base (prep_base_sha run)"
  "get_or (preparation_payload r run None) ''publication'' PNone =
     PDict [(''github_release'', PBool (prep_github_release run)), (''galaxy'', PBool (prep_galaxy run))]"
  "set (keys_of (preparation_payload r run None)) = set RECEIPT_KEYS \<union> {''content_base'', ''publication''}"
  by (simp_all add: preparation_payload_def get_or_def [of "PDict kvs" for kvs] mode_of_def RELEASE_PREPARATION_SCHEMA_VERSION_def
      RECEIPT_KEYS_def insert_commute)

lemma payload_workflow:
  assumes "run_authorized digits run" and "ex = expected_receipt run version"
  shows "receipt_workflow (preparation_payload r run None) ex None = Inr ()"
proof -
  have p: "py_eq RELEASE_PREPARER RELEASE_PREPARER" by (rule py_eq_refl) (simp add: RELEASE_PREPARER_def)
  let ?w = "get_or (preparation_payload r run None) ''workflow'' PNone"
  have w: "is_dict ?w" "set (keys_of ?w) = set WORKFLOW_KEYS" "get_or ?w ''path'' PNone = PStr prepare_path"
    "get_or ?w ''ref'' PNone = PStr (prep_ref run)" "get_or ?w ''git_ref'' PNone = PStr ''refs/heads/main''"
    "get_or ?w ''source_sha'' PNone = PStr (if prep_source_sha run = [] then prep_base_sha run else prep_source_sha run)"
    "get_or ?w ''event'' PNone = PStr (prep_event run)" "get_or ?w ''actor'' PNone = PStr (prep_actor run)"
    "get_or ?w ''run_id'' PNone = PStr (prep_run_id run)" "get_or ?w ''run_attempt'' PNone = PStr (prep_attempt run)"
    by (simp_all add: preparation_payload_def get_or_def [of "PDict kvs" for kvs] mode_of_def WORKFLOW_KEYS_def insert_commute)
  show ?thesis
    unfolding receipt_workflow_def Let_def w payload_fields
    using assms by (auto simp: run_authorized_def expected_receipt_def p w py_in_def numeral_field_def mode_of_def)
qed

lemma payload_identity:
  assumes "run_authorized digits run" and "ex = expected_receipt run version"
  shows "receipt_identity digits (preparation_payload r run None) ex = Inr ()" "receipt_route (preparation_payload r run None) ex = Inr ()"
    "receipt_markers (preparation_payload r run None) ex None = Inr ()"
proof -
  have c: "py_eq (content_base s) (content_base s)" for s by (rule py_eq_refl) (simp add: content_base_def)
  show "receipt_identity digits (preparation_payload r run None) ex = Inr ()"
    unfolding receipt_identity_def Let_def payload_fields
    using assms by (simp add: run_authorized_def expected_receipt_def RELEASE_PREPARATION_SCHEMA_VERSION_def)
  show "receipt_route (preparation_payload r run None) ex = Inr ()"
    unfolding receipt_route_def Let_def payload_fields
    using assms c by (simp add: expected_receipt_def insert_commute)
  show "receipt_markers (preparation_payload r run None) ex None = Inr ()"
    unfolding receipt_markers_def Let_def payload_fields by (simp add: mode_of_def)
qed

lemma fragment_names_sorted:
  assumes "path_stat tree fragments_root = Some (Directory es)" and "distinct (map fst es)"
  shows "sorted_wrt (<) (fragment_names tree fragments_root)" and "set (fragment_names tree fragments_root) \<subseteq> fst ` set es"
    and "\<forall>name \<in> set (fragment_names tree fragments_root). yaml_name name"
  using assms by (auto simp: fragment_names_def path_entries_def strict_sorted_iff)

lemma digest_rows_accepted:
  assumes "list_all2 (digest_row sha tree fragments_root) names rows" and "\<And>s. hex_id 64 (sha s)"
    and "\<forall>name \<in> set names. yaml_name name \<and> CHR 0x2F \<notin> set name" and "sorted_wrt (<) names"
    and "names \<noteq> []" "length names \<le> 256" and "get_or receipt ''fragments'' PNone = PList rows"
  shows "receipt_fragments receipt None = Inr ()"
proof -
  from assms(1) have n: "map row_name rows = names"
    by (induction rule: list_all2_induct) (auto simp: digest_row_def row_name_def get_or_def)
  have dot: "\<not> yaml_name ''.''" by code_simp
  have r: "is_dict row \<and> set (keys_of row) = {''path'', ''sha256''} \<and> fragment_row_ok row" if "row \<in> set rows" for row
  proof -
    from assms(1) that have "\<exists>name \<in> set names. digest_row sha tree fragments_root name row"
      by (induction rule: list_all2_induct) auto
    then obtain name where "name \<in> set names" "digest_row sha tree fragments_root name row" by blast
    with assms(2,3) dot show ?thesis
      by (auto simp: digest_row_def fragment_row_ok_def get_or_def)
  qed
  have "length rows = length names" using n by auto
  with assms(4-7) n r show ?thesis
    by (auto simp: receipt_fragments_def Let_def bindE_eq_Inr forE_eq_Inr checks_eq_Inr)
qed

text \<open>
  C13: what is resolved can be prepared. If a normal resolution succeeds, no marker is pending
  for its version and the run is an authorized one, building the receipt succeeds: the version,
  the impact and the fragment digests of a resolution always pass the checks of the verifier.
\<close>

theorem resolution_is_prepared:
  assumes "resolve_version sha flt yaml realpath tree galaxy_path fragments_root requested [] t = Inr r"
    and "path_stat tree fragments_root = Some (Directory es)" and "distinct (map fst es)"
    and "\<forall>name \<in> fst ` set es. CHR 0x2F \<notin> set name" and "\<And>s. hex_id 64 (sha s)"
    and "load_release_security_binding sha flt tree (the_str (get_or r ''current_version'' PNone))
      (the_str (get_or r ''version'' PNone)) t = Inr None"
    and "run_authorized digits run"
  shows "build_preparation_receipt sha flt digits tree r run t = Inr (preparation_payload r run None)"
  using assms(1)
proof (rule resolve_version_Inr)
  fix current impact names expected digests
  assume "if [] = ([] :: string) then derive_impact yaml tree fragments_root = Inr (impact, names) else impact = ''patch''"
    and n: "next_version current impact = Inr expected" and d: "fragment_digests sha tree fragments_root names = Inr digests"
    and r: "r = resolution current impact expected names digests"
  then have i: "derive_impact yaml tree fragments_root = Inr (impact, names)" by simp
  from fragment_digests_Inr [OF d] obtain rows where rows: "digests = PList rows" "list_all2 (digest_row sha tree fragments_root) names rows"
    by blast
  note names = derive_impact_Inr [OF i]
  let ?payload = "preparation_payload r run None" and ?ex = "expected_receipt run (version_text expected)"
  from assms(6) r have b: "load_release_security_binding sha flt tree (version_text current) (version_text expected) t = Inr None" by simp
  then obtain c e where v: "version_of (version_text current) = Inr c" "version_of (version_text expected) = Inr e"
    by (rule load_release_Inr) blast
  have "receipt_version ?payload ?ex = Inr ()"
    using n by (simp add: receipt_version_def Let_def payload_fields r parse_version_text [OF v(1)] parse_version_text [OF v(2)]
        expected_receipt_def)
  moreover have "receipt_fragments ?payload None = Inr ()"
  proof (rule digest_rows_accepted [OF rows(2) assms(5)])
    show "\<forall>name \<in> set names. yaml_name name \<and> CHR 0x2F \<notin> set name" "sorted_wrt (<) names" "names \<noteq> []" "length names \<le> 256"
      using names fragment_names_sorted [OF assms(2,3)] assms(4) by auto
    show "get_or ?payload ''fragments'' PNone = PList rows" by (simp add: payload_fields r rows)
  qed
  ultimately have "verify_preparation_receipt sha flt digits tree ?payload ?ex t = Inr ()"
    using payload_identity [OF assms(7) refl] payload_workflow [OF assms(7) refl] b
    by (simp add: verify_preparation_receipt_def security_binding_Inr payload_fields r bindE_eq_Inr)
      (auto simp: expected_receipt_def)
  then show ?thesis
    using b by (simp add: build_preparation_receipt_def Let_def bindE_eq_Inr security_binding_Inr get_or_def [of "PDict kvs" for kvs]
        resolution_def r expected_receipt_def)
qed

end
