(* ===== verification/Release_Samples.thy ===== *)
theory Release_Samples
  imports Release_Chain
begin

text \<open>
  A small Security release to apply the theorems to: a request, the result of its intake, the
  receipt, the metadata, the profile registry and the changelog fragment, and a tree that holds
  them. The stand-in for the digest gives every text the same one.
\<close>

definition zeros :: string where
  "zeros = replicate 64 (CHR ''0'')"

definition zero_sha :: "string \<Rightarrow> string" where
  "zero_sha s = zeros"

definition zero_digest :: string where
  "zero_digest = ''sha256:'' @ zeros"

definition base_sha :: string where
  "base_sha = replicate 40 (CHR ''1'')"

definition head_sha :: string where
  "head_sha = replicate 40 (CHR ''2'')"

definition sample_now :: int where
  "sample_now = 63921916800000000"

definition sample_request :: py where
  "sample_request = PDict
     [(''acceptanceProfile'', PStr ''lit/p1''), (''baseSha'', PStr base_sha), (''candidateBaseSha'', PStr base_sha),
      (''candidateDiffSha256'', PStr zero_digest), (''candidateHeadSha'', PStr head_sha), (''candidateRef'', PStr ''develop''),
      (''chainId'', PStr zero_digest), (''event'', PStr ''mlx90-security-release''), (''evidenceId'', PStr ''MLX90-ABC''),
      (''expiresAt'', PStr ''2026-09-07T00:00:00Z''), (''fixedVersion'', PStr ''1.0.1''), (''humanActions'', PInt 0),
      (''issuedAt'', PStr ''2026-08-08T00:00:00Z''), (''metadataSha256'', PStr zero_digest),
      (''repository'', PStr PRODUCER_REPOSITORY), (''repositoryId'', PStr PRODUCER_REPOSITORY_ID), (''schemaVersion'', PInt 2)]"

definition sample_verified :: py where
  "sample_verified = PDict
     [(''acceptanceProfile'', PStr ''lit/p1''), (''baseSha'', PStr base_sha), (''branch'', PStr ''security-release/MLX90-ABC''),
      (''candidateBaseSha'', PStr base_sha), (''candidateDiffSha256'', PStr zero_digest), (''candidateHeadSha'', PStr head_sha),
      (''chainId'', PStr zero_digest), (''changedPaths'', PList [PStr ''.lit/security-releases/1.0.1.json'',
         PStr ''changelogs/fragments/fix.yml'', PStr ''roles/a'']),
      (''changelogFragmentPath'', PStr ''changelogs/fragments/fix.yml''), (''changelogFragmentSha256'', PStr zero_digest),
      (''evidenceId'', PStr ''MLX90-ABC''), (''fixedVersion'', PStr ''1.0.1''), (''humanActions'', PInt 0),
      (''metadataPath'', PStr ''.lit/security-releases/1.0.1.json''), (''metadataSha256'', PStr zero_digest),
      (''schemaVersion'', PInt 2)]"

definition sample_run :: workflow_run where
  "sample_run = \<lparr>wf_run_id = ''17'', wf_attempt = ''1'', wf_ref = expected_ref, wf_event = ''workflow_dispatch'',
     wf_actor = RELEASE_APP_LOGIN, wf_triggering_actor = RELEASE_APP_LOGIN\<rparr>"

lemma require_graphic: "graphic s \<Longrightarrow> s \<noteq> [] \<Longrightarrow> require_string (PStr s) label = Inr s"
  by (auto simp: require_string_def strip_graphic) (auto simp: graphic_def list_all_iff)

lemma graphic_replicate: "33 \<le> byte c \<Longrightarrow> byte c \<le> (126 :: nat) \<Longrightarrow> graphic (replicate n c)"
  by (simp add: graphic_def list_all_iff)

lemma sample_names:
  "oid base_sha" "oid head_sha" "digest zero_digest" "base_sha \<noteq> head_sha"
  "graphic base_sha" "graphic head_sha" "graphic zero_digest" "base_sha \<noteq> []" "head_sha \<noteq> []" "zero_digest \<noteq> []"
  by (simp_all add: base_sha_def head_sha_def zero_digest_def zeros_def digest_def hex_id_def is_hex_def is_digit_def
      list_all_iff graphic_def)

lemma sample_request_identity: "request_identity sample_request PRODUCER_REPOSITORY = Inr ()"
  by (simp add: sample_request_def request_identity_def exact_keys_def REQUEST_KEYS_def get_or_def INTAKE_REQUEST_SCHEMA_VERSION_def
      py_in_def insert_commute Let_def cong: bindE_weak_cong)

lemma sample_fields:
  "get_or sample_request ''baseSha'' PNone = PStr base_sha" "get_or sample_request ''candidateBaseSha'' PNone = PStr base_sha"
  "get_or sample_request ''candidateHeadSha'' PNone = PStr head_sha"
  "get_or sample_request ''candidateDiffSha256'' PNone = PStr zero_digest" "get_or sample_request ''metadataSha256'' PNone = PStr zero_digest"
  "get_or sample_request ''chainId'' PNone = PStr zero_digest" "get_or sample_request ''evidenceId'' PNone = PStr ''MLX90-ABC''"
  "get_or sample_request ''fixedVersion'' PNone = PStr ''1.0.1''" "get_or sample_request ''acceptanceProfile'' PNone = PStr ''lit/p1''"
  "get_or sample_request ''candidateRef'' PNone = PStr ''develop''" "get_or sample_request ''event'' PNone = PStr ''mlx90-security-release''"
  "get_or sample_request ''issuedAt'' PNone = PStr ''2026-08-08T00:00:00Z''"
  "get_or sample_request ''expiresAt'' PNone = PStr ''2026-09-07T00:00:00Z''"
  by (simp_all add: sample_request_def get_or_def)

lemma sample_recovery: "\<not> is_recovery_request sample_request"
  by (simp add: is_recovery_request_def sample_fields RECOVERY_EVENT_def)

lemma string_field_graphic:
  "get_or r k PNone = PStr s \<Longrightarrow> graphic s \<Longrightarrow> s \<noteq> [] \<Longrightarrow> form s \<Longrightarrow> string_field r k form m = Inr s"
  by (simp add: string_field_def require_graphic)

lemma sample_range: "request_range sample_request = Inr ()"
  by (simp add: request_range_def sample_fields sample_names string_field_graphic [of _ _ base_sha]
      string_field_graphic [of _ _ head_sha] Let_def)

lemma sample_strings:
  "graphic ''MLX90-ABC''" "evidence_id ''MLX90-ABC''" "graphic ''1.0.1''" "semver ''1.0.1''" "semver ''1.0.0''" "graphic ''lit/p1''"
  "profile_name ''lit/p1''" "graphic ''develop''" "ref_name ''develop''"
  by code_simp+

lemma sample_release_times:
  "timestamp (PStr ''2026-08-08T00:00:00Z'') label = Inr 63921744000000000"
  "timestamp (PStr ''2026-09-07T00:00:00Z'') label = Inr 63924336000000000"
proof -
  have "graphic ''2026-08-08T00:00:00Z''" "graphic ''2026-09-07T00:00:00Z''" by (simp_all add: graphic_def)
  moreover have "instant ''2026-08-08T00:00:00Z'' = Some 63921744000000000" "instant ''2026-09-07T00:00:00Z'' = Some 63924336000000000"
    by (simp_all add: run_simps upt_conv_Cons)
  moreover have "canonical_time ''2026-08-08T00:00:00Z''" "canonical_time ''2026-09-07T00:00:00Z''" by code_simp+
  ultimately show "timestamp (PStr ''2026-08-08T00:00:00Z'') label = Inr 63921744000000000"
    "timestamp (PStr ''2026-09-07T00:00:00Z'') label = Inr 63924336000000000"
    by (simp_all add: timestamp_def require_graphic)
qed

text \<open>The bytes of a document, with the newline at the end.\<close>

definition document_raw :: "py \<Rightarrow> string" where
  "document_raw v = canonical_utf8 v @ [newline]"

lemma canonical_document_ascii: "ascii_value v \<Longrightarrow> canonical_document_bytes v = Inr (document_raw v)"
  using ascii_render [of v]
  by (simp add: canonical_document_bytes_def canonical_json_bytes_def document_raw_def canonical_utf8_def ascii_utf8)

lemma document_length: "ascii_value v \<Longrightarrow> text_bound v < MAX_JSON_BYTES \<Longrightarrow> length (document_raw v) \<le> MAX_JSON_BYTES"
  using length_render [of utf8_string v] length_utf8_string by (simp add: document_raw_def canonical_utf8_def)

lemma load_document:
  assumes "ascii_value v" "text_bound v < MAX_JSON_BYTES" "is_dict v" "renderable (\<lambda>_. True) v"
  shows "load_json_bytes flt (document_raw v) label = Inr (detach v)"
  using assms by (simp add: load_canonical_document canonical_document_ascii document_length)

section \<open>The request, its result and the receipt\<close>

lemma sample_chain: "compute_chain_id zero_sha PRODUCER_REPOSITORY PRODUCER_REPOSITORY_ID base_sha head_sha zero_digest
   ''MLX90-ABC'' ''1.0.1'' ''lit/p1'' = Inr zero_digest"
proof -
  have a: "ascii base_sha" "ascii head_sha" "ascii zero_digest"
    by (simp_all add: base_sha_def head_sha_def zero_digest_def zeros_def list_all_iff)
  let ?b = "PDict
        [(''repository'', PStr PRODUCER_REPOSITORY), (''repositoryId'', PStr PRODUCER_REPOSITORY_ID), (''baseSha'', PStr base_sha),
         (''candidateHeadSha'', PStr head_sha), (''candidateDiffSha256'', PStr zero_digest),
         (''evidenceId'', PStr ''MLX90-ABC''), (''fixedVersion'', PStr ''1.0.1''), (''acceptanceProfile'', PStr ''lit/p1'')]"
  have "ascii_value ?b" by (simp add: a PRODUCER_REPOSITORY_def PRODUCER_REPOSITORY_ID_def)
  then have "utf8_valid (canonical_utf8 ?b)" using ascii_render [of ?b] by (simp add: canonical_utf8_def ascii_utf8)
  moreover have "chain_binding PRODUCER_REPOSITORY PRODUCER_REPOSITORY_ID base_sha head_sha zero_digest ''MLX90-ABC'' ''1.0.1'' ''lit/p1'' = Inr ?b"
    by (simp add: chain_binding_def exact_keys_def CHAIN_BINDING_KEYS_def sample_names sample_strings Let_def insert_commute)
  ultimately show ?thesis
    by (simp add: compute_chain_id_def canonical_sha256_def canonical_json_bytes_def Let_def sha256_bytes_def zero_sha_def
        zero_digest_def del: render.simps)
qed

lemma sample_request_valid: "validate_request zero_sha sample_request PRODUCER_REPOSITORY sample_now = Inr sample_request"
proof -
  have f: "string_field sample_request ''candidateDiffSha256'' digest m = Inr zero_digest"
    "string_field sample_request ''metadataSha256'' digest m = Inr zero_digest"
    "string_field sample_request ''evidenceId'' evidence_id m = Inr ''MLX90-ABC''"
    "string_field sample_request ''fixedVersion'' semver m = Inr ''1.0.1''"
    "string_field sample_request ''acceptanceProfile'' profile_name m = Inr ''lit/p1''"
    "string_field sample_request ''candidateRef'' (\<lambda>s. ref_name s \<and> \<not> prefix ''/'' s) m = Inr ''develop''" for m
    by (rule string_field_graphic, simp_all add: sample_fields sample_names sample_strings)+
  show ?thesis
    unfolding validate_request_def Let_def sample_request_identity sample_range f bindE_simps
    by (simp add: sample_fields sample_release_times sample_now_def sample_recovery sample_chain)
qed

lemma sample_verified_valid: "validate_intake_result sample_request sample_verified = Inr sample_verified"
proof -
  have k: "set (keys_of sample_verified) = set VERIFIED_KEYS" by (simp add: sample_verified_def VERIFIED_KEYS_def insert_commute)
  have e: "forE (\<lambda>(k, expected). need (py_eq (get_or sample_verified k PNone) expected) (m k)) (expected_result sample_request) = Inr ()" for m
    by (simp add: forE_eq_Inr expected_result_def Let_def sample_fields) (simp add: sample_verified_def get_or_def)
  have p: "changed_paths_ok (get_or sample_verified ''changedPaths'' PNone) [''.lit/security-releases/1.0.1.json'', ''changelogs/fragments/fix.yml'']"
    by (simp add: sample_verified_def get_or_def changed_paths_ok_def)
  have g: "get_or sample_verified ''changelogFragmentPath'' PNone = PStr ''changelogs/fragments/fix.yml''"
      "get_or sample_verified ''changelogFragmentSha256'' PNone = PStr zero_digest"
      "get_or sample_verified ''schemaVersion'' PNone = PInt INTAKE_RESULT_SCHEMA_VERSION" "get_or sample_verified ''humanActions'' PNone = PInt 0"
    by (simp_all add: sample_verified_def get_or_def INTAKE_RESULT_SCHEMA_VERSION_def)
  have "fragment_path ''changelogs/fragments/fix.yml''" by (simp add: fragment_path_def fragment_prefix_def Let_def suffix_def)
  then show ?thesis
    using p by (simp add: validate_intake_result_def Let_def exact_keys_def k e g sample_fields sample_names)
qed

definition sample_receipt :: py where
  "sample_receipt = intake_receipt sample_request sample_verified sample_run RELEASE_APP_IDENTITY"

lemma identity_equal: "py_eq RELEASE_APP_IDENTITY RELEASE_APP_IDENTITY"
  by (rule py_eq_refl) (simp add: RELEASE_APP_IDENTITY_def RELEASE_APP_SELECTED_REPOSITORIES_def RELEASE_APP_PERMISSIONS_def)

lemma sample_receipt_fields:
  "get_or sample_receipt ''request'' PNone = sample_request" "get_or sample_receipt ''verified'' PNone = sample_verified"
  "get_or sample_receipt ''automation'' PNone = RELEASE_APP_IDENTITY" "get_or sample_receipt ''chainId'' PNone = PStr zero_digest"
  "get_or sample_receipt ''schemaVersion'' PNone = PInt INTAKE_RECEIPT_SCHEMA_VERSION"
  "set (keys_of sample_receipt) = set INTAKE_RECEIPT_KEYS" "is_dict sample_receipt" "is_dict sample_request" "is_dict sample_verified"
  by (simp_all add: sample_receipt_def intake_receipt_def get_or_def [of "PDict kvs" for kvs] sample_fields INTAKE_RECEIPT_KEYS_def insert_commute
      sample_request_def sample_verified_def)

lemma sample_receipt_verified: "verify_intake_receipt zero_sha sample_receipt sample_now = Inr sample_receipt"
proof -
  let ?c = "get_or sample_receipt ''controller'' PNone"
  have c: "is_dict ?c" "set (keys_of ?c) = set CONTROLLER_KEYS" "controller_ok sample_request ?c"
    by (simp_all add: sample_receipt_def intake_receipt_def get_or_def [of "PDict kvs" for kvs] CONTROLLER_KEYS_def insert_commute
        controller_ok_def sample_run_def sample_fields numeral_field_def positive_numeral_def plain_numeral_def is_digit_def Let_def)
  then show ?thesis
    by (simp add: verify_intake_receipt_def Let_def exact_keys_def sample_receipt_fields sample_request_valid sample_verified_valid
        sample_fields identity_equal)
qed

lemma sample_receipt_built:
  "build_intake_receipt zero_sha sample_request sample_verified sample_now sample_run RELEASE_APP_IDENTITY = Inr sample_receipt"
  using sample_receipt_verified
  by (simp add: build_intake_receipt_def sample_request_valid sample_verified_valid identity_equal Let_def sample_receipt_def)


lemma sample_sizes:
  "ascii_value sample_receipt" "text_bound sample_receipt < MAX_JSON_BYTES" "renderable (\<lambda>_. True) sample_receipt"
proof -
  have a: "ascii base_sha" "ascii head_sha" "ascii zero_digest" "length base_sha = 40" "length head_sha = 40" "length zero_digest = 71"
    by (simp_all add: base_sha_def head_sha_def zero_digest_def zeros_def list_all_iff)
  note d = sample_receipt_def intake_receipt_def sample_request_def sample_verified_def sample_run_def RELEASE_APP_IDENTITY_def
      RELEASE_APP_SELECTED_REPOSITORIES_def RELEASE_APP_PERMISSIONS_def
  note names = INTAKE_RECEIPT_SCHEMA_VERSION_def PRODUCER_REPOSITORY_def PRODUCER_REPOSITORY_ID_def RELEASE_APP_LOGIN_def RELEASE_APP_SLUG_def
      RELEASE_APP_INSTALLATION_ID_def RELEASE_APP_ACCOUNT_ID_def workflow_path_def expected_ref_def MAX_JSON_BYTES_def
  show "ascii_value sample_receipt" by (simp add: d a get_or_def names)
  have n: "dec 0 = ''0''" "dec 2 = ''2''" "dec_int 0 = ''0''" "dec_int 2 = ''2''" by code_simp+
  show "renderable (\<lambda>_. True) sample_receipt" by (simp add: n d get_or_def names)
  show "text_bound sample_receipt < MAX_JSON_BYTES" by (simp add: n d a get_or_def names)
qed


section \<open>Witnesses\<close>

abbreviation no_float :: "string \<Rightarrow> exn + py" where
  "no_float \<equiv> \<lambda>_. Inl (ValueError ''float'')"


definition fragment_sample :: string where
  "fragment_sample = ''---'' @ [newline] @ ''security_fixes:'' @ [newline] @ ''  - '' @ [CHR 0x22] @ ''fix'' @ [CHR 0x22] @ [newline]"

lemma fragment_sample_canonical: "canonical_security_fragment_bytes (map PStr [''fix'']) = Inr fragment_sample"
proof -
  have "graphic ''fix''" by (simp add: graphic_def)
  moreover have "json_string ''fix'' = CHR 0x22 # ''fix'' @ [CHR 0x22]" by code_simp
  ultimately show ?thesis
    by (simp add: canonical_security_fragment_bytes_def require_graphic fragment_sample_def fragment_line_def
        Let_def MAX_SECURITY_FRAGMENT_BYTES_def newline_def)
qed

lemma fragment_canonical_witness:
  "validate_security_fragment no_float fragment_sample ''fragment'' = Inr [''fix'']"
  using fragment_canonical [of "[''fix'']" no_float fragment_sample "''fragment''"] fragment_sample_canonical
  by (simp add: utf8_one)

text \<open>A tree whose only marker is that of the current version.\<close>

definition released_tree :: node where
  "released_tree = Directory [(''.lit'', Directory [(''security-releases'',
     Directory [(''.gitkeep'', Regular 0 []), (''1.0.0.json'', Regular 2 ''{}'')])])]"

lemma sample_versions:
  "version_of ''1.0.0'' = Inr (1, 0, 0)" "version_of ''1.0.1'' = Inr (1, 0, 1)"
  by code_simp+

lemma released_normal: "load_release_security_binding zero_sha no_float released_tree ''1.0.0'' ''1.0.1'' sample_now = Inr None"
proof -
  have m: "security_marker_versions released_tree ''.lit/security-releases'' = Inr [(1, 0, 0)]"
    by (simp add: security_marker_versions_def released_tree_def path_exists_def path_stat_def path_is_symlink_def path_is_dir_def
        path_entries_def marker_entry_def Let_def removesuffix_def suffix_def sample_strings sample_versions is_link_node_def is_file_node_def)
  have i: "security_marker_versions released_tree ''.lit/security-release-intakes'' = Inr []"
    by (simp add: security_marker_versions_def released_tree_def path_exists_def path_stat_def path_is_symlink_def)
  show ?thesis
    by (simp add: load_release_security_binding_def m i sample_strings sample_versions Let_def)
qed

theorem pending_marker_excludes_normal_witness:
  "\<exists>current v stem. version_of ''1.0.0'' = Inr current \<and> ''1.0.0.json'' = stem @ ''.json'' \<and> version_of stem = Inr v \<and> v \<le> current"
proof (rule pending_marker_excludes_normal [OF released_normal])
  show "''1.0.0.json'' \<in> marker_names released_tree ''.lit/security-releases''"
    by (simp add: marker_names_def released_tree_def path_entries_def path_stat_def)
qed simp


text \<open>A tree with the marker of the next version.\<close>

definition sample_metadata :: py where
  "sample_metadata = PDict
     [(''acceptanceProfile'', PStr ''lit/p1''), (''affectedVersion'', PStr ''1.0.0''), (''consumers'', PList [PStr CONSUMER_REPOSITORY]),
      (''createdAt'', PStr ''2026-08-08T00:00:00Z''), (''evidenceId'', PStr ''MLX90-ABC''), (''fixedVersion'', PStr ''1.0.1''),
      (''schemaVersion'', PInt 1), (''securityIdentifiers'', PList [PStr ''CVE-2026-1234'']),
      (''validity'', PDict [(''expiresAt'', PStr ''2026-09-07T00:00:00Z''), (''notBefore'', PStr ''2026-08-08T00:00:00Z''),
         (''revoked'', PBool False)])]"

definition sample_profiles :: py where
  "sample_profiles = PDict [(''profiles'', PDict [(''lit/p1'', PDict [(''description'', PStr ''profile''), (''releaseEligible'', PBool True)])]),
     (''schemaVersion'', PInt 1)]"

definition pending_tree :: node where
  "pending_tree = Directory
     [(''.lit'', Directory
        [(''security-releases'', Directory [(''1.0.1.json'', Regular 0 (document_raw sample_metadata))]),
         (''security-release-intakes'', Directory [(''1.0.1.json'', Regular 0 (document_raw sample_receipt))]),
         (''security-release-profiles.json'', Regular 0 (document_raw sample_profiles))]),
      (''changelogs'', Directory [(''fragments'', Directory [(''fix.yml'', Regular 0 fragment_sample)])])]"

lemma sample_documents:
  "ascii_value sample_metadata" "text_bound sample_metadata < MAX_JSON_BYTES" "renderable (\<lambda>_. True) sample_metadata"
  "is_dict sample_metadata" "detach sample_metadata = sample_metadata"
  "ascii_value sample_profiles" "text_bound sample_profiles < MAX_JSON_BYTES" "renderable (\<lambda>_. True) sample_profiles"
  "is_dict sample_profiles" "detach sample_profiles = sample_profiles"
proof -
  have n: "dec 1 = ''1''" "dec (Suc 0) = ''1''" "dec_int 1 = ''1''" by code_simp+
  note d = sample_metadata_def sample_profiles_def CONSUMER_REPOSITORY_def MAX_JSON_BYTES_def
  show "ascii_value sample_metadata" "text_bound sample_metadata < MAX_JSON_BYTES" "renderable (\<lambda>_. True) sample_metadata"
    "is_dict sample_metadata" "detach sample_metadata = sample_metadata"
    "ascii_value sample_profiles" "text_bound sample_profiles < MAX_JSON_BYTES" "renderable (\<lambda>_. True) sample_profiles"
    "is_dict sample_profiles" "detach sample_profiles = sample_profiles"
    by (simp_all add: n d)
qed

lemma sample_metadata_valid:
  "validate_metadata_payload sample_metadata ''MLX90-ABC'' ''1.0.1'' ''lit/p1'' sample_now = Inr sample_metadata"
proof -
  have s: "security_id ''CVE-2026-1234''" by code_simp
  show ?thesis
    by (simp add: validate_metadata_payload_def sample_metadata_def get_or_def Let_def exact_keys_def METADATA_KEYS_def insert_commute s
        require_graphic sample_strings VALIDITY_KEYS_def sample_release_times sample_now_def graphic_def)
qed

lemma sample_profiles_valid:
  "is_ok (validate_profile_registry sample_profiles ''lit/p1'')"
  by (simp add: validate_profile_registry_def sample_profiles_def get_or_def Let_def exact_keys_def PROFILE_KEYS_def insert_commute
      check_profile_def sample_strings require_graphic graphic_def)

lemma read_regular:
  assumes "open_beneath tree parts = Inr (Regular 0 raw)" "length raw \<le> limit"
    and "parts \<noteq> []" "hd parts \<noteq> ''/''" "\<forall>p \<in> set parts. p \<notin> {'''', ''.'', ''..''}"
  shows "read_bounded_regular_file tree parts label limit = Inr raw"
  using assms by (simp add: read_bounded_regular_file_def)

lemma os_name_graphic: "graphic s \<Longrightarrow> os_name s"
proof -
  assume g: "graphic s"
  then have "ascii s" by (auto simp: graphic_def list_all_iff)
  with g show ?thesis by (auto simp: os_name_def code_points_ascii graphic_def list_all_iff)
qed

lemma pending_opens:
  "open_beneath pending_tree (metadata_parts ''1.0.1'') = Inr (Regular 0 (document_raw sample_metadata))"
  "open_beneath pending_tree (intake_parts ''1.0.1'') = Inr (Regular 0 (document_raw sample_receipt))"
  "open_beneath pending_tree [''.lit'', ''security-release-profiles.json''] = Inr (Regular 0 (document_raw sample_profiles))"
  "open_beneath pending_tree [''changelogs'', ''fragments'', ''fix.yml''] = Inr (Regular 0 fragment_sample)"
  unfolding pending_tree_def metadata_parts_def intake_parts_def open_beneath_def open_directory_def
  by (simp_all add: need_directory_def open_entry_def os_name_graphic graphic_def)


lemma pending_reads:
  "read_bounded_regular_file pending_tree (metadata_parts ''1.0.1'') l MAX_JSON_BYTES = Inr (document_raw sample_metadata)"
  "read_bounded_regular_file pending_tree (intake_parts ''1.0.1'') l MAX_JSON_BYTES = Inr (document_raw sample_receipt)"
  "read_bounded_regular_file pending_tree [''.lit'', ''security-release-profiles.json''] l MAX_JSON_BYTES = Inr (document_raw sample_profiles)"
  "read_bounded_regular_file pending_tree [''changelogs'', ''fragments'', ''fix.yml''] l MAX_SECURITY_FRAGMENT_BYTES = Inr fragment_sample"
proof -
  have f: "length fragment_sample \<le> MAX_SECURITY_FRAGMENT_BYTES" by (simp add: fragment_sample_def MAX_SECURITY_FRAGMENT_BYTES_def)
  note r = read_regular [OF pending_opens(1)] read_regular [OF pending_opens(2)] read_regular [OF pending_opens(3)]
    read_regular [OF pending_opens(4)]
  note r = r [unfolded metadata_parts_def intake_parts_def append.simps]
  show "read_bounded_regular_file pending_tree (metadata_parts ''1.0.1'') l MAX_JSON_BYTES = Inr (document_raw sample_metadata)"
    "read_bounded_regular_file pending_tree (intake_parts ''1.0.1'') l MAX_JSON_BYTES = Inr (document_raw sample_receipt)"
    "read_bounded_regular_file pending_tree [''.lit'', ''security-release-profiles.json''] l MAX_JSON_BYTES = Inr (document_raw sample_profiles)"
    "read_bounded_regular_file pending_tree [''changelogs'', ''fragments'', ''fix.yml''] l MAX_SECURITY_FRAGMENT_BYTES = Inr fragment_sample"
    using f by (simp_all add: r document_length sample_documents sample_sizes metadata_parts_def intake_parts_def)
qed

lemma sample_sorted: "detach sample_request = sample_request" "detach sample_verified = sample_verified"
  by (simp_all add: sample_request_def sample_verified_def)

lemma sample_digest: "sha256_bytes zero_sha raw = zero_digest"
  by (simp add: sha256_bytes_def zero_sha_def zero_digest_def)

lemma sample_marker_checks:
  "check_metadata zero_sha ''1.0.1'' (detach sample_receipt) raw sample_metadata sample_now = Inr ()"
  "check_fragment zero_sha no_float ''1.0.1'' (detach sample_receipt) fragment_sample = Inr ()"
proof -
  have v: "get_or sample_verified ''metadataSha256'' PNone = PStr zero_digest"
    "get_or sample_verified ''changelogFragmentSha256'' PNone = PStr zero_digest"
    by (simp_all add: sample_verified_def get_or_def)
  have "validate_request_metadata_binding sample_request sample_metadata = Inr ()"
    by (simp add: validate_request_metadata_binding_def sample_fields) (simp add: sample_metadata_def get_or_def)
  then show "check_metadata zero_sha ''1.0.1'' (detach sample_receipt) raw sample_metadata sample_now = Inr ()"
    by (simp add: check_metadata_def Let_def sample_receipt_fields sample_sorted sample_fields sample_digest v sample_metadata_valid)
  have "validate_security_fragment no_float fragment_sample l = Inr [''fix'']" for l
    by (rule canonical_fragment_accepted [OF fragment_sample_canonical]) (simp add: utf8_one)
  then show "check_fragment zero_sha no_float ''1.0.1'' (detach sample_receipt) fragment_sample = Inr ()"
    by (simp add: check_fragment_def Let_def sample_receipt_fields sample_recovery sample_digest v)
qed

definition sample_binding :: py where
  "sample_binding = binding_of zero_sha ''1.0.1'' (detach sample_receipt) (document_raw sample_metadata)
     (document_raw sample_receipt) fragment_sample"

lemma sample_marker: "load_marker zero_sha no_float pending_tree ''1.0.1'' sample_now = Inr sample_binding"
proof -
  have m: "load_json_bytes no_float (document_raw sample_metadata) l = Inr sample_metadata" for l
    using load_document [OF sample_documents(1,2,4,3), of no_float l] by (simp add: sample_documents)
  have p: "load_json_bytes no_float (document_raw sample_profiles) l = Inr sample_profiles" for l
    using load_document [OF sample_documents(6,7,9,8), of no_float l] by (simp add: sample_documents)
  have r: "load_json_bytes no_float (document_raw sample_receipt) l = Inr (detach sample_receipt)" for l
    by (rule load_document) (simp_all add: sample_sizes sample_receipt_fields)
  have f: "split_on (CHR 0x2F) (the_str (get_or sample_verified ''changelogFragmentPath'' PNone)) = [''changelogs'', ''fragments'', ''fix.yml'']"
    by (simp add: sample_verified_def get_or_def)
  obtain c where "validate_profile_registry sample_profiles ''lit/p1'' = Inr c"
    using sample_profiles_valid by (auto simp: is_ok_iff)
  moreover have "verify_intake_receipt zero_sha (detach sample_receipt) sample_now = Inr (detach sample_receipt)"
    by (rule verify_intake_receipt_detach) (rule sample_receipt_verified)
  moreover have "document_raw sample_metadata \<noteq> []" by (simp add: document_raw_def)
  ultimately show ?thesis
    by (simp add: load_marker_def pending_reads m r p load_json_file_def Let_def sample_marker_checks f sample_receipt_fields
        canonical_document_ascii sample_sizes sample_fields sample_binding_def)
qed

lemma pending_loads:
  "load_release_security_binding zero_sha no_float pending_tree ''1.0.0'' ''1.0.1'' sample_now = Inr (Some sample_binding)"
proof -
  note s = security_marker_versions_def pending_tree_def path_exists_def path_stat_def path_is_symlink_def path_is_dir_def
      path_entries_def marker_entry_def Let_def removesuffix_def suffix_def sample_strings sample_versions is_link_node_def is_file_node_def
  have m: "security_marker_versions pending_tree ''.lit/security-releases'' = Inr [(1, 0, 1)]"
    "security_marker_versions pending_tree ''.lit/security-release-intakes'' = Inr [(1, 0, 1)]"
    by (simp_all add: s)
  have e: "marker_exists pending_tree (metadata_parts ''1.0.1'')" "marker_exists pending_tree (intake_parts ''1.0.1'')"
    by (simp_all add: marker_exists_def metadata_parts_def intake_parts_def pending_tree_def path_exists_def path_stat_def)
  have "{x. x = (Suc 0, 0 :: nat, Suc 0) \<and> (Suc 0, 0 :: nat, 0 :: nat) < x} = {(Suc 0, 0, Suc 0)}" by auto
  then show ?thesis
    by (simp add: load_release_security_binding_def m sample_strings sample_versions Let_def load_security_binding_def e sample_marker)
qed

theorem release_binding_sound_witness:
  "\<exists>current target. version_of ''1.0.0'' = Inr current \<and> version_of ''1.0.1'' = Inr target \<and> current < target
    \<and> get_or sample_binding ''fixed_version'' PNone = PStr ''1.0.1''
    \<and> bound_file zero_sha pending_tree (metadata_parts ''1.0.1'') (get_or sample_binding ''metadata_sha256'' PNone)
    \<and> bound_file zero_sha pending_tree (intake_parts ''1.0.1'') (get_or sample_binding ''intake_receipt_sha256'' PNone)
    \<and> bound_file zero_sha pending_tree (split_on (CHR 0x2F) (the_str (get_or sample_binding ''changelog_fragment_path'' PNone)))
        (get_or sample_binding ''changelog_fragment_sha256'' PNone)"
  by (rule release_binding_sound [OF pending_loads])

end
