(* ===== verification/Version_Samples.thy ===== *)
theory Version_Samples
  imports Release_Version Release_Samples
begin

text \<open>
  A small collection to apply the theorems of \<open>Release_Version\<close> to: the version 1.0.0 with the
  marker of its own release, a fragment with a fix and one with a minor change.
\<close>

definition sample_yaml :: yaml where
  "sample_yaml mapping text =
     (if text = ''version: 1.0.0'' then mapping [(''version'', PStr ''1.0.0'')]
      else if text = ''bugfixes: [a]'' then mapping [(''bugfixes'', PList [PStr ''a''])]
      else mapping [(''minor_changes'', PList [PStr ''b'']), (''trivial'', PList [PStr ''c''])])"

definition sample_collection :: "(string \<times> node) list" where
  "sample_collection =
     [(''.lit'', Directory [(''security-releases'', Directory [(''.gitkeep'', Regular 0 []), (''1.0.0.json'', Regular 2 ''{}'')])]),
      (''galaxy.yml'', Regular 14 ''version: 1.0.0''),
      (''changelogs'', Directory [(''fragments'', Directory
         [(''b.yml'', Regular 18 ''minor_changes: [b]''), (''a.yaml'', Regular 13 ''bugfixes: [a]''), (''README.md'', Regular 0 [])])])]"

definition sample_fragments :: "string list" where
  "sample_fragments = [''changelogs'', ''fragments'']"

definition sample_digests :: py where
  "sample_digests = PList (map (\<lambda>name. PDict [(''path'', PStr name), (''sha256'', PStr zeros)]) [''a.yaml'', ''b.yml''])"

definition sample_resolution :: py where
  "sample_resolution = resolution (1, 0, 0) ''minor'' (1, 1, 0) [''a.yaml'', ''b.yml''] sample_digests"

lemma universal_newlines_printable: "printable s \<Longrightarrow> universal_newlines s = s"
  by (induction s) (auto simp: printable_def)

lemma read_text_printable:
  "path_stat tree parts = Some (Regular n raw) \<Longrightarrow> printable raw \<Longrightarrow> read_text tree parts = Inr raw"
  by (simp add: read_text_def read_bytes_def printable_valid universal_newlines_printable)

lemma sample_texts:
  "printable ''version: 1.0.0''" "printable ''bugfixes: [a]''" "printable ''minor_changes: [b]''"
  by (simp_all add: printable_def)

lemma sample_files:
  "path_stat (Directory sample_collection) [''galaxy.yml''] = Some (Regular 14 ''version: 1.0.0'')"
  "path_stat (Directory sample_collection) [''changelogs'', ''fragments'', ''a.yaml''] = Some (Regular 13 ''bugfixes: [a]'')"
  "path_stat (Directory sample_collection) [''changelogs'', ''fragments'', ''b.yml''] = Some (Regular 18 ''minor_changes: [b]'')"
  "plain_document (Directory sample_collection) [''galaxy.yml'']"
  "plain_document (Directory sample_collection) [''changelogs'', ''fragments'', ''a.yaml'']"
  "plain_document (Directory sample_collection) [''changelogs'', ''fragments'', ''b.yml'']"
  "path_is_dir (Directory sample_collection) sample_fragments" "\<not> path_is_symlink (Directory sample_collection) sample_fragments"
  by code_simp+

lemma sample_stripped: "py_strip ''1.0.0'' = ''1.0.0''" "py_strip ''1.1.0'' = ''1.1.0''" "py_strip ''a'' = ''a''" "py_strip ''b'' = ''b''"
  "py_strip ''c'' = ''c''"
  by (simp_all add: strip_graphic graphic_def)

lemma sample_galaxy: "galaxy_version sample_yaml (Directory sample_collection) [''galaxy.yml''] = Inr (1, 0, 0)"
  by (simp add: galaxy_version_def load_mapping_def sample_files read_text_printable [OF sample_files(1) sample_texts(1)]
      path_size_def MAX_FRAGMENT_BYTES_def sample_yaml_def construct_unique_mapping_def parse_stable_version_def get_or_def sample_stripped
      sample_strings sample_versions)

lemma sample_fragment_names: "fragment_names (Directory sample_collection) sample_fragments = [''a.yaml'', ''b.yml'']"
  by code_simp

lemma sample_observed:
  "observe_fragment sample_yaml (Directory sample_collection) [] [''changelogs'', ''fragments'', ''a.yaml''] = Inr [''bugfixes'']"
  "observe_fragment sample_yaml (Directory sample_collection) [''bugfixes''] [''changelogs'', ''fragments'', ''b.yml'']
     = Inr [''bugfixes'', ''minor_changes'']"
  by (simp_all add: observe_fragment_def load_yaml_def load_mapping_def sample_files read_text_printable [OF sample_files(2) sample_texts(2)]
      read_text_printable [OF sample_files(3) sample_texts(3)] path_size_def MAX_FRAGMENT_BYTES_def sample_yaml_def
      construct_unique_mapping_def KNOWN_CATEGORIES_def IMPACT_CATEGORIES_def NEUTRAL_CATEGORIES_def category_ok_def sample_stripped)

lemma sample_impact: "derive_impact sample_yaml (Directory sample_collection) sample_fragments = Inr (''minor'', [''a.yaml'', ''b.yml''])"
  by (simp add: derive_impact_def sample_files Let_def sample_fragment_names [unfolded fragment_names_def])
     (simp add: sample_fragments_def sample_files derive_impact_from_paths_def sample_observed strongest_impact_def IMPACT_CATEGORIES_def)

lemma sample_digested:
  "fragment_digests zero_sha (Directory sample_collection) sample_fragments [''a.yaml'', ''b.yml''] = Inr sample_digests"
  by code_simp

lemma sample_version_selected: "selected_version (1, 1, 0) ''1.1.0'' label = Inr (1, 1, 0)"
  by code_simp

lemma sample_resolved:
  "resolve_version zero_sha no_float sample_yaml Inr (Directory sample_collection) [''galaxy.yml''] sample_fragments ''1.1.0'' [] sample_now
     = Inr sample_resolution"
  by (simp add: resolve_version_def sample_galaxy sample_impact next_version_def sample_version_selected [unfolded One_nat_def] sample_digested sample_resolution_def)

definition sample_preparation :: preparation where
  "sample_preparation = \<lparr>prep_repository = PRODUCER_REPOSITORY, prep_repository_id = PRODUCER_REPOSITORY_ID, prep_base_sha = base_sha,
     prep_run_id = ''17'', prep_attempt = ''1'', prep_ref = PRODUCER_REPOSITORY @ ''/'' @ prepare_path @ ''@refs/heads/main'',
     prep_event = ''workflow_dispatch'', prep_actor = ''maintainer'', prep_source_sha = head_sha, prep_github_release = True,
     prep_galaxy = False\<rparr>"

definition no_digits :: "string \<Rightarrow> bool" where
  "no_digits c \<longleftrightarrow> False"

lemma sample_unmarked:
  "load_release_security_binding zero_sha no_float (Directory sample_collection) ''1.0.0'' ''1.1.0'' sample_now = Inr None"
  by code_simp

lemma sample_preparation_built:
  "build_preparation_receipt zero_sha no_float no_digits (Directory sample_collection) sample_resolution sample_preparation sample_now
     = Inr (preparation_payload sample_resolution sample_preparation None)"
  by code_simp

section \<open>Witnesses\<close>

theorem resolved_version_exact_witness:
  "\<exists>current names rank rows.
    galaxy_version sample_yaml (Directory sample_collection) [''galaxy.yml''] = Inr current
    \<and> get_or sample_resolution ''current_version'' PNone = PStr (version_text current)
    \<and> get_or sample_resolution ''version'' PNone = PStr (version_text (bumped current rank)) \<and> current < bumped current rank
    \<and> get_or sample_resolution ''fragments'' PNone = PList (map PStr names)
    \<and> (if ([] :: string) = [] then names = fragment_names (Directory sample_collection) sample_fragments
         \<and> strongest sample_yaml (Directory sample_collection) (map (\<lambda>name. sample_fragments @ [name]) names) rank else rank = 1)
    \<and> (\<forall>wanted \<in> {''1.1.0'', []}. wanted \<noteq> [] \<longrightarrow> version_of (py_strip wanted) = Inr (bumped current rank))
    \<and> get_or sample_resolution ''fragment_sha256'' PNone = PList rows
    \<and> list_all2 (digest_row zero_sha (Directory sample_collection) sample_fragments) names rows"
  by (rule resolved_version_exact [OF sample_resolved])

definition sample_prepared_receipt :: py where
  "sample_prepared_receipt = preparation_payload sample_resolution sample_preparation None"

definition sample_expected :: expectation where
  "sample_expected = expected_receipt sample_preparation ''1.1.0''"

lemma sample_version: "the_str (get_or sample_resolution ''version'' (PStr [])) = ''1.1.0''"
  by code_simp

lemma sample_receipt_accepted:
  "verify_preparation_receipt zero_sha no_float no_digits (Directory sample_collection) sample_prepared_receipt sample_expected sample_now = Inr ()"
  using build_preparation_receipt_Inr [OF sample_preparation_built] by (simp add: sample_version sample_expected_def sample_prepared_receipt_def)


text \<open>The checkout that holds the receipt as well.\<close>

definition later_checkout :: node where
  "later_checkout = Directory ((''receipt.json'', Regular 0 (document_raw sample_prepared_receipt)) # sample_collection)"

lemma later_unmarked: "load_release_security_binding zero_sha no_float later_checkout ''1.0.0'' ''1.1.0'' sample_now = Inr None"
proof -
  have m: "security_marker_versions later_checkout ''.lit/security-releases'' = Inr [(1, 0, 0)]"
    by (simp add: security_marker_versions_def later_checkout_def sample_collection_def path_exists_def path_stat_def path_is_symlink_def
        path_is_dir_def path_entries_def marker_entry_def Let_def removesuffix_def suffix_def sample_strings sample_versions is_link_node_def
        is_file_node_def)
  have i: "security_marker_versions later_checkout ''.lit/security-release-intakes'' = Inr []"
    by (simp add: security_marker_versions_def later_checkout_def sample_collection_def path_exists_def path_stat_def path_is_symlink_def)
  have v: "semver ''1.1.0''" "version_of ''1.1.0'' = Inr (1, 1, 0)" by code_simp+
  show ?thesis
    by (simp add: load_release_security_binding_def m i v sample_strings sample_versions Let_def)
qed

lemma sample_prepared_sizes:
  "ascii_value sample_prepared_receipt" "text_bound sample_prepared_receipt < MAX_JSON_BYTES" "renderable (\<lambda>_. True) sample_prepared_receipt"
proof -
  have a: "ascii base_sha" "ascii head_sha" "ascii zeros" "length base_sha = 40" "length head_sha = 40" "length zeros = 64"
    by (simp_all add: base_sha_def head_sha_def zeros_def list_all_iff)
  have v: "version_text (1, 0, 0) = ''1.0.0''" "version_text (1, 1, 0) = ''1.1.0''" "dec 3 = ''3''" "dec_int 3 = ''3''" by code_simp+
  note d = sample_prepared_receipt_def preparation_payload_def sample_resolution_def sample_preparation_def mode_of_def content_base_def
    sample_digests_def v RELEASE_PREPARATION_SCHEMA_VERSION_def RELEASE_PREPARER_def prepare_path_def PRODUCER_REPOSITORY_def
    PRODUCER_REPOSITORY_ID_def RELEASE_APP_LOGIN_def RELEASE_APP_SLUG_def RELEASE_APP_ACCOUNT_ID_def RELEASE_APP_EMAIL_def MAX_JSON_BYTES_def
  show "ascii_value sample_prepared_receipt" "text_bound sample_prepared_receipt < MAX_JSON_BYTES"
    "renderable (\<lambda>_. True) sample_prepared_receipt"
    by (simp_all add: d a del: One_nat_def)
qed


lemma sample_authorized: "run_authorized no_digits sample_preparation"
  by code_simp

theorem resolution_is_prepared_witness:
  "build_preparation_receipt zero_sha no_float no_digits (Directory sample_collection) sample_resolution sample_preparation sample_now
     = Inr (preparation_payload sample_resolution sample_preparation None)"
proof (rule resolution_is_prepared [OF sample_resolved _ _ _ _ _ sample_authorized])
  show "path_stat (Directory sample_collection) sample_fragments = Some (Directory
     [(''b.yml'', Regular 18 ''minor_changes: [b]''), (''a.yaml'', Regular 13 ''bugfixes: [a]''), (''README.md'', Regular 0 [])])"
    by (simp add: sample_collection_def sample_fragments_def path_stat_def)
  show "hex_id 64 (zero_sha s)" for s by (simp add: zero_sha_def zeros_def hex_id_def is_hex_def is_digit_def list_all_iff)
  have "the_str (get_or sample_resolution ''current_version'' PNone) = ''1.0.0''" "the_str (get_or sample_resolution ''version'' PNone) = ''1.1.0''"
    by code_simp+
  then show "load_release_security_binding zero_sha no_float (Directory sample_collection)
      (the_str (get_or sample_resolution ''current_version'' PNone)) (the_str (get_or sample_resolution ''version'' PNone)) sample_now = Inr None"
    by (simp add: sample_unmarked)
qed simp_all

end
