(* ===== verification/Stage_Handoff.thy ===== *)
theory Stage_Handoff
  imports Release_Contract "HOL-Library.Multiset"
begin

text \<open>
  The handoff of the staged release files from the job that builds them to the job that
  publishes them (\<open>scripts/release-stage-handoff.py\<close>): the binding, the inventory of the two
  staged directories, the manifest and its verification.
\<close>

unbundle bit_operations_syntax

section \<open>Constants and documents\<close>

definition STAGE_SCHEMA :: string where
  "STAGE_SCHEMA = ''lit.supplementary.release-stage-handoff/v1''"

definition ROOTS :: "string list" where
  "ROOTS = [''dist'', ''incoming'']"

definition MAX_FILES :: nat where "MAX_FILES = 1024"
definition MAX_DIRECTORIES :: nat where "MAX_DIRECTORIES = 4096"
definition MAX_STAGE_BYTES :: nat where "MAX_STAGE_BYTES = 2000000000"
definition MAX_MANIFEST_BYTES :: nat where "MAX_MANIFEST_BYTES = 1000000"

definition BINDING_KEYS :: "string list" where
  "BINDING_KEYS =
     [''candidateName'', ''ciRunAttempt'', ''ciRunId'', ''galaxyRequired'', ''releaseVersion'', ''securityEvidenceId'',
      ''securityRelease'', ''sourceRunAttempt'', ''sourceRunId'', ''sourceSha'']"

definition refuse :: "bool \<Rightarrow> string \<Rightarrow> exn + unit" where
  "refuse unless message = requireE unless (HandoffError message)"

text \<open>\<open>[A-Za-z0-9][A-Za-z0-9._-]{0,199}\<close>\<close>

definition candidate_name :: "string \<Rightarrow> bool" where
  "candidate_name s \<longleftrightarrow> class_name is_alnum (\<lambda>c. is_alnum c \<or> c \<in> set ''._-'') 0 199 s"

definition handoff_canonical :: "py \<Rightarrow> string" where
  "handoff_canonical v = canonical v @ [newline]"

text \<open>
  NaN and the infinities are refused when they are read; the code refuses them, with the same
  error, when it renders the value again.
\<close>

definition handoff_decoder :: "(string \<Rightarrow> exn + py) \<Rightarrow> decoder" where
  "handoff_decoder flt = \<lparr>dec_pairs = unique_pairs (\<lambda>_. HandoffError ''duplicate JSON key'') [],
     dec_constant = (\<lambda>_. Inl (ValueError ''Out of range float values are not JSON compliant'')), dec_float = flt\<rparr>"

definition is_value_error :: "exn \<Rightarrow> bool" where
  "is_value_error e = (case e of ValueError _ \<Rightarrow> True | JSONDecodeError \<Rightarrow> True | UnicodeDecodeError \<Rightarrow> True | _ \<Rightarrow> False)"

definition load_canonical :: "(string \<Rightarrow> exn + py) \<Rightarrow> string \<Rightarrow> string \<Rightarrow> exn + py" where
  "load_canonical flt payload label =
     bindE (refuse (payload \<noteq> [] \<and> length payload \<le> MAX_MANIFEST_BYTES) (label @ '' size is invalid'')) (\<lambda>_.
     bindE (rescue is_value_error (HandoffError (label @ '' is invalid JSON''))
              (if utf8_valid payload then json_loads (handoff_decoder flt) payload else Inl UnicodeDecodeError)) (\<lambda>v.
     bindE (refuse (is_dict v \<and> handoff_canonical v = payload) (label @ '' is not canonical JSON'')) (\<lambda>_.
     Inr v)))"

section \<open>The binding\<close>

definition positive :: "py \<Rightarrow> bool" where
  "positive v \<longleftrightarrow> is_int v \<and> 0 < the_int v"

definition string_of_form :: "(string \<Rightarrow> bool) \<Rightarrow> py \<Rightarrow> bool" where
  "string_of_form form v \<longleftrightarrow> is_str v \<and> form (the_str v)"

definition validate_stage_binding :: "py \<Rightarrow> exn + unit" where
  "validate_stage_binding binding =
     (let field = (\<lambda>k. get_or binding k PNone); name = field ''candidateName''; version = field ''releaseVersion'';
          evidence = field ''securityEvidenceId''; security = field ''securityRelease'' in
      checks
       ([(is_dict binding \<and> set (keys_of binding) = set BINDING_KEYS, HandoffError ''handoff binding shape differs''),
         (string_of_form oid (field ''sourceSha''), HandoffError ''source SHA is invalid'')]
        @ map (\<lambda>k. (positive (field k), HandoffError (k @ '' must be a positive integer'')))
            [''sourceRunId'', ''sourceRunAttempt'', ''ciRunId'', ''ciRunAttempt'']
        @ [(string_of_form semver version, HandoffError ''release version is invalid''),
         (string_of_form candidate_name name, HandoffError ''candidate name is invalid''),
         (the_str name = ''lit-supplementary-'' @ the_str version @ ''.tar.gz'',
            HandoffError ''candidate name does not match release version''),
         (is_bool security \<and> is_bool (field ''galaxyRequired''), HandoffError ''release flags must be boolean''),
         (security = PBool True \<longrightarrow> string_of_form evidence_id evidence,
            HandoffError ''security release evidence binding is invalid''),
         (security = PBool False \<longrightarrow> evidence = PNone,
            HandoffError ''ordinary release must not carry security evidence ID'')]))"

section \<open>The inventory\<close>

text \<open>
  What the script can see of a staged entry. Of a regular file: whether it can be opened, its
  links, permission bits and size, the bytes that reads return, and what a second \<open>fstat\<close>
  says after them.
\<close>

record staged_file =
  sf_opens :: bool
  sf_links :: nat
  sf_mode :: nat
  sf_size :: nat
  sf_content :: string
  sf_size_after :: nat
  sf_same_file :: bool

datatype staged =
    Staged_Directory "(string \<times> staged) list"
  | Staged_File staged_file
  | Staged_Link
  | Staged_Special

type_synonym row = "string \<times> string \<times> nat"

definition safe_relative :: "string \<Rightarrow> exn + unit" where
  "safe_relative path =
     (let parts = split_on (CHR 0x2F) path in
      checks
        [(utf8_valid path \<and> 0 < length path \<and> length path \<le> 1024, HandoffError ''handoff file path is invalid''),
         (hd parts \<in> set ROOTS \<and> list_all (\<lambda>p. p \<notin> {'''', ''.'', ''..''} \<and> \<not> prefix ''.'' p) parts,
            HandoffError ''handoff file path is unsafe''),
         (list_all (list_all (\<lambda>c. 32 \<le> byte c \<and> byte c \<noteq> (127 :: nat) \<and> c \<noteq> CHR 0x5C)) parts,
            HandoffError ''handoff file path contains control characters'')])"

definition digest_file :: "(string \<Rightarrow> string) \<Rightarrow> staged_file \<Rightarrow> exn + string \<times> nat" where
  "digest_file sha f =
     bindE (checks
       [(sf_opens f, HandoffError ''handoff file cannot be opened safely''),
        (sf_links f = 1 \<and> sf_mode f AND 73 = 0, HandoffError ''handoff file is not ordinary nonexecutable data''),
        (sf_size f \<le> MAX_STAGE_BYTES, HandoffError ''handoff byte limit exceeded''),
        (sf_size f = sf_size_after f \<and> sf_same_file f, HandoffError ''handoff file changed while being hashed'')]) (\<lambda>_.
     Inr (sha (sf_content f), sf_size_after f))"

text \<open>
  The variables of the loop. \<open>pending\<close> is a stack, its top first; each directory has its path
  below the staging root.
\<close>

record walk =
  wk_rows :: "row list"
  wk_pending :: "(string list \<times> (string \<times> staged) list) list"
  wk_directories :: nat
  wk_bytes :: nat

definition visit_file :: "(string \<Rightarrow> string) \<Rightarrow> string \<Rightarrow> staged_file \<Rightarrow> walk \<Rightarrow> exn + walk" where
  "visit_file sha relative f w =
     bindE (digest_file sha f) (\<lambda>(digest, st_size).
     let w' = w\<lparr>wk_rows := wk_rows w @ [(relative, digest, st_size)], wk_bytes := wk_bytes w + st_size\<rparr> in
     bindE (refuse (length (wk_rows w') \<le> MAX_FILES \<and> wk_bytes w' \<le> MAX_STAGE_BYTES) ''handoff file or byte limit exceeded'') (\<lambda>_.
     Inr w'))"

definition visit :: "(string \<Rightarrow> string) \<Rightarrow> string list \<Rightarrow> walk \<Rightarrow> string \<times> staged \<Rightarrow> exn + walk" where
  "visit sha parent w child = (case child of (name, entry) \<Rightarrow>
     let path = parent @ [name]; relative = join_with ''/'' path in
     bindE (safe_relative relative) (\<lambda>_.
     case entry of
       Staged_Link \<Rightarrow> Inl (HandoffError ''handoff tree contains a symlink'')
     | Staged_Directory es \<Rightarrow>
         let w' = w\<lparr>wk_pending := (path, es) # wk_pending w, wk_directories := wk_directories w + 1\<rparr> in
         bindE (refuse (wk_directories w' \<le> MAX_DIRECTORIES) ''handoff directory limit exceeded'') (\<lambda>_. Inr w')
     | Staged_File f \<Rightarrow> visit_file sha relative f w
     | Staged_Special \<Rightarrow> Inl (HandoffError ''handoff tree contains a special file'')))"

text \<open>\<open>while pending: ...\<close>\<close>

partial_function (option) walk_loop :: "(string \<Rightarrow> string) \<Rightarrow> walk \<Rightarrow> (exn + walk) option" where
  "walk_loop sha w = (case wk_pending w of
     [] \<Rightarrow> Some (Inr w)
   | d # rest \<Rightarrow>
       (case foldE (visit sha (fst d)) (w\<lparr>wk_pending := rest\<rparr>) (sort_key fst (snd d)) of
          Inl e \<Rightarrow> Some (Inl e)
        | Inr w' \<Rightarrow> walk_loop sha w'))"

definition root_directory :: "(string \<times> staged) list \<Rightarrow> string \<Rightarrow> exn + string list \<times> (string \<times> staged) list" where
  "root_directory tree name = (case map_of tree name of
     Some (Staged_Directory es) \<Rightarrow> Inr ([name], es)
   | _ \<Rightarrow> Inl (HandoffError ''handoff root directory is missing or unsafe''))"

definition stage_inventory :: "(string \<Rightarrow> string) \<Rightarrow> (string \<times> staged) list \<Rightarrow> (exn + row list) option" where
  "stage_inventory sha tree = (case mapE (root_directory tree) ROOTS of
     Inl e \<Rightarrow> Some (Inl e)
   | Inr directories \<Rightarrow>
       map_option (\<lambda>r. bindE r (\<lambda>w. Inr (sort_key fst (wk_rows w))))
         (walk_loop sha \<lparr>wk_rows = [], wk_pending = rev directories, wk_directories = length directories, wk_bytes = 0\<rparr>))"

section \<open>The manifest\<close>

definition row_json :: "row \<Rightarrow> py" where
  "row_json r = (case r of (path, sha256, st_size) \<Rightarrow>
     PDict [(''path'', PStr path), (''sha256'', PStr sha256), (''size'', PInt (int st_size))])"

text \<open>\<open>{row["path"]: row for row in rows}.get(path)\<close>, and the digest of the row.\<close>

definition row_digest :: "row list \<Rightarrow> string \<Rightarrow> string option" where
  "row_digest rows path = map_option fst (map_of (rev rows) path)"

definition manifest_json :: "py \<Rightarrow> row list \<Rightarrow> py" where
  "manifest_json binding rows = PDict
     [(''binding'', binding), (''files'', PList (map row_json rows)),
      (''nexusStageSha256'', (case row_digest rows ''dist/validation/nexus-stage.json'' of None \<Rightarrow> PNone | Some d \<Rightarrow> PStr d)),
      (''schema'', PStr STAGE_SCHEMA), (''totalBytes'', PInt (int (sum_list (map (snd \<circ> snd) rows))))]"

definition manifest_of_rows :: "py \<Rightarrow> row list \<Rightarrow> exn + py" where
  "manifest_of_rows binding rows =
     (let name = the_str (get_or binding ''candidateName'' PNone);
          candidate = row_digest rows (''incoming/candidate/'' @ name);
          attachment = row_digest rows (''dist/release/'' @ name) in
      bindE (checks
        [(candidate \<noteq> None \<and> candidate = attachment, HandoffError ''candidate and release attachment are missing or differ''),
         (\<not> (get_or binding ''securityRelease'' PNone = PBool True \<and> get_or binding ''galaxyRequired'' PNone = PBool True
              \<and> row_digest rows ''dist/validation/nexus-stage.json'' = None),
            HandoffError ''security release lacks staged Nexus manifest'')]) (\<lambda>_.
      Inr (manifest_json binding rows)))"

definition stage_manifest :: "(string \<Rightarrow> string) \<Rightarrow> (string \<times> staged) list \<Rightarrow> py \<Rightarrow> (exn + py) option" where
  "stage_manifest sha tree binding = (case validate_stage_binding binding of
     Inl e \<Rightarrow> Some (Inl e)
   | Inr _ \<Rightarrow> map_option (\<lambda>r. bindE r (manifest_of_rows binding)) (stage_inventory sha tree))"

text \<open>\<open>create\<close>: the payload that is written.\<close>

definition create_stage :: "(string \<Rightarrow> string) \<Rightarrow> (string \<times> staged) list \<Rightarrow> py \<Rightarrow> (exn + string) option" where
  "create_stage sha tree binding =
     map_option (\<lambda>r. bindE r (\<lambda>m. let payload = handoff_canonical m in
         bindE (refuse (length payload \<le> MAX_MANIFEST_BYTES) ''handoff manifest output is unsafe'') (\<lambda>_. Inr payload)))
       (stage_manifest sha tree binding)"

definition check_stage_payload :: "(string \<Rightarrow> string) \<Rightarrow> (string \<Rightarrow> exn + py) \<Rightarrow> string \<Rightarrow> py \<Rightarrow> exn + unit" where
  "check_stage_payload sha flt payload expected_sha256 =
     bindE (checks
       [(string_of_form (hex_id 64) expected_sha256, HandoffError ''handoff manifest digest is invalid''),
        (payload \<noteq> [] \<and> length payload \<le> MAX_MANIFEST_BYTES, HandoffError ''handoff manifest size is invalid''),
        (sha payload = the_str expected_sha256, HandoffError ''handoff manifest digest differs'')]) (\<lambda>_.
     bindE (load_canonical flt payload ''handoff manifest'') (\<lambda>recorded.
     refuse (set (keys_of recorded) = {''schema'', ''binding'', ''files'', ''totalBytes'', ''nexusStageSha256''})
       ''handoff manifest shape differs''))"

definition verify_stage ::
    "(string \<Rightarrow> string) \<Rightarrow> (string \<Rightarrow> exn + py) \<Rightarrow> (string \<times> staged) list \<Rightarrow> py \<Rightarrow> string \<Rightarrow> py \<Rightarrow> (exn + unit) option" where
  "verify_stage sha flt tree binding payload expected_sha256 =
     (case check_stage_payload sha flt payload expected_sha256 of
        Inl e \<Rightarrow> Some (Inl e)
      | Inr _ \<Rightarrow> map_option (\<lambda>r. bindE r (\<lambda>m.
            refuse (payload = handoff_canonical m) ''staged release files or source binding changed''))
          (stage_manifest sha tree binding))"

lemmas [run_simps] = STAGE_SCHEMA_def ROOTS_def MAX_FILES_def MAX_DIRECTORIES_def MAX_STAGE_BYTES_def MAX_MANIFEST_BYTES_def
  BINDING_KEYS_def refuse_def candidate_name_def handoff_canonical_def handoff_decoder_def is_value_error_def load_canonical_def
  positive_def string_of_form_def validate_stage_binding_def safe_relative_def digest_file_def visit_file_def visit_def
  root_directory_def stage_inventory_def row_json_def row_digest_def manifest_json_def manifest_of_rows_def
  stage_manifest_def create_stage_def check_stage_payload_def verify_stage_def


section \<open>The loop ends\<close>

text \<open>The directories of a staged entry, itself included.\<close>

fun directory_count :: "staged \<Rightarrow> nat" where
  "directory_count (Staged_Directory es) = Suc (sum_list (map (\<lambda>(n, e). directory_count e) es))"
| "directory_count _ = 0"

definition pending_weight :: "walk \<Rightarrow> nat" where
  "pending_weight w = sum_list (map (\<lambda>(p, es). directory_count (Staged_Directory es)) (wk_pending w))"

lemma visit_weight:
  "visit sha p w c = Inr w' \<Longrightarrow> pending_weight w' = pending_weight w + (case c of (n, e) \<Rightarrow> directory_count e)"
  by (auto simp: visit_def visit_file_def pending_weight_def bindE_eq_Inr Let_def split: prod.splits staged.splits)

lemma visits_weight:
  "foldE (visit sha p) w cs = Inr w' \<Longrightarrow> pending_weight w' = pending_weight w + sum_list (map (\<lambda>(n, e). directory_count e) cs)"
  by (induction cs arbitrary: w) (auto simp: bindE_eq_Inr dest: visit_weight)

lemma walk_loop_returns: "\<exists>r. walk_loop sha w = Some r"
proof (induction w rule: measure_induct_rule [of pending_weight])
  case (less w)
  show ?case
  proof (cases "wk_pending w")
    case (Cons d rest)
    let ?r = "foldE (visit sha (fst d)) (w\<lparr>wk_pending := rest\<rparr>) (sort_key fst (snd d))"
    show ?thesis
    proof (cases ?r)
      case (Inr w')
      have "pending_weight w' < pending_weight w"
        using visits_weight [OF Inr] Cons by (simp add: pending_weight_def sum_list_sort_key case_prod_beta)
      then obtain r where "walk_loop sha w' = Some r" using less by blast
      with Inr Cons show ?thesis by (subst walk_loop.simps) simp
    qed (subst walk_loop.simps, simp add: Cons)
  qed (subst walk_loop.simps, simp)
qed

section \<open>What the inventory is\<close>

definition plain_file :: "staged_file \<Rightarrow> bool" where
  "plain_file f \<longleftrightarrow> sf_opens f \<and> sf_links f = 1 \<and> sf_mode f AND 73 = 0 \<and> sf_size f \<le> MAX_STAGE_BYTES
     \<and> sf_size f = sf_size_after f \<and> sf_same_file f"

definition safe_path :: "string list \<Rightarrow> bool" where
  "safe_path path \<longleftrightarrow> safe_relative (join_with ''/'' path) = Inr ()"

text \<open>Every entry below has a safe path and is a directory or an unchanging data file.\<close>

fun clean :: "string list \<Rightarrow> staged \<Rightarrow> bool" where
  "clean path (Staged_Directory es) = (\<forall>(n, e) \<in> set es. safe_path (path @ [n]) \<and> clean (path @ [n]) e)"
| "clean path (Staged_File f) = plain_file f"
| "clean path _ = False"

fun staged_files :: "string list \<Rightarrow> staged \<Rightarrow> (string \<times> staged_file) list" where
  "staged_files path (Staged_Directory es) = concat (map (\<lambda>(n, e). staged_files (path @ [n]) e) es)"
| "staged_files path (Staged_File f) = [(join_with ''/'' path, f)]"
| "staged_files path _ = []"

definition row_of :: "(string \<Rightarrow> string) \<Rightarrow> string \<times> staged_file \<Rightarrow> row" where
  "row_of sha pf = (fst pf, sha (sf_content (snd pf)), sf_size_after (snd pf))"

definition visited :: "(string \<Rightarrow> string) \<Rightarrow> string list \<Rightarrow> walk \<Rightarrow> string \<times> staged \<Rightarrow> walk" where
  "visited sha parent w child = (case child of (name, entry) \<Rightarrow> case entry of
     Staged_Directory es \<Rightarrow> w\<lparr>wk_pending := (parent @ [name], es) # wk_pending w, wk_directories := wk_directories w + 1\<rparr>
   | Staged_File f \<Rightarrow> w\<lparr>wk_rows := wk_rows w @ [row_of sha (join_with ''/'' (parent @ [name]), f)],
        wk_bytes := wk_bytes w + sf_size_after f\<rparr>
   | _ \<Rightarrow> w)"

definition in_limits :: "walk \<Rightarrow> bool" where
  "in_limits w \<longleftrightarrow> length (wk_rows w) \<le> MAX_FILES \<and> wk_bytes w \<le> MAX_STAGE_BYTES \<and> wk_directories w \<le> MAX_DIRECTORIES"

definition child_ok :: "string list \<Rightarrow> string \<times> staged \<Rightarrow> bool" where
  "child_ok parent child = (case child of (name, entry) \<Rightarrow> safe_path (parent @ [name]) \<and> (case entry of
     Staged_Directory _ \<Rightarrow> True | Staged_File f \<Rightarrow> plain_file f | _ \<Rightarrow> False))"

lemma digest_file_Inr: "digest_file sha f = Inr r \<longleftrightarrow> plain_file f \<and> r = (sha (sf_content f), sf_size_after f)"
  by (auto simp: digest_file_def plain_file_def bindE_eq_Inr)

lemma refuse_Inr [simp]: "refuse c m = Inr u \<longleftrightarrow> c" "refuse True m = Inr ()"
  by (simp_all add: refuse_def)

lemma visit_Inr:
  "in_limits w \<Longrightarrow> visit sha p w c = Inr w' \<longleftrightarrow> child_ok p c \<and> in_limits w' \<and> w' = visited sha p w c"
  by (cases c; cases "snd c")
    (auto simp: visit_def visit_file_def visited_def child_ok_def safe_path_def bindE_eq_Inr Let_def digest_file_Inr row_of_def in_limits_def)

lemma visited_limits: "in_limits (visited sha p w c) \<Longrightarrow> in_limits w"
  by (auto simp: visited_def in_limits_def split: prod.splits staged.splits)

lemma visits_limits: "in_limits (foldl (visited sha p) w cs) \<Longrightarrow> in_limits w"
  by (induction cs arbitrary: w) (auto dest: visited_limits)

lemma visits_Inr:
  "in_limits w \<Longrightarrow> foldE (visit sha p) w cs = Inr w' \<longleftrightarrow> (\<forall>c \<in> set cs. child_ok p c) \<and> in_limits w' \<and> w' = foldl (visited sha p) w cs"
proof (induction cs arbitrary: w)
  case (Cons c cs)
  show ?case
  proof (cases "child_ok p c \<and> in_limits (visited sha p w c)")
    case True
    with Cons show ?thesis by (auto simp: bindE_eq_Inr visit_Inr)
  next
    case False
    with Cons.prems visits_limits [of sha p "visited sha p w c" cs] show ?thesis by (auto simp: bindE_eq_Inr visit_Inr)
  qed
qed auto


text \<open>What the walk has found and what is still ahead of it.\<close>

definition outstanding :: "walk \<Rightarrow> (string \<times> staged_file) list" where
  "outstanding w = concat (map (\<lambda>(p, es). staged_files p (Staged_Directory es)) (wk_pending w))"

definition rows_ahead :: "(string \<Rightarrow> string) \<Rightarrow> walk \<Rightarrow> row multiset" where
  "rows_ahead sha w = mset (wk_rows w) + mset (map (row_of sha) (outstanding w))"

definition bytes_ahead :: "walk \<Rightarrow> nat" where
  "bytes_ahead w = wk_bytes w + sum_list (map (sf_size_after \<circ> snd) (outstanding w))"

definition directories_ahead :: "walk \<Rightarrow> nat" where
  "directories_ahead w = wk_directories w + sum_list (map (\<lambda>(p, es). sum_list (map (\<lambda>(n, e). directory_count e) es)) (wk_pending w))"

definition clean_ahead :: "walk \<Rightarrow> bool" where
  "clean_ahead w \<longleftrightarrow> (\<forall>(p, es) \<in> set (wk_pending w). clean p (Staged_Directory es))"

definition within_reach :: "walk \<Rightarrow> bool" where
  "within_reach w \<longleftrightarrow> length (wk_rows w) + length (outstanding w) \<le> MAX_FILES \<and> bytes_ahead w \<le> MAX_STAGE_BYTES
     \<and> directories_ahead w \<le> MAX_DIRECTORIES"

lemmas ahead_defs = rows_ahead_def bytes_ahead_def directories_ahead_def outstanding_def within_reach_def clean_ahead_def

text \<open>Looking at an entry moves it from what is ahead to what is found or pending.\<close>

lemma visited_ahead:
  assumes "child_ok p c"
  shows "rows_ahead sha (visited sha p w c) = rows_ahead sha w + mset (map (row_of sha) (staged_files (p @ [fst c]) (snd c)))"
    "length (wk_rows (visited sha p w c)) + length (outstanding (visited sha p w c))
       = length (wk_rows w) + length (outstanding w) + length (staged_files (p @ [fst c]) (snd c))"
    "bytes_ahead (visited sha p w c) = bytes_ahead w + sum_list (map (sf_size_after \<circ> snd) (staged_files (p @ [fst c]) (snd c)))"
    "directories_ahead (visited sha p w c) = directories_ahead w + directory_count (snd c)"
    "clean_ahead (visited sha p w c) \<longleftrightarrow> clean_ahead w \<and> clean (p @ [fst c]) (snd c)"
  using assms by (cases c; cases "snd c"; force simp: ahead_defs visited_def child_ok_def)+

definition below :: "string list \<Rightarrow> (string \<times> staged) list \<Rightarrow> (string \<times> staged_file) list" where
  "below p cs = concat (map (\<lambda>c. staged_files (p @ [fst c]) (snd c)) cs)"

lemma visits_ahead:
  assumes "\<forall>c \<in> set cs. child_ok p c"
  shows "rows_ahead sha (foldl (visited sha p) w cs) = rows_ahead sha w + mset (map (row_of sha) (below p cs))"
    "length (wk_rows (foldl (visited sha p) w cs)) + length (outstanding (foldl (visited sha p) w cs))
       = length (wk_rows w) + length (outstanding w) + length (below p cs)"
    "bytes_ahead (foldl (visited sha p) w cs) = bytes_ahead w + sum_list (map (sf_size_after \<circ> snd) (below p cs))"
    "directories_ahead (foldl (visited sha p) w cs) = directories_ahead w + sum_list (map (directory_count \<circ> snd) cs)"
    "clean_ahead (foldl (visited sha p) w cs) \<longleftrightarrow> clean_ahead w \<and> (\<forall>c \<in> set cs. clean (p @ [fst c]) (snd c))"
  using assms by (induction cs arbitrary: w) (simp_all add: visited_ahead below_def)


lemma below_sorted: "mset (below p (sort_key g cs)) = mset (below p cs)"
proof -
  have "mset (below p cs) = sum_list (map (\<lambda>c. mset (staged_files (p @ [fst c]) (snd c))) cs)" for cs
    by (induction cs) (simp_all add: below_def)
  then show ?thesis by (simp add: sum_list_sort_key)
qed

lemma sum_list_mset: "mset xs = mset ys \<Longrightarrow> sum_list (map f xs) = (sum_list (map f ys) :: 'a :: comm_monoid_add)"
  by (metis mset_map sum_mset_sum_list)

text \<open>A round of the loop changes none of what is ahead.\<close>

lemma round_ahead:
  assumes w: "wk_pending w = (p, es) # rest" and ok: "\<forall>c \<in> set es. child_ok p c"
    and e: "w' = foldl (visited sha p) (w\<lparr>wk_pending := rest\<rparr>) (sort_key fst es)"
  shows "rows_ahead sha w' = rows_ahead sha w" "within_reach w' \<longleftrightarrow> within_reach w" "clean_ahead w' \<longleftrightarrow> clean_ahead w"
proof -
  let ?w = "w\<lparr>wk_pending := rest\<rparr>" and ?es = "sort_key fst es"
  have b: "staged_files p (Staged_Directory es) = below p es" by (simp add: below_def split_def)
  have o: "outstanding w = below p es @ outstanding ?w" by (simp add: outstanding_def w b del: staged_files.simps)
  have d: "directories_ahead w = directories_ahead ?w + sum_list (map (directory_count \<circ> snd) es)"
    by (simp add: directories_ahead_def w split_def comp_def)
  have c: "clean_ahead w \<longleftrightarrow> clean_ahead ?w \<and> (\<forall>c \<in> set es. clean (p @ [fst c]) (snd c))"
    using ok by (auto simp: clean_ahead_def w child_ok_def)
  have "\<forall>c \<in> set ?es. child_ok p c" using ok by simp
  note v = visits_ahead [OF this, of sha ?w, folded e]
  have l: "length (below p ?es) = length (below p es)" by (metis below_sorted size_mset)
  have m: "mset (map (row_of sha) (below p ?es)) = mset (map (row_of sha) (below p es))"
    by (simp only: mset_map below_sorted)
  show "rows_ahead sha w' = rows_ahead sha w" unfolding v(1) m by (simp add: rows_ahead_def o ac_simps)
  have "bytes_ahead w' = bytes_ahead w"
    unfolding v(3) by (simp add: bytes_ahead_def o sum_list_mset [OF below_sorted])
  moreover have "directories_ahead w' = directories_ahead w" unfolding v(4) d by (simp add: sum_list_sort_key)
  ultimately show "within_reach w' \<longleftrightarrow> within_reach w" unfolding within_reach_def v(2) l by (simp add: o ac_simps)
  show "clean_ahead w' \<longleftrightarrow> clean_ahead w" unfolding v(5) c by simp
qed

lemma reach_limits: "within_reach w \<Longrightarrow> in_limits w"
  by (simp add: within_reach_def in_limits_def bytes_ahead_def directories_ahead_def)

lemma clean_children: "clean_ahead w \<Longrightarrow> wk_pending w = (p, es) # rest \<Longrightarrow> c \<in> set es \<Longrightarrow> child_ok p c"
  by (cases c; cases "snd c") (auto simp: clean_ahead_def child_ok_def)

text \<open>The loop succeeds when everything ahead is clean and within the limits, and then it has found it all.\<close>

lemma walk_loop_exact:
  "in_limits w \<Longrightarrow> ((\<exists>w'. walk_loop sha w = Some (Inr w')) \<longleftrightarrow> clean_ahead w \<and> within_reach w)
     \<and> (\<forall>w'. walk_loop sha w = Some (Inr w') \<longrightarrow> mset (wk_rows w') = rows_ahead sha w)"
proof (induction w rule: measure_induct_rule [of pending_weight])
  case (less w)
  note walk_loop.simps [of sha w, simp]
  show ?case
  proof (cases "wk_pending w")
    case Nil
    with less.prems show ?thesis by (auto simp: ahead_defs in_limits_def)
  next
    case (Cons d rest)
    obtain p es where d: "d = (p, es)" by (cases d)
    note w = Cons [unfolded d]
    let ?w = "w\<lparr>wk_pending := rest\<rparr>" and ?es = "sort_key fst es"
    let ?v = "foldl (visited sha p) ?w ?es"
    have l: "in_limits ?w" using less.prems by (simp add: in_limits_def)
    show ?thesis
    proof (cases "(\<forall>c \<in> set es. child_ok p c) \<and> in_limits ?v")
      case True
      then have f: "foldE (visit sha p) ?w ?es = Inr ?v" using visits_Inr [OF l] by simp
      have "pending_weight ?v < pending_weight w"
        using visits_weight [OF f] w by (simp add: pending_weight_def sum_list_sort_key case_prod_beta)
      from less.IH [OF this] True have "(\<exists>w'. walk_loop sha ?v = Some (Inr w')) \<longleftrightarrow> clean_ahead ?v \<and> within_reach ?v"
        "\<And>w'. walk_loop sha ?v = Some (Inr w') \<Longrightarrow> mset (wk_rows w') = rows_ahead sha ?v" by blast+
      moreover have "walk_loop sha w = walk_loop sha ?v" using f w by simp
      ultimately show ?thesis using round_ahead [OF w _ refl, of sha] True by simp
    next
      case False
      then have "\<nexists>w'. foldE (visit sha p) ?w ?es = Inr w'" using visits_Inr [OF l] by auto
      then obtain e where "foldE (visit sha p) ?w ?es = Inl e" by (cases "foldE (visit sha p) ?w ?es") auto
      moreover have "\<not> (clean_ahead w \<and> within_reach w)"
        using False clean_children [OF _ w] round_ahead [OF w _ refl, of sha] reach_limits [of ?v] by blast
      ultimately show ?thesis using w by simp
    qed
  qed
qed


section \<open>What the inventory is\<close>

text \<open>
  The files below both roots, and the trees that may be published: both roots are directories,
  everything below them is clean, and the limits hold.
\<close>

definition tree_files :: "(string \<times> staged) list \<Rightarrow> (string \<times> staged_file) list" where
  "tree_files tree = concat (map (\<lambda>name. case map_of tree name of
     None \<Rightarrow> [] | Some e \<Rightarrow> staged_files [name] e) ROOTS)"

definition publishable :: "(string \<times> staged) list \<Rightarrow> bool" where
  "publishable tree \<longleftrightarrow>
     list_all (\<lambda>name. case map_of tree name of
        Some (Staged_Directory es) \<Rightarrow> clean [name] (Staged_Directory es) | _ \<Rightarrow> False) ROOTS
     \<and> sum_list (map (\<lambda>name. case map_of tree name of None \<Rightarrow> 0 | Some e \<Rightarrow> directory_count e) ROOTS) \<le> MAX_DIRECTORIES
     \<and> length (tree_files tree) \<le> MAX_FILES
     \<and> sum_list (map (sf_size_after \<circ> snd) (tree_files tree)) \<le> MAX_STAGE_BYTES"

lemma root_directory_Inr: "root_directory tree name = Inr d \<longleftrightarrow> (\<exists>es. map_of tree name = Some (Staged_Directory es) \<and> d = ([name], es))"
  by (auto simp: root_directory_def split: option.splits staged.splits)

lemma root_directories: "mapE (root_directory tree) ROOTS = Inr ds \<longleftrightarrow>
   (\<exists>es fs. map_of tree ''dist'' = Some (Staged_Directory es) \<and> map_of tree ''incoming'' = Some (Staged_Directory fs)
      \<and> ds = [([''dist''], es), ([''incoming''], fs)])"
  by (auto simp: ROOTS_def bindE_eq_Inr root_directory_Inr)

lemma publishable_roots: "publishable tree \<Longrightarrow> \<exists>ds. mapE (root_directory tree) ROOTS = Inr ds"
  unfolding root_directories by (auto simp: publishable_def ROOTS_def split: option.splits staged.splits)

lemma stage_inventory_exact:
  "((\<exists>rows. stage_inventory sha tree = Some (Inr rows)) \<longleftrightarrow> publishable tree)
     \<and> (\<forall>rows. stage_inventory sha tree = Some (Inr rows) \<longrightarrow>
          sorted (map fst rows) \<and> mset rows = mset (map (row_of sha) (tree_files tree)))"
proof (cases "mapE (root_directory tree) ROOTS")
  case (Inl e)
  then have "\<not> publishable tree" using publishable_roots by fastforce
  with Inl show ?thesis by (simp add: stage_inventory_def)
next
  case (Inr ds)
  let ?w = "\<lparr>wk_rows = [], wk_pending = rev ds, wk_directories = length ds, wk_bytes = 0\<rparr>"
  from Inr obtain es fs where r: "map_of tree ''dist'' = Some (Staged_Directory es)"
      "map_of tree ''incoming'' = Some (Staged_Directory fs)" and ds: "ds = [([''dist''], es), ([''incoming''], fs)]"
    by (auto simp: root_directories)
  have i: "stage_inventory sha tree = map_option (\<lambda>r. bindE r (\<lambda>w. Inr (sort_key fst (wk_rows w)))) (walk_loop sha ?w)"
    using Inr by (simp add: stage_inventory_def)
  have l: "in_limits ?w" by (simp add: in_limits_def ds MAX_DIRECTORIES_def)
  have p: "publishable tree \<longleftrightarrow> clean_ahead ?w \<and> within_reach ?w"
    by (auto simp: publishable_def ROOTS_def r ds ahead_defs tree_files_def ac_simps)
  have m: "rows_ahead sha ?w = mset (map (row_of sha) (tree_files tree))"
    by (simp add: ahead_defs tree_files_def ROOTS_def r ds)
  from walk_loop_exact [OF l, of sha] show ?thesis
    unfolding i p m [symmetric] by (auto simp: bindE_eq_Inr)
qed


section \<open>The manifest\<close>

text \<open>Bindings as the loader of the script gives them.\<close>

abbreviation json_binding :: "py \<Rightarrow> bool" where
  "json_binding \<equiv> renderable utf8_valid"

lemma handoff_keeps_pairs: "keeps_pairs (handoff_decoder flt)"
  by (simp add: keeps_pairs_def handoff_decoder_def unique_pairs_distinct)

lemma renderable_float_free: "renderable ok v \<Longrightarrow> float_free v"
  by (induction v) fastforce+

lemma load_handoff:
  assumes "renderable utf8_valid v" and "is_dict v" and "length (handoff_canonical v) \<le> MAX_MANIFEST_BYTES"
  shows "load_canonical flt (handoff_canonical v) label = Inr (detach v)"
proof -
  have "printable (canonical v)" by (rule printable_canonical) (rule renderable_float_free, rule assms(1))
  then have u: "utf8_valid (handoff_canonical v)"
    by (intro ascii_utf8) (auto simp: handoff_canonical_def newline_def dest: printable_ascii)
  have "json_loads (handoff_decoder flt) (handoff_canonical v) = Inr (detach v)"
    unfolding handoff_canonical_def canonical_render
    by (rule ascii_json.loads_render [OF handoff_keeps_pairs assms(1)]) (simp_all add: newline_def is_json_space_def delimited_def)
  with u assms(2,3) show ?thesis by (simp add: load_canonical_def) (simp add: handoff_canonical_def)
qed

text \<open>The rows of a publishable tree have paths and sizes that JSON carries.\<close>

lemma clean_paths:
  "clean p e \<Longrightarrow> safe_path p \<or> (\<exists>es. e = Staged_Directory es) \<Longrightarrow> (q, f) \<in> set (staged_files p e) \<Longrightarrow> safe_relative q = Inr ()"
proof (induction p e rule: clean.induct)
  case (1 path es)
  then obtain n e where "(n, e) \<in> set es" "(q, f) \<in> set (staged_files (path @ [n]) e)" by auto
  with 1 show ?case by fastforce
qed (auto simp: safe_path_def)

lemma publishable_paths:
  assumes "publishable tree" and "(q, f) \<in> set (tree_files tree)"
  shows "safe_relative q = Inr ()" and "sf_size_after f \<le> MAX_STAGE_BYTES"
proof -
  from assms show "safe_relative q = Inr ()"
    by (auto simp: publishable_def tree_files_def ROOTS_def split: option.splits staged.splits intro: clean_paths)
  have "sf_size_after f \<in> set (map (sf_size_after \<circ> snd) (tree_files tree))" using assms(2) by force
  then have "sf_size_after f \<le> sum_list (map (sf_size_after \<circ> snd) (tree_files tree))" by (rule member_le_sum_list) simp
  with assms(1) show "sf_size_after f \<le> MAX_STAGE_BYTES" by (simp add: publishable_def)
qed

lemma inventory_rows:
  assumes "stage_inventory sha tree = Some (Inr rows)" and "(path, sha256, st_size) \<in> set rows"
  shows "safe_relative path = Inr ()" "\<exists>f :: staged_file. sha256 = sha (sf_content f)" "st_size \<le> MAX_STAGE_BYTES"
proof -
  have p: "publishable tree" and m: "mset rows = mset (map (row_of sha) (tree_files tree))"
    using stage_inventory_exact [of sha tree] assms(1) by blast+
  from m have "set rows = row_of sha ` set (tree_files tree)" by (metis set_map set_mset_mset)
  with assms(2) obtain f where f: "(path, f) \<in> set (tree_files tree)" "sha256 = sha (sf_content f)" "st_size = sf_size_after f"
    by (auto simp: row_of_def)
  show "safe_relative path = Inr ()" by (rule publishable_paths(1) [OF p f(1)])
  show "\<exists>f :: staged_file. sha256 = sha (sf_content f)" by (rule exI [of _ f]) (rule f(2))
  show "st_size \<le> MAX_STAGE_BYTES" unfolding f(3) by (rule publishable_paths(2) [OF p f(1)])
qed

lemma total_bytes:
  assumes "stage_inventory sha tree = Some (Inr rows)"
  shows "sum_list (map (snd \<circ> snd) rows) \<le> MAX_STAGE_BYTES"
proof -
  have p: "publishable tree" and m: "mset rows = mset (map (row_of sha) (tree_files tree))"
    using stage_inventory_exact [of sha tree] assms(1) by blast+
  have "sum_list (map (snd \<circ> snd) rows) = sum_list (map (snd \<circ> snd) (map (row_of sha) (tree_files tree)))"
    by (rule sum_list_mset) (rule m)
  with p show ?thesis by (simp add: publishable_def row_of_def comp_def)
qed

lemma dec_stage: "n \<le> MAX_STAGE_BYTES \<Longrightarrow> length (dec n) \<le> 4300"
proof -
  assume "n \<le> MAX_STAGE_BYTES"
  then have "n < 10 ^ 10" by (simp add: MAX_STAGE_BYTES_def)
  then have "length (dec n) \<le> 10" by (rule dec_length) simp
  then show ?thesis by simp
qed

lemma hex_valid: "hex_id n s \<Longrightarrow> utf8_valid s"
  by (rule printable_valid) (auto simp: hex_id_def is_hex_def is_digit_def printable_def list_all_iff)

lemma manifest_renderable:
  assumes "stage_inventory sha tree = Some (Inr rows)" and "json_binding binding" and "\<And>s. hex_id 64 (sha s)"
  shows "renderable utf8_valid (manifest_json binding rows)"
proof -
  have h: "utf8_valid (sha s)" for s using assms(3) by (rule hex_valid)
  have r: "renderable utf8_valid (row_json r)" if "r \<in> set rows" for r
  proof -
    obtain p d n where e: "r = (p, d, n)" by (cases r) auto
    from inventory_rows [OF assms(1) that [unfolded e]] h show ?thesis
      by (auto simp: e row_json_def dec_stage safe_relative_def Let_def checks_eq_Inr utf8_one)
  qed
  have d: "utf8_valid d" if "row_digest rows q = Some d" for q d
  proof -
    from that obtain n where "(q, d, n) \<in> set rows"
      by (auto simp: row_digest_def dest: map_of_SomeD)
    from inventory_rows(2) [OF assms(1) this] h show ?thesis by auto
  qed
  show ?thesis
    using assms(2) r d dec_stage [OF total_bytes [OF assms(1)]]
    by (auto simp: manifest_json_def STAGE_SCHEMA_def utf8_one split: option.splits)
qed


section \<open>The handoff\<close>

lemma validate_binding_detach [simp]: "validate_stage_binding (detach b) = validate_stage_binding b"
  by (simp add: validate_stage_binding_def Let_def get_or_detach string_of_form_def positive_def del: checks.simps)

lemma manifest_of_rows_Inr: "manifest_of_rows b rows = Inr m \<longleftrightarrow> m = manifest_json b rows \<and> is_ok (manifest_of_rows b rows)"
  by (auto simp: manifest_of_rows_def Let_def bindE_eq_Inr is_ok_iff)

lemma manifest_of_rows_detach: "is_ok (manifest_of_rows (detach b) rows) = is_ok (manifest_of_rows b rows)"
  by (simp add: manifest_of_rows_def Let_def get_or_detach is_ok_iff bindE_eq_Inr)

lemma canonical_manifest_detach: "canonical (manifest_json (detach b) rows) = canonical (manifest_json b rows)"
  by (simp add: manifest_json_def canonical_items_map)

lemma stage_manifest_eq: "stage_manifest sha tree binding = Some (Inr m) \<longleftrightarrow>
   validate_stage_binding binding = Inr () \<and> (\<exists>rows. stage_inventory sha tree = Some (Inr rows)
     \<and> is_ok (manifest_of_rows binding rows) \<and> m = manifest_json binding rows)"
  by (auto simp: stage_manifest_def bindE_eq_Inr manifest_of_rows_Inr split: sum.splits)

lemma row_json_detach: "map (detach \<circ> row_json) rows = map (detach \<circ> row_json) rows' \<Longrightarrow> rows = rows'"
proof (rule inj_map_eq_map [THEN iffD1], rule injI)
  fix r r' :: row
  assume "(detach \<circ> row_json) r = (detach \<circ> row_json) r'"
  then show "r = r'" by (cases r; cases r') (simp add: row_json_def)
qed

lemma staged_manifest_fields:
  "get_or (manifest_json b rows) ''binding'' PNone = b" "get_or (manifest_json b rows) ''files'' PNone = PList (map row_json rows)"
  "is_dict (manifest_json b rows)"
  "set (keys_of (manifest_json b rows)) = {''schema'', ''binding'', ''files'', ''totalBytes'', ''nexusStageSha256''}"
  by (auto simp: manifest_json_def get_or_def)

text \<open>The manifests of two handoffs agree only if their bindings and their files do.\<close>

lemma manifest_inject:
  assumes "renderable utf8_valid (manifest_json b rows)" "renderable utf8_valid (manifest_json b' rows')"
    and "canonical (manifest_json b rows) = canonical (manifest_json b' rows')"
  shows "detach b = detach b' \<and> rows = rows'"
proof -
  let ?m = "manifest_json b rows" and ?m' = "manifest_json b' rows'"
  note l = ascii_json.loads_render [OF handoff_keeps_pairs _ , of _ "[newline]" undefined, folded canonical_render]
  have "list_all is_json_space [newline]" "delimited [newline]" by (simp_all add: newline_def is_json_space_def delimited_def)
  with l [OF assms(1)] l [OF assms(2)] assms(3) have d: "detach ?m = detach ?m'" by simp
  then have "detach (get_or ?m k PNone) = detach (get_or ?m' k PNone)" for k by (metis get_or_detach)
  from this [of "''binding''"] this [of "''files''"] show ?thesis
    by (auto simp: staged_manifest_fields detach_list_map dest: row_json_detach)
qed

lemma check_created_payload:
  assumes "renderable utf8_valid (manifest_json b rows)" and "hex_id 64 (sha (handoff_canonical (manifest_json b rows)))"
    and "length (handoff_canonical (manifest_json b rows)) \<le> MAX_MANIFEST_BYTES"
  shows "check_stage_payload sha flt (handoff_canonical (manifest_json b rows))
     (PStr (sha (handoff_canonical (manifest_json b rows)))) = Inr ()"
  using assms load_handoff [OF assms(1) staged_manifest_fields(3) assms(3)]
  by (simp add: check_stage_payload_def string_of_form_def staged_manifest_fields) (simp add: handoff_canonical_def)

text \<open>
  C24: the inventory of a staged tree always ends, whatever the tree is: the stack of pending
  directories runs empty or an entry is refused.
\<close>

theorem stage_inventory_terminates: "\<exists>r. stage_inventory sha tree = Some r"
proof -
  have "\<exists>r. map_option f (walk_loop sha w) = Some r" for f :: "exn + walk \<Rightarrow> exn + row list" and w
    using walk_loop_returns [of sha w] by auto
  then show ?thesis by (cases "mapE (root_directory tree) ROOTS") (simp_all only: stage_inventory_def sum.case option.inject, auto)
qed

text \<open>
  C23: a staged tree has an inventory exactly if both roots are directories, every entry below
  them has a safe path and is a directory or a data file that did not change while it was read,
  and the limits on files, directories and bytes hold; the inventory then lists exactly the files
  of the tree with the digests and sizes of their contents, in the order of their paths.
\<close>

theorem stage_inventory_complete:
  "((\<exists>rows. stage_inventory sha tree = Some (Inr rows)) \<longleftrightarrow> publishable tree)
     \<and> (\<forall>rows. stage_inventory sha tree = Some (Inr rows) \<longrightarrow>
          sorted (map fst rows) \<and> mset rows = mset (map (row_of sha) (tree_files tree)))"
  by (rule stage_inventory_exact)

text \<open>
  C14: the manifest a build job creates is accepted by a publication job exactly for the staged
  files and the binding it was created for: verification succeeds if the inventory of the
  publication job's tree is the same and its binding is equal, and fails if a file was added,
  removed, renamed or changed in a way the digest or the size shows, or if the binding differs.
\<close>

theorem handoff_exact:
  assumes hex: "\<And>s. hex_id 64 (sha s)"
    and json: "json_binding binding" "json_binding binding'"
    and created: "create_stage sha tree binding = Some (Inr payload)"
  shows "verify_stage sha flt tree' binding' payload (PStr (sha payload)) = Some (Inr ()) \<longleftrightarrow>
    stage_inventory sha tree' = stage_inventory sha tree \<and> detach binding' = detach binding"
proof -
  from created obtain rows where v: "validate_stage_binding binding = Inr ()" and i: "stage_inventory sha tree = Some (Inr rows)"
    and ok: "is_ok (manifest_of_rows binding rows)" and p: "payload = handoff_canonical (manifest_json binding rows)"
    and l: "length payload \<le> MAX_MANIFEST_BYTES"
    by (auto simp: create_stage_def bindE_eq_Inr Let_def stage_manifest_eq)
  note r = manifest_renderable [OF i json(1) hex]
  have c: "check_stage_payload sha flt payload (PStr (sha payload)) = Inr ()"
    unfolding p by (rule check_created_payload [OF r hex l [unfolded p]])
  have e: "verify_stage sha flt tree' binding' payload (PStr (sha payload)) = Some (Inr ()) \<longleftrightarrow>
      (\<exists>m. stage_manifest sha tree' binding' = Some (Inr m) \<and> payload = handoff_canonical m)"
    by (auto simp: verify_stage_def c bindE_eq_Inr)
  show ?thesis unfolding e
  proof
    assume "\<exists>m. stage_manifest sha tree' binding' = Some (Inr m) \<and> payload = handoff_canonical m"
    then obtain rows' where i': "stage_inventory sha tree' = Some (Inr rows')"
      and q: "payload = handoff_canonical (manifest_json binding' rows')" by (auto simp: stage_manifest_eq)
    have "canonical (manifest_json binding rows) = canonical (manifest_json binding' rows')"
      using p q by (simp add: handoff_canonical_def)
    from manifest_inject [OF r manifest_renderable [OF i' json(2) hex] this] i i'
    show "stage_inventory sha tree' = stage_inventory sha tree \<and> detach binding' = detach binding" by simp
  next
    assume s: "stage_inventory sha tree' = stage_inventory sha tree \<and> detach binding' = detach binding"
    then have "validate_stage_binding binding' = Inr ()" "is_ok (manifest_of_rows binding' rows)"
      "canonical (manifest_json binding' rows) = canonical (manifest_json binding rows)"
      using v ok by (metis validate_binding_detach, metis manifest_of_rows_detach, metis canonical_manifest_detach)
    with s i p show "\<exists>m. stage_manifest sha tree' binding' = Some (Inr m) \<and> payload = handoff_canonical m"
      by (auto simp: stage_manifest_eq handoff_canonical_def)
  qed
qed

section \<open>A small handoff\<close>

definition data_file :: "string \<Rightarrow> staged_file" where
  "data_file content = \<lparr>sf_opens = True, sf_links = 1, sf_mode = 420, sf_size = length content, sf_content = content,
     sf_size_after = length content, sf_same_file = True\<rparr>"

definition stage_name :: string where
  "stage_name = ''lit-supplementary-1.0.1.tar.gz''"

definition stage_tree :: "(string \<times> staged) list" where
  "stage_tree =
     [(''dist'', Staged_Directory [(''release'', Staged_Directory [(stage_name, Staged_File (data_file ''collection''))])]),
      (''incoming'', Staged_Directory [(''candidate'', Staged_Directory [(stage_name, Staged_File (data_file ''collection''))])])]"

definition stage_digest :: "string \<Rightarrow> string" where
  "stage_digest s = replicate 64 (CHR ''0'')"

definition stage_rows :: "row list" where
  "stage_rows = [(''dist/release/'' @ stage_name, stage_digest [], 10), (''incoming/candidate/'' @ stage_name, stage_digest [], 10)]"

definition stage_binding :: py where
  "stage_binding = PDict
     [(''candidateName'', PStr stage_name), (''ciRunAttempt'', PInt 1), (''ciRunId'', PInt 7), (''galaxyRequired'', PBool True),
      (''releaseVersion'', PStr ''1.0.1''), (''securityEvidenceId'', PNone), (''securityRelease'', PBool False),
      (''sourceRunAttempt'', PInt 1), (''sourceRunId'', PInt 6), (''sourceSha'', PStr (replicate 40 (CHR ''a'')))]"

lemma stage_paths:
  "safe_relative ''dist/release'' = Inr ()" "safe_relative ''incoming/candidate'' = Inr ()"
  "safe_relative ''dist/release/lit-supplementary-1.0.1.tar.gz'' = Inr ()"
  "safe_relative ''incoming/candidate/lit-supplementary-1.0.1.tar.gz'' = Inr ()"
  by (simp_all add: safe_relative_def Let_def utf8_one ROOTS_def)

lemma data_file_plain: "length content \<le> MAX_STAGE_BYTES \<Longrightarrow> plain_file (data_file content)"
  by (simp add: plain_file_def data_file_def)

lemma stage_tree_publishable: "publishable stage_tree"
  by (simp add: publishable_def ROOTS_def stage_tree_def tree_files_def safe_path_def stage_paths stage_name_def
      data_file_plain MAX_STAGE_BYTES_def MAX_FILES_def MAX_DIRECTORIES_def) (simp add: data_file_def)

lemma stage_tree_inventory: "stage_inventory stage_digest stage_tree = Some (Inr stage_rows)"
proof -
  obtain rows where i: "stage_inventory stage_digest stage_tree = Some (Inr rows)" "sorted (map fst rows)"
    and m: "mset rows = mset (map (row_of stage_digest) (tree_files stage_tree))"
    using stage_inventory_exact [of stage_digest stage_tree] stage_tree_publishable by auto
  have "mset rows = mset stage_rows"
    unfolding m by (simp add: tree_files_def ROOTS_def stage_tree_def stage_rows_def row_of_def data_file_def stage_digest_def numeral_eq_Suc)
  moreover from this have "set rows = set stage_rows" by (metis set_mset_mset)
  then have "inj_on fst (set rows)" by (auto simp: stage_rows_def inj_on_def)
  moreover have "sorted (map fst stage_rows)" by (simp add: stage_rows_def)
  ultimately have "sort_key fst rows = stage_rows" by (rule sort_key_inj_key_eq)
  with i(2) have "rows = stage_rows" by (simp add: sort_key_id_if_sorted)
  with i show ?thesis by simp
qed

lemma stage_binding_valid: "validate_stage_binding stage_binding = Inr ()" "json_binding stage_binding"
proof -
  have "semver ''1.0.1''" "candidate_name ''lit-supplementary-1.0.1.tar.gz''" by code_simp+
  then show "validate_stage_binding stage_binding = Inr ()"
    by (simp add: validate_stage_binding_def stage_binding_def get_or_def Let_def BINDING_KEYS_def insert_commute string_of_form_def
        positive_def stage_name_def hex_id_def is_hex_def list_all_iff)
  have "dec 1 = ''1''" "dec (Suc 0) = ''1''" "dec 6 = ''6''" "dec 7 = ''7''" by code_simp+
  moreover have "utf8_valid (replicate 40 (CHR ''a''))" by (rule printable_valid) (simp add: printable_def list_all_iff)
  ultimately show "json_binding stage_binding" by (simp add: stage_binding_def stage_name_def utf8_one)
qed

definition stage_payload :: string where
  "stage_payload = handoff_canonical (manifest_json stage_binding stage_rows)"

lemma stage_created: "create_stage stage_digest stage_tree stage_binding = Some (Inr stage_payload)"
proof -
  have d: "row_digest stage_rows (''incoming/candidate/'' @ stage_name) = Some (stage_digest [])"
    "row_digest stage_rows (''dist/release/'' @ stage_name) = Some (stage_digest [])"
    by (simp_all add: row_digest_def stage_rows_def)
  have n: "get_or stage_binding ''candidateName'' PNone = PStr stage_name" "get_or stage_binding ''securityRelease'' PNone = PBool False"
    by (simp_all add: stage_binding_def get_or_def)
  have "is_ok (manifest_of_rows stage_binding stage_rows)"
    unfolding manifest_of_rows_def Let_def n by (simp only: the_str.simps d) simp
  then have m: "stage_manifest stage_digest stage_tree stage_binding = Some (Inr (manifest_json stage_binding stage_rows))"
    by (simp add: stage_manifest_eq stage_binding_valid stage_tree_inventory)
  let ?m = "manifest_json stage_binding stage_rows"
  have i: "dec_int 1 = ''1''" "dec_int 6 = ''6''" "dec_int 7 = ''7''" "dec_int 10 = ''10''" "dec_int 20 = ''20''" by code_simp+
  have a: "ascii_value ?m" "text_bound ?m < 5000"
    by (simp_all add: manifest_json_def row_digest_def stage_binding_def stage_rows_def row_json_def stage_name_def stage_digest_def STAGE_SCHEMA_def i list_all_iff)
  have "length (render json_string ?m) \<le> text_bound ?m" by (rule length_render [OF length_json_string a(1)])
  with a(2) have "length (handoff_canonical ?m) \<le> MAX_MANIFEST_BYTES"
    by (simp add: handoff_canonical_def canonical_render MAX_MANIFEST_BYTES_def)
  then show ?thesis by (simp add: create_stage_def m stage_payload_def Let_def)
qed

theorem stage_inventory_complete_witness:
  "sorted (map fst stage_rows) \<and> mset stage_rows = mset (map (row_of stage_digest) (tree_files stage_tree))"
  using stage_inventory_complete [of stage_digest stage_tree] stage_tree_inventory by blast

theorem handoff_exact_witness:
  "verify_stage stage_digest (\<lambda>_. Inl (ValueError ''float'')) stage_tree stage_binding stage_payload (PStr (stage_digest stage_payload)) = Some (Inr ())"
proof -
  have "hex_id 64 (stage_digest s)" for s by (simp add: stage_digest_def hex_id_def is_hex_def is_digit_def list_all_iff)
  from handoff_exact [OF this stage_binding_valid(2) stage_binding_valid(2) stage_created] show ?thesis by blast
qed

end
