(* ===== verification/Release_Intake.thy ===== *)
theory Release_Intake
  imports Release_Chain "HOL-Library.AList"
begin

text \<open>
  The intake of a Security release (\<open>scripts/security-release-intake.py\<close>): the checks of the
  candidate's range of commits, its changed paths and its metadata against the request, the
  one-time recovery, and the files the intake writes.

  Git is a parameter: whether it is installed, the output of a command or its failure, and
  whether a command exits with zero. The repository does not change while the script runs, so
  that a command has one answer. A path of a file tree is the list of its parts.
\<close>

section \<open>Git\<close>

record git =
  git_found :: bool
  git_run :: "string list \<Rightarrow> string + string"
  git_zero :: "string list \<Rightarrow> bool"
  git_worktree :: bool

definition run_git :: "git \<Rightarrow> string list \<Rightarrow> exn + string" where
  "run_git g args =
     (if \<not> git_found g then fail ''git executable is unavailable''
      else case git_run g args of
        Inl _ \<Rightarrow> fail (''git '' @ join_with '' '' args @ '' failed'')
      | Inr out \<Rightarrow> Inr out)"

definition git_bytes :: "git \<Rightarrow> string list \<Rightarrow> exn + string" where
  "git_bytes g args = run_git g args"

definition git_text :: "git \<Rightarrow> string list \<Rightarrow> exn + string" where
  "git_text g args = bindE (run_git g args) (\<lambda>raw.
     if utf8_valid raw then Inr (universal_newlines raw) else Inl UnicodeDecodeError)"

definition git_succeeds :: "git \<Rightarrow> string list \<Rightarrow> exn + bool" where
  "git_succeeds g args = (if \<not> git_found g then fail ''git executable is unavailable'' else Inr (git_zero g args))"

definition git_is_ancestor :: "git \<Rightarrow> string \<Rightarrow> string \<Rightarrow> exn + bool" where
  "git_is_ancestor g ancestor descendant = git_succeeds g [''merge-base'', ''--is-ancestor'', ancestor, descendant]"

definition need_commit :: "git \<Rightarrow> string \<Rightarrow> exn + unit" where
  "need_commit g sha = bindE (git_text g [''cat-file'', ''-e'', sha @ ''^{commit}'']) (\<lambda>_. Inr ())"

definition head_of :: "git \<Rightarrow> string \<Rightarrow> exn + string" where
  "head_of g ref = bindE (git_text g [''rev-parse'', ''refs/remotes/origin/'' @ ref]) (\<lambda>s. Inr (py_strip s))"

definition show_file :: "git \<Rightarrow> string \<Rightarrow> string \<Rightarrow> exn + string" where
  "show_file g sha path = git_bytes g [''show'', sha @ '':'' @ path]"

definition show_json :: "(string \<Rightarrow> exn + py) \<Rightarrow> git \<Rightarrow> string \<Rightarrow> string \<Rightarrow> string \<Rightarrow> exn + py" where
  "show_json flt g sha path label = bindE (show_file g sha path) (\<lambda>raw. load_json_bytes flt raw label)"

section \<open>The documents of a request\<close>

text \<open>\<open>root.joinpath(name)\<close> below the directory that holds it.\<close>

definition load_canonical_file :: "(string \<Rightarrow> exn + py) \<Rightarrow> node \<Rightarrow> string \<Rightarrow> string \<Rightarrow> exn + py" where
  "load_canonical_file flt parent name label =
     bindE (read_bounded_regular_file parent [name] label MAX_JSON_BYTES) (\<lambda>raw.
     bindE (load_json_bytes flt raw label) (\<lambda>v.
     bindE (canonical_document_bytes v) (\<lambda>canonical_raw.
     bindE (need (raw = canonical_raw) (label @ '' must be canonical compact JSON with one trailing newline'')) (\<lambda>_.
     Inr v))))"

section \<open>The candidate's diff\<close>

definition MAX_DIFF_BYTES :: nat where
  "MAX_DIFF_BYTES = 4 * 1024 * 1024"

definition diff_command :: "string \<Rightarrow> string \<Rightarrow> string list" where
  "diff_command base_sha head_sha =
     [''-c'', ''core.safecrlf=false'', ''-c'', ''core.attributesFile=/dev/null'', ''-c'', ''diff.renames=false'', ''-c'',
      ''diff.algorithm=myers'', ''-c'', ''diff.indentHeuristic=false'', ''diff'', ''--binary'', ''--full-index'', ''--no-color'',
      ''--no-ext-diff'', ''--no-textconv'', ''--no-renames'', ''--diff-algorithm=myers'', ''--no-indent-heuristic'',
      ''--unified=3'', ''--src-prefix=a/'', ''--dst-prefix=b/'', base_sha, head_sha, ''--'', ''.'']"

definition canonical_diff :: "git \<Rightarrow> string \<Rightarrow> string \<Rightarrow> exn + string" where
  "canonical_diff g base_sha head_sha =
     bindE (git_bytes g (diff_command base_sha head_sha)) (\<lambda>patch.
     bindE (checks
       [(patch \<noteq> [], ContractError ''candidate diff is empty''),
        (length patch \<le> MAX_DIFF_BYTES, ContractError (''candidate diff exceeds '' @ dec MAX_DIFF_BYTES @ '' bytes''))]) (\<lambda>_.
     Inr patch))"

text \<open>\<open>Path(path).parts\<close> of a relative path.\<close>

definition relative_parts :: "string \<Rightarrow> string list" where
  "relative_parts path = filter (\<lambda>p. p \<notin> {'''', ''.''}) (split_on (CHR 0x2F) path)"

definition change_record :: "string \<Rightarrow> string \<Rightarrow> exn + string \<times> string" where
  "change_record status path =
     bindE (checks
       [(ascii status \<and> utf8_valid path, ContractError ''candidate path is not canonical UTF-8''),
        (status \<in> {''A'', ''M'', ''D''}, ContractError (''candidate path has unsupported status '' @ status @ '': '' @ path)),
        (path \<noteq> [] \<and> \<not> prefix ''/'' path \<and> CHR 0x00 \<notin> set path \<and> (\<forall>p \<in> set (relative_parts path). p \<notin> {'''', ''.'', ''..''}),
           ContractError (''candidate path is unsafe: '' @ path))]) (\<lambda>_.
     Inr (status, path))"

fun change_records :: "string list \<Rightarrow> exn + (string \<times> string) list" where
  "change_records (status # path # rest) =
     bindE (change_record status path) (\<lambda>r. bindE (change_records rest) (\<lambda>rs. Inr (r # rs)))"
| "change_records _ = Inr []"

definition changed_paths :: "git \<Rightarrow> string \<Rightarrow> string \<Rightarrow> exn + (string \<times> string) list" where
  "changed_paths g base_sha head_sha =
     bindE (git_bytes g [''diff'', ''--name-status'', ''-z'', ''--no-renames'', base_sha, head_sha, ''--'', ''.'']) (\<lambda>raw.
     let split = split_on (CHR 0x00) raw; fields = (if last split = [] then butlast split else split) in
     bindE (need (even (length fields)) ''candidate diff contains an unsupported name-status record'') (\<lambda>_.
     bindE (change_records fields) (\<lambda>records.
     bindE (need (records \<noteq> []) ''candidate source range has no changed paths'') (\<lambda>_. Inr records))))"

text \<open>Neither side of a change is a symbolic link or a submodule.\<close>

definition special_mode :: "string \<Rightarrow> bool" where
  "special_mode mode \<longleftrightarrow> mode \<in> {''120000'', ''160000''}"

definition raw_record :: "string \<Rightarrow> exn + unit" where
  "raw_record line =
     (let fields = py_split line in
      checks
        [(5 \<le> length fields, ContractError ''candidate diff contains an invalid raw record''),
         (\<not> special_mode (if prefix '':'' (fields ! 0) then tl (fields ! 0) else fields ! 0) \<and> \<not> special_mode (fields ! 1),
            ContractError ''candidate diff contains a symlink or Gitlink'')])"

definition reject_special_modes :: "git \<Rightarrow> string \<Rightarrow> string \<Rightarrow> exn + unit" where
  "reject_special_modes g base_sha head_sha =
     bindE (git_text g [''diff'', ''--raw'', ''--no-renames'', base_sha, head_sha, ''--'', ''.'']) (\<lambda>raw.
     forE raw_record (py_splitlines raw))"

section \<open>The metadata of the candidate\<close>

definition FORBIDDEN_PATHS :: "string list" where
  "FORBIDDEN_PATHS =
     [''.lit/security-release-profiles.json'', ''scripts/security_release_contract.py'', ''scripts/security-release-dispatch.py'',
      ''scripts/security-release-intake.py'', ''scripts/release-version.py'', ''.github/workflows/security-release-intake.yml'']"

definition RUNTIME_PRODUCT_PREFIXES :: "string list" where
  "RUNTIME_PRODUCT_PREFIXES =
     [''bootstrap/'', ''collections/'', ''containerfiles/'', ''manifests/'', ''playbooks/'', ''plugins/'', ''roles/'']"

definition SUPPORTING_PRODUCT_PREFIXES :: "string list" where
  "SUPPORTING_PRODUCT_PREFIXES = [''docs/'', ''examples/'', ''molecule/'', ''tests/integration/'', ''tests/unit/'']"

definition SUPPORTING_PRODUCT_PATHS :: "string list" where
  "SUPPORTING_PRODUCT_PATHS = [''meta/source-dependencies.yml'']"

definition PRODUCT_PATH_PREFIXES :: "string list" where
  "PRODUCT_PATH_PREFIXES = RUNTIME_PRODUCT_PREFIXES @ SUPPORTING_PRODUCT_PREFIXES"

definition FORBIDDEN_SUPPORTING_PATHS :: "string list" where
  "FORBIDDEN_SUPPORTING_PATHS = [''tests/unit/test_workflow_security.py'']"

definition starts_with_any :: "string list \<Rightarrow> string \<Rightarrow> bool" where
  "starts_with_any ps path \<longleftrightarrow> list_ex (\<lambda>p. prefix p path) ps"

definition controls_untouched :: "(string \<times> string) list \<Rightarrow> bool" where
  "controls_untouched paths \<longleftrightarrow> list_all (\<lambda>(_, path). \<not> prefix ''.github/'' path \<and> path \<notin> set FORBIDDEN_PATHS) paths"

definition added_fragments :: "(string \<times> string) list \<Rightarrow> string list" where
  "added_fragments paths = map snd (filter (\<lambda>(status, path). status = ''A'' \<and> fragment_path path) paths)"

definition product_path_ok :: "string \<Rightarrow> bool" where
  "product_path_ok path \<longleftrightarrow> path \<notin> set FORBIDDEN_SUPPORTING_PATHS
     \<and> (path \<in> set SUPPORTING_PRODUCT_PATHS \<or> starts_with_any PRODUCT_PATH_PREFIXES path)"

definition check_product_paths :: "string list \<Rightarrow> exn + unit" where
  "check_product_paths product_paths = checks
     [(product_paths \<noteq> [], ContractError ''candidate must contain an evidence-bound product change''),
      (list_all product_path_ok product_paths,
         ContractError (''candidate modifies paths outside the Security product allowlist: ''
           @ join_with '', '' (sort (filter (\<lambda>p. \<not> product_path_ok p) product_paths)))),
      (list_ex (starts_with_any RUNTIME_PRODUCT_PREFIXES) product_paths,
         ContractError ''candidate must contain a runtime product change'')]"

text \<open>
  \<open>re.search\<close> for \<open>^version:\s*["']?([^\s"']+)\<close> in the characters of a text, from the start of a
  line. White space and quotes are no part of the group, so that there is one way to match.
\<close>

definition quote_char :: "string \<Rightarrow> bool" where
  "quote_char c \<longleftrightarrow> c = [CHR 0x22] \<or> c = [CHR 0x27]"

definition version_key :: "string list" where
  "version_key = map (\<lambda>c. [c]) ''version:''"

definition version_value :: "string list \<Rightarrow> string list" where
  "version_value line =
     (let r = dropWhile is_space (drop (length version_key) line);
          r' = (if r \<noteq> [] \<and> quote_char (hd r) then tl r else r) in
      if prefix version_key line then r' else [])"

definition version_group :: "string list \<Rightarrow> string" where
  "version_group line = concat (takeWhile (\<lambda>c. \<not> is_space c \<and> \<not> quote_char c) (version_value line))"

definition next_line :: "string list \<Rightarrow> string list" where
  "next_line line = tl (dropWhile (\<lambda>c. c \<noteq> [newline]) line)"

function search_version :: "string list \<Rightarrow> string option" where
  "search_version line =
     (if line = [] then None
      else if version_group line \<noteq> [] then Some (version_group line) else search_version (next_line line))"
  by pat_completeness auto

lemma next_line_shorter: "line \<noteq> [] \<Longrightarrow> length (next_line line) < length line"
  using length_dropWhile_le [of "\<lambda>c. c \<noteq> [newline]" line] by (cases line) (auto simp: next_line_def)

termination search_version
  by (relation "measure length") (auto intro: next_line_shorter)

declare search_version.simps [simp del]

definition main_version :: "string \<Rightarrow> exn + version" where
  "main_version galaxy =
     (case search_version (str_chars galaxy) of
        None \<Rightarrow> fail ''protected-main galaxy.yml has no stable version''
      | Some v \<Rightarrow> bindE (need (semver v) ''protected-main galaxy.yml has no stable version'') (\<lambda>_. version_of v))"

definition next_patch :: "version \<Rightarrow> version" where
  "next_patch v = (case v of (major, minor, patch) \<Rightarrow> (major, minor, patch + 1))"

definition text_of :: "py \<Rightarrow> string \<Rightarrow> string" where
  "text_of request name = the_str (get_or request name PNone)"

definition metadata_path_of :: "string \<Rightarrow> string" where
  "metadata_path_of version = ''.lit/security-releases/'' @ version @ ''.json''"

definition check_paths :: "py \<Rightarrow> (string \<times> string) list \<Rightarrow> exn + string" where
  "check_paths request paths =
     bindE (validate_immutable_marker_changes paths (text_of request ''fixedVersion'')) (\<lambda>_.
     bindE (need (controls_untouched paths) ''candidate diff modifies Security controls or workflow policy'') (\<lambda>_.
     bindE (need (length (added_fragments paths) = 1) ''candidate must add exactly one Security changelog fragment'') (\<lambda>_.
     Inr (hd (added_fragments paths)))))"

definition check_metadata_document ::
    "(string \<Rightarrow> string) \<Rightarrow> (string \<Rightarrow> exn + py) \<Rightarrow> git \<Rightarrow> py \<Rightarrow> int \<Rightarrow> exn + unit" where
  "check_metadata_document sha flt g request now =
     bindE (show_file g (text_of request ''candidateHeadSha'') (metadata_path_of (text_of request ''fixedVersion''))) (\<lambda>metadata_raw.
     bindE (need (PStr (sha256_bytes sha metadata_raw) = get_or request ''metadataSha256'' PNone)
              ''Security metadata digest does not match the intake request'') (\<lambda>_.
     bindE (load_json_bytes flt metadata_raw ''Security release metadata'') (\<lambda>metadata.
     bindE (validate_metadata_payload metadata (text_of request ''evidenceId'') (text_of request ''fixedVersion'')
              (text_of request ''acceptanceProfile'') now) (\<lambda>_.
     bindE (validate_request_metadata_binding request metadata) (\<lambda>_.
     bindE (show_json flt g (text_of request ''baseSha'') ''.lit/security-release-profiles.json''
              ''protected-main acceptance-profile registry'') (\<lambda>profiles.
     bindE (validate_profile_registry profiles (text_of request ''acceptanceProfile'')) (\<lambda>_. Inr ())))))))"

definition validate_metadata ::
    "(string \<Rightarrow> string) \<Rightarrow> (string \<Rightarrow> exn + py) \<Rightarrow> git \<Rightarrow> py \<Rightarrow> (string \<times> string) list \<Rightarrow> int \<Rightarrow> exn + string \<times> string" where
  "validate_metadata sha flt g request paths now =
     bindE (check_paths request paths) (\<lambda>fragment.
     bindE (show_file g (text_of request ''candidateHeadSha'') fragment) (\<lambda>fragment_raw.
     bindE (validate_security_fragment flt fragment_raw ''Security changelog fragment'') (\<lambda>_.
     bindE (check_product_paths
              (filter (\<lambda>p. p \<notin> {metadata_path_of (text_of request ''fixedVersion''), fragment}) (map snd paths))) (\<lambda>_.
     bindE (check_metadata_document sha flt g request now) (\<lambda>_.
     bindE (git_text g [''show'', text_of request ''baseSha'' @ '':galaxy.yml'']) (\<lambda>galaxy.
     bindE (main_version galaxy) (\<lambda>current.
     bindE (version_of (text_of request ''fixedVersion'')) (\<lambda>fixed.
     bindE (need (fixed = next_patch current) ''Security intake fixedVersion must be the next patch after protected main'') (\<lambda>_.
     Inr (fragment, sha256_bytes sha fragment_raw))))))))))"

section \<open>The verified range\<close>

definition intake_result :: "py \<Rightarrow> string \<Rightarrow> string \<Rightarrow> string \<Rightarrow> (string \<times> string) list \<Rightarrow> py" where
  "intake_result request diff_digest fragment fragment_digest paths =
     (let field = (\<lambda>k. get_or request k PNone) in PDict
       [(''schemaVersion'', PInt INTAKE_RESULT_SCHEMA_VERSION),
        (''chainId'', field ''chainId''),
        (''branch'', PStr (''security-release/'' @ text_of request ''evidenceId'')),
        (''baseSha'', field ''baseSha''),
        (''candidateBaseSha'', field ''candidateBaseSha''),
        (''candidateHeadSha'', field ''candidateHeadSha''),
        (''candidateDiffSha256'', PStr diff_digest),
        (''evidenceId'', field ''evidenceId''),
        (''fixedVersion'', field ''fixedVersion''),
        (''metadataPath'', PStr (metadata_path_of (text_of request ''fixedVersion''))),
        (''metadataSha256'', field ''metadataSha256''),
        (''acceptanceProfile'', field ''acceptanceProfile''),
        (''changelogFragmentPath'', PStr fragment),
        (''changelogFragmentSha256'', PStr fragment_digest),
        (''changedPaths'', PList (map PStr (sort (map snd paths)))),
        (''humanActions'', PInt 0)])"

definition verify_range :: "(string \<Rightarrow> string) \<Rightarrow> (string \<Rightarrow> exn + py) \<Rightarrow> git \<Rightarrow> py \<Rightarrow> int \<Rightarrow> exn + string \<times> py" where
  "verify_range sha flt g request now =
     (let base = text_of request ''candidateBaseSha''; head = text_of request ''candidateHeadSha'' in
      bindE (need (git_worktree g) ''--root must be a Git worktree'') (\<lambda>_.
      bindE (forE (need_commit g) [text_of request ''baseSha'', base, head]) (\<lambda>_.
      bindE (head_of g ''main'') (\<lambda>live_main.
      bindE (need (live_main = text_of request ''baseSha'') ''protected main changed after Security intake authorization'') (\<lambda>_.
      bindE (head_of g (text_of request ''candidateRef'')) (\<lambda>live_candidate.
      bindE (git_is_ancestor g head live_candidate) (\<lambda>reachable.
      bindE (need reachable ''candidateHeadSha is not reachable from the declared live candidateRef'') (\<lambda>_.
      bindE (git_is_ancestor g base head) (\<lambda>ordered.
      bindE (need ordered ''candidate source range is not an ancestry-ordered range'') (\<lambda>_.
      bindE (canonical_diff g base head) (\<lambda>patch.
      bindE (need (PStr (sha256_bytes sha patch) = get_or request ''candidateDiffSha256'' PNone)
               ''candidate diff digest does not match the approved intake'') (\<lambda>_.
      bindE (changed_paths g base head) (\<lambda>paths.
      bindE (reject_special_modes g base head) (\<lambda>_.
      bindE (validate_metadata sha flt g request paths now) (\<lambda>(fragment, fragment_digest).
      let result = intake_result request (sha256_bytes sha patch) fragment fragment_digest paths in
      bindE (validate_intake_result request result) (\<lambda>_.
      Inr (patch, result)))))))))))))))))"

section \<open>The one-time recovery\<close>

text \<open>
  \<open>re.subn\<close> of a line \<open>+NAME = "sha256:..."\<close>: the digest the control file binds of the diff that
  changes it is replaced by zeros, as are the object names of the control file itself.
\<close>

definition digest_zeros :: string where
  "digest_zeros = replicate 64 (CHR ''0'')"

definition binding_line :: "string \<Rightarrow> string \<Rightarrow> (string \<times> nat)" where
  "binding_line name line =
     (let start = ''+'' @ name @ '' = '' @ [CHR 0x22]; k = length start + 7 in
      if prefix (start @ ''sha256:'') line \<and> hex_id 64 (take 64 (drop k line)) \<and> prefix [CHR 0x22] (drop (k + 64) line)
      then (take k line @ digest_zeros @ drop (k + 64) line, 1) else (line, 0))"

definition neutral_binding :: "string \<Rightarrow> string \<Rightarrow> string \<times> nat" where
  "neutral_binding name patch =
     (let rows = map (binding_line name) (split_on newline patch) in
      (join_with [newline] (map fst rows), sum_list (map snd rows)))"

definition index_header :: string where
  "index_header = ''diff --git a/scripts/security_release_contract.py b/scripts/security_release_contract.py'' @ [newline] @ ''index ''"

definition index_tail :: string where
  "index_tail = '' 100644'' @ [newline]"

definition index_at :: "string \<Rightarrow> bool" where
  "index_at s \<longleftrightarrow> (let r = drop (length index_header) s in
     prefix index_header s \<and> hex_id 40 (take 40 r) \<and> prefix ''..'' (drop 40 r) \<and> hex_id 40 (take 40 (drop 42 r))
     \<and> prefix index_tail (drop 82 r))"

definition index_zeros :: string where
  "index_zeros = replicate 40 (CHR ''0'') @ ''..'' @ replicate 40 (CHR ''0'')"

function neutral_index :: "string \<Rightarrow> string \<times> nat" where
  "neutral_index s =
     (if s = [] then ([], 0)
      else if index_at s
      then (let (rest, n) = neutral_index (drop (length index_header + 82 + length index_tail) s) in
            (index_header @ index_zeros @ index_tail @ rest, n + 1))
      else (let (rest, n) = neutral_index (tl s) in (hd s # rest, n)))"
  by pat_completeness auto
termination
  by (relation "measure length") (auto simp: index_header_def)

declare neutral_index.simps [simp del]

definition recovery_control_diff :: "git \<Rightarrow> string \<Rightarrow> string \<Rightarrow> string \<Rightarrow> exn + string" where
  "recovery_control_diff g base_sha head_sha digest_binding =
     bindE (canonical_diff g base_sha head_sha) (\<lambda>patch.
     let (normalized, replacements) = neutral_binding digest_binding patch;
         (result, index_replacements) = neutral_index normalized in
     bindE (checks
       [(replacements \<le> 1, ContractError ''Security recovery follow-up diff contains duplicate digest bindings''),
        (index_replacements = 1, ContractError ''Security recovery follow-up diff lacks its canonical contract index'')]) (\<lambda>_.
     Inr result))"

definition tree_of :: "git \<Rightarrow> string \<Rightarrow> exn + string" where
  "tree_of g sha = bindE (git_text g [''show'', ''-s'', ''--format=%T'', sha]) (\<lambda>s. Inr (py_strip s))"

definition parents_of :: "git \<Rightarrow> string \<Rightarrow> exn + string list" where
  "parents_of g sha = bindE (git_text g [''show'', ''-s'', ''--format=%P'', sha]) (\<lambda>s. Inr (py_split s))"

definition need_same_tree :: "git \<Rightarrow> string \<Rightarrow> string \<Rightarrow> string \<Rightarrow> exn + unit" where
  "need_same_tree g a b message = bindE (tree_of g a) (\<lambda>t. bindE (tree_of g b) (\<lambda>u. need (t = u) message))"

definition need_ancestor :: "git \<Rightarrow> string \<Rightarrow> string \<Rightarrow> string \<Rightarrow> exn + unit" where
  "need_ancestor g a b message = bindE (git_is_ancestor g a b) (\<lambda>c. need c message)"

text \<open>The paths a range of commits adds or modifies, and that it deletes none.\<close>

definition kept_paths :: "(string \<times> string) list \<Rightarrow> string set" where
  "kept_paths changes = snd ` set (filter (\<lambda>(status, _). status \<in> {''A'', ''M''}) changes)"

definition exact_changes :: "git \<Rightarrow> string \<Rightarrow> string \<Rightarrow> string list \<Rightarrow> string \<Rightarrow> string \<Rightarrow> exn + unit" where
  "exact_changes g base head expected deletes unexpected =
     bindE (changed_paths g base head) (\<lambda>changes. checks
       [(\<not> list_ex (\<lambda>(status, _). status = ''D'') changes, ContractError deletes),
        (kept_paths changes = set expected, ContractError unexpected)])"

text \<open>An advance of the protected branch with an approved diff.\<close>

definition approved_advance :: "(string \<Rightarrow> string) \<Rightarrow> git \<Rightarrow> string \<Rightarrow> string \<Rightarrow> string \<Rightarrow> string list \<Rightarrow> string \<Rightarrow> string \<Rightarrow> exn + unit" where
  "approved_advance sha g base head expected_digest expected_paths name what =
     bindE (canonical_diff g base head) (\<lambda>patch.
     bindE (need (sha256_bytes sha patch = expected_digest)
              (''Security recovery '' @ name @ ''protected develop advance differs from its approved binding'')) (\<lambda>_.
     exact_changes g base head expected_paths
       (''Security recovery '' @ name @ ''protected develop advance must not delete '' @ what)
       (''Security recovery '' @ name @ ''protected develop advance changed unexpected paths'')))"

text \<open>
  An approved promotion of the recovery: the parents of the promotion, the commit its controls start from, the
  paths they change and the digest that binds their diff.
\<close>

record promotion =
  pr_head :: string
  pr_control_base :: string
  pr_control_paths :: "string list"
  pr_control_digest :: "(string \<times> string \<times> string) option"

definition descends :: "git \<Rightarrow> string \<Rightarrow> string \<Rightarrow> string \<Rightarrow> string \<Rightarrow> string \<Rightarrow> exn + unit" where
  "descends g main_base live_main develop_base head name =
     bindE (need_ancestor g main_base live_main
              (''Security recovery '' @ name @ '' promotion does not descend from its exact main base'')) (\<lambda>_.
     need_ancestor g develop_base head
              (''Security recovery '' @ name @ '' promotion does not descend from its exact develop base''))"

definition receipt_path :: string where
  "receipt_path = ''.lit/security-release-intakes/'' @ RECOVERY_FIXED_VERSION @ ''.json''"

definition first_promotion :: "git \<Rightarrow> string \<Rightarrow> exn + string" where
  "first_promotion g live_develop =
     bindE (parents_of g RECOVERY_FIRST_PROMOTION_SHA) (\<lambda>parents.
     bindE (need (length parents = 2 \<and> parents ! 0 = RECOVERY_APPROVED_MAIN_SHA)
              ''Security recovery first promotion differs from the approved protected topology'') (\<lambda>_.
     let message = ''Security recovery first promotion is not bound to protected develop'' in
     bindE (need_same_tree g RECOVERY_FIRST_PROMOTION_SHA (parents ! 1) message) (\<lambda>_.
     bindE (need_ancestor g (parents ! 1) live_develop message) (\<lambda>_.
     Inr (parents ! 1)))))"

definition follow_up_promotion :: "(string \<Rightarrow> string) \<Rightarrow> git \<Rightarrow> string \<Rightarrow> exn + promotion" where
  "follow_up_promotion sha g head =
     bindE (need_ancestor g RECOVERY_FOLLOW_UP_BASE_SHA head
              ''Security recovery follow-up does not descend from its exact protected develop base'') (\<lambda>_.
     bindE (approved_advance sha g RECOVERY_FIRST_PROMOTION_SHA RECOVERY_FOLLOW_UP_BASE_SHA RECOVERY_FOLLOW_UP_BASE_DIFF_SHA256
              RECOVERY_FOLLOW_UP_BASE_PATHS [] ''repository content'') (\<lambda>_.
     Inr \<lparr>pr_head = head, pr_control_base = RECOVERY_FOLLOW_UP_BASE_SHA, pr_control_paths = RECOVERY_FOLLOW_UP_CONTROL_PATHS,
          pr_control_digest = Some (''RECOVERY_FOLLOW_UP_CONTROL_DIFF_SHA256'', RECOVERY_FOLLOW_UP_CONTROL_DIFF_SHA256, ''follow-up'')\<rparr>))"

definition terminal_promotion :: "git \<Rightarrow> string \<Rightarrow> string \<Rightarrow> exn + promotion" where
  "terminal_promotion g live_main head =
     bindE (need_same_tree g RECOVERY_TERMINAL_MAIN_BASE_SHA RECOVERY_TERMINAL_DEVELOP_BASE_SHA
              ''Security recovery terminal bases do not bind the same protected tree'') (\<lambda>_.
     bindE (descends g RECOVERY_TERMINAL_MAIN_BASE_SHA live_main RECOVERY_TERMINAL_DEVELOP_BASE_SHA head ''terminal'') (\<lambda>_.
     Inr \<lparr>pr_head = head, pr_control_base = RECOVERY_TERMINAL_DEVELOP_BASE_SHA, pr_control_paths = RECOVERY_TERMINAL_CONTROL_PATHS,
          pr_control_digest = Some (''RECOVERY_TERMINAL_CONTROL_DIFF_SHA256'', RECOVERY_TERMINAL_CONTROL_DIFF_SHA256, ''terminal'')\<rparr>))"

definition refresh_promotion :: "git \<Rightarrow> string \<Rightarrow> string \<Rightarrow> exn + promotion" where
  "refresh_promotion g live_main head =
     bindE (need_same_tree g RECOVERY_RECEIPT_REFRESH_MAIN_BASE_SHA RECOVERY_RECEIPT_REFRESH_DEVELOP_BASE_SHA
              ''Security recovery receipt-refresh bases do not bind the same protected tree'') (\<lambda>_.
     bindE (descends g RECOVERY_RECEIPT_REFRESH_MAIN_BASE_SHA live_main RECOVERY_RECEIPT_REFRESH_DEVELOP_BASE_SHA head
              ''receipt-refresh'') (\<lambda>_.
     Inr \<lparr>pr_head = head, pr_control_base = RECOVERY_RECEIPT_REFRESH_DEVELOP_BASE_SHA,
          pr_control_paths = RECOVERY_RECEIPT_REFRESH_CONTROL_PATHS,
          pr_control_digest = Some (''RECOVERY_RECEIPT_REFRESH_CONTROL_DIFF_SHA256'',
            RECOVERY_RECEIPT_REFRESH_CONTROL_DIFF_SHA256, ''receipt-refresh'')\<rparr>))"

definition release_prep_promotion :: "(string \<Rightarrow> string) \<Rightarrow> git \<Rightarrow> string \<Rightarrow> string \<Rightarrow> exn + promotion" where
  "release_prep_promotion sha g live_main head =
     bindE (descends g RECOVERY_RELEASE_PREP_MAIN_BASE_SHA live_main RECOVERY_RELEASE_PREP_DEVELOP_BASE_SHA head ''release-prep'') (\<lambda>_.
     bindE (changed_paths g RECOVERY_RELEASE_PREP_MAIN_BASE_SHA RECOVERY_RELEASE_PREP_DEVELOP_BASE_SHA) (\<lambda>difference.
     bindE (need (difference = [(''D'', receipt_path)])
              ''Security recovery release-prep bases differ beyond the App-owned receipt'') (\<lambda>_.
     bindE (show_file g RECOVERY_RELEASE_PREP_MAIN_BASE_SHA receipt_path) (\<lambda>receipt_raw.
     bindE (need (sha256_bytes sha receipt_raw = RECOVERY_RELEASE_PREP_RECEIPT_SHA256)
              ''Security recovery release-prep receipt differs from its immutable binding'') (\<lambda>_.
     Inr \<lparr>pr_head = head, pr_control_base = RECOVERY_RELEASE_PREP_DEVELOP_BASE_SHA,
          pr_control_paths = RECOVERY_RELEASE_PREP_CONTROL_PATHS,
          pr_control_digest = Some (''RECOVERY_RELEASE_PREP_CONTROL_DIFF_SHA256'', RECOVERY_RELEASE_PREP_CONTROL_DIFF_SHA256,
            ''release-prep'')\<rparr>)))))"

definition post_changelog_promotion :: "git \<Rightarrow> string \<Rightarrow> string \<Rightarrow> exn + promotion" where
  "post_changelog_promotion g live_main head =
     bindE (need_same_tree g RECOVERY_POST_CHANGELOG_MAIN_BASE_SHA RECOVERY_POST_CHANGELOG_DEVELOP_BASE_SHA
              ''Security recovery post-changelog bases do not bind the same protected tree'') (\<lambda>_.
     bindE (descends g RECOVERY_POST_CHANGELOG_MAIN_BASE_SHA live_main RECOVERY_POST_CHANGELOG_DEVELOP_BASE_SHA head
              ''post-changelog'') (\<lambda>_.
     Inr \<lparr>pr_head = head, pr_control_base = RECOVERY_POST_CHANGELOG_DEVELOP_BASE_SHA,
          pr_control_paths = RECOVERY_POST_CHANGELOG_CONTROL_PATHS,
          pr_control_digest = Some (''RECOVERY_POST_CHANGELOG_CONTROL_DIFF_SHA256'',
            RECOVERY_POST_CHANGELOG_CONTROL_DIFF_SHA256, ''post-changelog'')\<rparr>))"

definition post_evidence_promotion :: "(string \<Rightarrow> string) \<Rightarrow> git \<Rightarrow> string \<Rightarrow> string \<Rightarrow> exn + promotion" where
  "post_evidence_promotion sha g live_main head =
     bindE (descends g RECOVERY_POST_EVIDENCE_FIX_MAIN_BASE_SHA live_main RECOVERY_POST_EVIDENCE_FIX_DEVELOP_BASE_SHA head
              ''post-evidence-fix'') (\<lambda>_.
     bindE (approved_advance sha g RECOVERY_POST_EVIDENCE_FIX_MAIN_BASE_SHA RECOVERY_POST_EVIDENCE_FIX_DEVELOP_BASE_SHA
              RECOVERY_POST_EVIDENCE_FIX_BASE_DIFF_SHA256 RECOVERY_POST_EVIDENCE_FIX_BASE_PATHS ''post-evidence-fix '' ''content'') (\<lambda>_.
     Inr \<lparr>pr_head = head, pr_control_base = RECOVERY_POST_EVIDENCE_FIX_DEVELOP_BASE_SHA,
          pr_control_paths = RECOVERY_POST_EVIDENCE_FIX_CONTROL_PATHS,
          pr_control_digest = Some (''RECOVERY_POST_EVIDENCE_FIX_CONTROL_DIFF_SHA256'',
            RECOVERY_POST_EVIDENCE_FIX_CONTROL_DIFF_SHA256, ''post-evidence-fix'')\<rparr>))"

definition recovery_promotion :: "(string \<Rightarrow> string) \<Rightarrow> git \<Rightarrow> string \<Rightarrow> string \<Rightarrow> exn + promotion" where
  "recovery_promotion sha g live_main live_develop =
     bindE (first_promotion g live_develop) (\<lambda>first_head.
     bindE (parents_of g live_main) (\<lambda>parents.
     let promoted = (\<lambda>main_base. length parents = 2 \<and> parents ! 0 = main_base); head = parents ! 1 in
     if live_main = RECOVERY_FIRST_PROMOTION_SHA
     then Inr \<lparr>pr_head = first_head, pr_control_base = RECOVERY_APPROVED_MAIN_SHA, pr_control_paths = RECOVERY_CONTROL_PATHS,
            pr_control_digest = None\<rparr>
     else if promoted RECOVERY_FIRST_PROMOTION_SHA then follow_up_promotion sha g head
     else if promoted RECOVERY_TERMINAL_MAIN_BASE_SHA then terminal_promotion g live_main head
     else if promoted RECOVERY_RECEIPT_REFRESH_MAIN_BASE_SHA then refresh_promotion g live_main head
     else if promoted RECOVERY_RELEASE_PREP_MAIN_BASE_SHA then release_prep_promotion sha g live_main head
     else if promoted RECOVERY_POST_CHANGELOG_MAIN_BASE_SHA then post_changelog_promotion g live_main head
     else if promoted RECOVERY_POST_EVIDENCE_FIX_MAIN_BASE_SHA then post_evidence_promotion sha g live_main head
     else fail ''Security recovery controller is not an exact approved recovery promotion''))"

definition check_promotion :: "(string \<Rightarrow> string) \<Rightarrow> git \<Rightarrow> string \<Rightarrow> string \<Rightarrow> promotion \<Rightarrow> exn + unit" where
  "check_promotion sha g live_main live_develop p =
     bindE (need_ancestor g (pr_head p) live_develop ''Security recovery promotion head is not reachable from protected develop'') (\<lambda>_.
     bindE (need_same_tree g live_main (pr_head p) ''Security recovery promotion tree differs from its protected develop parent'') (\<lambda>_.
     bindE (exact_changes g (pr_control_base p) (pr_head p) (pr_control_paths p)
              ''Security recovery controls must not delete repository content''
              ''Security recovery controller changes paths outside the exact approved allowlist'') (\<lambda>_.
     case pr_control_digest p of
       None \<Rightarrow> Inr ()
     | Some (name, expected, label) \<Rightarrow>
         bindE (recovery_control_diff g (pr_control_base p) (pr_head p) name) (\<lambda>patch.
         need (sha256_bytes sha patch = expected)
           (''Security recovery '' @ label @ '' controller diff differs from its approved binding'')))))"

definition recovery_commits :: "string \<Rightarrow> string list" where
  "recovery_commits base_sha =
     [base_sha, RECOVERY_APPROVED_MAIN_SHA, RECOVERY_FIRST_PROMOTION_SHA, RECOVERY_FOLLOW_UP_BASE_SHA,
      RECOVERY_TERMINAL_MAIN_BASE_SHA, RECOVERY_TERMINAL_DEVELOP_BASE_SHA, RECOVERY_RECEIPT_REFRESH_MAIN_BASE_SHA,
      RECOVERY_RECEIPT_REFRESH_DEVELOP_BASE_SHA, RECOVERY_RELEASE_PREP_MAIN_BASE_SHA, RECOVERY_RELEASE_PREP_DEVELOP_BASE_SHA,
      RECOVERY_POST_CHANGELOG_MAIN_BASE_SHA, RECOVERY_POST_CHANGELOG_DEVELOP_BASE_SHA, RECOVERY_POST_EVIDENCE_FIX_MAIN_BASE_SHA,
      RECOVERY_POST_EVIDENCE_FIX_DEVELOP_BASE_SHA, RECOVERY_CANDIDATE_BASE_SHA, RECOVERY_CANDIDATE_HEAD_SHA]"

definition recovery_heads :: "git \<Rightarrow> py \<Rightarrow> exn + string \<times> string" where
  "recovery_heads g request =
     bindE (need (git_worktree g) ''--root must be a Git worktree'') (\<lambda>_.
     bindE (forE (need_commit g) (recovery_commits (text_of request ''baseSha''))) (\<lambda>_.
     bindE (head_of g ''main'') (\<lambda>live_main.
     bindE (head_of g ''develop'') (\<lambda>live_develop.
     bindE (need (live_main = text_of request ''baseSha'') ''protected main changed after Security recovery authorization'') (\<lambda>_.
     bindE (need_ancestor g RECOVERY_APPROVED_MAIN_SHA live_main
              ''Security recovery controller does not descend from the approved protected-main SHA'') (\<lambda>_.
     bindE (need_ancestor g RECOVERY_CANDIDATE_HEAD_SHA live_main
              ''approved historical Security candidate is not reachable from protected main'') (\<lambda>_.
     bindE (need_ancestor g RECOVERY_CANDIDATE_HEAD_SHA live_develop
              ''approved historical Security candidate is not reachable from protected develop'') (\<lambda>_.
     Inr (live_main, live_develop)))))))))"

text \<open>The marker is the approved one, and main has no receipt of it yet.\<close>

definition recovery_marker :: "(string \<Rightarrow> string) \<Rightarrow> (string \<Rightarrow> exn + py) \<Rightarrow> git \<Rightarrow> py \<Rightarrow> string \<Rightarrow> int \<Rightarrow> exn + unit" where
  "recovery_marker sha flt g request live_main now =
     (let path = metadata_path_of RECOVERY_FIXED_VERSION in
      bindE (git_succeeds g [''cat-file'', ''-e'', live_main @ '':'' @ receipt_path]) (\<lambda>present.
      bindE (need (\<not> present) ''Security recovery intake receipt already exists on protected main'') (\<lambda>_.
      bindE (show_file g live_main path) (\<lambda>metadata_raw.
      bindE (show_file g RECOVERY_APPROVED_MAIN_SHA path) (\<lambda>approved_raw.
      bindE (show_file g RECOVERY_CANDIDATE_HEAD_SHA path) (\<lambda>candidate_raw.
      bindE (checks
        [(metadata_raw = approved_raw \<and> metadata_raw = candidate_raw,
            ContractError ''Security recovery marker differs across the approved immutable Git identities''),
         (sha256_bytes sha metadata_raw = RECOVERY_METADATA_SHA256,
            ContractError ''Security recovery marker digest differs from the approved binding'')]) (\<lambda>_.
      bindE (load_json_bytes flt metadata_raw ''Security release metadata'') (\<lambda>metadata.
      bindE (validate_metadata_payload metadata RECOVERY_EVIDENCE_ID RECOVERY_FIXED_VERSION RECOVERY_ACCEPTANCE_PROFILE now) (\<lambda>_.
      validate_request_metadata_binding request metadata)))))))))"

definition recovery_profiles :: "(string \<Rightarrow> exn + py) \<Rightarrow> git \<Rightarrow> string \<Rightarrow> exn + unit" where
  "recovery_profiles flt g live_main =
     bindE (show_json flt g RECOVERY_APPROVED_MAIN_SHA ''.lit/security-release-profiles.json''
              ''approved protected-main acceptance-profile registry'') (\<lambda>profiles.
     bindE (validate_profile_registry profiles RECOVERY_ACCEPTANCE_PROFILE) (\<lambda>_.
     bindE (show_json flt g live_main ''.lit/security-release-profiles.json''
              ''current protected-main acceptance-profile registry'') (\<lambda>current.
     need (py_eq profiles current) ''Security recovery changed the protected-main acceptance-profile registry'')))"

text \<open>\<open>re.search\<close> for \<open>^version:\s*["']?3\.2\.3(?:\s|$)\<close>\<close>

definition declares_approved :: "string list \<Rightarrow> bool" where
  "declares_approved line \<longleftrightarrow>
     (let value = version_value line; approved = map (\<lambda>c. [c]) ''3.2.3''; rest = drop (length approved) value in
      prefix approved value \<and> (rest = [] \<or> is_space (hd rest)))"

function search_approved :: "string list \<Rightarrow> bool" where
  "search_approved line =
     (if line = [] then False else declares_approved line \<or> search_approved (next_line line))"
  by pat_completeness auto
termination search_approved
  by (relation "measure length") (auto intro: next_line_shorter)

declare search_approved.simps [simp del]

definition recovery_candidate :: "(string \<Rightarrow> string) \<Rightarrow> git \<Rightarrow> string \<Rightarrow> exn + string \<times> (string \<times> string) list \<times> string" where
  "recovery_candidate sha g live_main =
     (let base = RECOVERY_CANDIDATE_BASE_SHA; head = RECOVERY_CANDIDATE_HEAD_SHA in
      bindE (git_text g [''show'', RECOVERY_APPROVED_MAIN_SHA @ '':galaxy.yml'']) (\<lambda>galaxy.
      bindE (need (search_approved (str_chars galaxy))
               ''Security recovery approved main does not declare collection version 3.2.3'') (\<lambda>_.
      bindE (canonical_diff g base head) (\<lambda>patch.
      bindE (need (sha256_bytes sha patch = RECOVERY_CANDIDATE_DIFF_SHA256)
               ''historical Security candidate diff differs from the approved recovery binding'') (\<lambda>_.
      bindE (changed_paths g base head) (\<lambda>paths.
      bindE (reject_special_modes g base head) (\<lambda>_.
      bindE (need ((''A'', metadata_path_of RECOVERY_FIXED_VERSION) \<in> set paths \<and> (''A'', RECOVERY_FRAGMENT_PATH) \<in> set paths)
               ''historical Security candidate does not add the approved marker and changelog fragment'') (\<lambda>_.
      bindE (show_file g live_main RECOVERY_FRAGMENT_PATH) (\<lambda>fragment_raw.
      bindE (show_file g head RECOVERY_FRAGMENT_PATH) (\<lambda>candidate_raw.
      bindE (checks
        [(fragment_raw = candidate_raw,
            ContractError ''Security recovery changelog fragment differs from the approved historical candidate''),
         (sha256_bytes sha fragment_raw = RECOVERY_FRAGMENT_SHA256,
            ContractError ''Security recovery changelog fragment digest differs from the approved binding'')]) (\<lambda>_.
      Inr (patch, paths, sha256_bytes sha fragment_raw))))))))))))"

definition verify_recovery_repository ::
    "(string \<Rightarrow> string) \<Rightarrow> (string \<Rightarrow> exn + py) \<Rightarrow> git \<Rightarrow> py \<Rightarrow> int \<Rightarrow> exn + string \<times> py" where
  "verify_recovery_repository sha flt g request now =
     bindE (recovery_heads g request) (\<lambda>(live_main, live_develop).
     bindE (recovery_promotion sha g live_main live_develop) (\<lambda>p.
     bindE (check_promotion sha g live_main live_develop p) (\<lambda>_.
     bindE (recovery_marker sha flt g request live_main now) (\<lambda>_.
     bindE (recovery_profiles flt g live_main) (\<lambda>_.
     bindE (recovery_candidate sha g live_main) (\<lambda>(patch, paths, fragment_digest).
     let result = intake_result request (text_of request ''candidateDiffSha256'') RECOVERY_FRAGMENT_PATH fragment_digest paths in
     bindE (validate_intake_result request result) (\<lambda>_.
     Inr (patch, result))))))))"

definition verify_repository :: "(string \<Rightarrow> string) \<Rightarrow> (string \<Rightarrow> exn + py) \<Rightarrow> git \<Rightarrow> py \<Rightarrow> int \<Rightarrow> exn + string \<times> py" where
  "verify_repository sha flt g request now =
     (if is_recovery_request request then verify_recovery_repository sha flt g request now
      else verify_range sha flt g request now)"

section \<open>The command\<close>

text \<open>
  \<open>os.open\<close> with \<open>O_CREAT\<close> and \<open>O_EXCL\<close> below the directories that \<open>mkdir(parents=True)\<close> makes. An entry
  that is reached through a link is changed where it is reached.
\<close>

fun create_file :: "node \<Rightarrow> string list \<Rightarrow> string \<Rightarrow> exn + node" where
  "create_file n [] raw = Inl OSError"
| "create_file (Link (Some m)) ps raw = bindE (create_file m ps raw) (\<lambda>m'. Inr (Link (Some m')))"
| "create_file (Directory es) [p] raw =
     (if map_of es p = None then Inr (Directory (es @ [(p, Regular (length raw) raw)])) else Inl OSError)"
| "create_file (Directory es) (p # q # ps) raw =
     (case map_of es p of
        None \<Rightarrow> bindE (create_file (Directory []) (q # ps) raw) (\<lambda>m. Inr (Directory (es @ [(p, m)])))
      | Some m \<Rightarrow> bindE (create_file m (q # ps) raw) (\<lambda>m'. Inr (Directory (AList.update p m' es))))"
| "create_file n ps raw = Inl OSError"

definition write_exclusive :: "node \<Rightarrow> string list \<Rightarrow> string \<Rightarrow> exn + node" where
  "write_exclusive tree parts raw =
     bindE (need (\<not> path_exists tree parts \<and> \<not> path_is_symlink tree parts) ''refusing to replace output'') (\<lambda>_.
     create_file tree parts raw)"

definition write_output :: "node \<Rightarrow> string list option \<Rightarrow> string \<Rightarrow> exn + node" where
  "write_output tree target raw = (case target of None \<Rightarrow> Inr tree | Some parts \<Rightarrow> write_exclusive tree parts raw)"

text \<open>The arguments of the command, paths as lists of parts; the observed identity without its permissions.\<close>

record intake_arguments =
  ia_request :: "string list"
  ia_repository :: string
  ia_output_patch :: "string list option"
  ia_output_json :: "string list option"
  ia_output_receipt :: "string list option"
  ia_run :: workflow_run
  ia_slug :: string
  ia_installation :: string
  ia_login :: string
  ia_account :: string
  ia_permissions :: "string list option"
  ia_repositories :: "string list"

definition load_argument :: "(string \<Rightarrow> exn + py) \<Rightarrow> node \<Rightarrow> string list \<Rightarrow> string \<Rightarrow> exn + py" where
  "load_argument flt tree parts label =
     (case lstat tree (butlast parts) of
        Some parent \<Rightarrow> load_canonical_file flt parent (last parts) label
      | None \<Rightarrow> fail (label @ '' must be a regular non-symlink file''))"

definition observed_automation :: "intake_arguments \<Rightarrow> py \<Rightarrow> py" where
  "observed_automation args permissions = PDict
     [(''slug'', PStr (ia_slug args)), (''installationId'', PStr (ia_installation args)), (''login'', PStr (ia_login args)),
      (''accountId'', PStr (ia_account args)), (''type'', PStr ''Bot''),
      (''selectedRepositories'', PList (map PStr (sort (ia_repositories args)))), (''permissions'', permissions)]"

definition write_receipt ::
    "(string \<Rightarrow> string) \<Rightarrow> (string \<Rightarrow> exn + py) \<Rightarrow> node \<Rightarrow> intake_arguments \<Rightarrow> py \<Rightarrow> py \<Rightarrow> int \<Rightarrow> exn + node" where
  "write_receipt sha flt tree args request result now = (case ia_output_receipt args of
     None \<Rightarrow> Inr tree
   | Some parts \<Rightarrow> (case ia_permissions args of
       None \<Rightarrow> fail ''--observed-app-permissions is required for an intake receipt''
     | Some file \<Rightarrow>
         bindE (load_argument flt tree file ''observed App permissions'') (\<lambda>permissions.
         bindE (build_intake_receipt sha request result now (ia_run args) (observed_automation args permissions)) (\<lambda>receipt.
         bindE (canonical_document_bytes receipt) (\<lambda>raw. write_exclusive tree parts raw)))))"

text \<open>The files are written one after the other; what is written before a failure stays.\<close>

fun run_writes :: "(node \<Rightarrow> exn + node) list \<Rightarrow> node \<Rightarrow> node \<times> exn option" where
  "run_writes [] tree = (tree, None)"
| "run_writes (w # ws) tree = (case w tree of Inl e \<Rightarrow> (tree, Some e) | Inr tree' \<Rightarrow> run_writes ws tree')"

definition intake_checks ::
    "(string \<Rightarrow> string) \<Rightarrow> (string \<Rightarrow> exn + py) \<Rightarrow> git \<Rightarrow> node \<Rightarrow> intake_arguments \<Rightarrow> int \<Rightarrow> exn + py \<times> string \<times> py \<times> string" where
  "intake_checks sha flt g tree args now =
     bindE (load_argument flt tree (ia_request args) ''Security intake request'') (\<lambda>document.
     bindE (require_string (PStr (ia_repository args)) ''--repository'') (\<lambda>repository.
     bindE (validate_request sha document repository now) (\<lambda>request.
     bindE (verify_repository sha flt g request now) (\<lambda>(patch, result).
     bindE (canonical_document_bytes result) (\<lambda>serialized.
     Inr (request, patch, result, serialized))))))"

definition intake_command ::
    "(string \<Rightarrow> string) \<Rightarrow> (string \<Rightarrow> exn + py) \<Rightarrow> git \<Rightarrow> node \<Rightarrow> intake_arguments \<Rightarrow> int \<Rightarrow> node \<times> (exn + string)" where
  "intake_command sha flt g tree args now =
     (case intake_checks sha flt g tree args now of
        Inl e \<Rightarrow> (tree, Inl e)
      | Inr (request, patch, result, serialized) \<Rightarrow>
          (case run_writes
                  [\<lambda>t. write_output t (ia_output_patch args) patch, \<lambda>t. write_output t (ia_output_json args) serialized,
                   \<lambda>t. write_receipt sha flt t args request result now] tree of
             (tree', failure) \<Rightarrow> (tree', case failure of None \<Rightarrow> Inr serialized | Some e \<Rightarrow> Inl e)))"

lemmas [run_simps] = run_git_def git_bytes_def git_text_def git_succeeds_def git_is_ancestor_def need_commit_def head_of_def
  show_file_def show_json_def load_canonical_file_def diff_command_def canonical_diff_def relative_parts_def change_record_def
  changed_paths_def special_mode_def raw_record_def reject_special_modes_def starts_with_any_def controls_untouched_def
  added_fragments_def product_path_ok_def check_product_paths_def main_version_def next_patch_def text_of_def metadata_path_of_def
  check_paths_def check_metadata_document_def validate_metadata_def intake_result_def verify_range_def

section \<open>What a verified range satisfies\<close>

lemma run_git_Inr: "run_git g args = Inr out \<longleftrightarrow> git_found g \<and> git_run g args = Inr out"
  by (auto simp: run_git_def split: sum.splits)

lemma git_succeeds_Inr: "git_succeeds g args = Inr b \<longleftrightarrow> git_found g \<and> b = git_zero g args"
  by (auto simp: git_succeeds_def)

text \<open>
  The paths a candidate may change: its own new marker, one new fragment, and product paths of
  which one is part of the runtime; never a workflow, a control of the release, or another marker.
\<close>

definition allowed_changes :: "(string \<times> string) list \<Rightarrow> string \<Rightarrow> string \<Rightarrow> bool" where
  "allowed_changes changes metadata fragment \<longleftrightarrow>
     (\<forall>(status, path) \<in> set changes.
        \<not> prefix ''.github/'' path \<and> path \<notin> set FORBIDDEN_PATHS \<and> \<not> prefix ''.lit/security-release-intakes/'' path
        \<and> (prefix ''.lit/security-releases/'' path \<longrightarrow> status = ''A'' \<and> path = metadata)
        \<and> (status = ''A'' \<and> fragment_path path \<longrightarrow> path = fragment)
        \<and> (path = metadata \<or> path = fragment \<or> product_path_ok path))
     \<and> (''A'', metadata) \<in> set changes \<and> (''A'', fragment) \<in> set changes
     \<and> (\<exists>path \<in> snd ` set changes. path \<noteq> metadata \<and> path \<noteq> fragment \<and> starts_with_any RUNTIME_PRODUCT_PREFIXES path)"

lemma check_paths_Inr:
  assumes "check_paths request changes = Inr fragment"
  shows "filter (\<lambda>(_, path). prefix ''.lit/security-releases/'' path) changes = [(''A'', metadata_path_of (text_of request ''fixedVersion''))]
    \<and> filter (\<lambda>(_, path). prefix ''.lit/security-release-intakes/'' path) changes = [] \<and> controls_untouched changes
    \<and> added_fragments changes = [fragment]"
proof -
  from assms obtain f where "added_fragments changes = [f]" "fragment = f"
    by (auto simp: check_paths_def bindE_eq_Inr length_Suc_conv)
  with assms show ?thesis
    by (auto simp: check_paths_def bindE_eq_Inr validate_immutable_marker_changes_def checks_eq_Inr metadata_path_of_def)
qed

lemma allowed_changesI:
  assumes c: "check_paths request changes = Inr fragment"
    and p: "check_product_paths (filter (\<lambda>p. p \<notin> {metadata_path_of (text_of request ''fixedVersion''), fragment}) (map snd changes)) = Inr ()"
  shows "allowed_changes changes (metadata_path_of (text_of request ''fixedVersion'')) fragment"
proof -
  let ?m = "metadata_path_of (text_of request ''fixedVersion'')"
  note c = check_paths_Inr [OF c]
  have "set (filter (\<lambda>(_, path). prefix ''.lit/security-releases/'' path) changes) = {(''A'', ?m)}"
    "set (filter (\<lambda>(_, path). prefix ''.lit/security-release-intakes/'' path) changes) = {}"
    using c by (simp_all del: set_filter)
  then have "{e \<in> set changes. prefix ''.lit/security-releases/'' (snd e)} = {(''A'', ?m)}"
    "{e \<in> set changes. prefix ''.lit/security-release-intakes/'' (snd e)} = {}"
    by (simp_all only: set_filter case_prod_unfold)
  then have f: "\<And>e. e \<in> set changes \<Longrightarrow> prefix ''.lit/security-releases/'' (snd e) \<Longrightarrow> e = (''A'', ?m)"
    "\<And>e. e \<in> set changes \<Longrightarrow> \<not> prefix ''.lit/security-release-intakes/'' (snd e)" and m: "(''A'', ?m) \<in> set changes"
    by blast+
  have a: "set (added_fragments changes) = {fragment}" using c by simp
  then have a: "(''A'', fragment) \<in> set changes" "\<And>path. (''A'', path) \<in> set changes \<Longrightarrow> fragment_path path \<Longrightarrow> path = fragment"
    by (auto simp: added_fragments_def image_iff)
  from p have q: "\<And>path. path \<in> snd ` set changes \<Longrightarrow> path \<noteq> ?m \<Longrightarrow> path \<noteq> fragment \<Longrightarrow> product_path_ok path"
    "\<exists>path \<in> snd ` set changes. path \<noteq> ?m \<and> path \<noteq> fragment \<and> starts_with_any RUNTIME_PRODUCT_PREFIXES path"
    by (auto simp: check_product_paths_def checks_eq_Inr list_all_iff list_ex_iff)
  show ?thesis
    unfolding allowed_changes_def
  proof (intro conjI ballI)
    fix e assume e: "e \<in> set changes"
    obtain status path where e': "e = (status, path)" by (cases e)
    have "\<not> prefix ''.github/'' path \<and> path \<notin> set FORBIDDEN_PATHS"
      using c e e' by (auto simp: controls_untouched_def list_all_iff)
    moreover have "path = ?m \<or> path = fragment \<or> product_path_ok path" using q(1) [of path] e e' by force
    ultimately show "case e of (status, path) \<Rightarrow> \<not> prefix ''.github/'' path \<and> path \<notin> set FORBIDDEN_PATHS
        \<and> \<not> prefix ''.lit/security-release-intakes/'' path
        \<and> (prefix ''.lit/security-releases/'' path \<longrightarrow> status = ''A'' \<and> path = ?m)
        \<and> (status = ''A'' \<and> fragment_path path \<longrightarrow> path = fragment) \<and> (path = ?m \<or> path = fragment \<or> product_path_ok path)"
      using f(1) [OF e] f(2) [OF e] a(2) e e' by auto
  qed (use m a q in auto)
qed

lemma verify_range_Inr:
  assumes "verify_range sha flt g request now = Inr (patch, result)"
  obtains live_candidate changes fragment fragment_digest where
    "head_of g ''main'' = Inr (text_of request ''baseSha'')"
    "head_of g (text_of request ''candidateRef'') = Inr live_candidate"
    "git_zero g [''merge-base'', ''--is-ancestor'', text_of request ''candidateHeadSha'', live_candidate]"
    "git_zero g [''merge-base'', ''--is-ancestor'', text_of request ''candidateBaseSha'', text_of request ''candidateHeadSha'']"
    "canonical_diff g (text_of request ''candidateBaseSha'') (text_of request ''candidateHeadSha'') = Inr patch"
    "PStr (sha256_bytes sha patch) = get_or request ''candidateDiffSha256'' PNone"
    "changed_paths g (text_of request ''candidateBaseSha'') (text_of request ''candidateHeadSha'') = Inr changes"
    "reject_special_modes g (text_of request ''candidateBaseSha'') (text_of request ''candidateHeadSha'') = Inr ()"
    "validate_metadata sha flt g request changes now = Inr (fragment, fragment_digest)"
    "result = intake_result request (sha256_bytes sha patch) fragment fragment_digest changes"
    "is_ok (validate_intake_result request result)"
proof -
  from assms obtain live_candidate changes p u where
    a: "head_of g ''main'' = Inr (text_of request ''baseSha'')"
    "head_of g (text_of request ''candidateRef'') = Inr live_candidate"
    "git_is_ancestor g (text_of request ''candidateHeadSha'') live_candidate = Inr True"
    "git_is_ancestor g (text_of request ''candidateBaseSha'') (text_of request ''candidateHeadSha'') = Inr True"
    "canonical_diff g (text_of request ''candidateBaseSha'') (text_of request ''candidateHeadSha'') = Inr patch"
    "PStr (sha256_bytes sha patch) = get_or request ''candidateDiffSha256'' PNone"
    "changed_paths g (text_of request ''candidateBaseSha'') (text_of request ''candidateHeadSha'') = Inr changes"
    "reject_special_modes g (text_of request ''candidateBaseSha'') (text_of request ''candidateHeadSha'') = Inr ()"
    "validate_metadata sha flt g request changes now = Inr p"
    "validate_intake_result request (intake_result request (sha256_bytes sha patch) (fst p) (snd p) changes) = Inr u"
    "result = intake_result request (sha256_bytes sha patch) (fst p) (snd p) changes"
    unfolding verify_range_def Let_def bindE_eq_Inr need_eq_Inr split_def sum.inject prod.inject by (elim exE conjE) simp
  show thesis
    by (rule that [OF a(1,2) _ _ a(5-8) _ a(11)]) (use a(3,4,9,10,11) in \<open>simp_all add: git_is_ancestor_def git_succeeds_Inr is_ok_iff\<close>)
qed

lemma validate_metadata_Inr:
  assumes "validate_metadata sha flt g request changes now = Inr (fragment, fragment_digest)"
  obtains fragment_raw entries metadata_raw metadata m u profiles_raw profiles p galaxy current where
    "check_paths request changes = Inr fragment"
    "show_file g (text_of request ''candidateHeadSha'') fragment = Inr fragment_raw"
    "validate_security_fragment flt fragment_raw ''Security changelog fragment'' = Inr entries"
    "check_product_paths (filter (\<lambda>p. p \<notin> {metadata_path_of (text_of request ''fixedVersion''), fragment}) (map snd changes)) = Inr ()"
    "fragment_digest = sha256_bytes sha fragment_raw"
    "show_file g (text_of request ''candidateHeadSha'') (metadata_path_of (text_of request ''fixedVersion'')) = Inr metadata_raw"
    "PStr (sha256_bytes sha metadata_raw) = get_or request ''metadataSha256'' PNone"
    "load_json_bytes flt metadata_raw ''Security release metadata'' = Inr metadata"
    "validate_metadata_payload metadata (text_of request ''evidenceId'') (text_of request ''fixedVersion'')
       (text_of request ''acceptanceProfile'') now = Inr m"
    "validate_request_metadata_binding request metadata = Inr u"
    "show_file g (text_of request ''baseSha'') ''.lit/security-release-profiles.json'' = Inr profiles_raw"
    "load_json_bytes flt profiles_raw ''protected-main acceptance-profile registry'' = Inr profiles"
    "validate_profile_registry profiles (text_of request ''acceptanceProfile'') = Inr p"
    "git_text g [''show'', text_of request ''baseSha'' @ '':galaxy.yml''] = Inr galaxy"
    "main_version galaxy = Inr current" "version_of (text_of request ''fixedVersion'') = Inr (next_patch current)"
proof -
  from assms obtain fragment_raw entries w galaxy current where
    a: "check_paths request changes = Inr fragment"
    "show_file g (text_of request ''candidateHeadSha'') fragment = Inr fragment_raw"
    "validate_security_fragment flt fragment_raw ''Security changelog fragment'' = Inr entries"
    "check_product_paths (filter (\<lambda>p. p \<notin> {metadata_path_of (text_of request ''fixedVersion''), fragment}) (map snd changes)) = Inr w"
    "fragment_digest = sha256_bytes sha fragment_raw"
    and c: "check_metadata_document sha flt g request now = Inr ()"
    and b: "git_text g [''show'', text_of request ''baseSha'' @ '':galaxy.yml''] = Inr galaxy"
    "main_version galaxy = Inr current" "version_of (text_of request ''fixedVersion'') = Inr (next_patch current)"
    unfolding validate_metadata_def bindE_eq_Inr need_eq_Inr sum.inject prod.inject by (elim exE conjE) simp
  from c obtain metadata_raw metadata m u profiles_raw profiles p where d:
    "show_file g (text_of request ''candidateHeadSha'') (metadata_path_of (text_of request ''fixedVersion'')) = Inr metadata_raw"
    "PStr (sha256_bytes sha metadata_raw) = get_or request ''metadataSha256'' PNone"
    "load_json_bytes flt metadata_raw ''Security release metadata'' = Inr metadata"
    "validate_metadata_payload metadata (text_of request ''evidenceId'') (text_of request ''fixedVersion'')
       (text_of request ''acceptanceProfile'') now = Inr m"
    "validate_request_metadata_binding request metadata = Inr u"
    "show_file g (text_of request ''baseSha'') ''.lit/security-release-profiles.json'' = Inr profiles_raw"
    "load_json_bytes flt profiles_raw ''protected-main acceptance-profile registry'' = Inr profiles"
    "validate_profile_registry profiles (text_of request ''acceptanceProfile'') = Inr p"
    unfolding check_metadata_document_def show_json_def bindE_eq_Inr need_eq_Inr by (elim exE conjE) simp
  show thesis
    by (rule that [OF a(1-3) _ a(5) d b]) (use a(4) in simp)
qed


section \<open>What an accepted recovery satisfies\<close>

text \<open>
  The promotions a recovery accepts, besides the first: the base of main they merge into, the commit of
  develop their controls start from, the paths of the controls, and the digest of their diff.
\<close>

definition approved_promotions :: "(string \<times> string \<times> string list \<times> string) list" where
  "approved_promotions =
     [(RECOVERY_FIRST_PROMOTION_SHA, RECOVERY_FOLLOW_UP_BASE_SHA, RECOVERY_FOLLOW_UP_CONTROL_PATHS,
         RECOVERY_FOLLOW_UP_CONTROL_DIFF_SHA256),
      (RECOVERY_TERMINAL_MAIN_BASE_SHA, RECOVERY_TERMINAL_DEVELOP_BASE_SHA, RECOVERY_TERMINAL_CONTROL_PATHS,
         RECOVERY_TERMINAL_CONTROL_DIFF_SHA256),
      (RECOVERY_RECEIPT_REFRESH_MAIN_BASE_SHA, RECOVERY_RECEIPT_REFRESH_DEVELOP_BASE_SHA,
         RECOVERY_RECEIPT_REFRESH_CONTROL_PATHS, RECOVERY_RECEIPT_REFRESH_CONTROL_DIFF_SHA256),
      (RECOVERY_RELEASE_PREP_MAIN_BASE_SHA, RECOVERY_RELEASE_PREP_DEVELOP_BASE_SHA,
         RECOVERY_RELEASE_PREP_CONTROL_PATHS, RECOVERY_RELEASE_PREP_CONTROL_DIFF_SHA256),
      (RECOVERY_POST_CHANGELOG_MAIN_BASE_SHA, RECOVERY_POST_CHANGELOG_DEVELOP_BASE_SHA,
         RECOVERY_POST_CHANGELOG_CONTROL_PATHS, RECOVERY_POST_CHANGELOG_CONTROL_DIFF_SHA256),
      (RECOVERY_POST_EVIDENCE_FIX_MAIN_BASE_SHA, RECOVERY_POST_EVIDENCE_FIX_DEVELOP_BASE_SHA,
         RECOVERY_POST_EVIDENCE_FIX_CONTROL_PATHS, RECOVERY_POST_EVIDENCE_FIX_CONTROL_DIFF_SHA256)]"

definition approved_promotion :: "(string \<Rightarrow> string) \<Rightarrow> git \<Rightarrow> string \<Rightarrow> string \<Rightarrow> bool" where
  "approved_promotion sha g live_main head \<longleftrightarrow>
     (live_main = RECOVERY_FIRST_PROMOTION_SHA
       \<and> exact_changes g RECOVERY_APPROVED_MAIN_SHA head RECOVERY_CONTROL_PATHS
           ''Security recovery controls must not delete repository content''
           ''Security recovery controller changes paths outside the exact approved allowlist'' = Inr ())
     \<or> (\<exists>(main_base, control_base, control_paths, expected) \<in> set approved_promotions. \<exists>name patch.
          parents_of g live_main = Inr [main_base, head]
          \<and> exact_changes g control_base head control_paths
              ''Security recovery controls must not delete repository content''
              ''Security recovery controller changes paths outside the exact approved allowlist'' = Inr ()
          \<and> recovery_control_diff g control_base head name = Inr patch \<and> sha256_bytes sha patch = expected)"

lemma recovery_promotion_Inr:
  assumes "recovery_promotion sha g live_main live_develop = Inr p"
  shows "(live_main = RECOVERY_FIRST_PROMOTION_SHA \<and> pr_control_base p = RECOVERY_APPROVED_MAIN_SHA
       \<and> pr_control_paths p = RECOVERY_CONTROL_PATHS \<and> pr_control_digest p = None)
     \<or> (\<exists>main_base name expected label.
          (main_base, pr_control_base p, pr_control_paths p, expected) \<in> set approved_promotions
          \<and> parents_of g live_main = Inr [main_base, pr_head p] \<and> pr_control_digest p = Some (name, expected, label))"
proof -
  have two: "ps = [ps ! 0, ps ! 1]" if "length ps = 2" for ps :: "string list"
    using that by (cases ps; cases "tl ps") auto
  from assms obtain parents where p: "parents_of g live_main = Inr parents"
    by (auto simp: recovery_promotion_def Let_def bindE_eq_Inr)
  note d = recovery_promotion_def follow_up_promotion_def terminal_promotion_def refresh_promotion_def release_prep_promotion_def
    post_changelog_promotion_def post_evidence_promotion_def
  show ?thesis
  proof (cases "live_main = RECOVERY_FIRST_PROMOTION_SHA")
    case True
    with assms show ?thesis by (auto simp: recovery_promotion_def Let_def bindE_eq_Inr)
  next
    case False
    from assms p False have l: "length parents = 2" by (auto simp: recovery_promotion_def Let_def bindE_eq_Inr split: if_splits)
    from assms p False have "\<exists>name expected label. (parents ! 0, pr_control_base p, pr_control_paths p, expected) \<in> set approved_promotions
        \<and> pr_head p = parents ! 1 \<and> pr_control_digest p = Some (name, expected, label)"
      by (auto simp: d Let_def bindE_eq_Inr approved_promotions_def split: if_splits)
    with p two [OF l] show ?thesis by metis
  qed
qed

lemma check_promotion_Inr:
  assumes "check_promotion sha g live_main live_develop p = Inr u"
  shows "git_zero g [''merge-base'', ''--is-ancestor'', pr_head p, live_develop]"
    and "\<exists>tree. tree_of g live_main = Inr tree \<and> tree_of g (pr_head p) = Inr tree"
    and "exact_changes g (pr_control_base p) (pr_head p) (pr_control_paths p)
      ''Security recovery controls must not delete repository content''
      ''Security recovery controller changes paths outside the exact approved allowlist'' = Inr ()"
    and "pr_control_digest p = Some (name, expected, label) \<Longrightarrow>
      \<exists>patch. recovery_control_diff g (pr_control_base p) (pr_head p) name = Inr patch \<and> sha256_bytes sha patch = expected"
  using assms by (auto simp: check_promotion_def need_ancestor_def need_same_tree_def bindE_eq_Inr git_is_ancestor_def git_succeeds_Inr
      split: option.splits)

lemma recovery_marker_Inr:
  assumes "recovery_marker sha flt g request live_main now = Inr u"
  shows "\<not> git_zero g [''cat-file'', ''-e'', live_main @ '':'' @ receipt_path]"
    and "\<exists>raw. (\<forall>commit \<in> {live_main, RECOVERY_APPROVED_MAIN_SHA, RECOVERY_CANDIDATE_HEAD_SHA}.
        show_file g commit (metadata_path_of RECOVERY_FIXED_VERSION) = Inr raw) \<and> sha256_bytes sha raw = RECOVERY_METADATA_SHA256"
  using assms by (auto simp: recovery_marker_def Let_def bindE_eq_Inr git_succeeds_Inr checks_eq_Inr)

lemma verify_recovery_Inr:
  assumes "verify_recovery_repository sha flt g request now = Inr (patch, result)"
  obtains live_develop p where
    "head_of g ''main'' = Inr (text_of request ''baseSha'')" "head_of g ''develop'' = Inr live_develop"
    "recovery_promotion sha g (text_of request ''baseSha'') live_develop = Inr p"
    "check_promotion sha g (text_of request ''baseSha'') live_develop p = Inr ()"
    "recovery_marker sha flt g request (text_of request ''baseSha'') now = Inr ()"
    "\<exists>x. recovery_candidate sha g (text_of request ''baseSha'') = Inr (patch, x)"
proof -
  from assms obtain live_main live_develop p where
    h: "recovery_heads g request = Inr (live_main, live_develop)" and r: "recovery_promotion sha g live_main live_develop = Inr p"
    "check_promotion sha g live_main live_develop p = Inr ()" "recovery_marker sha flt g request live_main now = Inr ()"
    "\<exists>x. recovery_candidate sha g live_main = Inr (patch, x)"
    by (auto simp: verify_recovery_repository_def Let_def bindE_eq_Inr)
  from h have m: "live_main = text_of request ''baseSha''" "head_of g ''main'' = Inr live_main" "head_of g ''develop'' = Inr live_develop"
    by (auto simp: recovery_heads_def bindE_eq_Inr)
  show thesis by (rule that [OF m(2) [unfolded m(1)] m(3) r [unfolded m(1)]])
qed

text \<open>
  C10: the one-time recovery works once and for the approved commits only: the live head of
  protected main is the approved promotion (its tree that of a commit reachable from develop, its
  controls exactly the approved paths, with the approved diff), main has no receipt of the release
  yet, and the marker is byte for byte that of the approved main and of the approved candidate.
\<close>

theorem recovery_not_replayed:
  assumes "verify_repository sha flt g request now = Inr (patch, result)" and "is_recovery_request request"
  shows "\<exists>live_develop head tree raw. let live_main = text_of request ''baseSha'' in
    head_of g ''main'' = Inr live_main \<and> head_of g ''develop'' = Inr live_develop
    \<and> git_zero g [''merge-base'', ''--is-ancestor'', head, live_develop]
    \<and> tree_of g live_main = Inr tree \<and> tree_of g head = Inr tree \<and> approved_promotion sha g live_main head
    \<and> \<not> git_zero g [''cat-file'', ''-e'', live_main @ '':'' @ receipt_path]
    \<and> (\<forall>commit \<in> {live_main, RECOVERY_APPROVED_MAIN_SHA, RECOVERY_CANDIDATE_HEAD_SHA}.
         show_file g commit (metadata_path_of RECOVERY_FIXED_VERSION) = Inr raw) \<and> sha256_bytes sha raw = RECOVERY_METADATA_SHA256
    \<and> git_run g (diff_command RECOVERY_CANDIDATE_BASE_SHA RECOVERY_CANDIDATE_HEAD_SHA) = Inr patch
    \<and> sha256_bytes sha patch = RECOVERY_CANDIDATE_DIFF_SHA256"
proof -
  from assms have "verify_recovery_repository sha flt g request now = Inr (patch, result)" by (simp add: verify_repository_def)
  then show ?thesis
  proof (rule verify_recovery_Inr)
    fix live_develop p
    let ?main = "text_of request ''baseSha''"
    assume h: "head_of g ''main'' = Inr ?main" "head_of g ''develop'' = Inr live_develop"
      and p: "recovery_promotion sha g ?main live_develop = Inr p" and k: "check_promotion sha g ?main live_develop p = Inr ()"
      and m: "recovery_marker sha flt g request ?main now = Inr ()" and c: "\<exists>x. recovery_candidate sha g ?main = Inr (patch, x)"
    note k = check_promotion_Inr [OF k]
    from recovery_promotion_Inr [OF p] have a: "approved_promotion sha g ?main (pr_head p)"
      unfolding approved_promotion_def using k(3,4) by fastforce
    from c have d: "git_run g (diff_command RECOVERY_CANDIDATE_BASE_SHA RECOVERY_CANDIDATE_HEAD_SHA) = Inr patch"
      "sha256_bytes sha patch = RECOVERY_CANDIDATE_DIFF_SHA256"
      by (auto simp: recovery_candidate_def Let_def bindE_eq_Inr canonical_diff_def git_bytes_def run_git_Inr)
    from recovery_marker_Inr [OF m] k(1,2) h a d show ?thesis unfolding Let_def by blast
  qed
qed

section \<open>From the intake to the release\<close>

text \<open>The run of the workflow that may sign a receipt.\<close>

definition trusted_run :: "workflow_run \<Rightarrow> bool" where
  "trusted_run run \<longleftrightarrow> wf_ref run = expected_ref \<and> wf_event run = ''workflow_dispatch'' \<and> wf_actor run = RELEASE_APP_LOGIN
     \<and> wf_triggering_actor run = RELEASE_APP_LOGIN \<and> positive_numeral (wf_run_id run) \<and> positive_numeral (wf_attempt run)"

lemma receipt_fields:
  "get_or (intake_receipt request verified run automation) ''request'' PNone = request"
  "get_or (intake_receipt request verified run automation) ''verified'' PNone = verified"
  "get_or (intake_receipt request verified run automation) ''automation'' PNone = automation"
  "get_or (intake_receipt request verified run automation) ''chainId'' PNone = get_or request ''chainId'' PNone"
  "get_or (intake_receipt request verified run automation) ''schemaVersion'' PNone = PInt INTAKE_RECEIPT_SCHEMA_VERSION"
  "set (keys_of (intake_receipt request verified run automation)) = set INTAKE_RECEIPT_KEYS"
  "is_dict (intake_receipt request verified run automation)"
  by (simp_all add: intake_receipt_def get_or_def [of "PDict kvs" for kvs] INTAKE_RECEIPT_KEYS_def insert_commute)

lemma keys_dict: "set (keys_of v) = set ks \<Longrightarrow> ks \<noteq> [] \<Longrightarrow> is_dict v"
  by (cases v) auto

lemma controller_fields:
  fixes request verified run
  defines "controller \<equiv> get_or (intake_receipt request verified run RELEASE_APP_IDENTITY) ''controller'' PNone"
  shows "is_dict controller" and "set (keys_of controller) = set CONTROLLER_KEYS"
    and "get_or controller ''path'' PNone = PStr workflow_path" and "get_or controller ''ref'' PNone = PStr (wf_ref run)"
    and "get_or controller ''sourceSha'' PNone = get_or request ''baseSha'' PNone" and "get_or controller ''event'' PNone = PStr (wf_event run)"
    and "get_or controller ''gitRef'' PNone = PStr ''refs/heads/main''" and "get_or controller ''actor'' PNone = PStr (wf_actor run)"
    and "get_or controller ''triggeringActor'' PNone = PStr (wf_triggering_actor run)"
    and "get_or controller ''runId'' PNone = PStr (wf_run_id run)" and "get_or controller ''runAttempt'' PNone = PStr (wf_attempt run)"
  unfolding controller_def by (simp_all add: intake_receipt_def get_or_def [of "PDict kvs" for kvs] CONTROLLER_KEYS_def insert_commute)

lemma trusted_receipt:
  assumes r: "validate_request sha request PRODUCER_REPOSITORY now = Inr q" and v: "is_ok (validate_intake_result request verified)"
    and t: "trusted_run run"
  shows "build_intake_receipt sha request verified now run RELEASE_APP_IDENTITY = Inr (intake_receipt request verified run RELEASE_APP_IDENTITY)"
proof -
  let ?r = "intake_receipt request verified run RELEASE_APP_IDENTITY" let ?c = "get_or ?r ''controller'' PNone"
  note q = validate_request_Inr [OF r]
  have i: "py_eq RELEASE_APP_IDENTITY RELEASE_APP_IDENTITY"
    by (rule py_eq_refl) (simp add: RELEASE_APP_IDENTITY_def RELEASE_APP_SELECTED_REPOSITORIES_def RELEASE_APP_PERMISSIONS_def)
  have "is_str (get_or request ''chainId'' PNone)" "is_str (get_or request ''baseSha'' PNone)" using q by blast+
  then have e: "py_eq (get_or request ''chainId'' PNone) (get_or request ''chainId'' PNone)"
    "py_eq (get_or request ''baseSha'' PNone) (get_or request ''baseSha'' PNone)" by (auto simp: is_str_iff)
  have c: "controller_ok request ?c"
    using t e(2) by (simp add: controller_ok_def Let_def controller_fields numeral_field_def trusted_run_def)
  have "set (keys_of request) = set REQUEST_KEYS"
    using r by (auto simp: validate_request_def request_identity_def exact_keys_def bindE_eq_Inr)
  then have "is_dict request" by (rule keys_dict) (simp add: REQUEST_KEYS_def)
  moreover have "set (keys_of verified) = set VERIFIED_KEYS"
    using v by (auto simp: validate_intake_result_def Let_def bindE_eq_Inr is_ok_iff exact_keys_def)
  then have "is_dict verified" by (rule keys_dict) (simp add: VERIFIED_KEYS_def)
  ultimately have "verify_intake_receipt sha ?r now = Inr ?r"
    using r v i e c
    by (auto simp: verify_intake_receipt_def Let_def exact_keys_def receipt_fields controller_fields is_ok_iff bindE_eq_Inr)
  with r v i show ?thesis by (auto simp: build_intake_receipt_def Let_def is_ok_iff bindE_eq_Inr)
qed


section \<open>The files the intake writes\<close>

lemma lstat_link: "lstat (Link (Some m)) (q # qs) = lstat m (q # qs)"
  by simp

lemma create_keeps:
  "create_file n ps raw = Inr n' \<Longrightarrow> lstat n qs = Some (Regular s c) \<Longrightarrow> lstat n' qs = Some (Regular s c)"
proof (induction n ps raw arbitrary: qs n' rule: create_file.induct)
  case (2 m p ps raw)
  then obtain m' where m: "create_file m (p # ps) raw = Inr m'" "n' = Link (Some m')" by (auto simp: bindE_eq_Inr)
  with 2 show ?case by (cases qs) (auto simp: lstat_link simp del: lstat.simps(2))
next
  case (3 es p raw)
  then show ?case by (cases qs) (auto simp: map_add_def split: option.splits if_splits)
next
  case (4 es p q ps raw)
  then show ?case by (cases qs) (auto simp: bindE_eq_Inr update_conv' map_add_def split: option.splits)
qed auto

lemma create_holds: "create_file n ps raw = Inr n' \<Longrightarrow> lstat n' ps = Some (Regular (length raw) raw)"
proof (induction n ps raw arbitrary: n' rule: create_file.induct)
  case (2 m p ps raw)
  then show ?case by (auto simp: bindE_eq_Inr)
next
  case (3 es p raw)
  then show ?case by (auto simp: map_add_def split: if_splits)
next
  case (4 es p q ps raw)
  then show ?case by (auto simp: bindE_eq_Inr update_conv' map_add_def split: option.splits)
qed auto


lemma write_output_Inr:
  assumes "write_output tree target raw = Inr tree'"
  shows "lstat tree parts = Some (Regular s c) \<Longrightarrow> lstat tree' parts = Some (Regular s c)"
    and "target = Some parts \<Longrightarrow> \<not> path_exists tree parts \<and> lstat tree' parts = Some (Regular (length raw) raw)"
  using assms create_keeps create_holds
  by (auto simp: write_output_def write_exclusive_def bindE_eq_Inr split: option.splits)

lemma write_receipt_Inr:
  assumes "write_receipt sha flt tree args request result now = Inr tree'"
  shows "lstat tree parts = Some (Regular s c) \<Longrightarrow> lstat tree' parts = Some (Regular s c)"
    and "ia_output_receipt args = Some parts \<Longrightarrow> \<exists>receipt raw. canonical_document_bytes receipt = Inr raw
      \<and> is_ok (verify_intake_receipt sha receipt now) \<and> get_or receipt ''verified'' PNone = result
      \<and> lstat tree' parts = Some (Regular (length raw) raw)"
proof -
  have "tree' = tree \<and> ia_output_receipt args = None \<or> (\<exists>target receipt raw automation. ia_output_receipt args = Some target
      \<and> build_intake_receipt sha request result now (ia_run args) automation = Inr receipt
      \<and> canonical_document_bytes receipt = Inr raw \<and> write_output tree (Some target) raw = Inr tree')"
    using assms by (auto simp: write_receipt_def write_output_def bindE_eq_Inr split: option.splits)
  then consider "tree' = tree" "ia_output_receipt args = None"
    | target receipt raw automation where "ia_output_receipt args = Some target"
      "build_intake_receipt sha request result now (ia_run args) automation = Inr receipt"
      "canonical_document_bytes receipt = Inr raw" "write_output tree (Some target) raw = Inr tree'" by metis
  note cases = this
  show "lstat tree parts = Some (Regular s c) \<Longrightarrow> lstat tree' parts = Some (Regular s c)"
    using cases by cases (auto dest: write_output_Inr(1))
  assume t: "ia_output_receipt args = Some parts"
  show "\<exists>receipt raw. canonical_document_bytes receipt = Inr raw
      \<and> is_ok (verify_intake_receipt sha receipt now) \<and> get_or receipt ''verified'' PNone = result
      \<and> lstat tree' parts = Some (Regular (length raw) raw)"
    using cases
  proof cases
    case (2 target receipt raw automation)
    with t build_intake_receipt_Inr [OF 2(2)] write_output_Inr(2) [OF 2(4)] show ?thesis by (auto simp: receipt_fields)
  qed (use t in simp)
qed

lemma run_writes_keeps:
  assumes "\<And>w t t'. w \<in> set ws \<Longrightarrow> w t = Inr t' \<Longrightarrow> lstat t parts = Some n \<Longrightarrow> lstat t' parts = Some n"
  shows "run_writes ws t = (t', failure) \<Longrightarrow> lstat t parts = Some n \<Longrightarrow> lstat t' parts = Some n"
  using assms by (induction ws arbitrary: t) (auto split: sum.splits, blast)


end
