(* ===== verification/Intake_Binding.thy ===== *)
theory Intake_Binding
  imports Release_Intake
begin

text \<open>
  The composition of the intake with the release (\<open>scripts/security-release-intake.py\<close>,
  \<open>scripts/security_release_contract.py\<close>): a range the intake verified yields a receipt, and in the
  tree that holds the files of the intake's branch the release loads its binding.
\<close>

section \<open>The files of the branch\<close>

definition holds_file :: "node \<Rightarrow> string list \<Rightarrow> string \<Rightarrow> bool" where
  "holds_file tree parts raw \<longleftrightarrow> open_beneath tree parts = Inr (Regular (length raw) raw)"

definition PROFILE_PARTS :: "string list" where
  "PROFILE_PARTS = [''.lit'', ''security-release-profiles.json'']"

text \<open>
  The tree has the metadata and the fragment of the candidate's head, the profile registry of
  protected main, and the bytes of the receipt.
\<close>

definition merged :: "git \<Rightarrow> py \<Rightarrow> py \<Rightarrow> string \<Rightarrow> node \<Rightarrow> bool" where
  "merged g request result receipt_raw tree \<longleftrightarrow>
     (let version = text_of request ''fixedVersion''; head = text_of request ''candidateHeadSha'';
          fragment = text_of result ''changelogFragmentPath'' in
      holds_file tree (intake_parts version) receipt_raw
      \<and> (\<forall>raw. show_file g head (metadata_path_of version) = Inr raw \<longrightarrow> holds_file tree (metadata_parts version) raw)
      \<and> (\<forall>raw. show_file g head fragment = Inr raw \<longrightarrow> holds_file tree (split_on (CHR 0x2F) fragment) raw)
      \<and> (\<forall>raw. show_file g (text_of request ''baseSha'') ''.lit/security-release-profiles.json'' = Inr raw
           \<longrightarrow> holds_file tree PROFILE_PARTS raw))"

lemma holds_exists: "holds_file tree parts raw \<Longrightarrow> parts \<noteq> [] \<Longrightarrow> marker_exists tree parts"
  by (rule marker_exists_lstat) (use open_beneath_lstat in \<open>fastforce simp: holds_file_def\<close>)

lemma read_holds:
  assumes "holds_file tree parts raw" "length raw \<le> limit"
    and "parts \<noteq> []" "hd parts \<noteq> ''/''" "\<forall>p \<in> set parts. p \<notin> {'''', ''.'', ''..''}"
  shows "read_bounded_regular_file tree parts label limit = Inr raw"
  using assms by (simp add: holds_file_def read_bounded_regular_file_def)

lemma json_name: "v @ ''.json'' \<notin> {'''', ''.'', ''..''}"
  by (auto simp: append_eq_Cons_conv)

lemma fragment_parts:
  assumes "fragment_path s"
  shows "hd (split_on (CHR 0x2F) s) \<noteq> ''/'' \<and> (\<forall>p \<in> set (split_on (CHR 0x2F) s). p \<notin> {'''', ''.'', ''..''})"
proof -
  from assms obtain n where s: "s = fragment_prefix @ n" by (auto simp: fragment_path_def prefix_def)
  have "drop 21 s = n" by (simp add: s fragment_prefix_def)
  with assms have n: "CHR 0x2F \<notin> set n" "suffix ''.yml'' n \<and> 4 < length n \<or> suffix ''.yaml'' n \<and> 5 < length n"
    by (simp_all add: fragment_path_def Let_def)
  from n(2) have "n \<notin> {'''', ''.'', ''..''}" by auto
  moreover have "split_on (CHR 0x2F) s = [''changelogs'', ''fragments'', n]"
    by (simp add: s fragment_prefix_def split_on_id n(1))
  ultimately show ?thesis by simp
qed

lemma load_json_bytes_label: "load_json_bytes flt raw l = Inr v \<Longrightarrow> load_json_bytes flt raw l' = Inr v"
  by (simp add: load_json_bytes_def bindE_eq_Inr)

lemma json_loads_Nil: "json_loads cfg [] \<noteq> Inr v"
  by (simp add: json_loads_def skip_ws_def span_def starts_def json_scalar_def json_literals_def json_number_def int_width_def
      starts_digit_def)

lemma load_json_bytes_raw: "load_json_bytes flt raw l = Inr v \<Longrightarrow> raw \<noteq> [] \<and> length raw \<le> MAX_JSON_BYTES"
  by (auto simp: load_json_bytes_def bindE_eq_Inr json_loads_Nil)

section \<open>The window of the request\<close>

text \<open>
  The metadata names the same window as the request, so that it is valid whenever the request is.
\<close>

lemma string_field_text: "string_field request k form m = Inr s \<Longrightarrow> s = text_of request k"
  by (auto simp: string_field_def require_string_def bindE_eq_Inr text_of_def split: if_splits)

lemma validate_request_times:
  assumes "validate_request sha request repository now = Inr r"
  obtains issued expires where
    "timestamp (get_or request ''issuedAt'' PNone) ''issuedAt'' = Inr issued"
    "timestamp (get_or request ''expiresAt'' PNone) ''expiresAt'' = Inr expires" "issued \<le> now" "now < expires"
    "semver (text_of request ''fixedVersion'')"
proof -
  from assms obtain issued expires where
    "timestamp (get_or request ''issuedAt'' PNone) ''issuedAt'' = Inr issued"
    "timestamp (get_or request ''expiresAt'' PNone) ''expiresAt'' = Inr expires" "issued \<le> now" "now < expires"
    "string_field request ''fixedVersion'' semver ''fixedVersion must be stable SemVer'' = Inr (text_of request ''fixedVersion'')"
    unfolding validate_request_def Let_def bindE_eq_Inr by (elim exE conjE) (simp add: checks_eq_Inr string_field_text)
  then show thesis by (intro that) (simp_all add: string_field_def bindE_eq_Inr)
qed

lemma timestamp_label: "timestamp v l = Inr t \<Longrightarrow> timestamp v l' = Inr t"
  by (auto simp: timestamp_def require_string_def bindE_eq_Inr split: if_splits option.splits)

lemma timestamp_str: "timestamp v l = Inr t \<Longrightarrow> is_str v"
  by (auto simp: timestamp_def require_string_def bindE_eq_Inr split: if_splits)

lemma metadata_valid_later:
  assumes m: "validate_metadata_payload metadata evidence version profile now = Inr m"
    and b: "validate_request_metadata_binding request metadata = Inr u"
    and r: "validate_request sha request repository later = Inr r"
  shows "validate_metadata_payload metadata evidence version profile later = Inr metadata"
  using r
proof (rule validate_request_times)
  fix issued expires
  let ?validity = "get_or metadata ''validity'' PNone"
  assume i: "timestamp (get_or request ''issuedAt'' PNone) ''issuedAt'' = Inr issued" "issued \<le> later"
    and e: "timestamp (get_or request ''expiresAt'' PNone) ''expiresAt'' = Inr expires" "later < expires"
  from b i(1) e(1) have s: "get_or metadata ''createdAt'' PNone = get_or request ''issuedAt'' PNone"
    "get_or ?validity ''expiresAt'' PNone = get_or request ''expiresAt'' PNone"
    by (auto simp: validate_request_metadata_binding_def checks_eq_Inr is_str_iff dest!: timestamp_str split: py.splits)
  have c: "timestamp (get_or metadata ''createdAt'' PNone) ''createdAt'' = Inr issued"
    "timestamp (get_or ?validity ''expiresAt'' PNone) ''validity.expiresAt'' = Inr expires"
    unfolding s by (rule i(1) [THEN timestamp_label], rule e(1) [THEN timestamp_label])
  from m show ?thesis
    unfolding validate_metadata_payload_def Let_def bindE_eq_Inr by (elim exE conjE) (use c i(2) e(2) in \<open>simp add: checks_eq_Inr\<close>)
qed

section \<open>The release\<close>

lemma verified_fields:
  "get_or (intake_result request d fragment fd changes) ''changelogFragmentPath'' PNone = PStr fragment"
  "get_or (intake_result request d fragment fd changes) ''changelogFragmentSha256'' PNone = PStr fd"
  "get_or (intake_result request d fragment fd changes) ''metadataSha256'' PNone = get_or request ''metadataSha256'' PNone"
  by (simp_all add: intake_result_def Let_def get_or_def [of "PDict kvs" for kvs])

lemma detach_str [simp]: "is_str v \<Longrightarrow> detach v = v"
  by (cases v) simp_all

lemma check_metadata_later:
  assumes r: "validate_request sha request repository later = Inr q"
    and m: "validate_metadata_payload metadata (text_of request ''evidenceId'') (text_of request ''fixedVersion'')
       (text_of request ''acceptanceProfile'') now = Inr m"
    and b: "validate_request_metadata_binding request metadata = Inr u"
    and d: "PStr (sha256_bytes sha raw) = get_or request ''metadataSha256'' PNone"
    and v: "get_or verified ''metadataSha256'' PNone = get_or request ''metadataSha256'' PNone"
  shows "check_metadata sha (text_of request ''fixedVersion'') (detach (intake_receipt request verified run automation)) raw metadata later
    = Inr ()"
proof -
  have s: "is_str (get_or request k PNone)"
    if "k \<in> {''evidenceId'', ''fixedVersion'', ''acceptanceProfile'', ''issuedAt'', ''expiresAt''}" for k
    using that validate_request_Inr [OF r] r by (auto elim!: validate_request_times dest: timestamp_str)
  have t: "get_or request k PNone = PStr (text_of request k)"
    if "k \<in> {''evidenceId'', ''fixedVersion'', ''acceptanceProfile'', ''issuedAt'', ''expiresAt''}" for k
    using s [OF that] by (auto simp: text_of_def is_str_iff)
  have "validate_request_metadata_binding (detach request) metadata = Inr ()"
    using b s by (simp add: validate_request_metadata_binding_def)
  then show ?thesis
    using metadata_valid_later [OF m b r] d [symmetric] v
    by (simp add: check_metadata_def receipt_fields t)
qed

lemma merged_loads:
  assumes w: "validate_metadata sha flt g request changes now = Inr (fragment, fragment_digest)"
    and result: "result = intake_result request d fragment fragment_digest changes"
    and receipt: "receipt = intake_receipt request result run RELEASE_APP_IDENTITY"
    and l: "validate_request sha request PRODUCER_REPOSITORY later = Inr q" and y: "verify_intake_receipt sha receipt later = Inr receipt"
    and c: "renderable (\<lambda>_. True) receipt" "canonical_document_bytes receipt = Inr raw" "length raw \<le> MAX_JSON_BYTES"
    and f: "merged g request result raw tree" and n: "\<not> is_recovery_request request"
  shows "is_ok (load_marker sha flt tree (text_of request ''fixedVersion'') later)"
  using w
proof (rule validate_metadata_Inr)
  fix fragment_raw entries metadata_raw metadata m u profiles_raw profiles p
  let ?version = "text_of request ''fixedVersion''"
  assume k: "check_paths request changes = Inr fragment"
    and fr: "show_file g (text_of request ''candidateHeadSha'') fragment = Inr fragment_raw"
      "validate_security_fragment flt fragment_raw ''Security changelog fragment'' = Inr entries"
      "fragment_digest = sha256_bytes sha fragment_raw"
    and mr: "show_file g (text_of request ''candidateHeadSha'') (metadata_path_of ?version) = Inr metadata_raw"
      "PStr (sha256_bytes sha metadata_raw) = get_or request ''metadataSha256'' PNone"
      "load_json_bytes flt metadata_raw ''Security release metadata'' = Inr metadata"
      "validate_metadata_payload metadata (text_of request ''evidenceId'') ?version (text_of request ''acceptanceProfile'') now = Inr m"
      "validate_request_metadata_binding request metadata = Inr u"
    and pr: "show_file g (text_of request ''baseSha'') ''.lit/security-release-profiles.json'' = Inr profiles_raw"
      "load_json_bytes flt profiles_raw ''protected-main acceptance-profile registry'' = Inr profiles"
      "validate_profile_registry profiles (text_of request ''acceptanceProfile'') = Inr p"
  have x: "text_of result ''changelogFragmentPath'' = fragment" by (simp add: result text_of_def verified_fields)
  have h: "holds_file tree (intake_parts ?version) raw" "holds_file tree (metadata_parts ?version) metadata_raw"
    "holds_file tree (split_on (CHR 0x2F) fragment) fragment_raw" "holds_file tree PROFILE_PARTS profiles_raw"
    using f fr(1) mr(1) pr(1) by (auto simp: merged_def Let_def x)
  have z: "length fragment_raw \<le> MAX_SECURITY_FRAGMENT_BYTES"
    using fr(2) by (auto simp: validate_security_fragment_def bindE_eq_Inr)
  have "fragment \<in> set (added_fragments changes)" using check_paths_Inr [OF k] by simp
  then have fp: "fragment_path fragment" by (auto simp: added_fragments_def)
  have rd: "read_bounded_regular_file tree (metadata_parts ?version) ''Security metadata'' MAX_JSON_BYTES = Inr metadata_raw"
    "read_bounded_regular_file tree (intake_parts ?version) ''Security intake receipt'' MAX_JSON_BYTES = Inr raw"
    "read_bounded_regular_file tree (split_on (CHR 0x2F) fragment) ''Security changelog fragment'' MAX_SECURITY_FRAGMENT_BYTES = Inr fragment_raw"
    "load_json_file flt tree [''.lit'', ''security-release-profiles.json''] ''protected-main acceptance-profile registry'' = Inr profiles"
    using h c(3) z load_json_bytes_raw [OF mr(3)] load_json_bytes_raw [OF pr(2)] json_name [of ?version] fragment_parts [OF fp]
    by (simp_all add: read_holds metadata_parts_def intake_parts_def PROFILE_PARTS_def load_json_file_def pr(2))
  have "is_dict receipt" by (simp add: receipt intake_receipt_def)
  then have lr: "load_json_bytes flt raw ''Security intake receipt'' = Inr (detach receipt)"
    by (rule load_canonical_document [OF c(2,1) _ c(3)])
  have cm: "check_metadata sha ?version (detach receipt) metadata_raw metadata later = Inr ()"
    unfolding receipt by (rule check_metadata_later [OF l mr(4,5,2)]) (simp add: result verified_fields)
  have cf: "check_fragment sha flt ?version (detach receipt) fragment_raw = Inr ()"
    using n fr(2) by (simp add: check_fragment_def receipt receipt_fields result verified_fields fr(3) Let_def)
  have ap: "the_str (get_or (get_or (detach receipt) ''request'' PNone) ''acceptanceProfile'' PNone) = text_of request ''acceptanceProfile''"
    using validate_request_Inr [OF l] by (simp add: receipt receipt_fields text_of_def)
  have fg: "the_str (get_or (get_or (detach receipt) ''verified'' PNone) ''changelogFragmentPath'' PNone) = fragment"
    by (simp add: receipt receipt_fields result verified_fields)
  show ?thesis
    unfolding load_marker_def Let_def rd bindE_simps mr(3) lr canonical_document_detach c(2) verify_intake_receipt_detach [OF y] cm fg ap cf pr(3)
    using load_json_bytes_raw [OF mr(3)] by simp
qed


end
