(* ===== verification/Intake_Samples.thy ===== *)
theory Intake_Samples
  imports Intake_Binding Release_Samples
begin

text \<open>
  Two small repositories to apply the theorems of the intake to: one whose candidate adds the marker
  and the fragment and changes a role, and one at the first promotion of the recovery.
\<close>

section \<open>A range\<close>

definition sample_changes :: "(string \<times> string) list" where
  "sample_changes =
     [(''A'', ''.lit/security-releases/1.0.1.json''), (''A'', ''changelogs/fragments/fix.yml''), (''M'', ''roles/a'')]"

definition name_status :: "(string \<times> string) list \<Rightarrow> string" where
  "name_status changes = join_with [CHR 0x00] (concat (map (\<lambda>(status, path). [status, path]) changes) @ [''''])"

text \<open>What \<open>git show\<close> answers for \<open>commit:path\<close>, by the path alone.\<close>

definition sample_show :: "string \<Rightarrow> string" where
  "sample_show path =
     (if path = ''galaxy.yml'' then ''version: 1.0.0''
      else if path = ''.lit/security-releases/1.0.1.json'' then document_raw sample_metadata
      else if path = ''changelogs/fragments/fix.yml'' then fragment_sample
      else document_raw sample_profiles)"

definition sample_answer :: "string list \<Rightarrow> string" where
  "sample_answer args =
     (if hd args = ''rev-parse'' then (if args ! 1 = ''refs/remotes/origin/main'' then base_sha else head_sha)
      else if hd args = ''show'' then sample_show (drop 41 (args ! 1))
      else if hd args = ''diff'' then (if args ! 1 = ''--raw'' then '':100644 100644 1 2 M'' else name_status sample_changes)
      else if hd args = ''-c'' then ''patch'' else '''')"

definition sample_git :: git where
  "sample_git = \<lparr>git_found = True, git_run = (\<lambda>args. Inr (sample_answer args)), git_zero = (\<lambda>_. True), git_worktree = True\<rparr>"

definition sample_result :: py where
  "sample_result = intake_result sample_request zero_digest ''changelogs/fragments/fix.yml'' zero_digest sample_changes"

lemma sample_runs: "run_git sample_git args = Inr (sample_answer args)" "git_succeeds sample_git args = Inr True" "git_worktree sample_git"
  by (simp_all add: run_git_def git_succeeds_def sample_git_def)

lemma text_runs: "printable (sample_answer args) \<Longrightarrow> git_text sample_git args = Inr (universal_newlines (sample_answer args))"
  by (simp add: git_text_def sample_runs printable_valid)

lemma universal_printable: "printable s \<Longrightarrow> universal_newlines s = s"
  by (induction s) (auto simp: universal_newlines.simps)

lemma strip_sha: "py_strip base_sha = base_sha" "py_strip head_sha = head_sha"
  by (simp_all add: strip_graphic sample_names)

lemma graphic_printable: "graphic s \<Longrightarrow> printable s"
  by (auto simp: graphic_def printable_def list_all_iff)

lemma sample_heads:
  "head_of sample_git ''main'' = Inr base_sha" "head_of sample_git ''develop'' = Inr head_sha"
  by (simp_all add: head_of_def text_runs sample_answer_def graphic_printable sample_names universal_printable strip_sha)

lemma sample_commits: "need_commit sample_git sha = Inr ()"
  by (simp add: need_commit_def text_runs sample_answer_def)

lemma range_texts: "text_of sample_request ''candidateBaseSha'' = base_sha" "text_of sample_request ''candidateHeadSha'' = head_sha"
  "text_of sample_request ''baseSha'' = base_sha" "text_of sample_request ''candidateRef'' = ''develop''"
  "text_of sample_request ''fixedVersion'' = ''1.0.1''" "text_of sample_request ''evidenceId'' = ''MLX90-ABC''"
  "text_of sample_request ''acceptanceProfile'' = ''lit/p1''"
  by (simp_all add: text_of_def sample_fields)

lemma sample_patch: "canonical_diff sample_git base_sha head_sha = Inr ''patch''"
  by (simp add: canonical_diff_def git_bytes_def sample_runs sample_answer_def diff_command_def MAX_DIFF_BYTES_def)

lemma sample_ancestry: "git_is_ancestor sample_git a b = Inr True"
  by (simp add: git_is_ancestor_def sample_runs)

lemma change_paths:
  "change_record ''A'' ''.lit/security-releases/1.0.1.json'' = Inr (''A'', ''.lit/security-releases/1.0.1.json'')"
  "change_record ''A'' ''changelogs/fragments/fix.yml'' = Inr (''A'', ''changelogs/fragments/fix.yml'')"
  "change_record ''M'' ''roles/a'' = Inr (''M'', ''roles/a'')"
  by (simp_all add: change_record_def printable_valid relative_parts_def)

lemma sample_split: "split_on (CHR 0x00) (name_status sample_changes)
    = [''A'', ''.lit/security-releases/1.0.1.json'', ''A'', ''changelogs/fragments/fix.yml'', ''M'', ''roles/a'', '''']"
  by (simp add: name_status_def sample_changes_def)

lemma range_changed: "changed_paths sample_git base_sha head_sha = Inr sample_changes"
  unfolding changed_paths_def git_bytes_def
  by (simp add: sample_runs sample_answer_def sample_split change_paths Let_def) (simp add: sample_changes_def)

lemma sample_modes: "reject_special_modes sample_git base_sha head_sha = Inr ()"
proof -
  have "py_splitlines '':100644 100644 1 2 M'' = ['':100644 100644 1 2 M'']" "py_split '':100644 100644 1 2 M'' = ['':100644'', ''100644'', ''1'', ''2'', ''M'']"
    by code_simp+
  then show ?thesis
    by (simp add: reject_special_modes_def text_runs sample_answer_def universal_printable raw_record_def special_mode_def)
qed

lemma fix_fragment: "fragment_path ''changelogs/fragments/fix.yml''"
  by (simp add: fragment_path_def fragment_prefix_def Let_def suffix_def)

lemma sample_path_checks: "check_paths sample_request sample_changes = Inr ''changelogs/fragments/fix.yml''"
  by (simp add: check_paths_def range_texts sample_changes_def validate_immutable_marker_changes_def controls_untouched_def
      FORBIDDEN_PATHS_def added_fragments_def fix_fragment) (simp add: fragment_path_def fragment_prefix_def)

lemma sample_products:
  "check_product_paths (filter (\<lambda>p. p \<notin> {metadata_path_of ''1.0.1'', ''changelogs/fragments/fix.yml''}) (map snd sample_changes)) = Inr ()"
  by (simp add: sample_changes_def metadata_path_of_def check_product_paths_def product_path_ok_def starts_with_any_def
      FORBIDDEN_SUPPORTING_PATHS_def SUPPORTING_PRODUCT_PATHS_def PRODUCT_PATH_PREFIXES_def RUNTIME_PRODUCT_PREFIXES_def)

lemma sample_shows:
  "show_file sample_git head_sha ''.lit/security-releases/1.0.1.json'' = Inr (document_raw sample_metadata)"
  "show_file sample_git head_sha ''changelogs/fragments/fix.yml'' = Inr fragment_sample"
  "show_file sample_git base_sha ''.lit/security-release-profiles.json'' = Inr (document_raw sample_profiles)"
  by (simp_all add: show_file_def git_bytes_def sample_runs sample_answer_def sample_show_def base_sha_def head_sha_def)

lemma range_galaxy: "git_text sample_git [''show'', base_sha @ '':galaxy.yml''] = Inr ''version: 1.0.0''"
proof -
  have "sample_answer [''show'', base_sha @ '':galaxy.yml''] = ''version: 1.0.0''"
    by (simp add: sample_answer_def sample_show_def base_sha_def)
  then show ?thesis by (simp add: text_runs universal_printable)
qed

lemma sample_main_version: "main_version ''version: 1.0.0'' = Inr (1, 0, 0)"
proof -
  have "str_chars ''version: 1.0.0'' = map (\<lambda>c. [c]) ''version: 1.0.0''" by (rule str_chars_ascii) simp
  moreover have "search_version (map (\<lambda>c. [c]) ''version: 1.0.0'') = Some ''1.0.0''"
    unfolding search_version.simps [of "map (\<lambda>c. [c]) ''version: 1.0.0''"] by code_simp
  ultimately show ?thesis by (simp add: main_version_def sample_strings sample_versions)
qed

lemma sample_loads:
  "load_json_bytes no_float (document_raw sample_metadata) l = Inr sample_metadata"
  "load_json_bytes no_float (document_raw sample_profiles) l = Inr sample_profiles"
  using load_document [OF sample_documents(1,2,4,3), of no_float l] load_document [OF sample_documents(6,7,9,8), of no_float l]
  by (simp_all add: sample_documents)

lemma sample_window: "validate_request_metadata_binding sample_request sample_metadata = Inr ()"
  by (simp add: validate_request_metadata_binding_def sample_fields) (simp add: sample_metadata_def get_or_def)

lemma sample_metadata_checks: "check_metadata_document zero_sha no_float sample_git sample_request sample_now = Inr ()"
proof -
  obtain p where "validate_profile_registry sample_profiles ''lit/p1'' = Inr p" using sample_profiles_valid by (auto simp: is_ok_iff)
  then show ?thesis
    by (simp add: check_metadata_document_def range_texts metadata_path_of_def sample_shows sample_digest sample_fields sample_loads
        sample_metadata_valid sample_window show_json_def)
qed

lemma sample_metadata_range:
  "validate_metadata zero_sha no_float sample_git sample_request sample_changes sample_now = Inr (''changelogs/fragments/fix.yml'', zero_digest)"
proof -
  have "validate_security_fragment no_float fragment_sample l = Inr [''fix'']" for l
    by (rule canonical_fragment_accepted [OF fragment_sample_canonical]) (simp add: utf8_one)
  then show ?thesis
    using sample_products
    by (simp add: validate_metadata_def sample_path_checks range_texts sample_shows sample_metadata_checks range_galaxy sample_main_version
        sample_versions next_patch_def sample_digest)
qed

lemma sample_result_valid: "validate_intake_result sample_request sample_result = Inr sample_result"
proof -
  have k: "set (keys_of sample_result) = set VERIFIED_KEYS"
    by (simp add: sample_result_def intake_result_def Let_def VERIFIED_KEYS_def insert_commute)
  have e: "forE (\<lambda>(k, expected). need (py_eq (get_or sample_result k PNone) expected) (m k)) (expected_result sample_request) = Inr ()" for m
    by (simp add: forE_eq_Inr expected_result_def Let_def sample_fields)
      (simp add: sample_result_def intake_result_def Let_def get_or_def [of "PDict kvs" for kvs] sample_fields range_texts metadata_path_of_def)
  have c: "get_or sample_result ''changedPaths'' PNone = PList (map PStr (map snd sample_changes))"
    by (simp add: sample_result_def intake_result_def Let_def get_or_def [of "PDict kvs" for kvs] sample_changes_def)
  have p: "changed_paths_ok (get_or sample_result ''changedPaths'' PNone) [''.lit/security-releases/1.0.1.json'', ''changelogs/fragments/fix.yml'']"
    unfolding c by (simp add: sample_changes_def changed_paths_ok_def)
  have g: "get_or sample_result ''changelogFragmentPath'' PNone = PStr ''changelogs/fragments/fix.yml''"
      "get_or sample_result ''changelogFragmentSha256'' PNone = PStr zero_digest"
      "get_or sample_result ''schemaVersion'' PNone = PInt INTAKE_RESULT_SCHEMA_VERSION" "get_or sample_result ''humanActions'' PNone = PInt 0"
    by (simp_all add: sample_result_def intake_result_def Let_def get_or_def [of "PDict kvs" for kvs])
  show ?thesis
    using p by (simp add: validate_intake_result_def Let_def exact_keys_def k e g sample_fields sample_names fix_fragment)
qed

lemma sample_verified_range: "verify_repository zero_sha no_float sample_git sample_request sample_now = Inr (''patch'', sample_result)"
proof -
  have "validate_intake_result sample_request (intake_result sample_request zero_digest ''changelogs/fragments/fix.yml'' zero_digest sample_changes)
      = Inr sample_result"
    using sample_result_valid by (simp add: sample_result_def)
  then show ?thesis
    by (simp add: verify_repository_def sample_recovery verify_range_def Let_def sample_runs range_texts sample_commits sample_heads
        sample_ancestry sample_patch sample_digest sample_fields range_changed sample_modes sample_metadata_range)
      (simp add: sample_result_def)
qed



section \<open>From the intake to the release\<close>

definition branch_receipt :: py where
  "branch_receipt = intake_receipt sample_request sample_result sample_run RELEASE_APP_IDENTITY"

abbreviation file_of :: "string \<Rightarrow> node" where
  "file_of raw \<equiv> Regular (length raw) raw"

definition branch_tree :: node where
  "branch_tree = Directory
     [(''.lit'', Directory
        [(''security-releases'', Directory [(''1.0.1.json'', file_of (document_raw sample_metadata))]),
         (''security-release-intakes'', Directory [(''1.0.1.json'', file_of (document_raw branch_receipt))]),
         (''security-release-profiles.json'', file_of (document_raw sample_profiles))]),
      (''changelogs'', Directory [(''fragments'', Directory [(''fix.yml'', file_of fragment_sample)])])]"

lemma branch_sizes:
  "ascii_value branch_receipt" "text_bound branch_receipt < MAX_JSON_BYTES" "renderable (\<lambda>_. True) branch_receipt"
proof -
  have a: "ascii base_sha" "ascii head_sha" "ascii zero_digest" "length base_sha = 40" "length head_sha = 40" "length zero_digest = 71"
    by (simp_all add: base_sha_def head_sha_def zero_digest_def zeros_def list_all_iff)
  have c: "sort (map snd sample_changes) = map snd sample_changes" by (simp add: sample_changes_def)
  note d = branch_receipt_def intake_receipt_def sample_result_def intake_result_def sample_run_def RELEASE_APP_IDENTITY_def
      RELEASE_APP_SELECTED_REPOSITORIES_def RELEASE_APP_PERMISSIONS_def Let_def range_texts metadata_path_of_def c
  note names = INTAKE_RECEIPT_SCHEMA_VERSION_def INTAKE_RESULT_SCHEMA_VERSION_def PRODUCER_REPOSITORY_def PRODUCER_REPOSITORY_ID_def
      RELEASE_APP_LOGIN_def RELEASE_APP_SLUG_def RELEASE_APP_INSTALLATION_ID_def RELEASE_APP_ACCOUNT_ID_def workflow_path_def
      expected_ref_def MAX_JSON_BYTES_def
  have n: "dec 0 = ''0''" "dec 2 = ''2''" "dec_int 0 = ''0''" "dec_int 2 = ''2''" by code_simp+
  show "ascii_value branch_receipt"
    by (simp add: d) (simp add: sample_request_def sample_changes_def a get_or_def names)
  show "renderable (\<lambda>_. True) branch_receipt"
    by (simp add: d) (simp add: sample_request_def sample_changes_def n get_or_def names)
  show "text_bound branch_receipt < MAX_JSON_BYTES"
    by (simp add: d) (simp add: sample_request_def sample_changes_def n a get_or_def names)
qed

lemma branch_opens:
  "holds_file branch_tree (metadata_parts ''1.0.1'') (document_raw sample_metadata)"
  "holds_file branch_tree (intake_parts ''1.0.1'') (document_raw branch_receipt)"
  "holds_file branch_tree PROFILE_PARTS (document_raw sample_profiles)"
  "holds_file branch_tree [''changelogs'', ''fragments'', ''fix.yml''] fragment_sample"
  unfolding branch_tree_def holds_file_def metadata_parts_def intake_parts_def PROFILE_PARTS_def open_beneath_def open_directory_def
  by (simp_all add: need_directory_def open_entry_def os_name_graphic graphic_def)

lemma branch_merged: "merged sample_git sample_request sample_result (document_raw branch_receipt) branch_tree"
proof -
  have "text_of sample_result ''changelogFragmentPath'' = ''changelogs/fragments/fix.yml''"
    by (simp add: sample_result_def text_of_def verified_fields)
  then show ?thesis
    by (simp add: merged_def Let_def range_texts metadata_path_of_def sample_shows branch_opens)
qed

lemma sample_trusted: "trusted_run sample_run"
  by (simp add: trusted_run_def sample_run_def positive_numeral_def plain_numeral_def is_digit_def)


section \<open>The command\<close>

definition command_tree :: node where
  "command_tree = Directory [(''request.json'', file_of (document_raw sample_request))]"

definition command_arguments :: intake_arguments where
  "command_arguments = \<lparr>ia_request = [''request.json''], ia_repository = PRODUCER_REPOSITORY, ia_output_patch = Some [''out'', ''patch''],
     ia_output_json = Some [''out'', ''result''], ia_output_receipt = None, ia_run = sample_run, ia_slug = [], ia_installation = [],
     ia_login = [], ia_account = [], ia_permissions = None, ia_repositories = []\<rparr>"

lemma command_request: "load_argument no_float command_tree [''request.json''] l = Inr sample_request"
proof -
  have a: "ascii base_sha" "ascii head_sha" "ascii zero_digest" "length base_sha = 40" "length head_sha = 40" "length zero_digest = 71"
    by (simp_all add: base_sha_def head_sha_def zero_digest_def zeros_def list_all_iff)
  have n: "dec 0 = ''0''" "dec 2 = ''2''" "dec_int 0 = ''0''" "dec_int 2 = ''2''" by code_simp+
  note d = sample_request_def PRODUCER_REPOSITORY_def PRODUCER_REPOSITORY_ID_def MAX_JSON_BYTES_def
  have s: "ascii_value sample_request" "text_bound sample_request < MAX_JSON_BYTES" "is_dict sample_request" "renderable (\<lambda>_. True) sample_request"
    by (simp_all add: d a n)
  have "read_bounded_regular_file command_tree [''request.json''] l MAX_JSON_BYTES = Inr (document_raw sample_request)"
  proof (rule read_holds)
    show "holds_file command_tree [''request.json''] (document_raw sample_request)"
      by (simp add: holds_file_def command_tree_def open_beneath_def need_directory_def open_entry_def os_name_graphic graphic_def)
    show "length (document_raw sample_request) \<le> MAX_JSON_BYTES" by (rule document_length [OF s(1,2)])
  qed simp_all
  then show ?thesis
    using load_document [OF s, of no_float l] by (simp add: load_argument_def load_canonical_file_def canonical_document_ascii s sample_sorted)
qed

lemma result_ascii: "ascii_value sample_result"
proof -
  have "sort (map snd sample_changes) = map snd sample_changes" by (simp add: sample_changes_def)
  moreover have "ascii base_sha" "ascii head_sha" "ascii zero_digest"
    by (simp_all add: base_sha_def head_sha_def zero_digest_def zeros_def list_all_iff)
  ultimately show ?thesis
    by (simp add: sample_result_def intake_result_def Let_def range_texts metadata_path_of_def sample_fields)
      (simp add: sample_changes_def INTAKE_RESULT_SCHEMA_VERSION_def)
qed

lemma command_runs: "intake_command zero_sha no_float sample_git command_tree command_arguments sample_now
  = (Directory [(''request.json'', file_of (document_raw sample_request)),
      (''out'', Directory [(''patch'', file_of ''patch''), (''result'', file_of (document_raw sample_result))])], Inr (document_raw sample_result))"
proof -
  have "require_string (PStr PRODUCER_REPOSITORY) l = Inr PRODUCER_REPOSITORY" for l
    by (rule require_graphic) (simp_all add: PRODUCER_REPOSITORY_def graphic_def)
  then have "intake_checks zero_sha no_float sample_git command_tree command_arguments sample_now
      = Inr (sample_request, ''patch'', sample_result, document_raw sample_result)"
    by (simp add: intake_checks_def command_arguments_def command_request sample_request_valid sample_verified_range canonical_document_ascii
        result_ascii)
  then show ?thesis
    by (simp add: intake_command_def) (simp add: command_arguments_def write_output_def write_exclusive_def path_exists_def path_stat_def
        path_is_symlink_def write_receipt_def command_tree_def)
qed


section \<open>A recovery\<close>

text \<open>The first promotion of the recovery, and the documents it is about. The stand-in for the digest knows them.\<close>

definition recovery_request :: py where
  "recovery_request = PDict
     [(''acceptanceProfile'', PStr RECOVERY_ACCEPTANCE_PROFILE), (''baseSha'', PStr RECOVERY_FIRST_PROMOTION_SHA),
      (''candidateBaseSha'', PStr RECOVERY_CANDIDATE_BASE_SHA), (''candidateDiffSha256'', PStr RECOVERY_CANDIDATE_DIFF_SHA256),
      (''candidateHeadSha'', PStr RECOVERY_CANDIDATE_HEAD_SHA), (''candidateRef'', PStr ''develop''), (''chainId'', PStr zero_digest),
      (''event'', PStr RECOVERY_EVENT), (''evidenceId'', PStr RECOVERY_EVIDENCE_ID), (''expiresAt'', PStr RECOVERY_EXPIRES_AT),
      (''fixedVersion'', PStr RECOVERY_FIXED_VERSION), (''humanActions'', PInt 0), (''issuedAt'', PStr RECOVERY_ISSUED_AT),
      (''metadataSha256'', PStr RECOVERY_METADATA_SHA256), (''repository'', PStr PRODUCER_REPOSITORY),
      (''repositoryId'', PStr PRODUCER_REPOSITORY_ID), (''schemaVersion'', PInt 2)]"

definition recovery_metadata :: py where
  "recovery_metadata = PDict
     [(''acceptanceProfile'', PStr RECOVERY_ACCEPTANCE_PROFILE), (''affectedVersion'', PStr ''3.2.3''),
      (''consumers'', PList [PStr CONSUMER_REPOSITORY]), (''createdAt'', PStr RECOVERY_ISSUED_AT),
      (''evidenceId'', PStr RECOVERY_EVIDENCE_ID), (''fixedVersion'', PStr RECOVERY_FIXED_VERSION),
      (''schemaVersion'', PInt 1), (''securityIdentifiers'', PList [PStr ''CVE-2026-1234'']),
      (''validity'', PDict [(''expiresAt'', PStr RECOVERY_EXPIRES_AT), (''notBefore'', PStr RECOVERY_ISSUED_AT),
         (''revoked'', PBool False)])]"

definition recovery_registry :: py where
  "recovery_registry = PDict [(''profiles'', PDict [(RECOVERY_ACCEPTANCE_PROFILE,
       PDict [(''description'', PStr ''profile''), (''releaseEligible'', PBool True)])]), (''schemaVersion'', PInt 1)]"

definition recovery_sha :: "string \<Rightarrow> string" where
  "recovery_sha raw = drop 7
     (if raw = ''patch'' then RECOVERY_CANDIDATE_DIFF_SHA256 else if raw = ''fragment'' then RECOVERY_FRAGMENT_SHA256
      else RECOVERY_METADATA_SHA256)"

definition recovery_changes :: "(string \<times> string) list" where
  "recovery_changes =
     [(''A'', ''.lit/security-releases/3.2.4.json''), (''A'', RECOVERY_FRAGMENT_PATH), (''M'', ''roles/keycloak'')]"

definition recovery_show :: "string \<Rightarrow> string" where
  "recovery_show path =
     (if path = ''galaxy.yml'' then ''version: 3.2.3''
      else if path = ''.lit/security-releases/3.2.4.json'' then document_raw recovery_metadata
      else if path = RECOVERY_FRAGMENT_PATH then ''fragment''
      else document_raw recovery_registry)"

definition recovery_answer :: "string list \<Rightarrow> string" where
  "recovery_answer args =
     (if hd args = ''rev-parse'' then (if args ! 1 = ''refs/remotes/origin/main'' then RECOVERY_FIRST_PROMOTION_SHA else base_sha)
      else if hd args = ''show'' then
        (if args ! 1 = ''-s'' then (if args ! 2 = ''--format=%P'' then RECOVERY_APPROVED_MAIN_SHA @ '' '' @ head_sha else ''tree'')
         else recovery_show (drop 41 (args ! 1)))
      else if hd args = ''diff'' then
        (if args ! 1 = ''--raw'' then '':100644 100644 1 2 M''
         else if args ! 4 = RECOVERY_APPROVED_MAIN_SHA then name_status (map (Pair ''M'') RECOVERY_CONTROL_PATHS)
         else name_status recovery_changes)
      else if hd args = ''-c'' then ''patch'' else '''')"

definition recovery_git :: git where
  "recovery_git = \<lparr>git_found = True, git_run = (\<lambda>args. Inr (recovery_answer args)), git_zero = (\<lambda>args. hd args = ''merge-base''),
     git_worktree = True\<rparr>"

lemma recovery_runs: "run_git recovery_git args = Inr (recovery_answer args)"
  "git_succeeds recovery_git args = Inr (hd args = ''merge-base'')" "git_worktree recovery_git"
  by (simp_all add: run_git_def git_succeeds_def recovery_git_def)

lemma recovery_texts: "printable (recovery_answer args) \<Longrightarrow> git_text recovery_git args = Inr (recovery_answer args)"
  by (simp add: git_text_def recovery_runs printable_valid universal_printable)

lemmas recovery_names = RECOVERY_FIRST_PROMOTION_SHA_def RECOVERY_APPROVED_MAIN_SHA_def RECOVERY_CANDIDATE_HEAD_SHA_def
  RECOVERY_CANDIDATE_BASE_SHA_def

lemma recovery_graphic: "graphic RECOVERY_FIRST_PROMOTION_SHA" "graphic RECOVERY_APPROVED_MAIN_SHA"
  "length RECOVERY_FIRST_PROMOTION_SHA = 40" "length RECOVERY_APPROVED_MAIN_SHA = 40" "length RECOVERY_CANDIDATE_HEAD_SHA = 40"
  by (simp_all add: recovery_names graphic_def)

lemma recovery_text_of: "text_of recovery_request ''baseSha'' = RECOVERY_FIRST_PROMOTION_SHA"
  "text_of recovery_request ''candidateDiffSha256'' = RECOVERY_CANDIDATE_DIFF_SHA256"
  "text_of recovery_request ''fixedVersion'' = ''3.2.4''" "text_of recovery_request ''evidenceId'' = RECOVERY_EVIDENCE_ID"
  by (simp_all add: text_of_def recovery_request_def get_or_def RECOVERY_FIXED_VERSION_def)

lemma recovery_is: "is_recovery_request recovery_request"
  by (simp add: is_recovery_request_def recovery_request_def get_or_def)

lemma recovery_ancestry: "need_ancestor recovery_git a b m = Inr ()"
  by (simp add: need_ancestor_def git_is_ancestor_def recovery_runs)

lemma recovery_commit: "need_commit recovery_git sha = Inr ()"
  by (simp add: need_commit_def recovery_texts recovery_answer_def)

lemma recovery_head_of:
  "head_of recovery_git ''main'' = Inr RECOVERY_FIRST_PROMOTION_SHA" "head_of recovery_git ''develop'' = Inr base_sha"
  by (simp_all add: head_of_def recovery_texts recovery_answer_def graphic_printable sample_names recovery_graphic strip_graphic)

lemma recovery_heads_ok: "recovery_heads recovery_git recovery_request = Inr (RECOVERY_FIRST_PROMOTION_SHA, base_sha)"
  by (simp add: recovery_heads_def recovery_runs recovery_commit forE_eq_Inr recovery_head_of recovery_text_of recovery_ancestry
      recovery_commits_def)

lemma recovery_parents: "parents_of recovery_git sha = Inr [RECOVERY_APPROVED_MAIN_SHA, head_sha]"
proof -
  have "py_split (RECOVERY_APPROVED_MAIN_SHA @ '' '' @ head_sha) = [RECOVERY_APPROVED_MAIN_SHA, head_sha]"
    unfolding RECOVERY_APPROVED_MAIN_SHA_def head_sha_def by code_simp
  moreover have "printable (RECOVERY_APPROVED_MAIN_SHA @ '' '' @ head_sha)"
    using graphic_printable [OF sample_names(6)] by (simp add: RECOVERY_APPROVED_MAIN_SHA_def)
  ultimately show ?thesis by (simp add: parents_of_def recovery_texts recovery_answer_def)
qed

lemma recovery_tree: "tree_of recovery_git sha = Inr ''tree''"
  by (simp add: tree_of_def recovery_texts recovery_answer_def strip_graphic graphic_def)

lemma recovery_promotion_ok: "recovery_promotion recovery_sha recovery_git RECOVERY_FIRST_PROMOTION_SHA base_sha
  = Inr \<lparr>pr_head = head_sha, pr_control_base = RECOVERY_APPROVED_MAIN_SHA, pr_control_paths = RECOVERY_CONTROL_PATHS, pr_control_digest = None\<rparr>"
  by (simp add: recovery_promotion_def first_promotion_def recovery_parents need_same_tree_def recovery_tree recovery_ancestry Let_def)


lemma printable_no_nul: "printable p \<Longrightarrow> CHR 0x00 \<notin> set p"
  by (auto simp: printable_def list_all_iff)

lemma change_recordI:
  assumes "status \<in> {''A'', ''M'', ''D''}" "printable path" "path \<noteq> []" "\<not> prefix ''/'' path"
    "''..'' \<notin> set (relative_parts path)"
  shows "change_record status path = Inr (status, path)"
  using assms printable_no_nul [OF assms(2)] by (auto simp: change_record_def printable_valid relative_parts_def)

lemma name_status_records:
  assumes "\<forall>(status, path) \<in> set changes. status \<in> {''A'', ''M'', ''D''} \<and> printable path \<and> path \<noteq> [] \<and> \<not> prefix ''/'' path
    \<and> ''..'' \<notin> set (relative_parts path)"
  shows "split_on (CHR 0x00) (name_status changes) = concat (map (\<lambda>(status, path). [status, path]) changes) @ ['''']"
    and "change_records (concat (map (\<lambda>(status, path). [status, path]) changes)) = Inr changes"
proof -
  have n: "CHR 0x00 \<notin> set x" if "x \<in> set (concat (map (\<lambda>(status, path). [status, path]) changes) @ [''''])" for x
  proof -
    have "CHR 0x00 \<notin> set status \<and> CHR 0x00 \<notin> set path" if "(status, path) \<in> set changes" for status path
      using bspec [OF assms that] printable_no_nul by auto
    then show ?thesis using that by auto
  qed
  show "split_on (CHR 0x00) (name_status changes) = concat (map (\<lambda>(status, path). [status, path]) changes) @ ['''']"
    unfolding name_status_def by (rule split_join [OF _ n]) simp
  show "change_records (concat (map (\<lambda>(status, path). [status, path]) changes)) = Inr changes"
    using assms
  proof (induction changes)
    case (Cons c changes)
    obtain status path where c: "c = (status, path)" by (cases c)
    have "change_record status path = Inr (status, path)" by (rule change_recordI) (use Cons.prems in \<open>simp_all add: c\<close>)
    with Cons show ?case by (simp add: c)
  qed simp
qed


lemma recovery_changed:
  "changed_paths recovery_git RECOVERY_APPROVED_MAIN_SHA head = Inr (map (Pair ''M'') RECOVERY_CONTROL_PATHS)"
  "changed_paths recovery_git RECOVERY_CANDIDATE_BASE_SHA head = Inr recovery_changes"
proof -
  let ?plain = "\<lambda>changes. \<forall>(status, path) \<in> set changes. status \<in> {''A'', ''M'', ''D''} \<and> printable path \<and> path \<noteq> []
    \<and> \<not> prefix ''/'' path \<and> ''..'' \<notin> set (relative_parts path)"
  have "?plain (map (Pair ''M'') RECOVERY_CONTROL_PATHS)" by (simp add: RECOVERY_CONTROL_PATHS_def relative_parts_def)
  note c = name_status_records [OF this]
  have "?plain recovery_changes" by (simp add: recovery_changes_def RECOVERY_FRAGMENT_PATH_def relative_parts_def)
  note r = name_status_records [OF this]
  have e: "even (length (concat (map (\<lambda>(status, path). [status, path]) changes)))" for changes :: "(string \<times> string) list"
    by (induction changes) auto
  have "map (Pair ''M'') RECOVERY_CONTROL_PATHS \<noteq> []" "recovery_changes \<noteq> []" "RECOVERY_APPROVED_MAIN_SHA \<noteq> RECOVERY_CANDIDATE_BASE_SHA"
    by (simp_all add: RECOVERY_CONTROL_PATHS_def recovery_changes_def recovery_names)
  then show "changed_paths recovery_git RECOVERY_APPROVED_MAIN_SHA head = Inr (map (Pair ''M'') RECOVERY_CONTROL_PATHS)"
    "changed_paths recovery_git RECOVERY_CANDIDATE_BASE_SHA head = Inr recovery_changes"
    using e [of "map (Pair ''M'') RECOVERY_CONTROL_PATHS"] e [of recovery_changes]
    by (simp_all add: changed_paths_def git_bytes_def recovery_runs recovery_answer_def Let_def c r del: length_concat concat.simps map_map)
qed

lemma recovery_checked: "check_promotion recovery_sha recovery_git RECOVERY_FIRST_PROMOTION_SHA base_sha
  \<lparr>pr_head = head_sha, pr_control_base = RECOVERY_APPROVED_MAIN_SHA, pr_control_paths = RECOVERY_CONTROL_PATHS, pr_control_digest = None\<rparr>
  = Inr ()"
proof -
  have "kept_paths (map (Pair ''M'') ps) = set ps" for ps by (auto simp: kept_paths_def image_iff)
  moreover have "\<not> list_ex (\<lambda>(status, _). status = ''D'') (map (Pair ''M'') ps)" for ps :: "string list" by (induction ps) auto
  ultimately show ?thesis
    by (simp add: check_promotion_def recovery_ancestry need_same_tree_def recovery_tree exact_changes_def recovery_changed)
qed

lemma recovery_shows:
  assumes "length sha = 40"
  shows "show_file recovery_git sha ''.lit/security-releases/3.2.4.json'' = Inr (document_raw recovery_metadata)"
    "show_file recovery_git sha RECOVERY_FRAGMENT_PATH = Inr ''fragment''"
    "show_file recovery_git sha ''.lit/security-release-profiles.json'' = Inr (document_raw recovery_registry)"
    "git_text recovery_git [''show'', sha @ '':galaxy.yml''] = Inr ''version: 3.2.3''"
proof -
  have "sha @ r \<noteq> ''-s''" "drop 41 (sha @ CHR '':'' # r) = r" for r using assms by (auto dest: arg_cong [where f = length])
  then show "show_file recovery_git sha ''.lit/security-releases/3.2.4.json'' = Inr (document_raw recovery_metadata)"
    "show_file recovery_git sha RECOVERY_FRAGMENT_PATH = Inr ''fragment''"
    "show_file recovery_git sha ''.lit/security-release-profiles.json'' = Inr (document_raw recovery_registry)"
    "git_text recovery_git [''show'', sha @ '':galaxy.yml''] = Inr ''version: 3.2.3''"
    by (simp_all add: show_file_def git_bytes_def recovery_runs recovery_answer_def recovery_show_def RECOVERY_FRAGMENT_PATH_def
        recovery_texts)
qed

lemma recovery_documents:
  "load_json_bytes no_float (document_raw recovery_metadata) l = Inr recovery_metadata"
  "load_json_bytes no_float (document_raw recovery_registry) l = Inr recovery_registry"
proof -
  have n: "dec 1 = ''1''" "dec (Suc 0) = ''1''" "dec_int 1 = ''1''" by code_simp+
  note d = recovery_metadata_def recovery_registry_def CONSUMER_REPOSITORY_def MAX_JSON_BYTES_def RECOVERY_ACCEPTANCE_PROFILE_def
    RECOVERY_ISSUED_AT_def RECOVERY_EVIDENCE_ID_def RECOVERY_FIXED_VERSION_def RECOVERY_EXPIRES_AT_def
  have m: "ascii_value recovery_metadata" "text_bound recovery_metadata < MAX_JSON_BYTES" "is_dict recovery_metadata"
    "renderable (\<lambda>_. True) recovery_metadata" "detach recovery_metadata = recovery_metadata"
    by (simp_all add: n d)
  have r: "ascii_value recovery_registry" "text_bound recovery_registry < MAX_JSON_BYTES" "is_dict recovery_registry"
    "renderable (\<lambda>_. True) recovery_registry" "detach recovery_registry = recovery_registry"
    by (simp_all add: n d)
  show "load_json_bytes no_float (document_raw recovery_metadata) l = Inr recovery_metadata"
    "load_json_bytes no_float (document_raw recovery_registry) l = Inr recovery_registry"
    using load_document [OF m(1-4), of no_float l] load_document [OF r(1-4), of no_float l] m(5) r(5) by simp_all
qed

lemma recovery_times:
  "timestamp (PStr RECOVERY_ISSUED_AT) label = Inr 63921826104000000"
  "timestamp (PStr RECOVERY_EXPIRES_AT) label = Inr 63924418104000000"
proof -
  have "graphic RECOVERY_ISSUED_AT" "graphic RECOVERY_EXPIRES_AT" "RECOVERY_ISSUED_AT \<noteq> []" "RECOVERY_EXPIRES_AT \<noteq> []"
    by (simp_all add: graphic_def RECOVERY_ISSUED_AT_def RECOVERY_EXPIRES_AT_def)
  moreover have "instant RECOVERY_ISSUED_AT = Some 63921826104000000" "instant RECOVERY_EXPIRES_AT = Some 63924418104000000"
    by (simp_all add: run_simps upt_conv_Cons RECOVERY_ISSUED_AT_def RECOVERY_EXPIRES_AT_def)
  moreover have "canonical_time RECOVERY_ISSUED_AT" "canonical_time RECOVERY_EXPIRES_AT" by code_simp+
  ultimately show "timestamp (PStr RECOVERY_ISSUED_AT) label = Inr 63921826104000000"
    "timestamp (PStr RECOVERY_EXPIRES_AT) label = Inr 63924418104000000"
    by (simp_all add: timestamp_def require_graphic)
qed

lemma recovery_metadata_valid:
  "validate_metadata_payload recovery_metadata RECOVERY_EVIDENCE_ID RECOVERY_FIXED_VERSION RECOVERY_ACCEPTANCE_PROFILE sample_now
    = Inr recovery_metadata"
proof -
  have s: "security_id ''CVE-2026-1234''" "semver ''3.2.3''" by code_simp+
  show ?thesis
    by (simp add: validate_metadata_payload_def recovery_metadata_def get_or_def Let_def exact_keys_def METADATA_KEYS_def insert_commute s
        require_graphic VALIDITY_KEYS_def recovery_times sample_now_def graphic_def RECOVERY_FIXED_VERSION_def)
qed

lemma recovery_registry_valid: "validate_profile_registry recovery_registry RECOVERY_ACCEPTANCE_PROFILE
  = Inr (PDict [(''description'', PStr ''profile''), (''releaseEligible'', PBool True)])"
proof -
  have "profile_name RECOVERY_ACCEPTANCE_PROFILE" by code_simp
  then show ?thesis
    by (simp add: validate_profile_registry_def recovery_registry_def get_or_def Let_def exact_keys_def PROFILE_KEYS_def insert_commute
        check_profile_def require_graphic graphic_def)
qed


lemma recovery_digests:
  "sha256_bytes recovery_sha ''patch'' = RECOVERY_CANDIDATE_DIFF_SHA256" "sha256_bytes recovery_sha ''fragment'' = RECOVERY_FRAGMENT_SHA256"
  "sha256_bytes recovery_sha (document_raw recovery_metadata) = RECOVERY_METADATA_SHA256"
proof -
  have "document_raw v \<noteq> ''patch''" "document_raw v \<noteq> ''fragment''" for v
    by (auto simp: document_raw_def newline_def append_eq_Cons_conv)
  then show "sha256_bytes recovery_sha ''patch'' = RECOVERY_CANDIDATE_DIFF_SHA256"
    "sha256_bytes recovery_sha ''fragment'' = RECOVERY_FRAGMENT_SHA256"
    "sha256_bytes recovery_sha (document_raw recovery_metadata) = RECOVERY_METADATA_SHA256"
    by (simp_all add: sha256_bytes_def recovery_sha_def RECOVERY_CANDIDATE_DIFF_SHA256_def RECOVERY_FRAGMENT_SHA256_def
        RECOVERY_METADATA_SHA256_def)
qed

lemma recovery_marker_ok:
  "recovery_marker recovery_sha no_float recovery_git recovery_request RECOVERY_FIRST_PROMOTION_SHA sample_now = Inr ()"
proof -
  have "validate_request_metadata_binding recovery_request recovery_metadata = Inr ()"
    by (simp add: validate_request_metadata_binding_def recovery_request_def recovery_metadata_def get_or_def)
  moreover have "metadata_path_of RECOVERY_FIXED_VERSION = ''.lit/security-releases/3.2.4.json''"
    by (simp add: metadata_path_of_def RECOVERY_FIXED_VERSION_def)
  ultimately show ?thesis
    by (simp add: recovery_marker_def Let_def recovery_runs recovery_shows recovery_graphic recovery_digests recovery_documents
        recovery_metadata_valid)
qed

lemma recovery_profiles_ok: "recovery_profiles no_float recovery_git RECOVERY_FIRST_PROMOTION_SHA = Inr ()"
proof -
  have "py_eq recovery_registry recovery_registry" by (rule py_eq_refl) (simp add: recovery_registry_def)
  then show ?thesis
    by (simp add: recovery_profiles_def show_json_def recovery_shows recovery_graphic recovery_documents recovery_registry_valid)
qed

lemma recovery_candidate_ok: "recovery_candidate recovery_sha recovery_git RECOVERY_FIRST_PROMOTION_SHA
  = Inr (''patch'', recovery_changes, RECOVERY_FRAGMENT_SHA256)"
proof -
  have "str_chars ''version: 3.2.3'' = map (\<lambda>c. [c]) ''version: 3.2.3''" by (rule str_chars_ascii) simp
  moreover have "search_approved (map (\<lambda>c. [c]) ''version: 3.2.3'')"
    unfolding search_approved.simps [of "map (\<lambda>c. [c]) ''version: 3.2.3''"] by code_simp
  moreover have "canonical_diff recovery_git RECOVERY_CANDIDATE_BASE_SHA RECOVERY_CANDIDATE_HEAD_SHA = Inr ''patch''"
    by (simp add: canonical_diff_def git_bytes_def recovery_runs recovery_answer_def diff_command_def MAX_DIFF_BYTES_def)
  moreover have "reject_special_modes recovery_git RECOVERY_CANDIDATE_BASE_SHA RECOVERY_CANDIDATE_HEAD_SHA = Inr ()"
  proof -
    have "py_splitlines '':100644 100644 1 2 M'' = ['':100644 100644 1 2 M'']" "py_split '':100644 100644 1 2 M'' = ['':100644'', ''100644'', ''1'', ''2'', ''M'']"
      by code_simp+
    then show ?thesis by (simp add: reject_special_modes_def recovery_texts recovery_answer_def raw_record_def special_mode_def)
  qed
  moreover have "(''A'', metadata_path_of RECOVERY_FIXED_VERSION) \<in> set recovery_changes \<and> (''A'', RECOVERY_FRAGMENT_PATH) \<in> set recovery_changes"
    by (simp add: recovery_changes_def metadata_path_of_def RECOVERY_FIXED_VERSION_def)
  ultimately show ?thesis
    by (simp add: recovery_candidate_def Let_def recovery_shows recovery_graphic recovery_changed recovery_digests)
qed

definition recovery_result :: py where
  "recovery_result = intake_result recovery_request RECOVERY_CANDIDATE_DIFF_SHA256 RECOVERY_FRAGMENT_PATH RECOVERY_FRAGMENT_SHA256 recovery_changes"

lemma recovery_result_valid: "validate_intake_result recovery_request recovery_result = Inr recovery_result"
proof -
  note d = recovery_result_def intake_result_def Let_def get_or_def [of "PDict kvs" for kvs]
  have f: "get_or recovery_request ''fixedVersion'' PNone = PStr ''3.2.4''"
    by (simp add: recovery_request_def get_or_def RECOVERY_FIXED_VERSION_def)
  have k: "set (keys_of recovery_result) = set VERIFIED_KEYS"
    by (simp add: recovery_result_def intake_result_def Let_def VERIFIED_KEYS_def insert_commute)
  have e: "forE (\<lambda>(k, expected). need (py_eq (get_or recovery_result k PNone) expected) (m k)) (expected_result recovery_request) = Inr ()" for m
    by (simp add: forE_eq_Inr expected_result_def Let_def)
      (simp add: d text_of_def recovery_request_def metadata_path_of_def RECOVERY_FIXED_VERSION_def)
  have c: "get_or recovery_result ''changedPaths'' PNone = PList (map PStr (map snd recovery_changes))"
    by (simp add: d) (simp add: recovery_changes_def RECOVERY_FRAGMENT_PATH_def)
  have p: "changed_paths_ok (get_or recovery_result ''changedPaths'' PNone) [''.lit/security-releases/3.2.4.json'', RECOVERY_FRAGMENT_PATH]"
    unfolding c by (simp add: recovery_changes_def changed_paths_ok_def RECOVERY_FRAGMENT_PATH_def)
  have g: "get_or recovery_result ''changelogFragmentPath'' PNone = PStr RECOVERY_FRAGMENT_PATH"
      "get_or recovery_result ''changelogFragmentSha256'' PNone = PStr RECOVERY_FRAGMENT_SHA256"
      "get_or recovery_result ''schemaVersion'' PNone = PInt INTAKE_RESULT_SCHEMA_VERSION" "get_or recovery_result ''humanActions'' PNone = PInt 0"
    by (simp_all add: d)
  have "fragment_path RECOVERY_FRAGMENT_PATH" "digest RECOVERY_FRAGMENT_SHA256" by code_simp+
  then show ?thesis
    using p by (simp add: validate_intake_result_def Let_def exact_keys_def k e g f)
qed

lemma recovery_verified: "verify_repository recovery_sha no_float recovery_git recovery_request sample_now = Inr (''patch'', recovery_result)"
  using recovery_result_valid
  by (simp add: verify_repository_def recovery_is verify_recovery_repository_def recovery_heads_ok recovery_promotion_ok recovery_checked
      recovery_marker_ok recovery_profiles_ok recovery_candidate_ok recovery_text_of Let_def recovery_result_def)

theorem recovery_not_replayed_witness:
  "\<exists>live_develop head. head_of recovery_git ''main'' = Inr RECOVERY_FIRST_PROMOTION_SHA
    \<and> head_of recovery_git ''develop'' = Inr live_develop
    \<and> approved_promotion recovery_sha recovery_git RECOVERY_FIRST_PROMOTION_SHA head
    \<and> \<not> git_zero recovery_git [''cat-file'', ''-e'', RECOVERY_FIRST_PROMOTION_SHA @ '':'' @ receipt_path]
    \<and> sha256_bytes recovery_sha ''patch'' = RECOVERY_CANDIDATE_DIFF_SHA256"
  using recovery_not_replayed [OF recovery_verified recovery_is] by (simp only: Let_def recovery_text_of) blast

end
