(* ===== verification/Posix_Files.thy ===== *)
theory Posix_Files
  imports Prelude "HOL-Library.AList"
begin

text \<open>
  The file system calls the path modules make (\<open>plugins/modules\<close>), on a machine that other processes
  share. Files are numbered objects, a directory has a list of entries, and a descriptor is the
  number of the object it was opened for: a number is not used again while the module runs. Before
  each call the other processes change the file system in any way (\<open>m_env\<close>), and any call may fail
  (\<open>m_fault\<close>). The calls that change a directory write to a log, which no code reads.
\<close>

section \<open>Files\<close>

record obj =
  ob_dev :: nat
  ob_mode :: nat
  ob_uid :: nat
  ob_gid :: nat
  ob_data :: string
  ob_mtime :: int
  ob_ctime :: int

record fs =
  fs_root :: nat
  fs_obj :: "nat \<Rightarrow> obj option"
  fs_dir :: "nat \<Rightarrow> (string \<times> nat) list"

record stat_result =
  st_dev :: nat
  st_ino :: nat
  st_mode :: nat
  st_uid :: nat
  st_gid :: nat
  st_size :: nat
  st_mtime_ns :: int
  st_ctime_ns :: int

definition stat_of :: "nat \<Rightarrow> obj \<Rightarrow> stat_result" where
  "stat_of i ob = \<lparr>st_dev = ob_dev ob, st_ino = i, st_mode = ob_mode ob, st_uid = ob_uid ob, st_gid = ob_gid ob,
     st_size = length (ob_data ob), st_mtime_ns = ob_mtime ob, st_ctime_ns = ob_ctime ob\<rparr>"

text \<open>\<open>stat.S_IMODE\<close>, \<open>stat.S_ISREG\<close>, \<open>stat.S_ISDIR\<close>, \<open>stat.S_ISLNK\<close>\<close>

definition imode :: "nat \<Rightarrow> nat" where
  "imode mode = mode mod 4096"

definition is_reg :: "nat \<Rightarrow> bool" where
  "is_reg mode \<longleftrightarrow> mode div 4096 = 8"

definition is_directory :: "nat \<Rightarrow> bool" where
  "is_directory mode \<longleftrightarrow> mode div 4096 = 4"

definition is_symlink :: "nat \<Rightarrow> bool" where
  "is_symlink mode \<longleftrightarrow> mode div 4096 = 10"

definition entry :: "fs \<Rightarrow> nat \<Rightarrow> string \<Rightarrow> nat option" where
  "entry s d n = map_of (fs_dir s d) n"

definition has_type :: "(nat \<Rightarrow> bool) \<Rightarrow> fs \<Rightarrow> nat \<Rightarrow> bool" where
  "has_type kind s i = (case fs_obj s i of None \<Rightarrow> False | Some ob \<Rightarrow> kind (ob_mode ob))"

section \<open>Machines and computations\<close>

datatype errno = ENOENT | EEXIST | EOTHER

text \<open>How a module ends: \<open>fail_json\<close> with a recovery path, \<open>exit_json\<close> with \<open>changed\<close>, a warning and a path.\<close>

datatype outcome =
    Fail_json string "string option"
  | Exit_json bool bool "string option"

datatype stop =
    Os errno
  | Raised exn
  | Exit outcome

datatype effect =
    Made nat string nat
  | Linked nat string nat
  | Moved nat string nat string nat
  | Removed nat string nat

record machine =
  m_env :: "nat \<Rightarrow> fs \<Rightarrow> fs"
  m_fault :: "nat \<Rightarrow> bool"
  m_time :: "nat \<Rightarrow> int"
  m_fresh :: "fs \<Rightarrow> nat"
  m_umask :: "nat \<Rightarrow> nat"
  m_euid :: nat
  m_egid :: nat
  m_pid :: string
  m_token :: "nat \<Rightarrow> string"
  m_sha :: "string \<Rightarrow> string"
  m_user :: "string \<Rightarrow> int option"
  m_group :: "string \<Rightarrow> int option"
  m_decimal :: "string \<Rightarrow> nat option"
  m_dir_fd :: bool
  m_no_follow :: bool
  m_proc_fd :: bool

text \<open>The world also holds the local variables that a \<open>finally\<close> block reads.\<close>

record 'v world =
  w_fs :: fs
  w_clock :: nat
  w_log :: "effect list"
  w_vars :: 'v

type_synonym ('v, 'a) io = "'v world \<Rightarrow> ((stop + 'a) \<times> 'v world) option"

definition ret :: "'a \<Rightarrow> ('v, 'a) io" where
  "ret x w = Some (Inr x, w)"

definition raising :: "stop \<Rightarrow> ('v, 'a) io" where
  "raising e w = Some (Inl e, w)"

definition bindP :: "('v, 'a) io \<Rightarrow> ('a \<Rightarrow> ('v, 'b) io) \<Rightarrow> ('v, 'b) io" where
  "bindP c f w = (case c w of
     None \<Rightarrow> None
   | Some (Inl e, w') \<Rightarrow> Some (Inl e, w')
   | Some (Inr x, w') \<Rightarrow> f x w')"

definition handle :: "('v, 'a) io \<Rightarrow> (stop \<Rightarrow> ('v, 'a) io) \<Rightarrow> ('v, 'a) io" where
  "handle c h w = (case c w of
     None \<Rightarrow> None
   | Some (Inl e, w') \<Rightarrow> h e w'
   | Some (Inr x, w') \<Rightarrow> Some (Inr x, w'))"

text \<open>\<open>try: c finally: d\<close>\<close>

definition ensure :: "('v, 'a) io \<Rightarrow> ('v, unit) io \<Rightarrow> ('v, 'a) io" where
  "ensure c d w = (case c w of
     None \<Rightarrow> None
   | Some (r, w') \<Rightarrow> (case d w' of
       None \<Rightarrow> None
     | Some (Inl e, w'') \<Rightarrow> Some (Inl e, w'')
     | Some (Inr _, w'') \<Rightarrow> Some (r, w'')))"

text \<open>\<open>except OSError\<close>\<close>

definition except_os :: "('v, 'a) io \<Rightarrow> (errno \<Rightarrow> ('v, 'a) io) \<Rightarrow> ('v, 'a) io" where
  "except_os c h = handle c (\<lambda>e. case e of Os x \<Rightarrow> h x | _ \<Rightarrow> raising e)"

definition ignoring_os :: "('v, 'a) io \<Rightarrow> ('v, unit) io" where
  "ignoring_os c = except_os (bindP c (\<lambda>_. ret ())) (\<lambda>_. ret ())"

definition lift_exn :: "exn + 'a \<Rightarrow> ('v, 'a) io" where
  "lift_exn r = (case r of Inl e \<Rightarrow> raising (Raised e) | Inr x \<Rightarrow> ret x)"

definition ensuring :: "bool \<Rightarrow> stop \<Rightarrow> ('v, unit) io" where
  "ensuring c e = (if c then ret () else raising e)"

definition update_vars :: "('v \<Rightarrow> 'v) \<Rightarrow> ('v, unit) io" where
  "update_vars f w = Some (Inr (), w\<lparr>w_vars := f (w_vars w)\<rparr>)"

definition read_vars :: "('v, 'v) io" where
  "read_vars w = Some (Inr (w_vars w), w)"

definition fresh_token :: "machine \<Rightarrow> ('v, string) io" where
  "fresh_token m w = Some (Inr (m_token m (w_clock w)), w)"

section \<open>Calls\<close>

type_synonym 'a call = "int \<Rightarrow> fs \<Rightarrow> errno + 'a \<times> fs \<times> effect list"

definition syscall :: "machine \<Rightarrow> 'a call \<Rightarrow> ('v, 'a) io" where
  "syscall m f w =
     (let s = m_env m (w_clock w) (w_fs w); w' = w\<lparr>w_fs := s, w_clock := w_clock w + 1\<rparr> in
      Some (if m_fault m (w_clock w) then (Inl (Os EOTHER), w')
            else case f (m_time m (w_clock w)) s of
                Inl e \<Rightarrow> (Inl (Os e), w')
              | Inr (x, s', es) \<Rightarrow> (Inr x, w'\<lparr>w_fs := s', w_log := w_log w @ es\<rparr>)))"

definition touch :: "int \<Rightarrow> nat \<Rightarrow> fs \<Rightarrow> fs" where
  "touch t i s = s\<lparr>fs_obj := (fs_obj s)(i := map_option (\<lambda>ob. ob\<lparr>ob_ctime := t\<rparr>) (fs_obj s i))\<rparr>"

definition set_entry :: "nat \<Rightarrow> string \<Rightarrow> nat \<Rightarrow> fs \<Rightarrow> fs" where
  "set_entry d n i s = s\<lparr>fs_dir := (fs_dir s)(d := AList.update n i (fs_dir s d))\<rparr>"

definition drop_entry :: "nat \<Rightarrow> string \<Rightarrow> fs \<Rightarrow> fs" where
  "drop_entry d n s = s\<lparr>fs_dir := (fs_dir s)(d := AList.delete n (fs_dir s d))\<rparr>"

definition call_root :: "nat call" where
  "call_root t s = Inr (fs_root s, s, [])"

text \<open>\<open>os.open\<close> with \<open>O_DIRECTORY | O_NOFOLLOW\<close>, and with \<open>O_RDONLY | O_NOFOLLOW | O_NONBLOCK\<close>\<close>

definition call_open_dir :: "nat \<Rightarrow> string \<Rightarrow> nat call" where
  "call_open_dir d n t s = (case entry s d n of
     None \<Rightarrow> Inl ENOENT
   | Some i \<Rightarrow> if has_type is_directory s i then Inr (i, s, []) else Inl EOTHER)"

definition call_open :: "nat \<Rightarrow> string \<Rightarrow> nat call" where
  "call_open d n t s = (case entry s d n of
     None \<Rightarrow> Inl ENOENT
   | Some i \<Rightarrow> if has_type is_symlink s i then Inl EOTHER else Inr (i, s, []))"

definition call_fstat :: "nat \<Rightarrow> stat_result call" where
  "call_fstat i t s = (case fs_obj s i of None \<Rightarrow> Inl EOTHER | Some ob \<Rightarrow> Inr (stat_of i ob, s, []))"

text \<open>\<open>os.stat(n, dir_fd=d, follow_symlinks=False)\<close>\<close>

definition call_stat :: "nat \<Rightarrow> string \<Rightarrow> stat_result call" where
  "call_stat d n t s = (case entry s d n of None \<Rightarrow> Inl ENOENT | Some i \<Rightarrow> call_fstat i t s)"

definition call_read :: "nat \<Rightarrow> nat \<Rightarrow> nat \<Rightarrow> string call" where
  "call_read i offset count t s = (case fs_obj s i of
     None \<Rightarrow> Inl EOTHER
   | Some ob \<Rightarrow> if is_directory (ob_mode ob) then Inl EOTHER else Inr (take count (drop offset (ob_data ob)), s, []))"

text \<open>A call without an effect on the file system: \<open>os.close\<close>, \<open>os.lseek\<close>, \<open>os.fsync\<close>.\<close>

definition call_nothing :: "unit call" where
  "call_nothing t s = Inr ((), s, [])"

text \<open>\<open>os.mkdir\<close>: the new object has the number \<open>m_fresh\<close>; the call fails when that number is not free.\<close>

definition call_mkdir :: "machine \<Rightarrow> nat \<Rightarrow> string \<Rightarrow> nat \<Rightarrow> unit call" where
  "call_mkdir m d n mode t s =
     (let i = m_fresh m s in
      if entry s d n \<noteq> None then Inl EEXIST
      else if fs_obj s i \<noteq> None then Inl EOTHER
      else let ob = \<lparr>ob_dev = (case fs_obj s d of None \<Rightarrow> 0 | Some ob \<Rightarrow> ob_dev ob), ob_mode = 4 * 4096 + m_umask m mode,
                     ob_uid = m_euid m, ob_gid = m_egid m, ob_data = [], ob_mtime = t, ob_ctime = t\<rparr>;
               s' = s\<lparr>fs_obj := (fs_obj s)(i \<mapsto> ob), fs_dir := (fs_dir s)(i := [])\<rparr>
           in Inr ((), set_entry d n i s', [Made d n i]))"

definition call_rmdir :: "nat \<Rightarrow> string \<Rightarrow> unit call" where
  "call_rmdir d n t s = (case entry s d n of
     None \<Rightarrow> Inl ENOENT
   | Some i \<Rightarrow>
       if has_type is_directory s i \<and> fs_dir s i = [] then Inr ((), drop_entry d n s, [Removed d n i]) else Inl EOTHER)"

definition call_unlink :: "nat \<Rightarrow> string \<Rightarrow> unit call" where
  "call_unlink d n t s = (case entry s d n of
     None \<Rightarrow> Inl ENOENT
   | Some i \<Rightarrow>
       if has_type is_directory s i then Inl EOTHER else Inr ((), touch t i (drop_entry d n s), [Removed d n i]))"

text \<open>
  \<open>os.link\<close> of an object. A descriptor's object is linked through \<open>/proc/self/fd\<close>; the kernel may
  refuse it when its last name is gone, which is one of the failures of \<open>m_fault\<close>.
\<close>

definition call_link_object :: "nat \<Rightarrow> nat \<Rightarrow> string \<Rightarrow> unit call" where
  "call_link_object i d n t s =
     (if entry s d n \<noteq> None then Inl EEXIST
      else if has_type is_directory s i then Inl EOTHER
      else Inr ((), touch t i (set_entry d n i s), [Linked d n i]))"

definition call_link :: "nat \<Rightarrow> string \<Rightarrow> nat \<Rightarrow> string \<Rightarrow> unit call" where
  "call_link d n d' n' t s = (case entry s d n of None \<Rightarrow> Inl ENOENT | Some i \<Rightarrow> call_link_object i d' n' t s)"

text \<open>
  \<open>os.rename\<close>: an entry that exists is replaced, unless it is a link to the same object or one of
  the two is a directory. A directory is not moved into itself.
\<close>

definition call_rename :: "nat \<Rightarrow> string \<Rightarrow> nat \<Rightarrow> string \<Rightarrow> unit call" where
  "call_rename d n d' n' t s = (case entry s d n of
     None \<Rightarrow> Inl ENOENT
   | Some i \<Rightarrow>
       if i = d' then Inl EOTHER
       else case entry s d' n' of
           None \<Rightarrow> Inr ((), touch t i (set_entry d' n' i (drop_entry d n s)), [Moved d n d' n' i])
         | Some j \<Rightarrow>
             if j = i then Inr ((), s, [])
             else if has_type is_directory s i \<or> has_type is_directory s j then Inl EOTHER
             else Inr ((), touch t i (set_entry d' n' i (drop_entry d n s)), [Moved d n d' n' i]))"

definition close :: "machine \<Rightarrow> nat \<Rightarrow> ('v, unit) io" where
  "close m fd = syscall m call_nothing"

section \<open>Reasoning about computations\<close>

text \<open>
  \<open>triple P c Q R\<close>: from a state with \<open>P\<close> the computation ends, with \<open>Q\<close> for a result and \<open>R\<close> for a stop.
  Assertions are about the file system, the log and the variables.
\<close>

type_synonym 'v assertion = "fs \<Rightarrow> effect list \<Rightarrow> 'v \<Rightarrow> bool"

abbreviation holds :: "'v assertion \<Rightarrow> 'v world \<Rightarrow> bool" where
  "holds P w \<equiv> P (w_fs w) (w_log w) (w_vars w)"

definition meets :: "('v, 'a) io \<Rightarrow> 'v world \<Rightarrow> ('a \<Rightarrow> 'v assertion) \<Rightarrow> (stop \<Rightarrow> 'v assertion) \<Rightarrow> bool" where
  "meets c w Q R \<longleftrightarrow> (case c w of
     None \<Rightarrow> False
   | Some (Inl e, w') \<Rightarrow> holds (R e) w'
   | Some (Inr x, w') \<Rightarrow> holds (Q x) w')"

definition triple :: "'v assertion \<Rightarrow> ('v, 'a) io \<Rightarrow> ('a \<Rightarrow> 'v assertion) \<Rightarrow> (stop \<Rightarrow> 'v assertion) \<Rightarrow> bool" where
  "triple P c Q R \<longleftrightarrow> (\<forall>w. holds P w \<longrightarrow> meets c w Q R)"

text \<open>What the other processes do preserves an assertion.\<close>

definition stable :: "machine \<Rightarrow> 'v assertion \<Rightarrow> bool" where
  "stable m P \<longleftrightarrow> (\<forall>k s l v. P s l v \<longrightarrow> P (m_env m k s) l v)"

lemma stable_intros:
  "stable m (\<lambda>s l v. C l v)"
  "stable m P \<Longrightarrow> stable m P' \<Longrightarrow> stable m (\<lambda>s l v. P s l v \<and> P' s l v)"
  "stable m P \<Longrightarrow> stable m P' \<Longrightarrow> stable m (\<lambda>s l v. P s l v \<or> P' s l v)"
  "(\<And>x. stable m (R x)) \<Longrightarrow> stable m (\<lambda>s l v. \<exists>x. R x s l v)"
  unfolding stable_def by blast+

lemma tripleI: "(\<And>w. holds P w \<Longrightarrow> meets c w Q R) \<Longrightarrow> triple P c Q R"
  by (simp add: triple_def)

lemma tripleD: "triple P c Q R \<Longrightarrow> holds P w \<Longrightarrow> meets c w Q R"
  by (simp add: triple_def)

lemma meets_cases [consumes 1, case_names result stop]:
  assumes "meets c w Q R"
  obtains x w' where "c w = Some (Inr x, w')" "holds (Q x) w'"
    | e w' where "c w = Some (Inl e, w')" "holds (R e) w'"
proof -
  from assms obtain r w' where "c w = Some (r, w')" by (cases "c w") (auto simp: meets_def)
  with assms that show thesis by (cases r) (auto simp: meets_def)
qed

lemma meetsI:
  "c w = Some (Inr x, w') \<Longrightarrow> holds (Q x) w' \<Longrightarrow> meets c w Q R"
  "c w = Some (Inl e, w') \<Longrightarrow> holds (R e) w' \<Longrightarrow> meets c w Q R"
  by (simp_all add: meets_def)

lemma meets_weaken:
  assumes "meets c w Q R" "\<And>x s l v. Q x s l v \<Longrightarrow> Q' x s l v" "\<And>e s l v. R e s l v \<Longrightarrow> R' e s l v"
  shows "meets c w Q' R'"
  using assms(1) by (cases rule: meets_cases) (blast intro: meetsI assms(2,3))+

lemma triple_weaken:
  assumes "triple P c Q R" "\<And>s l v. P' s l v \<Longrightarrow> P s l v" "\<And>x s l v. Q x s l v \<Longrightarrow> Q' x s l v" "\<And>e s l v. R e s l v \<Longrightarrow> R' e s l v"
  shows "triple P' c Q' R'"
  by (rule tripleI) (blast intro: meets_weaken tripleD [OF assms(1)] assms(2-4))

lemma triple_ret: "(\<And>s l v. P s l v \<Longrightarrow> Q x s l v) \<Longrightarrow> triple P (ret x) Q R"
  by (simp add: triple_def meets_def ret_def)

lemma triple_raising: "(\<And>s l v. P s l v \<Longrightarrow> R e s l v) \<Longrightarrow> triple P (raising e) Q R"
  by (simp add: triple_def meets_def raising_def)

lemma triple_bind:
  assumes c: "triple P c Q' R" and f: "\<And>x. triple (Q' x) (f x) Q R"
  shows "triple P (bindP c f) Q R"
proof (rule tripleI)
  fix w assume "holds P w"
  from tripleD [OF c this] show "meets (bindP c f) w Q R"
  proof (cases rule: meets_cases)
    case (result x w')
    with tripleD [OF f result(2)] show ?thesis by (simp add: meets_def bindP_def)
  qed (simp add: meets_def bindP_def)
qed

lemma triple_handle:
  assumes c: "triple P c Q R'" and h: "\<And>e. triple (R' e) (h e) Q R"
  shows "triple P (handle c h) Q R"
proof (rule tripleI)
  fix w assume "holds P w"
  from tripleD [OF c this] show "meets (handle c h) w Q R"
  proof (cases rule: meets_cases)
    case (stop e w')
    with tripleD [OF h stop(2)] show ?thesis by (simp add: meets_def handle_def)
  qed (simp add: meets_def handle_def)
qed

lemma triple_except_os:
  assumes "triple P c Q R'" "\<And>x. triple (R' (Os x)) (h x) Q R" "\<And>e s l v. R' e s l v \<Longrightarrow> (\<forall>x. e \<noteq> Os x) \<Longrightarrow> R e s l v"
  shows "triple P (except_os c h) Q R"
  unfolding except_os_def
proof (rule triple_handle [OF assms(1)])
  show "triple (R' e) (case e of Os x \<Rightarrow> h x | _ \<Rightarrow> raising e) Q R" for e
    by (cases e) (auto intro: assms(2,3) triple_raising)
qed

lemma triple_ensure:
  assumes c: "triple P c (\<lambda>x. T (Inr x)) (\<lambda>e. T (Inl e))"
    and d: "\<And>r. triple (T r) d (\<lambda>_. case r of Inl e \<Rightarrow> R e | Inr x \<Rightarrow> Q x) R"
  shows "triple P (ensure c d) Q R"
proof (rule tripleI)
  fix w assume "holds P w"
  from tripleD [OF c this] obtain r w1 where c1: "c w = Some (r, w1)" and t: "holds (T r) w1"
    by (cases rule: meets_cases) auto
  from tripleD [OF d t] show "meets (ensure c d) w Q R"
    by (cases rule: meets_cases) (auto simp: meets_def ensure_def c1 split: sum.splits)
qed

lemma triple_syscall:
  assumes "stable m P"
    and "\<And>s l v. P s l v \<Longrightarrow> R (Os EOTHER) s l v"
    and "\<And>t s l v e. P s l v \<Longrightarrow> f t s = Inl e \<Longrightarrow> R (Os e) s l v"
    and "\<And>t s l v x s' es. P s l v \<Longrightarrow> f t s = Inr (x, s', es) \<Longrightarrow> Q x s' (l @ es) v"
  shows "triple P (syscall m f) Q R"
proof (rule tripleI)
  fix w assume "holds P w"
  then have p: "P (m_env m (w_clock w) (w_fs w)) (w_log w) (w_vars w)" using assms(1) by (auto simp: stable_def)
  show "meets (syscall m f) w Q R"
    by (auto simp: meets_def syscall_def Let_def intro: assms(2-4) [OF p] split: sum.splits prod.splits)
qed

lemma triple_frame: "triple P c Q R \<Longrightarrow> triple (\<lambda>s l v. P s l v \<and> C) c (\<lambda>x s l v. Q x s l v \<and> C) R"
  by (rule tripleI) (auto intro: meets_weaken tripleD)

text \<open>A fact that does not depend on the state.\<close>

lemma triple_pure: "(C \<Longrightarrow> triple P c Q R) \<Longrightarrow> triple (\<lambda>s l v. C \<and> P s l v) c Q R"
  by (auto simp: triple_def)

lemma triple_update: "(\<And>s l v. P s l v \<Longrightarrow> Q () s l (f v)) \<Longrightarrow> triple P (update_vars f) Q R"
  by (simp add: triple_def meets_def update_vars_def)

lemma triple_read: "(\<And>s l v. P s l v \<Longrightarrow> Q v s l v) \<Longrightarrow> triple P read_vars Q R"
  by (simp add: triple_def meets_def read_vars_def)

lemma triple_token: "(\<And>x s l v. P s l v \<Longrightarrow> Q x s l v) \<Longrightarrow> triple P (fresh_token m) Q R"
  by (simp add: triple_def meets_def fresh_token_def)

lemma triple_if: "(b \<Longrightarrow> triple P c Q R) \<Longrightarrow> (\<not> b \<Longrightarrow> triple P d Q R) \<Longrightarrow> triple P (if b then c else d) Q R"
  by simp

text \<open>A call that reads: the assertion stays, and says what was read.\<close>

lemma triple_reading:
  assumes "stable m P" "\<And>t s x s' es. f t s = Inr (x, s', es) \<Longrightarrow> s' = s \<and> es = []"
    and "\<And>e s l v. P s l v \<Longrightarrow> R (Os e) s l v" "\<And>t s l v x. P s l v \<Longrightarrow> f t s = Inr (x, s, []) \<Longrightarrow> Q x s l v"
  shows "triple P (syscall m f) Q R"
proof (rule triple_syscall [OF assms(1)])
  show "Q x s' (l @ es) v" if "P s l v" "f t s = Inr (x, s', es)" for t s l v x s' es
    using assms(2) [OF that(2)] assms(4) [OF that(1)] that(2) by auto
qed (use assms(3) in auto)

lemma triple_close: "stable m P \<Longrightarrow> (\<And>e s l v. P s l v \<Longrightarrow> R (Os e) s l v) \<Longrightarrow> triple P (close m fd) (\<lambda>_. P) R"
  unfolding close_def by (rule triple_reading) (auto simp: call_nothing_def)

lemma triple_ignoring:
  assumes "triple P c (\<lambda>_. Q ()) (\<lambda>e s l v. (case e of Os _ \<Rightarrow> Q () s l v | _ \<Rightarrow> R e s l v))"
  shows "triple P (ignoring_os c) Q R"
  unfolding ignoring_os_def
proof (rule triple_except_os)
  show "triple P (bindP c (\<lambda>_. ret ())) Q (\<lambda>e s l v. (case e of Os _ \<Rightarrow> Q () s l v | _ \<Rightarrow> R e s l v))"
    by (rule triple_bind [OF assms]) (rule triple_ret, simp)
qed (auto intro: triple_ret split: stop.splits)

lemma reading_calls:
  "call_root t s = Inr (x, s', es) \<Longrightarrow> s' = s \<and> es = []"
  "call_open_dir d n t s = Inr (x, s', es) \<Longrightarrow> s' = s \<and> es = []"
  "call_open d n t s = Inr (x, s', es) \<Longrightarrow> s' = s \<and> es = []"
  "call_fstat i t s = Inr (y, s', es) \<Longrightarrow> s' = s \<and> es = []"
  "call_stat d n t s = Inr (y, s', es) \<Longrightarrow> s' = s \<and> es = []"
  "call_read i off count t s = Inr (z, s', es) \<Longrightarrow> s' = s \<and> es = []"
  "call_nothing t s = Inr (u, s', es) \<Longrightarrow> s' = s \<and> es = []"
  by (auto simp: call_root_def call_open_dir_def call_open_def call_fstat_def call_stat_def call_read_def call_nothing_def
      split: option.splits if_splits)

section \<open>Other processes\<close>

text \<open>An object that is the same but for its time of change, which a new link changes.\<close>

definition keeps :: "nat \<Rightarrow> obj \<Rightarrow> fs \<Rightarrow> bool" where
  "keeps i ob s \<longleftrightarrow> (\<exists>t. fs_obj s i = Some (ob\<lparr>ob_ctime := t\<rparr>))"

text \<open>A directory of the effective user that gives no permission to others.\<close>

definition own_dir :: "machine \<Rightarrow> fs \<Rightarrow> nat \<Rightarrow> bool" where
  "own_dir m s d \<longleftrightarrow> (\<exists>ob. fs_obj s d = Some ob \<and> is_directory (ob_mode ob) \<and> ob_mode ob mod 64 = 0 \<and> ob_uid ob = m_euid m)"

text \<open>
  What the modules rely on: other processes add, move and remove entries at will, but not in the private
  directories of the effective user, nor the entries that name such a directory (in a directory that is
  not shared, or has the sticky bit); and they leave the objects as they are.
\<close>

definition peers :: "machine \<Rightarrow> bool" where
  "peers m \<longleftrightarrow> (\<forall>k s i ob. fs_obj s i = Some ob \<longrightarrow> keeps i ob (m_env m k s))
     \<and> (\<forall>k s d. own_dir m s d \<longrightarrow> fs_dir (m_env m k s) d = fs_dir s d)
     \<and> (\<forall>k s p n d. entry s p n = Some d \<longrightarrow> own_dir m s d \<longrightarrow> entry (m_env m k s) p n = Some d)"

text \<open>What a module relies on of its \<open>umask\<close>: \<open>mkdir\<close> with mode 0700 makes a directory without permissions for others.\<close>

definition kernel :: "machine \<Rightarrow> bool" where
  "kernel m \<longleftrightarrow> m_umask m 448 < 4096 \<and> m_umask m 448 mod 64 = 0"

lemma keeps_fields:
  "keeps i ob s \<Longrightarrow> \<exists>t. fs_obj s i = Some (ob\<lparr>ob_ctime := t\<rparr>)"
  by (simp add: keeps_def)

lemma peers_keeps: "peers m \<Longrightarrow> keeps i ob s \<Longrightarrow> keeps i ob (m_env m k s)"
  by (fastforce simp: peers_def keeps_def)

lemma peers_own: "peers m \<Longrightarrow> own_dir m s d \<Longrightarrow> own_dir m (m_env m k s) d"
  by (fastforce simp: peers_def keeps_def own_dir_def)

lemma peers_exists: "peers m \<Longrightarrow> fs_obj s i \<noteq> None \<Longrightarrow> fs_obj (m_env m k s) i \<noteq> None"
  by (fastforce simp: peers_def keeps_def)

lemma keeps_touch [simp]: "keeps i ob (touch t j s) \<longleftrightarrow> keeps i ob s"
  by (auto simp: keeps_def touch_def) (metis obj.update_convs(7) obj.surjective)

lemma keeps_entries [simp]: "keeps i ob (set_entry d n j s) = keeps i ob s" "keeps i ob (drop_entry d n s) = keeps i ob s"
  by (simp_all add: keeps_def set_entry_def drop_entry_def)

lemma own_entries [simp]:
  "own_dir m (set_entry d n j s) e = own_dir m s e" "own_dir m (drop_entry d n s) e = own_dir m s e"
  "own_dir m (touch t j s) e = own_dir m s e"
  by (auto simp: own_dir_def set_entry_def drop_entry_def touch_def)

lemma dirs_changed [simp]:
  "fs_dir (touch t j s) = fs_dir s"
  "fs_dir (set_entry d n j s) e = (if e = d then AList.update n j (fs_dir s d) else fs_dir s e)"
  "fs_dir (drop_entry d n s) e = (if e = d then AList.delete n (fs_dir s d) else fs_dir s e)"
  by (simp_all add: touch_def set_entry_def drop_entry_def)

lemma objs_changed [simp]:
  "fs_obj (set_entry d n j s) = fs_obj s" "fs_obj (drop_entry d n s) = fs_obj s"
  "fs_obj (touch t j s) i = None \<longleftrightarrow> fs_obj s i = None"
  by (simp_all add: touch_def set_entry_def drop_entry_def)

lemma entry_changed [simp]:
  "entry (touch t j s) d n = entry s d n"
  "entry (set_entry d n i s) d' n' = (if d' = d \<and> n' = n then Some i else entry s d' n')"
  "entry (drop_entry d n s) d' n' = (if d' = d \<and> n' = n then None else entry s d' n')"
  by (auto simp: entry_def update_conv' delete_conv')

lemma triple_ex: "(\<And>x. triple (P x) c Q R) \<Longrightarrow> triple (\<lambda>s l v. \<exists>x. P x s l v) c Q R"
  by (auto simp: triple_def)

end
