(* ===== verification/Atomic_Unlink.thy ===== *)
theory Atomic_Unlink
  imports Posix_Files Py_Text
begin

text \<open>
  The module that removes one verified file (\<open>plugins/modules/atomic_unlink.py\<close>).
\<close>

section \<open>Parameters\<close>

record unlink_params =
  up_path :: string
  up_checksum :: string
  up_mode :: string
  up_owner :: string
  up_group :: string
  up_allow_absent :: bool
  up_parents :: py
  up_check_mode :: bool

text \<open>The variables of \<open>main\<close> that its \<open>finally\<close> reads.\<close>

record unlink_vars =
  uv_file :: "nat option"
  uv_quarantine :: "nat option"
  uv_name :: string

type_synonym 'a unlink_io = "(unlink_vars, 'a) io"

definition fail_json :: "string \<Rightarrow> string option \<Rightarrow> 'a unlink_io" where
  "fail_json msg recovery_path = raising (Exit (Fail_json msg recovery_path))"

definition exit_json :: "bool \<Rightarrow> bool \<Rightarrow> string option \<Rightarrow> 'a unlink_io" where
  "exit_json changed warning recovery_path = raising (Exit (Exit_json changed warning recovery_path))"

text \<open>\<open>re.fullmatch(r"\d+")\<close> and \<open>int\<close>: digits of other scripts are the parameter \<open>m_decimal\<close>.\<close>

definition decimal :: "machine \<Rightarrow> string \<Rightarrow> nat option" where
  "decimal m s = (if s \<noteq> [] \<and> list_all is_digit s then Some (digits_val s) else m_decimal m s)"

definition signed_decimal :: "machine \<Rightarrow> string \<Rightarrow> int option" where
  "signed_decimal m s = (case s of
     c # r \<Rightarrow> if c = CHR ''-'' then map_option (\<lambda>n. - int n) (decimal m r)
              else map_option int (decimal m (if c = CHR ''+'' then r else s))
   | [] \<Rightarrow> None)"

definition identity_range :: "int \<Rightarrow> string \<Rightarrow> exn + int" where
  "identity_range identity kind =
     (if identity < 0 \<or> identity \<ge> 2 ^ 32 - 1 then Inl (ValueError (kind @ '' ID must fit a non-negative 32-bit identity''))
      else Inr identity)"

definition numeric_identity :: "machine \<Rightarrow> string \<Rightarrow> (string \<Rightarrow> int option) \<Rightarrow> string \<Rightarrow> exn + int" where
  "numeric_identity m v database kind = (case signed_decimal m v of
     Some identity \<Rightarrow> identity_range identity kind
   | None \<Rightarrow> (case database v of
       None \<Rightarrow> Inl (ValueError (''unknown '' @ kind @ '': '' @ v))
     | Some identity \<Rightarrow> identity_range identity kind))"

definition strict_integer :: "machine \<Rightarrow> py \<Rightarrow> string \<Rightarrow> exn + int" where
  "strict_integer m v label = (case v of
     PInt i \<Rightarrow> if i < 0 then Inl (ValueError (label @ '' must be a non-negative integer'')) else Inr i
   | PStr s \<Rightarrow> (case decimal m s of
       None \<Rightarrow> Inl (ValueError (label @ '' must be a non-negative integer'')) | Some n \<Rightarrow> Inr (int n))
   | _ \<Rightarrow> Inl (ValueError (label @ '' must be a non-negative integer'')))"

definition octal_number :: "string \<Rightarrow> nat" where
  "octal_number s = foldl (\<lambda>n c. 8 * n + (byte c - 48)) 0 s"

definition octal_mode :: "string \<Rightarrow> exn + nat" where
  "octal_mode s =
     (if list_all is_octal s \<and> (length s = 3 \<or> length s = 4) then
        (if octal_number s > 4095 then Inl (ValueError ''mode exceeds the POSIX permission-bit range'') else Inr (octal_number s))
      else Inl (ValueError ''mode must contain three or four octal permission digits''))"

text \<open>\<open>os.path.isabs\<close>, \<open>os.path.normpath\<close> and a \<open>os.path.basename\<close> that is not empty.\<close>

definition path_components :: "string \<Rightarrow> string list" where
  "path_components path = split_on (CHR 0x2F) (tl path)"

definition canonical_target :: "string \<Rightarrow> bool" where
  "canonical_target path \<longleftrightarrow> prefix ''/'' path \<and> \<not> prefix ''//'' path \<and> normpath path = path
     \<and> last (split_on (CHR 0x2F) path) \<noteq> [] \<and> path \<noteq> ''/'' \<and> CHR 0x00 \<notin> set path"

definition parent_of :: "string \<Rightarrow> string" where
  "parent_of path = ''/'' @ join_with ''/'' (butlast (path_components path))"

text \<open>\<open>os.path.join\<close> of a directory and relative names.\<close>

definition path_join :: "string \<Rightarrow> string list \<Rightarrow> string" where
  "path_join directory names = (if directory = ''/'' then directory else directory @ ''/'') @ join_with ''/'' names"

section \<open>The parent\<close>

definition closing :: "machine \<Rightarrow> nat \<Rightarrow> ('v, 'a) io \<Rightarrow> ('v, 'a) io" where
  "closing m fd c = handle c (\<lambda>e. case e of
     Exit _ \<Rightarrow> raising e
   | _ \<Rightarrow> bindP (close m fd) (\<lambda>_. raising e))"

definition bound_identity :: "machine \<Rightarrow> py \<Rightarrow> exn + int \<times> int" where
  "bound_identity m expected =
     bindE (py_index expected ''device'') (\<lambda>v. bindE (strict_integer m v ''device'') (\<lambda>dev.
     bindE (py_index expected ''inode'') (\<lambda>v. bindE (strict_integer m v ''inode'') (\<lambda>ino. Inr (dev, ino)))))"

definition check_identity :: "machine \<Rightarrow> py \<Rightarrow> nat \<Rightarrow> ('v, unit) io" where
  "check_identity m expected fd =
     bindP (syscall m (call_fstat fd)) (\<lambda>opened.
     bindP (lift_exn (bound_identity m expected)) (\<lambda>(dev, ino).
     ensuring (int (st_dev opened) = dev \<and> int (st_ino opened) = ino) (Os EOTHER)))"

definition check_listed :: "machine \<Rightarrow> py \<Rightarrow> string \<Rightarrow> nat \<Rightarrow> ('v, unit) io" where
  "check_listed m parents path fd = (case map_of (the_items parents) path of
     None \<Rightarrow> ret ()
   | Some expected \<Rightarrow> check_identity m expected fd)"

fun walk_parent :: "machine \<Rightarrow> py \<Rightarrow> nat \<Rightarrow> string \<Rightarrow> string list \<Rightarrow> ('v, nat) io" where
  "walk_parent m parents fd walked [] = ret fd"
| "walk_parent m parents fd walked (c # cs) =
     bindP (closing m fd (syscall m (call_open_dir fd c))) (\<lambda>following.
     bindP (closing m fd (close m fd)) (\<lambda>_.
     bindP (closing m following (check_listed m parents (walked @ ''/'' @ c) following)) (\<lambda>_.
     walk_parent m parents following (walked @ ''/'' @ c) cs)))"

definition open_parent :: "machine \<Rightarrow> string \<Rightarrow> py \<Rightarrow> ('v, nat \<times> string) io" where
  "open_parent m path parents =
     (let parts = path_components path; parent_path = parent_of path in
      bindP (syscall m call_root) (\<lambda>base.
      bindP (walk_parent m parents base [] (butlast parts)) (\<lambda>fd.
      bindP (closing m fd
        (bindP (ensuring (map_of (the_items parents) parent_path \<noteq> None) (Os EOTHER)) (\<lambda>_.
         if parent_path = ''/'' then check_listed m parents parent_path fd else ret ()))) (\<lambda>_.
      ret (fd, last parts)))))"

section \<open>Checks of a file\<close>

definition CHUNK :: nat where
  "CHUNK = 1024 * 1024"

partial_function (option) read_loop :: "machine \<Rightarrow> nat \<Rightarrow> string \<Rightarrow> ('v, string) io" where
  "read_loop m fd acc w = (case syscall m (call_read fd (length acc) CHUNK) w of
     None \<Rightarrow> None
   | Some (Inl e, w') \<Rightarrow> Some (Inl e, w')
   | Some (Inr chunk, w') \<Rightarrow> if chunk = [] then Some (Inr acc, w') else read_loop m fd (acc @ chunk) w')"

definition checksum_fd :: "machine \<Rightarrow> nat \<Rightarrow> ('v, string) io" where
  "checksum_fd m fd =
     bindP (syscall m call_nothing) (\<lambda>_.
     bindP (read_loop m fd []) (\<lambda>data. ret (m_sha m data)))"

definition same_identity :: "stat_result \<Rightarrow> stat_result \<Rightarrow> bool" where
  "same_identity left right \<longleftrightarrow> st_dev left = st_dev right \<and> st_ino left = st_ino right \<and> st_mode left = st_mode right
     \<and> st_uid left = st_uid right \<and> st_gid left = st_gid right \<and> st_size left = st_size right
     \<and> st_mtime_ns left = st_mtime_ns right"

definition same_snapshot :: "stat_result \<Rightarrow> stat_result \<Rightarrow> bool" where
  "same_snapshot left right \<longleftrightarrow> same_identity left right \<and> st_ctime_ns left = st_ctime_ns right"

text \<open>A regular file with the expected mode, owner and group.\<close>

definition expected_file :: "nat \<Rightarrow> int \<Rightarrow> int \<Rightarrow> stat_result \<Rightarrow> bool" where
  "expected_file mode uid gid st \<longleftrightarrow> is_reg (st_mode st) \<and> imode (st_mode st) = mode
     \<and> int (st_uid st) = uid \<and> int (st_gid st) = gid"

section \<open>The quarantine\<close>

definition require_capabilities :: "machine \<Rightarrow> 'a unlink_io \<Rightarrow> 'a unlink_io" where
  "require_capabilities m c = bindP (ensuring (m_dir_fd m) (Os EOTHER)) (\<lambda>_.
     bindP (ensuring (m_no_follow m) (Os EOTHER)) (\<lambda>_. bindP (ensuring (m_proc_fd m) (Os EOTHER)) (\<lambda>_. c)))"

definition quarantine_name :: "machine \<Rightarrow> ('v, string) io" where
  "quarantine_name m = bindP (fresh_token m) (\<lambda>token. ret (''.atomic-unlink-'' @ m_pid m @ ''-'' @ token))"

text \<open>\<open>os.mkdir\<close>; whether the name was free.\<close>

definition try_mkdir :: "machine \<Rightarrow> nat \<Rightarrow> string \<Rightarrow> nat \<Rightarrow> ('v, bool) io" where
  "try_mkdir m d n mode = except_os (bindP (syscall m (call_mkdir m d n mode)) (\<lambda>_. ret True))
     (\<lambda>e. if e = EEXIST then ret False else raising (Os e))"

fun make_private_quarantine :: "machine \<Rightarrow> nat \<Rightarrow> nat \<Rightarrow> ('v, nat \<times> string) io" where
  "make_private_quarantine m parent 0 = raising (Os EOTHER)"
| "make_private_quarantine m parent (Suc attempts) =
     bindP (quarantine_name m) (\<lambda>n.
     bindP (try_mkdir m parent n 448) (\<lambda>made.
     if \<not> made then make_private_quarantine m parent attempts
     else bindP (except_os (syscall m (call_open_dir parent n))
                   (\<lambda>e. bindP (ignoring_os (syscall m (call_rmdir parent n))) (\<lambda>_. raising (Os e)))) (\<lambda>q.
          ret (q, n))))"

definition preserve_open_file :: "machine \<Rightarrow> nat \<Rightarrow> nat \<Rightarrow> stat_result \<Rightarrow> ('v, unit) io" where
  "preserve_open_file m file q expected =
     bindP (syscall m (call_link_object file q ''verified'')) (\<lambda>_.
     bindP (syscall m (call_stat q ''verified'')) (\<lambda>preserved.
     if same_identity expected preserved then ret ()
     else bindP (syscall m (call_unlink q ''verified'')) (\<lambda>_. raising (Os EOTHER))))"

definition restore_quarantined_file :: "machine \<Rightarrow> nat \<Rightarrow> string \<Rightarrow> nat \<Rightarrow> ('v, bool) io" where
  "restore_quarantined_file m parent n q =
     except_os (bindP (syscall m (call_link q ''target'' parent n)) (\<lambda>_.
       bindP (ignoring_os (syscall m (call_unlink q ''target''))) (\<lambda>_. ret True)))
     (\<lambda>_. ret False)"

definition recover_quarantine :: "machine \<Rightarrow> nat \<Rightarrow> string \<Rightarrow> nat \<Rightarrow> string \<Rightarrow> ('v, bool \<times> bool) io" where
  "recover_quarantine m parent n q qn =
     bindP (restore_quarantined_file m parent n q) (\<lambda>restored.
     if restored
     then except_os (bindP (syscall m (call_rmdir parent qn)) (\<lambda>_. ret (restored, True))) (\<lambda>_. ret (restored, False))
     else ret (restored, False))"

definition recovery_path_of :: "string \<Rightarrow> string \<Rightarrow> string" where
  "recovery_path_of path qn = path_join (parent_of path) [qn, ''verified'']"

definition quarantine_recovery_path :: "string \<Rightarrow> string \<Rightarrow> bool \<Rightarrow> string" where
  "quarantine_recovery_path path qn cleaned = (if cleaned then '''' else recovery_path_of path qn)"

definition quarantine_recovery_summary :: "bool \<Rightarrow> bool \<Rightarrow> string" where
  "quarantine_recovery_summary restored cleaned =
     (if restored \<and> cleaned then ''entry restored''
      else if restored then ''entry restored; recovery copy preserved in quarantine''
      else ''entry preserved in quarantine'')"

text \<open>The handlers after the quarantine: recover, and fail with what came of it.\<close>

definition recover_and_fail :: "machine \<Rightarrow> string \<Rightarrow> nat \<Rightarrow> string \<Rightarrow> nat \<Rightarrow> string \<Rightarrow> string \<Rightarrow> 'a unlink_io" where
  "recover_and_fail m path parent n q qn msg =
     bindP (recover_quarantine m parent n q qn) (\<lambda>(restored, cleaned).
     bindP (if cleaned then update_vars (\<lambda>v. v\<lparr>uv_name := []\<rparr>) else ret ()) (\<lambda>_.
     fail_json (msg @ ''; '' @ quarantine_recovery_summary restored cleaned) (Some (quarantine_recovery_path path qn cleaned))))"

section \<open>The module\<close>

text \<open>What \<open>main\<close> has checked of the file before it changes anything.\<close>

record target =
  tg_file :: nat
  tg_stat :: stat_result

definition bind_target :: "machine \<Rightarrow> unlink_params \<Rightarrow> nat \<Rightarrow> string \<Rightarrow> nat \<Rightarrow> int \<Rightarrow> int \<Rightarrow> target unlink_io" where
  "bind_target m ps parent n mode uid gid =
     bindP (if hex_id 64 (up_checksum ps) \<or> (up_checksum ps = [] \<and> up_allow_absent ps) then ret ()
            else fail_json ''checksum must be one lowercase SHA-256 digest'' None) (\<lambda>_.
     bindP (except_os (syscall m (call_stat parent n)) (\<lambda>e.
              if e = ENOENT then (if up_allow_absent ps then exit_json False False None else fail_json ''owned file is absent'' None)
              else raising (Os e))) (\<lambda>before.
     bindP (if is_reg (st_mode before) then ret () else fail_json ''removal target is not a regular file'' None) (\<lambda>_.
     bindP (if imode (st_mode before) = mode then ret () else fail_json ''removal target mode changed'' None) (\<lambda>_.
     bindP (if int (st_uid before) = uid \<and> int (st_gid before) = gid then ret ()
            else fail_json ''removal target ownership changed'' None) (\<lambda>_.
     bindP (syscall m (call_open parent n)) (\<lambda>file.
     bindP (update_vars (\<lambda>v. v\<lparr>uv_file := Some file\<rparr>)) (\<lambda>_.
     bindP (syscall m (call_fstat file)) (\<lambda>opened.
     bindP (if same_snapshot opened before then ret () else fail_json ''removal target changed while opening'' None) (\<lambda>_.
     bindP (checksum_fd m file) (\<lambda>digest.
     bindP (if digest = up_checksum ps then ret () else fail_json ''removal target checksum changed'' None) (\<lambda>_.
     bindP (syscall m (call_fstat file)) (\<lambda>final_fd.
     bindP (syscall m (call_stat parent n)) (\<lambda>final_name.
     bindP (if same_snapshot final_fd final_name then ret ()
            else fail_json ''removal target changed at the unlink boundary'' None) (\<lambda>_.
     bindP (if expected_file mode uid gid final_fd then ret ()
            else fail_json ''removal target metadata changed at the unlink boundary'' None) (\<lambda>_.
     ret \<lparr>tg_file = file, tg_stat = final_fd\<rparr>)))))))))))))))"

text \<open>The file is in the quarantine as \<open>target\<close>, and a second link to the verified object as \<open>verified\<close>.\<close>

definition check_quarantined ::
    "machine \<Rightarrow> unlink_params \<Rightarrow> nat \<Rightarrow> string \<Rightarrow> nat \<Rightarrow> int \<Rightarrow> int \<Rightarrow> target \<Rightarrow> nat \<Rightarrow> string \<Rightarrow> unit unlink_io" where
  "check_quarantined m ps parent n mode uid gid tg q qn =
     bindP (except_os (syscall m (call_stat q ''target''))
              (\<lambda>_. recover_and_fail m (up_path ps) parent n q qn ''cannot inspect the atomic quarantine'')) (\<lambda>quarantined.
     bindP (if same_identity (tg_stat tg) quarantined then ret ()
            else recover_and_fail m (up_path ps) parent n q qn ''removal target changed at the atomic quarantine boundary'') (\<lambda>_.
     bindP (except_os
              (bindP (syscall m (call_stat q ''target'')) (\<lambda>st.
               bindP (checksum_fd m (tg_file tg)) (\<lambda>digest. ret (st, digest))))
              (\<lambda>_. recover_and_fail m (up_path ps) parent n q qn ''cannot revalidate the quarantined target'')) (\<lambda>(final_quarantine, digest).
     if same_identity (tg_stat tg) final_quarantine \<and> expected_file mode uid gid final_quarantine \<and> digest = up_checksum ps
     then ret ()
     else recover_and_fail m (up_path ps) parent n q qn ''quarantined removal target changed before deletion'')))"

definition remove_quarantined :: "machine \<Rightarrow> unlink_params \<Rightarrow> nat \<Rightarrow> string \<Rightarrow> nat \<Rightarrow> string \<Rightarrow> unit unlink_io" where
  "remove_quarantined m ps parent n q qn =
     bindP (except_os (syscall m (call_unlink q ''target''))
              (\<lambda>_. recover_and_fail m (up_path ps) parent n q qn ''atomic unlink failed after quarantine'')) (\<lambda>_.
     bindP (except_os (syscall m (call_unlink q ''verified''))
              (\<lambda>_. exit_json True True (Some (recovery_path_of (up_path ps) qn)))) (\<lambda>_.
     bindP (close m q) (\<lambda>_.
     bindP (update_vars (\<lambda>v. v\<lparr>uv_quarantine := None\<rparr>)) (\<lambda>_.
     bindP (except_os (syscall m (call_rmdir parent qn)) (\<lambda>_. exit_json True True None)) (\<lambda>_.
     bindP (update_vars (\<lambda>v. v\<lparr>uv_name := []\<rparr>)) (\<lambda>_.
     exit_json True False None))))))"

definition remove_target :: "machine \<Rightarrow> unlink_params \<Rightarrow> nat \<Rightarrow> string \<Rightarrow> nat \<Rightarrow> int \<Rightarrow> int \<Rightarrow> target \<Rightarrow> unit unlink_io" where
  "remove_target m ps parent n mode uid gid tg =
     bindP (make_private_quarantine m parent 10) (\<lambda>(q, qn).
     bindP (update_vars (\<lambda>v. v\<lparr>uv_quarantine := Some q, uv_name := qn\<rparr>)) (\<lambda>_.
     bindP (preserve_open_file m (tg_file tg) q (tg_stat tg)) (\<lambda>_.
     bindP (except_os (syscall m (call_rename parent n q ''target''))
              (\<lambda>_. fail_json ''cannot quarantine the removal target; verified inode preserved in quarantine''
                      (Some (recovery_path_of (up_path ps) qn)))) (\<lambda>_.
     bindP (check_quarantined m ps parent n mode uid gid tg q qn) (\<lambda>_.
     remove_quarantined m ps parent n q qn)))))"

definition close_all :: "machine \<Rightarrow> nat \<Rightarrow> unit unlink_io" where
  "close_all m parent =
     bindP read_vars (\<lambda>v.
     bindP (case uv_file v of None \<Rightarrow> ret () | Some fd \<Rightarrow> close m fd) (\<lambda>_.
     bindP (case uv_quarantine v of None \<Rightarrow> ret () | Some fd \<Rightarrow> close m fd) (\<lambda>_.
     bindP (if uv_name v = [] then ret () else ignoring_os (syscall m (call_rmdir parent (uv_name v)))) (\<lambda>_.
     close m parent))))"

definition unlink_body :: "machine \<Rightarrow> unlink_params \<Rightarrow> nat \<Rightarrow> string \<Rightarrow> nat \<Rightarrow> int \<Rightarrow> int \<Rightarrow> unit unlink_io" where
  "unlink_body m ps parent n mode uid gid =
     bindP (update_vars (\<lambda>_. \<lparr>uv_file = None, uv_quarantine = None, uv_name = []\<rparr>)) (\<lambda>_.
     ensure
       (except_os
          (bindP (bind_target m ps parent n mode uid gid) (\<lambda>tg.
           if up_check_mode ps then exit_json True False None else remove_target m ps parent n mode uid gid tg))
          (\<lambda>_. fail_json ''atomic unlink failed'' None))
       (close_all m parent))"

definition bind_parent :: "machine \<Rightarrow> unlink_params \<Rightarrow> (nat \<times> string \<times> nat \<times> int \<times> int) unlink_io" where
  "bind_parent m ps =
     handle
       (require_capabilities m
          (bindP (lift_exn (numeric_identity m (up_owner ps) (m_user m) ''owner'')) (\<lambda>uid.
           bindP (lift_exn (numeric_identity m (up_group ps) (m_group m) ''group'')) (\<lambda>gid.
           bindP (lift_exn (octal_mode (up_mode ps))) (\<lambda>mode.
           bindP (open_parent m (up_path ps) (up_parents ps)) (\<lambda>(parent, n).
           ret (parent, n, mode, uid, gid)))))))
       (\<lambda>_. fail_json ''cannot bind trusted parent chain'' None)"

definition atomic_unlink :: "machine \<Rightarrow> unlink_params \<Rightarrow> unit unlink_io" where
  "atomic_unlink m ps =
     bindP (if canonical_target (up_path ps) then ret () else fail_json ''path must be one canonical absolute file path'' None) (\<lambda>_.
     bindP (bind_parent m ps) (\<lambda>(parent, n, mode, uid, gid).
     unlink_body m ps parent n mode uid gid))"

end
