(* ===== verification/Unlink_Safety.thy ===== *)
theory Unlink_Safety
  imports Atomic_Unlink
begin

text \<open>
  What a run of \<open>atomic_unlink\<close> guarantees while other processes act on the file system: assertions about each
  part of the module, from the quarantine to the whole run, and the theorems on what a run removes, what a
  failed run keeps, and that every run ends.
\<close>

section \<open>The private quarantine\<close>

text \<open>
  While the quarantine exists: the verified object is as it was, and the quarantine is a private directory
  with known entries, named in the parent.
\<close>

definition quarantined :: "machine \<Rightarrow> nat \<Rightarrow> nat \<Rightarrow> obj \<Rightarrow> nat \<Rightarrow> string \<Rightarrow> (string \<times> nat) list \<Rightarrow> fs \<Rightarrow> bool" where
  "quarantined m p i ob q qn es s \<longleftrightarrow>
     keeps i ob s \<and> own_dir m s q \<and> fs_dir s q = es \<and> entry s p qn = Some q \<and> p \<noteq> q"

lemma stable_quarantine: "peers m \<Longrightarrow> stable m (\<lambda>s l v. quarantined m p i ob q qn es s)"
  unfolding stable_def quarantined_def by (auto simp: peers_keeps peers_own) (auto simp: peers_def)

lemma stable_quarantined: "peers m \<Longrightarrow> stable m (\<lambda>s l v. quarantined m p i ob q qn es s \<and> C l v)"
  by (intro stable_intros stable_quarantine)

lemma stable_before: "peers m \<Longrightarrow> stable m (\<lambda>s l v. fs_obj s p \<noteq> None \<and> keeps i ob s \<and> l = L \<and> V v)"
  unfolding stable_def by (auto simp: peers_keeps simp del: not_None_eq dest: peers_exists)

lemma keeps_file: "keeps i ob s \<Longrightarrow> is_reg (ob_mode ob) \<Longrightarrow> \<not> has_type is_directory s i"
  by (auto simp: keeps_def has_type_def is_reg_def is_directory_def)

lemma mkdir_quarantine:
  assumes k: "kernel m" and c: "call_mkdir m p qn 448 t s = Inr (u, s', es)" and o: "fs_obj s p \<noteq> None" and i: "keeps i ob s"
  shows "\<exists>q. quarantined m p i ob q qn [] s' \<and> es = [Made p qn q]"
proof -
  let ?q = "m_fresh m s"
  have f: "fs_obj s ?q = None" using c by (auto simp: call_mkdir_def Let_def split: if_splits)
  with o have "p \<noteq> ?q" by auto
  moreover from f i have "i \<noteq> ?q" by (auto simp: keeps_def)
  moreover have "is_directory (16384 + m_umask m 448)" "(16384 + m_umask m 448) mod 64 = 0"
    using k by (auto simp: kernel_def is_directory_def)
  ultimately show ?thesis
    using c i by (auto simp: call_mkdir_def Let_def quarantined_def own_dir_def keeps_def set_entry_def entry_def update_conv'
        split: if_splits)
qed

text \<open>The effects of making the quarantine and failing to open it.\<close>

definition only_made :: "machine \<Rightarrow> nat \<Rightarrow> nat \<Rightarrow> obj \<Rightarrow> effect list \<Rightarrow> fs \<Rightarrow> bool" where
  "only_made m p i ob es s \<longleftrightarrow> keeps i ob s \<and>
     (es = [] \<or> (\<exists>q qn. es = [Made p qn q] \<and> quarantined m p i ob q qn [] s \<or> es = [Made p qn q, Removed p qn q]))"

lemma make_quarantine:
  assumes m: "peers m" "kernel m"
  shows "triple (\<lambda>s l v. fs_obj s p \<noteq> None \<and> keeps i ob s \<and> l = L \<and> V v) (make_private_quarantine m p attempts)
    (\<lambda>(q, qn) s l v. quarantined m p i ob q qn [] s \<and> l = L @ [Made p qn q] \<and> V v)
    (\<lambda>e s l v. (\<exists>x. e = Os x) \<and> (\<exists>es. l = L @ es \<and> only_made m p i ob es s) \<and> V v)"
    (is "triple ?P _ ?Q ?R")
proof (induction attempts)
  case 0
  show ?case by (auto intro!: triple_raising simp: only_made_def)
next
  case (Suc k)
  have r: "triple (\<lambda>s l v. quarantined m p i ob q qn [] s \<and> l = L @ [Made p qn q] \<and> V v)
      (bindP (ignoring_os (syscall m (call_rmdir p qn))) (\<lambda>_. raising (Os e))) Q ?R" for q qn e Q
  proof (rule triple_bind)
    show "triple (\<lambda>s l v. quarantined m p i ob q qn [] s \<and> l = L @ [Made p qn q] \<and> V v) (ignoring_os (syscall m (call_rmdir p qn)))
        (\<lambda>_ s l v. (\<exists>es. l = L @ es \<and> only_made m p i ob es s) \<and> V v) ?R"
      by (intro triple_ignoring triple_syscall stable_quarantined m)
        (auto simp: only_made_def call_rmdir_def quarantined_def split: if_splits option.splits)
  qed (auto intro: triple_raising)
  have o: "triple (\<lambda>s l v. \<exists>q. quarantined m p i ob q qn [] s \<and> l = L @ [Made p qn q] \<and> V v)
      (bindP (except_os (syscall m (call_open_dir p qn))
        (\<lambda>e. bindP (ignoring_os (syscall m (call_rmdir p qn))) (\<lambda>_. raising (Os e)))) (\<lambda>q. ret (q, qn))) ?Q ?R" for qn
  proof (rule triple_ex, rule triple_bind)
    fix q
    show "triple (\<lambda>s l v. quarantined m p i ob q qn [] s \<and> l = L @ [Made p qn q] \<and> V v)
      (except_os (syscall m (call_open_dir p qn)) (\<lambda>e. bindP (ignoring_os (syscall m (call_rmdir p qn))) (\<lambda>_. raising (Os e))))
      (\<lambda>x s l v. x = q \<and> quarantined m p i ob q qn [] s \<and> l = L @ [Made p qn q] \<and> V v) ?R"
    proof (rule triple_except_os)
      show "triple (\<lambda>s l v. quarantined m p i ob q qn [] s \<and> l = L @ [Made p qn q] \<and> V v) (syscall m (call_open_dir p qn))
        (\<lambda>x s l v. x = q \<and> quarantined m p i ob q qn [] s \<and> l = L @ [Made p qn q] \<and> V v)
        (\<lambda>e s l v. (\<exists>x. e = Os x) \<and> quarantined m p i ob q qn [] s \<and> l = L @ [Made p qn q] \<and> V v)"
        by (intro triple_reading stable_quarantined m)
          (auto dest: reading_calls simp: call_open_dir_def quarantined_def split: option.splits if_splits)
    next
      show "triple (\<lambda>s l v. (\<exists>y. Os x = Os y) \<and> quarantined m p i ob q qn [] s \<and> l = L @ [Made p qn q] \<and> V v)
        (bindP (ignoring_os (syscall m (call_rmdir p qn))) (\<lambda>_. raising (Os x)))
        (\<lambda>x s l v. x = q \<and> quarantined m p i ob q qn [] s \<and> l = L @ [Made p qn q] \<and> V v) ?R" for x
        using r [of q qn x] by simp
    qed auto
  qed (auto intro: triple_ret)
  have t: "triple ?P (try_mkdir m p qn 448)
      (\<lambda>made s l v. if made then \<exists>q. quarantined m p i ob q qn [] s \<and> l = L @ [Made p qn q] \<and> V v else ?P s l v) ?R" for qn
    unfolding try_mkdir_def
  proof (rule triple_except_os)
    show "triple ?P (bindP (syscall m (call_mkdir m p qn 448)) (\<lambda>_. ret True))
      (\<lambda>made s l v. if made then \<exists>q. quarantined m p i ob q qn [] s \<and> l = L @ [Made p qn q] \<and> V v else ?P s l v)
      (\<lambda>e s l v. (\<exists>x. e = Os x) \<and> ?P s l v)"
    proof (rule triple_bind)
      show "triple ?P (syscall m (call_mkdir m p qn 448))
        (\<lambda>_ s l v. \<exists>q. quarantined m p i ob q qn [] s \<and> l = L @ [Made p qn q] \<and> V v) (\<lambda>e s l v. (\<exists>x. e = Os x) \<and> ?P s l v)"
        by (intro triple_syscall stable_before m) (auto dest!: mkdir_quarantine [OF m(2)])
    qed (auto intro: triple_ret)
  qed (auto intro!: triple_ret triple_raising simp: only_made_def)
  show ?case
    unfolding make_private_quarantine.simps quarantine_name_def
  proof (intro triple_bind)
    show "triple ?P (fresh_token m) (\<lambda>_. ?P) ?R" by (rule triple_token)
    show "triple ?P (ret (''.atomic-unlink-'' @ m_pid m @ ''-'' @ token)) (\<lambda>_. ?P) ?R" for token by (rule triple_ret)
    show "triple ?P (try_mkdir m p qn 448)
      (\<lambda>made s l v. if made then \<exists>q. quarantined m p i ob q qn [] s \<and> l = L @ [Made p qn q] \<and> V v else ?P s l v) ?R" for qn by (rule t)
  qed (use o Suc.IH in \<open>auto intro: triple_weaken\<close>)
qed

section \<open>Moving the file\<close>

abbreviation one_link :: "nat \<Rightarrow> (string \<times> nat) list" where
  "one_link i \<equiv> [(''verified'', i)]"

abbreviation two_links :: "nat \<Rightarrow> nat \<Rightarrow> (string \<times> nat) list" where
  "two_links i j \<equiv> [(''verified'', i), (''target'', j)]"

text \<open>A status of the verified object, taken at some time.\<close>

definition status_of :: "nat \<Rightarrow> obj \<Rightarrow> stat_result \<Rightarrow> bool" where
  "status_of i ob st \<longleftrightarrow> (\<exists>t. st = stat_of i (ob\<lparr>ob_ctime := t\<rparr>))"

lemma status_same: "status_of i ob st \<Longrightarrow> status_of i ob st' \<Longrightarrow> same_identity st st'"
  by (auto simp: status_of_def same_identity_def stat_of_def)

lemma status_ino: "status_of i ob st \<Longrightarrow> same_identity st (stat_of j ob') \<Longrightarrow> j = i"
  by (auto simp: status_of_def same_identity_def stat_of_def)

lemma keeps_status: "keeps i ob s \<Longrightarrow> fs_obj s i = Some ob' \<Longrightarrow> status_of i ob (stat_of i ob')"
  by (auto simp: keeps_def status_of_def)

lemma preserve_keeps:
  assumes m: "peers m" and st: "status_of i ob st" and r: "is_reg (ob_mode ob)"
  shows "triple (\<lambda>s l v. quarantined m p i ob q qn [] s \<and> l = L \<and> V v) (preserve_open_file m i q st)
    (\<lambda>_ s l v. quarantined m p i ob q qn (one_link i) s \<and> l = L @ [Linked q ''verified'' i] \<and> V v)
    (\<lambda>e s l v. (\<exists>x. e = Os x) \<and> (quarantined m p i ob q qn [] s \<and> l = L
       \<or> quarantined m p i ob q qn (one_link i) s \<and> l = L @ [Linked q ''verified'' i]) \<and> V v)" (is "triple ?P _ ?Q ?R")
  unfolding preserve_open_file_def
proof (intro triple_bind)
  show "triple ?P (syscall m (call_link_object i q ''verified'')) ?Q ?R"
    by (intro triple_syscall stable_quarantined m) (auto simp: call_link_object_def quarantined_def split: if_splits)
  show "triple (?Q x) (syscall m (call_stat q ''verified''))
      (\<lambda>st' s l v. status_of i ob st' \<and> quarantined m p i ob q qn (one_link i) s \<and> l = L @ [Linked q ''verified'' i] \<and> V v) ?R" for x
    by (intro triple_reading stable_quarantined m)
      (auto dest: reading_calls simp: call_stat_def call_fstat_def quarantined_def entry_def keeps_status split: option.splits)
  show "triple (\<lambda>s l v. status_of i ob st' \<and> quarantined m p i ob q qn (one_link i) s \<and> l = L @ [Linked q ''verified'' i] \<and> V v)
      (if same_identity st st' then ret () else bindP (syscall m (call_unlink q ''verified'')) (\<lambda>_. raising (Os EOTHER))) ?Q ?R" for st'
  proof (rule triple_if)
    assume "\<not> same_identity st st'"
    then have "\<not> status_of i ob st'" using status_same [OF st] by blast
    then show "triple (\<lambda>s l v. status_of i ob st' \<and> quarantined m p i ob q qn (one_link i) s \<and> l = L @ [Linked q ''verified'' i] \<and> V v)
        (bindP (syscall m (call_unlink q ''verified'')) (\<lambda>_. raising (Os EOTHER))) ?Q ?R"
      by (auto intro: tripleI)
  qed (auto intro: triple_ret)
qed

lemma move_target:
  assumes m: "peers m"
  shows "triple (\<lambda>s l v. quarantined m p i ob q qn (one_link i) s \<and> l = L \<and> V v) (syscall m (call_rename p n q ''target''))
    (\<lambda>_ s l v. \<exists>j. quarantined m p i ob q qn (two_links i j) s \<and> l = L @ [Moved p n q ''target'' j] \<and> V v)
    (\<lambda>e s l v. (\<exists>x. e = Os x) \<and> quarantined m p i ob q qn (one_link i) s \<and> l = L \<and> V v)"
  by (intro triple_syscall stable_quarantined m)
    (auto simp: call_rename_def quarantined_def entry_def [of _ q] split: option.splits if_splits)

section \<open>Recovery\<close>

text \<open>
  How a run ends that moved the object \<open>j\<close> and does not remove it: what it did, and what is in the quarantine.
\<close>

inductive aborted :: "nat \<Rightarrow> string \<Rightarrow> nat \<Rightarrow> nat \<Rightarrow> nat \<Rightarrow> effect list \<Rightarrow> (string \<times> nat) list \<Rightarrow> bool" for p n q i j where
  kept: "aborted p n q i j [] (two_links i j)"
| linked: "aborted p n q i j [Linked p n j] (two_links i j)"
| restored: "aborted p n q i j [Linked p n j, Removed q ''target'' j] (one_link i)"

lemma recovers:
  assumes m: "peers m"
  shows "triple (\<lambda>s l v. quarantined m p i ob q qn (two_links i j) s \<and> l = L \<and> V v) (recover_quarantine m p n q qn)
    (\<lambda>(restored, cleaned) s l v. \<not> cleaned \<and> (\<exists>es D. aborted p n q i j es D \<and> quarantined m p i ob q qn D s \<and> l = L @ es) \<and> V v)
    (\<lambda>_ _ _ _. False)" (is "triple ?P _ ?Q ?R")
proof -
  let ?A = "\<lambda>s l v. (\<exists>es D. aborted p n q i j es D \<and> quarantined m p i ob q qn D s \<and> l = L @ es) \<and> V v"
  let ?L = "\<lambda>s l v. quarantined m p i ob q qn (two_links i j) s \<and> l = L @ [Linked p n j] \<and> V v"
  have "triple ?P (restore_quarantined_file m p n q) (\<lambda>_. ?A) ?R"
    unfolding restore_quarantined_file_def
  proof (rule triple_except_os)
    show "triple ?P (bindP (syscall m (call_link q ''target'' p n)) (\<lambda>_. bindP (ignoring_os (syscall m (call_unlink q ''target''))) (\<lambda>_. ret True)))
      (\<lambda>_. ?A) (\<lambda>e s l v. (\<exists>x. e = Os x) \<and> ?A s l v)"
    proof (intro triple_bind)
      show "triple ?P (syscall m (call_link q ''target'' p n)) (\<lambda>_. ?L) (\<lambda>e s l v. (\<exists>x. e = Os x) \<and> ?A s l v)"
        by (intro triple_syscall stable_quarantined m)
          (auto simp: call_link_def call_link_object_def quarantined_def entry_def [of _ q] split: option.splits if_splits intro: aborted.intros)
      show "triple ?L (ignoring_os (syscall m (call_unlink q ''target''))) (\<lambda>_. ?A) (\<lambda>e s l v. (\<exists>x. e = Os x) \<and> ?A s l v)"
        by (intro triple_ignoring triple_syscall stable_quarantined m)
          (auto simp: call_unlink_def quarantined_def entry_def [of _ q] split: option.splits if_splits intro: aborted.intros)
      show "triple ?A (ret True) (\<lambda>_. ?A) (\<lambda>e s l v. (\<exists>x. e = Os x) \<and> ?A s l v)" by (rule triple_ret)
    qed
  qed (auto intro: triple_ret)
  moreover have "triple ?A (except_os (bindP (syscall m (call_rmdir p qn)) (\<lambda>_. ret (restored, True))) (\<lambda>_. ret (restored, False))) ?Q ?R" for restored
  proof (rule triple_except_os)
    have "stable m ?A" by (intro stable_intros stable_quarantine m)
    then have "triple ?A (syscall m (call_rmdir p qn)) (\<lambda>_ _ _ _. False) (\<lambda>e s l v. (\<exists>x. e = Os x) \<and> ?A s l v)"
      by (rule triple_syscall) (auto simp: call_rmdir_def quarantined_def elim!: aborted.cases split: option.splits if_splits)
    then show "triple ?A (bindP (syscall m (call_rmdir p qn)) (\<lambda>_. ret (restored, True))) ?Q (\<lambda>e s l v. (\<exists>x. e = Os x) \<and> ?A s l v)"
      by (rule triple_bind) (rule triple_ret, simp)
  qed (auto intro!: triple_ret)
  ultimately show ?thesis
    unfolding recover_quarantine_def by (intro triple_bind triple_if) (auto intro!: triple_ret)
qed

lemma recovers_and_fails:
  assumes m: "peers m"
  shows "triple (\<lambda>s l v. quarantined m p i ob q qn (two_links i j) s \<and> l = L \<and> V v) (recover_and_fail m path p n q qn msg) Q
    (\<lambda>e s l v. (\<exists>msg'. e = Exit (Fail_json msg' (Some (recovery_path_of path qn))))
       \<and> (\<exists>es D. aborted p n q i j es D \<and> quarantined m p i ob q qn D s \<and> l = L @ es) \<and> V v)" (is "triple ?P _ _ ?R")
  unfolding recover_and_fail_def
proof (rule triple_bind)
  show "triple ?P (recover_quarantine m p n q qn)
    (\<lambda>(restored, cleaned) s l v. \<not> cleaned \<and> (\<exists>es D. aborted p n q i j es D \<and> quarantined m p i ob q qn D s \<and> l = L @ es) \<and> V v) ?R"
    using recovers [OF m] by (rule triple_weaken) auto
next
  fix x :: "bool \<times> bool"
  obtain restored cleaned where x: "x = (restored, cleaned)" by (cases x)
  let ?A = "\<lambda>s l v. \<not> cleaned \<and> (\<exists>es D. aborted p n q i j es D \<and> quarantined m p i ob q qn D s \<and> l = L @ es) \<and> V v"
  have "triple ?A (bindP (if cleaned then update_vars (uv_name_update (\<lambda>_. [])) else ret ())
      (\<lambda>_. fail_json (msg @ ''; '' @ quarantine_recovery_summary restored cleaned) (Some (quarantine_recovery_path path qn cleaned)))) Q ?R"
    by (rule triple_bind [where Q' = "\<lambda>_. ?A"], cases cleaned)
      (auto intro: tripleI triple_ret triple_raising simp: fail_json_def quarantine_recovery_path_def)
  then show "triple (case x of (restored, cleaned) \<Rightarrow> \<lambda>s l v. \<not> cleaned \<and> (\<exists>es D. aborted p n q i j es D
        \<and> quarantined m p i ob q qn D s \<and> l = L @ es) \<and> V v)
      (case x of (restored, cleaned) \<Rightarrow> bindP (if cleaned then update_vars (uv_name_update (\<lambda>_. [])) else ret ())
        (\<lambda>_. fail_json (msg @ ''; '' @ quarantine_recovery_summary restored cleaned) (Some (quarantine_recovery_path path qn cleaned)))) Q ?R"
    by (simp add: x)
qed

section \<open>The checksum\<close>

lemma reads_chunk:
  assumes "stable m P" "\<forall>s l v. P s l v \<longrightarrow> keeps i ob s"
  shows "triple P (syscall m (call_read i off count)) (\<lambda>chunk s l v. chunk = take count (drop off (ob_data ob)) \<and> P s l v)
    (\<lambda>e s l v. (\<exists>x. e = Os x) \<and> P s l v)"
proof (rule triple_reading [OF assms(1)])
  show "chunk = take count (drop off (ob_data ob)) \<and> P s l v"
    if p: "P s l v" and c: "call_read i off count t s = Inr (chunk, s, [])" for t s l v chunk
    using keeps_fields [OF assms(2) [rule_format, OF p]] p c by (auto simp: call_read_def split: if_splits)
qed (auto dest: reading_calls)

text \<open>The loop ends with the whole content, when each chunk is the next part of it.\<close>

lemma read_loop_reads:
  assumes chunk: "\<forall>off. triple P (syscall m (call_read i off CHUNK)) (\<lambda>chunk s l v. chunk = take CHUNK (drop off data) \<and> P s l v) R"
  shows "holds P w \<Longrightarrow> acc = take (length acc) data \<Longrightarrow> meets (read_loop m i acc) w (\<lambda>read s l v. read = data \<and> P s l v) R"
proof (induction "length data - length acc" arbitrary: acc w rule: less_induct)
  case less
  note loop = read_loop.simps [of m i acc w]
  from tripleD [OF chunk [rule_format, of "length acc"] less.prems(1)] show ?case
  proof (cases rule: meets_cases)
    case (stop e w1)
    then show ?thesis unfolding meets_def loop by simp
  next
    case (result chunk w1)
    then have c: "chunk = take CHUNK (drop (length acc) data)" and p: "holds P w1" by simp_all
    show ?thesis
    proof (cases "chunk = []")
      case True
      with c have "length data \<le> length acc" by (simp add: CHUNK_def)
      with less.prems(2) have "acc = data" by simp
      with result(1) p True show ?thesis unfolding meets_def loop by simp
    next
      case False
      have "acc @ chunk = take (length (acc @ chunk)) data"
        using less.prems(2) c by (metis append_take_drop_id append_eq_append_conv append_eq_conv_conj length_append length_take take_add)
      moreover from False c have "length data - length (acc @ chunk) < length data - length acc" by (cases chunk) auto
      ultimately have "meets (read_loop m i (acc @ chunk)) w1 (\<lambda>read s l v. read = data \<and> P s l v) R"
        using less.hyps [of "acc @ chunk" w1] p by blast
      with result(1) False show ?thesis unfolding meets_def loop by simp
    qed
  qed
qed

lemma checksum_reads:
  assumes chunk: "\<forall>off. triple P (syscall m (call_read i off CHUNK)) (\<lambda>chunk s l v. chunk = take CHUNK (drop off data) \<and> P s l v) R"
    and seek: "triple P (syscall m call_nothing) (\<lambda>_. P) R"
  shows "triple P (checksum_fd m i) (\<lambda>digest s l v. digest = m_sha m data \<and> P s l v) R"
  unfolding checksum_fd_def
proof (intro triple_bind)
  show "triple P (syscall m call_nothing) (\<lambda>_. P) R" by (rule seek)
  show "triple P (read_loop m i []) (\<lambda>read s l v. read = data \<and> P s l v) R" by (rule tripleI, rule read_loop_reads [OF chunk]) simp_all
  show "triple (\<lambda>s l v. read = data \<and> P s l v) (ret (m_sha m read)) (\<lambda>digest s l v. digest = m_sha m data \<and> P s l v) R" for read
    by (rule triple_ret) simp
qed

lemma checksum_is:
  assumes P: "stable m P" "\<forall>s l v. P s l v \<longrightarrow> keeps i ob s"
  shows "triple P (checksum_fd m i) (\<lambda>digest s l v. digest = m_sha m (ob_data ob) \<and> P s l v) (\<lambda>e s l v. (\<exists>x. e = Os x) \<and> P s l v)"
proof (rule checksum_reads)
  show "triple P (syscall m call_nothing) (\<lambda>_. P) (\<lambda>e s l v. (\<exists>x. e = Os x) \<and> P s l v)"
    by (rule triple_reading [OF P(1)]) (auto dest: reading_calls)
qed (use reads_chunk [OF P] in blast)

section \<open>Checks in the quarantine\<close>

text \<open>What the module verifies of a file before it removes it.\<close>

definition verified_object :: "machine \<Rightarrow> unlink_params \<Rightarrow> nat \<Rightarrow> int \<Rightarrow> int \<Rightarrow> obj \<Rightarrow> bool" where
  "verified_object m ps mode uid gid ob \<longleftrightarrow> is_reg (ob_mode ob) \<and> imode (ob_mode ob) = mode \<and> int (ob_uid ob) = uid
     \<and> int (ob_gid ob) = gid \<and> m_sha m (ob_data ob) = up_checksum ps"

lemma expected_status:
  assumes "status_of i ob st" shows "expected_file mode uid gid st \<longleftrightarrow> is_reg (ob_mode ob) \<and> imode (ob_mode ob) = mode
    \<and> int (ob_uid ob) = uid \<and> int (ob_gid ob) = gid"
  using assms by (auto simp: status_of_def expected_file_def stat_of_def)

lemma checks_quarantined:
  assumes m: "peers m" and st: "status_of i ob st"
  shows "triple (\<lambda>s l v. quarantined m p i ob q qn (two_links i j) s \<and> l = L \<and> V v)
    (check_quarantined m ps p n mode uid gid \<lparr>tg_file = i, tg_stat = st\<rparr> q qn)
    (\<lambda>_ s l v. j = i \<and> verified_object m ps mode uid gid ob \<and> quarantined m p i ob q qn (two_links i i) s \<and> l = L \<and> V v)
    (\<lambda>e s l v. (\<exists>msg. e = Exit (Fail_json msg (Some (recovery_path_of (up_path ps) qn))))
       \<and> (\<exists>es D. aborted p n q i j es D \<and> quarantined m p i ob q qn D s \<and> l = L @ es) \<and> V v)" (is "triple ?P _ ?Q ?R")
proof -
  have f: "triple ?P (recover_and_fail m (up_path ps) p n q qn msg) Q ?R" for msg Q by (rule recovers_and_fails [OF m])
  have s: "triple ?P (syscall m (call_stat q ''target''))
      (\<lambda>st' s l v. (\<exists>ob'. st' = stat_of j ob') \<and> (j = i \<longrightarrow> status_of i ob st') \<and> ?P s l v) (\<lambda>e s l v. (\<exists>x. e = Os x) \<and> ?P s l v)"
    by (intro triple_reading stable_quarantined m)
      (auto dest: reading_calls simp: call_stat_def call_fstat_def quarantined_def entry_def [of _ q] keeps_status split: option.splits)
  have k: "triple ?P (checksum_fd m i) (\<lambda>digest s l v. digest = m_sha m (ob_data ob) \<and> ?P s l v) (\<lambda>e s l v. (\<exists>x. e = Os x) \<and> ?P s l v)"
    by (intro checksum_is stable_quarantined m) (auto simp: quarantined_def)
  have e: "triple ?P (except_os c (\<lambda>_. recover_and_fail m (up_path ps) p n q qn msg)) Q ?R"
    if "triple ?P c Q (\<lambda>e s l v. (\<exists>x. e = Os x) \<and> ?P s l v)" for c Q msg
    by (rule triple_except_os [OF that]) (auto intro: f)
  let ?S = "\<lambda>st' s l v. (\<exists>ob'. st' = stat_of j ob') \<and> (j = i \<longrightarrow> status_of i ob st') \<and> ?P s l v"
  let ?D = "\<lambda>x s l v. ?S (fst x) s l v \<and> snd x = m_sha m (ob_data ob)"
  have d: "triple (?S st') (bindP (checksum_fd m i) (\<lambda>digest. ret (st', digest))) ?D (\<lambda>e s l v. (\<exists>x. e = Os x) \<and> ?P s l v)" for st'
  proof (rule triple_bind)
    show "triple (?S st') (checksum_fd m i) (\<lambda>digest s l v. ?S st' s l v \<and> digest = m_sha m (ob_data ob)) (\<lambda>e s l v. (\<exists>x. e = Os x) \<and> ?P s l v)"
      by (rule triple_weaken [OF triple_frame [OF k, where C = "(\<exists>ob'. st' = stat_of j ob') \<and> (j = i \<longrightarrow> status_of i ob st')"]]) simp_all
  qed (rule triple_ret, simp)
  have t: "triple (?S st') (if same_identity st st' then ret () else recover_and_fail m (up_path ps) p n q qn msg) (\<lambda>_. ?P) ?R" for st' msg
    by (rule triple_if) (auto intro: triple_ret triple_weaken [OF f])
  show ?thesis
    unfolding check_quarantined_def target.simps
  proof (rule triple_bind [OF e [OF s]], rule triple_bind [OF t], rule triple_bind [OF e [OF triple_bind [OF s d]]])
    fix x :: "stat_result \<times> string"
    obtain st' digest where x: "x = (st', digest)" by (cases x)
    have "triple (?D x)
      (if same_identity st st' \<and> expected_file mode uid gid st' \<and> digest = up_checksum ps then ret ()
       else recover_and_fail m (up_path ps) p n q qn ''quarantined removal target changed before deletion'') ?Q ?R"
    proof (rule triple_if)
      assume c: "same_identity st st' \<and> expected_file mode uid gid st' \<and> digest = up_checksum ps"
      show "triple (?D x) (ret ()) ?Q ?R"
        by (rule triple_ret) (use c status_ino [OF st] expected_status in \<open>auto simp: verified_object_def x\<close>)
    qed (auto intro: triple_weaken [OF f])
    then show "triple (?D x)
      (case x of (final_quarantine, digest) \<Rightarrow>
         if same_identity st final_quarantine \<and> expected_file mode uid gid final_quarantine \<and> digest = up_checksum ps then ret ()
         else recover_and_fail m (up_path ps) p n q qn ''quarantined removal target changed before deletion'') ?Q ?R"
      by (simp add: x)
  qed
qed

section \<open>The course of a run\<close>

text \<open>
  What a run has done to the file system, and the entries its quarantine has left, if there is one:
  before the file is moved, after a failure with the object \<open>j\<close> moved, and after the verified object \<open>i\<close> was
  removed.
\<close>

datatype phase = Before | Aborted | Done

inductive course :: "nat \<Rightarrow> string \<Rightarrow> nat \<Rightarrow> nat \<Rightarrow> string \<Rightarrow> effect list \<Rightarrow> (string \<times> nat) list option \<Rightarrow> phase \<Rightarrow> bool" for p n i q qn where
  nothing: "course p n i q qn [] None Before"
| made: "course p n i q qn [Made p qn q] (Some []) Before"
| unmade: "course p n i q qn [Made p qn q, Removed p qn q] None Before"
| preserved: "course p n i q qn [Made p qn q, Linked q ''verified'' i] (Some (one_link i)) Before"
| aborts: "aborted p n q i j es D \<Longrightarrow>
    course p n i q qn ([Made p qn q, Linked q ''verified'' i, Moved p n q ''target'' j] @ es) (Some D) Aborted"
| removed: "course p n i q qn [Made p qn q, Linked q ''verified'' i, Moved p n q ''target'' i, Removed q ''target'' i] (Some (one_link i)) Done"
| emptied: "course p n i q qn [Made p qn q, Linked q ''verified'' i, Moved p n q ''target'' i, Removed q ''target'' i,
    Removed q ''verified'' i] (Some []) Done"
| cleaned: "course p n i q qn [Made p qn q, Linked q ''verified'' i, Moved p n q ''target'' i, Removed q ''target'' i,
    Removed q ''verified'' i, Removed p qn q] None Done"

definition changed_exit :: "stop \<Rightarrow> bool" where
  "changed_exit e \<longleftrightarrow> (\<exists>warning path. e = Exit (Exit_json True warning path))"

text \<open>Only a removal is reported as a change, and a failure after the move names the recovery path.\<close>

definition fitting :: "string \<Rightarrow> string \<Rightarrow> (string \<times> nat) list option \<Rightarrow> phase \<Rightarrow> stop \<Rightarrow> bool" where
  "fitting path qn D ph e \<longleftrightarrow>
     (changed_exit e \<longrightarrow> ph = Done)
     \<and> (\<forall>recovery_path. e = Exit (Exit_json True False recovery_path) \<longrightarrow> D = None)
     \<and> (ph = Done \<longrightarrow> D \<in> {None, Some []} \<or> changed_exit e)
     \<and> (ph = Aborted \<longrightarrow> (\<exists>msg. e = Exit (Fail_json msg (Some (recovery_path_of path qn)))))"

definition halted :: "machine \<Rightarrow> unlink_params \<Rightarrow> nat \<Rightarrow> string \<Rightarrow> nat \<Rightarrow> obj \<Rightarrow> bool \<Rightarrow> effect list \<Rightarrow> stop \<Rightarrow> unlink_vars assertion" where
  "halted m ps p n i ob ok L e s l v \<longleftrightarrow>
     (\<exists>q qn es D ph. course p n i q qn es D ph \<and> l = L @ es \<and> keeps i ob s \<and> (ph = Done \<longrightarrow> ok)
        \<and> (case D of None \<Rightarrow> True | Some D' \<Rightarrow> quarantined m p i ob q qn D' s) \<and> fitting (up_path ps) qn D ph e
        \<and> (uv_name v = [] \<or> uv_name v = qn \<and> D \<noteq> None))"

lemma haltedI:
  assumes "course p n i q qn es D ph" "l = L @ es" "keeps i ob s" "ph = Done \<longrightarrow> ok"
    "case D of None \<Rightarrow> True | Some D' \<Rightarrow> quarantined m p i ob q qn D' s" "fitting (up_path ps) qn D ph e"
    "uv_name v = [] \<or> uv_name v = qn \<and> D \<noteq> None"
  shows "halted m ps p n i ob ok L e s l v"
  using assms unfolding halted_def by blast

lemma changed_exit_simps [simp]:
  "changed_exit (Exit (Exit_json changed warning recovery_path)) \<longleftrightarrow> changed" "\<not> changed_exit (Exit (Fail_json msg recovery_path))"
  "\<not> changed_exit (Os x)" "\<not> changed_exit (Raised r)"
  by (auto simp: changed_exit_def)

lemma fitting_os [simp]: "fitting path qn D ph (Os x) \<longleftrightarrow> (ph = Done \<longrightarrow> D \<in> {None, Some []}) \<and> ph \<noteq> Aborted"
  by (auto simp: fitting_def)

lemma removes_quarantined:
  assumes m: "peers m"
  shows "triple (\<lambda>s l v. quarantined m p i ob q qn (two_links i i) s \<and> l = L @ [Made p qn q, Linked q ''verified'' i, Moved p n q ''target'' i] \<and> uv_name v = qn)
    (remove_quarantined m ps p n q qn) Q (halted m ps p n i ob True L)" (is "triple ?P _ _ ?R")
proof -
  let ?moved = "[Made p qn q, Linked q ''verified'' i, Moved p n q ''target'' i]"
  let ?T = "\<lambda>s l v. quarantined m p i ob q qn (one_link i) s \<and> l = L @ ?moved @ [Removed q ''target'' i] \<and> uv_name v = qn"
  let ?E = "\<lambda>s l v. quarantined m p i ob q qn [] s \<and> l = L @ ?moved @ [Removed q ''target'' i, Removed q ''verified'' i] \<and> uv_name v = qn"
  let ?C = "\<lambda>s l v. keeps i ob s \<and> l = L @ ?moved @ [Removed q ''target'' i, Removed q ''verified'' i, Removed p qn q]"
  have h: "?T s l v \<Longrightarrow> fitting (up_path ps) qn (Some (one_link i)) Done e \<Longrightarrow> ?R e s l v"
    "?E s l v \<Longrightarrow> fitting (up_path ps) qn (Some []) Done e \<Longrightarrow> ?R e s l v"
    "?C s l v \<Longrightarrow> uv_name v = [] \<Longrightarrow> fitting (up_path ps) qn None Done e
      \<Longrightarrow> ?R e s l v" for e s l v
    using haltedI [OF course.removed] haltedI [OF course.emptied] haltedI [OF course.cleaned] by (auto simp: quarantined_def)
  have a: "triple ?P (recover_and_fail m (up_path ps) p n q qn msg) Q' ?R" for msg and Q' :: "unit \<Rightarrow> unlink_vars assertion"
  proof (rule triple_weaken [OF recovers_and_fails [OF m]])
    show "?R e s l v" if "(\<exists>msg'. e = Exit (Fail_json msg' (Some (recovery_path_of (up_path ps) qn))))
       \<and> (\<exists>es D. aborted p n q i i es D \<and> quarantined m p i ob q qn D s \<and> l = (L @ ?moved) @ es) \<and> uv_name v = qn" for e s l v
      using that haltedI [OF course.aborts] by (auto simp: quarantined_def fitting_def)
  qed auto
  show ?thesis
    unfolding remove_quarantined_def
  proof (intro triple_bind)
    show "triple ?P (except_os (syscall m (call_unlink q ''target''))
        (\<lambda>_. recover_and_fail m (up_path ps) p n q qn ''atomic unlink failed after quarantine'')) (\<lambda>_. ?T) ?R"
    proof (rule triple_except_os)
      show "triple ?P (syscall m (call_unlink q ''target'')) (\<lambda>_. ?T) (\<lambda>e s l v. (\<exists>x. e = Os x) \<and> ?P s l v)"
        by (intro triple_syscall stable_quarantined m)
          (auto simp: call_unlink_def quarantined_def entry_def [of _ q] split: option.splits if_splits)
    qed (auto intro: a)
    show "triple ?T (except_os (syscall m (call_unlink q ''verified'')) (\<lambda>_. exit_json True True (Some (recovery_path_of (up_path ps) qn)))) (\<lambda>_. ?E) ?R"
    proof (rule triple_except_os)
      show "triple ?T (syscall m (call_unlink q ''verified'')) (\<lambda>_. ?E) (\<lambda>e s l v. (\<exists>x. e = Os x) \<and> ?T s l v)"
        by (intro triple_syscall stable_quarantined m)
          (auto simp: call_unlink_def quarantined_def entry_def [of _ q] split: option.splits if_splits)
      show "triple (\<lambda>s l v. (\<exists>y. Os x = Os y) \<and> ?T s l v) (exit_json True True (Some (recovery_path_of (up_path ps) qn))) (\<lambda>_. ?E) ?R" for x
        unfolding exit_json_def by (rule triple_raising) (auto intro!: h(1) simp: fitting_def)
    qed auto
    show "triple ?E (close m q) (\<lambda>_. ?E) ?R"
      by (intro triple_close stable_quarantined m) (auto intro!: h(2))
    show "triple ?E (update_vars (uv_quarantine_update (\<lambda>_. None))) (\<lambda>_. ?E) ?R" by (rule triple_update) simp
    show "triple ?E (except_os (syscall m (call_rmdir p qn)) (\<lambda>_. exit_json True True None)) (\<lambda>_. ?C) ?R"
    proof (rule triple_except_os)
      show "triple ?E (syscall m (call_rmdir p qn)) (\<lambda>_. ?C) (\<lambda>e s l v. (\<exists>x. e = Os x) \<and> ?E s l v)"
        by (intro triple_syscall stable_quarantined m) (auto simp: call_rmdir_def quarantined_def split: option.splits if_splits)
      show "triple (\<lambda>s l v. (\<exists>y. Os x = Os y) \<and> ?E s l v) (exit_json True True None) (\<lambda>_. ?C) ?R" for x
        unfolding exit_json_def by (rule triple_raising) (auto intro!: h(2) simp: fitting_def)
    qed auto
    show "triple ?C (update_vars (uv_name_update (\<lambda>_. []))) (\<lambda>_ s l v. ?C s l v \<and> uv_name v = []) ?R" by (rule triple_update) simp
    show "triple (\<lambda>s l v. ?C s l v \<and> uv_name v = []) (exit_json True False None) Q ?R"
      unfolding exit_json_def by (rule triple_raising) (auto intro!: h(3) simp: fitting_def)
  qed
qed

lemma removes_target:
  assumes m: "peers m" "kernel m" and st: "status_of i ob st" and r: "is_reg (ob_mode ob)"
  shows "triple (\<lambda>s l v. fs_obj s p \<noteq> None \<and> keeps i ob s \<and> l = L \<and> uv_name v = [])
    (remove_target m ps p n mode uid gid \<lparr>tg_file = i, tg_stat = st\<rparr>) Q (halted m ps p n i ob (verified_object m ps mode uid gid ob) L)"
    (is "triple ?P _ _ ?R")
proof -
  let ?Q = "\<lambda>D es q qn s l v. quarantined m p i ob q qn D s \<and> l = L @ es \<and> uv_name v = qn"
  let ?M = "\<lambda>q qn. [Made p qn q]" let ?V = "\<lambda>q qn. [Made p qn q, Linked q ''verified'' i]"
  let ?J = "\<lambda>q qn j. [Made p qn q, Linked q ''verified'' i, Moved p n q ''target'' j]"
  have h: "?Q [] (?M q qn) q qn s l v \<Longrightarrow> ?R (Os x) s l v" "?Q (one_link i) (?V q qn) q qn s l v \<Longrightarrow> fitting (up_path ps) qn (Some (one_link i)) Before e \<Longrightarrow> ?R e s l v"
    for q qn s l v x e
    using haltedI [OF course.made] haltedI [OF course.preserved] by (auto simp: quarantined_def)
  have g: "triple (\<lambda>s l v. \<exists>j. ?Q (two_links i j) (?J q qn j) q qn s l v)
      (bindP (check_quarantined m ps p n mode uid gid \<lparr>tg_file = i, tg_stat = st\<rparr> q qn) (\<lambda>_. remove_quarantined m ps p n q qn)) Q ?R" for q qn
  proof (rule triple_ex, rule triple_bind)
    fix j
    show "triple (?Q (two_links i j) (?J q qn j) q qn) (check_quarantined m ps p n mode uid gid \<lparr>tg_file = i, tg_stat = st\<rparr> q qn)
        (\<lambda>_ s l v. (j = i \<and> verified_object m ps mode uid gid ob) \<and> ?Q (two_links i i) (?J q qn i) q qn s l v) ?R"
    proof (rule triple_weaken [OF checks_quarantined [OF m(1) st]])
      show "?R e s l v" if "(\<exists>msg. e = Exit (Fail_json msg (Some (recovery_path_of (up_path ps) qn))))
         \<and> (\<exists>es D. aborted p n q i j es D \<and> quarantined m p i ob q qn D s \<and> l = (L @ ?J q qn j) @ es) \<and> uv_name v = qn" for e s l v
        using that haltedI [OF course.aborts] by (auto simp: quarantined_def fitting_def)
    qed auto
    show "triple (\<lambda>s l v. (j = i \<and> verified_object m ps mode uid gid ob) \<and> ?Q (two_links i i) (?J q qn i) q qn s l v) (remove_quarantined m ps p n q qn) Q ?R"
    proof (cases "j = i \<and> verified_object m ps mode uid gid ob")
      case True
      with removes_quarantined [OF m(1), where L = L and ps = ps and n = n and i = i and q = q and qn = qn and Q = Q]
      show ?thesis by simp
    qed (auto intro: tripleI)
  qed
  have k: "triple (?Q [] (?M q qn) q qn) (preserve_open_file m i q st) (\<lambda>_. ?Q (one_link i) (?V q qn) q qn) ?R" for q qn
  proof (rule triple_weaken [OF preserve_keeps [OF m(1) st r, where L = "L @ ?M q qn" and V = "\<lambda>v. uv_name v = qn"]])
    show "?R e s l v" if "(\<exists>x. e = Os x) \<and> (quarantined m p i ob q qn [] s \<and> l = L @ ?M q qn
       \<or> quarantined m p i ob q qn (one_link i) s \<and> l = (L @ ?M q qn) @ [Linked q ''verified'' i]) \<and> uv_name v = qn" for e s l v
      using that by (auto intro: h)
  qed simp_all
  have u: "triple (?Q (one_link i) (?V q qn) q qn)
      (except_os (syscall m (call_rename p n q ''target''))
         (\<lambda>_. fail_json ''cannot quarantine the removal target; verified inode preserved in quarantine'' (Some (recovery_path_of (up_path ps) qn))))
      (\<lambda>_ s l v. \<exists>j. ?Q (two_links i j) (?J q qn j) q qn s l v) ?R" for q qn
  proof (rule triple_except_os)
    show "triple (?Q (one_link i) (?V q qn) q qn) (syscall m (call_rename p n q ''target''))
        (\<lambda>_ s l v. \<exists>j. ?Q (two_links i j) (?J q qn j) q qn s l v) (\<lambda>e s l v. ?Q (one_link i) (?V q qn) q qn s l v \<and> (\<exists>x. e = Os x))"
      by (rule triple_weaken [OF move_target [OF m(1), where V = "\<lambda>v. uv_name v = qn" and L = "L @ ?V q qn" and n = n]])
        (simp_all, (elim exE conjE, intro exI conjI; simp)?)
    show "triple (\<lambda>s l v. ?Q (one_link i) (?V q qn) q qn s l v \<and> (\<exists>y. Os x = Os y))
        (fail_json ''cannot quarantine the removal target; verified inode preserved in quarantine'' (Some (recovery_path_of (up_path ps) qn)))
        (\<lambda>_ s l v. \<exists>j. ?Q (two_links i j) (?J q qn j) q qn s l v) ?R" for x
      unfolding fail_json_def by (rule triple_raising) (auto intro!: h(2) simp: fitting_def)
  qed auto
  let ?N = "\<lambda>(q, qn) s l v. quarantined m p i ob q qn [] s \<and> l = L @ [Made p qn q] \<and> uv_name v = []"
  have "triple ?P (make_private_quarantine m p 10) ?N ?R"
  proof (rule triple_weaken [OF make_quarantine [OF m, where V = "\<lambda>v. uv_name v = []"]])
    show "?R e s l v" if "(\<exists>x. e = Os x) \<and> (\<exists>es. l = L @ es \<and> only_made m p i ob es s) \<and> uv_name v = []" for e s l v
    proof -
      from that obtain es x where l: "l = L @ es" and o: "only_made m p i ob es s" and e: "e = Os x" and v: "uv_name v = []" by blast
      from o consider "es = []" "keeps i ob s" | q qn where "es = [Made p qn q]" "keeps i ob s" "quarantined m p i ob q qn [] s"
        | q qn where "es = [Made p qn q, Removed p qn q]" "keeps i ob s"
        unfolding only_made_def by blast
      then show ?thesis
      proof cases
        case 1
        with l e v show ?thesis by (intro haltedI [OF course.nothing]) simp_all
      next
        case (2 q qn)
        with l e v show ?thesis by (intro haltedI [OF course.made]) simp_all
      next
        case (3 q qn)
        with l e v show ?thesis by (intro haltedI [OF course.unmade]) simp_all
      qed
    qed
  qed simp_all
  then show ?thesis
    unfolding remove_target_def
  proof (rule triple_bind)
    fix x :: "nat \<times> string"
    obtain q qn where x: "x = (q, qn)" by (cases x)
    have "triple (\<lambda>s l v. quarantined m p i ob q qn [] s \<and> l = L @ [Made p qn q] \<and> uv_name v = [])
        (update_vars (\<lambda>v. v\<lparr>uv_quarantine := Some q, uv_name := qn\<rparr>)) (\<lambda>_. ?Q [] (?M q qn) q qn) ?R"
      by (rule triple_update) simp
    from triple_bind [OF this triple_bind [OF k triple_bind [OF u g]]]
    show "triple (?N x)
      (case x of (q, qn) \<Rightarrow> bindP (update_vars (\<lambda>v. v\<lparr>uv_quarantine := Some q, uv_name := qn\<rparr>)) (\<lambda>_.
         bindP (preserve_open_file m (tg_file \<lparr>tg_file = i, tg_stat = st\<rparr>) q (tg_stat \<lparr>tg_file = i, tg_stat = st\<rparr>)) (\<lambda>_.
         bindP (except_os (syscall m (call_rename p n q ''target''))
           (\<lambda>_. fail_json ''cannot quarantine the removal target; verified inode preserved in quarantine'' (Some (recovery_path_of (up_path ps) qn)))) (\<lambda>_.
         bindP (check_quarantined m ps p n mode uid gid \<lparr>tg_file = i, tg_stat = st\<rparr> q qn) (\<lambda>_. remove_quarantined m ps p n q qn))))) Q ?R"
      by (simp add: x)
  qed
qed

section \<open>Before the file is moved\<close>

text \<open>What \<open>bind_target\<close> leaves: nothing changed, and nothing is reported as changed.\<close>

abbreviation unbound :: "nat \<Rightarrow> effect list \<Rightarrow> unlink_vars assertion" where
  "unbound p L s l v \<equiv> fs_obj s p \<noteq> None \<and> l = L \<and> uv_name v = []"

definition unchanged :: "effect list \<Rightarrow> stop \<Rightarrow> unlink_vars assertion" where
  "unchanged L e s l v \<longleftrightarrow> l = L \<and> uv_name v = [] \<and> \<not> changed_exit e"

lemma stable_unbound: "peers m \<Longrightarrow> stable m (\<lambda>s l v. unbound p L s l v)"
  unfolding stable_def by (auto simp del: not_None_eq dest: peers_exists)

lemma stable_file: "peers m \<Longrightarrow> stable m (\<lambda>s l v. keeps i ob s \<and> unbound p L s l v)"
  unfolding stable_def by (auto simp: peers_keeps simp del: not_None_eq dest: peers_exists)

lemma fails_unchanged: "(\<And>s l v. P s l v \<Longrightarrow> l = L \<and> uv_name v = []) \<Longrightarrow> triple P (fail_json msg r) Q (unchanged L)"
  unfolding fail_json_def by (rule triple_raising) (auto simp: unchanged_def changed_exit_def)

lemma checks_unchanged:
  "(\<And>s l v. P s l v \<Longrightarrow> l = L \<and> uv_name v = []) \<Longrightarrow>
    triple P (if c then ret () else fail_json msg r) (\<lambda>_ s l v. c \<and> P s l v) (unchanged L)"
  by (rule triple_if) (auto intro: triple_ret fails_unchanged)

text \<open>A call that reads, while nothing has changed.\<close>

lemma reads_unchanged:
  assumes "stable m P" "\<And>t s x s' es. f t s = Inr (x, s', es) \<Longrightarrow> s' = s \<and> es = []" "\<And>s l v. P s l v \<Longrightarrow> l = L \<and> uv_name v = []"
    and "\<And>t s l v x. P s l v \<Longrightarrow> f t s = Inr (x, s, []) \<Longrightarrow> Q x s l v"
  shows "triple P (syscall m f) Q (unchanged L)"
  using assms(1,2) _ assms(4) by (rule triple_reading) (use assms(3) in \<open>auto simp: unchanged_def changed_exit_def\<close>)

lemma keeps_self: "fs_obj s i = Some ob \<Longrightarrow> keeps i ob s"
  unfolding keeps_def by (rule exI [of _ "ob_ctime ob"]) simp

lemma binds_target:
  assumes m: "peers m"
  shows "triple (unbound p L) (bind_target m ps p n mode uid gid)
    (\<lambda>tg s l v. \<exists>i ob. tg_file tg = i \<and> status_of i ob (tg_stat tg) \<and> is_reg (ob_mode ob) \<and> keeps i ob s \<and> unbound p L s l v)
    (unchanged L)" (is "triple _ _ ?Q _")
proof -
  let ?F = "\<lambda>i ob s l v. keeps i ob s \<and> unbound p L s l v"
  let ?S = "\<lambda>i ob st s l v. status_of i ob st \<and> keeps i ob s \<and> unbound p L s l v"
  have stat: "triple (unbound p L) (except_os (syscall m (call_stat p n)) (\<lambda>e.
      if e = ENOENT then (if up_allow_absent ps then exit_json False False None else fail_json ''owned file is absent'' None)
      else raising (Os e))) (\<lambda>_. unbound p L) (unchanged L)"
  proof (rule triple_except_os)
    show "triple (unbound p L) (syscall m (call_stat p n)) (\<lambda>_. unbound p L) (\<lambda>e s l v. (\<exists>x. e = Os x) \<and> unbound p L s l v)"
      by (intro triple_reading stable_unbound m) (auto dest: reading_calls)
  qed (auto intro!: triple_if fails_unchanged triple_raising simp: exit_json_def unchanged_def changed_exit_def)
  have opened: "triple (unbound p L) (syscall m (call_open p n)) (\<lambda>_. unbound p L) (unchanged L)"
    by (intro reads_unchanged stable_unbound m) (auto dest: reading_calls)
  have fstat: "triple (unbound p L) (syscall m (call_fstat i)) (\<lambda>_ s l v. \<exists>ob. ?F i ob s l v) (unchanged L)" for i
    by (intro reads_unchanged stable_unbound m)
      (auto dest: reading_calls simp: call_fstat_def split: option.splits intro: keeps_self)
  have final: "triple (?F i ob) (syscall m (call_fstat i)) (\<lambda>st. ?S i ob st) (unchanged L)" for i ob
    by (intro reads_unchanged stable_file m) (auto dest: reading_calls simp: call_fstat_def keeps_status split: option.splits)
  have again: "triple (?S i ob st) (syscall m (call_stat p n)) (\<lambda>_. ?S i ob st) (unchanged L)" for i ob st
    by (rule triple_weaken [OF triple_frame [OF reads_unchanged [OF stable_file [OF m, of i ob p L], where Q = "\<lambda>_. ?F i ob" and L = L],
          where C = "status_of i ob st"]])
      (auto dest: reading_calls)
  have sum: "triple (?F i ob) (checksum_fd m i) (\<lambda>_. ?F i ob) (unchanged L)" for i ob
    by (rule triple_weaken [OF checksum_is [OF stable_file [OF m, of i ob p L], where i = i and ob = ob]])
      (auto simp: unchanged_def changed_exit_def)
  have tail: "triple (?F i ob) (bindP (checksum_fd m i) (\<lambda>digest.
     bindP (if digest = up_checksum ps then ret () else fail_json ''removal target checksum changed'' None) (\<lambda>_.
     bindP (syscall m (call_fstat i)) (\<lambda>final_fd.
     bindP (syscall m (call_stat p n)) (\<lambda>final_name.
     bindP (if same_snapshot final_fd final_name then ret ()
            else fail_json ''removal target changed at the unlink boundary'' None) (\<lambda>_.
     bindP (if expected_file mode uid gid final_fd then ret ()
            else fail_json ''removal target metadata changed at the unlink boundary'' None) (\<lambda>_.
     ret \<lparr>tg_file = i, tg_stat = final_fd\<rparr>))))))) ?Q (unchanged L)" for i ob
  proof (rule triple_bind [OF sum], rule triple_bind [OF checks_unchanged])
    fix digest and u :: unit
    show "triple (\<lambda>s l v. digest = up_checksum ps \<and> ?F i ob s l v) (bindP (syscall m (call_fstat i)) (\<lambda>final_fd.
     bindP (syscall m (call_stat p n)) (\<lambda>final_name.
     bindP (if same_snapshot final_fd final_name then ret ()
            else fail_json ''removal target changed at the unlink boundary'' None) (\<lambda>_.
     bindP (if expected_file mode uid gid final_fd then ret ()
            else fail_json ''removal target metadata changed at the unlink boundary'' None) (\<lambda>_.
     ret \<lparr>tg_file = i, tg_stat = final_fd\<rparr>))))) ?Q (unchanged L)"
    proof (rule triple_weaken [where Q = ?Q and R = "unchanged L" and P = "?F i ob"], rule triple_bind [OF final], rule triple_bind [OF again],
        rule triple_bind [OF checks_unchanged], simp, rule triple_bind [OF checks_unchanged], simp, rule triple_ret)
      show "?Q \<lparr>tg_file = i, tg_stat = st\<rparr> s l v"
        if "expected_file mode uid gid st \<and> same_snapshot st st' \<and> ?S i ob st s l v" for st st' s l v
        using that expected_status by auto
    qed simp_all
  qed simp
  have check: "triple (unbound p L) (if c then ret () else fail_json msg r) (\<lambda>_. unbound p L) (unchanged L)"
    "triple (?F i ob) (if c then ret () else fail_json msg r) (\<lambda>_. ?F i ob) (unchanged L)" for c msg r i ob
    by (rule triple_if, rule triple_ret, simp, rule fails_unchanged, simp)+
  have vars: "triple (unbound p L) (update_vars (uv_file_update (\<lambda>_. Some i))) (\<lambda>_. unbound p L) (unchanged L)" for i
    by (rule triple_update) simp
  show ?thesis
    unfolding bind_target_def
    by (rule triple_bind [OF check(1)], rule triple_bind [OF stat], rule triple_bind [OF check(1)], rule triple_bind [OF check(1)],
        rule triple_bind [OF check(1)], rule triple_bind [OF opened], rule triple_bind [OF vars], rule triple_bind [OF fstat], rule triple_ex,
        rule triple_bind [OF check(2)], rule tail)
qed

section \<open>The parent\<close>

text \<open>A descriptor is open on the directory that the caller named for the path, if it named one.\<close>

definition listed :: "machine \<Rightarrow> py \<Rightarrow> string \<Rightarrow> nat \<Rightarrow> bool" where
  "listed m parents path fd \<longleftrightarrow>
     (\<forall>expected. map_of (the_items parents) path = Some expected \<longrightarrow> (\<exists>dev. bound_identity m expected = Inr (dev, int fd)))"

lemma stable_exists: "peers m \<Longrightarrow> stable m (\<lambda>s l v. fs_obj s p \<noteq> None \<and> l = L \<and> C)"
  unfolding stable_def by (auto simp del: not_None_eq dest: peers_exists)

lemma closes_after:
  assumes c: "triple P c Q (\<lambda>_ s l v. l = L)"
  shows "triple P (closing m fd c) Q (\<lambda>_ s l v. l = L)"
  unfolding closing_def
proof (rule triple_handle [OF c])
  have "triple (\<lambda>s l v. l = L) (bindP (close m fd) (\<lambda>_. raising e)) Q (\<lambda>_ s l v. l = L)" for e
    by (rule triple_bind [OF triple_close]) (auto intro: stable_intros triple_raising)
  then show "triple (\<lambda>s l v. l = L) (case e of Exit _ \<Rightarrow> raising e | _ \<Rightarrow> bindP (close m fd) (\<lambda>_. raising e)) Q (\<lambda>_ s l v. l = L)" for e
    by (cases e) (auto intro: triple_raising)
qed

lemma checks_identity:
  "triple (\<lambda>s l v. l = L) (check_identity m expected fd)
     (\<lambda>_ s l v. fs_obj s fd \<noteq> None \<and> l = L \<and> (\<exists>dev. bound_identity m expected = Inr (dev, int fd))) (\<lambda>_ s l v. l = L)"
  (is "triple ?P _ ?Q ?R")
  unfolding check_identity_def
proof (rule triple_bind)
  show "triple ?P (syscall m (call_fstat fd)) (\<lambda>st s l v. fs_obj s fd \<noteq> None \<and> l = L \<and> st_ino st = fd) ?R"
    by (intro triple_reading stable_intros) (auto dest: reading_calls simp: call_fstat_def stat_of_def split: option.splits)
  show "triple (\<lambda>s l v. fs_obj s fd \<noteq> None \<and> l = L \<and> st_ino st = fd)
      (bindP (lift_exn (bound_identity m expected)) (\<lambda>(dev, ino). ensuring (int (st_dev st) = dev \<and> int (st_ino st) = ino) (Os EOTHER)))
      ?Q ?R" for st
    by (auto simp: triple_def meets_def bindP_def lift_exn_def ensuring_def ret_def raising_def split: sum.splits)
qed

lemma checks_listed:
  assumes m: "peers m"
  shows "triple (\<lambda>s l v. fs_obj s fd \<noteq> None \<and> l = L) (check_listed m parents path fd)
    (\<lambda>_ s l v. fs_obj s fd \<noteq> None \<and> l = L \<and> listed m parents path fd) (\<lambda>_ s l v. l = L)"
proof (cases "map_of (the_items parents) path")
  case (Some expected)
  have "triple (\<lambda>s l v. fs_obj s fd \<noteq> None \<and> l = L) (check_identity m expected fd)
    (\<lambda>_ s l v. fs_obj s fd \<noteq> None \<and> l = L \<and> listed m parents path fd) (\<lambda>_ s l v. l = L)"
    by (rule triple_weaken [OF checks_identity]) (auto simp: listed_def Some)
  then show ?thesis by (simp add: check_listed_def Some)
qed (auto simp: check_listed_def listed_def intro: triple_ret)

lemma walks_parent:
  assumes m: "peers m"
  shows "triple (\<lambda>s l v. l = L) (walk_parent m parents fd walked cs :: ('v, nat) io)
    (\<lambda>fd' s l v. l = L \<and> (if cs = [] then fd' = fd else fs_obj s fd' \<noteq> None \<and> listed m parents (walked @ concat (map ((@) ''/'') cs)) fd'))
    (\<lambda>_ s l v. l = L)"
proof (induction cs arbitrary: fd walked)
  case (Cons c cs)
  let ?R = "\<lambda>_ s l v. l = L"
  have o: "triple (\<lambda>s l v. l = L) (syscall m (call_open_dir fd c)) (\<lambda>fd' s l v. fs_obj s fd' \<noteq> None \<and> l = L) ?R"
    by (intro triple_reading stable_intros)
      (auto dest: reading_calls simp: call_open_dir_def has_type_def split: option.splits if_splits)
  have cl: "triple (\<lambda>s l v. fs_obj s fd' \<noteq> None \<and> l = L) (close m fd) (\<lambda>_ s l v. fs_obj s fd' \<noteq> None \<and> l = L) ?R" for fd'
    using stable_exists [OF m, of fd' L True] by (intro triple_close) auto
  have ch: "triple (\<lambda>s l v. fs_obj s fd' \<noteq> None \<and> l = L) (check_listed m parents path fd')
      (\<lambda>_ s l v. fs_obj s fd' \<noteq> None \<and> l = L \<and> listed m parents path fd') ?R" for fd' path
    by (rule checks_listed [OF m])
  have w: "triple (\<lambda>s l v. fs_obj s fd' \<noteq> None \<and> l = L \<and> listed m parents (walked @ ''/'' @ c) fd') (walk_parent m parents fd' (walked @ ''/'' @ c) cs :: ('v, nat) io)
      (\<lambda>r s l v. l = L \<and> (if c # cs = [] then r = fd else fs_obj s r \<noteq> None \<and> listed m parents (walked @ concat (map ((@) ''/'') (c # cs))) r)) ?R" for fd'
  proof (cases "cs = []")
    case True
    then show ?thesis by (auto intro: triple_ret)
  next
    case False
    show ?thesis by (rule triple_weaken [OF Cons.IH]) (simp_all add: False)
  qed
  show ?case
    unfolding walk_parent.simps
    by (rule triple_bind [OF closes_after [OF o]], rule triple_bind [OF closes_after [OF cl]], rule triple_bind [OF closes_after [OF ch]], rule w)
qed (auto intro: triple_ret)

lemma concat_slashes: "cs \<noteq> [] \<Longrightarrow> concat (map ((@) ''/'') cs) = ''/'' @ join_with ''/'' cs"
  by (induction cs rule: list_nonempty_induct) (auto simp: neq_Nil_conv)

lemma opens_parent:
  assumes m: "peers m"
  shows "triple (\<lambda>s l v. l = L) (open_parent m path parents)
    (\<lambda>(fd, n) s l v. fs_obj s fd \<noteq> None \<and> l = L \<and> n = last (path_components path)
       \<and> listed m parents (parent_of path) fd \<and> map_of (the_items parents) (parent_of path) \<noteq> None)
    (\<lambda>_ s l v. l = L)"
proof -
  let ?R = "\<lambda>_ s l v. l = L"
  let ?parent = "parent_of path" and ?dirs = "butlast (path_components path)"
  let ?W = "\<lambda>fd s l v. l = L \<and> (?parent \<noteq> ''/'' \<longrightarrow> fs_obj s fd \<noteq> None \<and> listed m parents ?parent fd)"
  let ?D = "\<lambda>fd s l v. fs_obj s fd \<noteq> None \<and> l = L \<and> listed m parents ?parent fd \<and> map_of (the_items parents) ?parent \<noteq> None"
  have base: "triple (\<lambda>s l v. l = L) (syscall m call_root) (\<lambda>_ s l v. l = L) ?R"
    by (intro triple_reading stable_intros) (auto dest: reading_calls)
  have walk: "triple (\<lambda>s l v. l = L) (walk_parent m parents base [] ?dirs) ?W ?R" for base
    by (rule triple_weaken [OF walks_parent [OF m]])
      (auto simp: concat_slashes parent_of_def split: if_splits)
  have check: "triple (?W fd) (bindP (ensuring (map_of (the_items parents) ?parent \<noteq> None) (Os EOTHER)) (\<lambda>_.
      if ?parent = ''/'' then check_listed m parents ?parent fd else ret ())) (\<lambda>_. ?D fd) ?R" for fd
  proof (cases "map_of (the_items parents) ?parent")
    case None
    then show ?thesis by (simp add: triple_def meets_def bindP_def ensuring_def raising_def)
  next
    case (Some expected)
    have "triple (?W fd) (if ?parent = ''/'' then check_listed m parents ?parent fd else ret ()) (\<lambda>_. ?D fd) ?R"
    proof (rule triple_if)
      show "triple (?W fd) (check_listed m parents ?parent fd) (\<lambda>_. ?D fd) ?R"
        unfolding check_listed_def Some option.case
        by (rule triple_weaken [OF checks_identity]) (auto simp: listed_def Some)
    qed (rule triple_ret, simp add: Some)
    then show ?thesis by (simp add: Some ensuring_def bindP_def ret_def [abs_def] triple_def meets_def)
  qed
  show ?thesis
    unfolding open_parent_def Let_def
    by (rule triple_bind [OF base], rule triple_bind [OF walk], rule triple_bind [OF closes_after [OF check]], rule triple_ret) simp
qed

section \<open>The whole run\<close>

text \<open>The run has ended: nothing was changed, or it took one of the courses.\<close>

definition took :: "machine \<Rightarrow> unlink_params \<Rightarrow> nat \<Rightarrow> string \<Rightarrow> bool \<Rightarrow> nat \<Rightarrow> obj \<Rightarrow> nat \<Rightarrow> string \<Rightarrow> effect list \<Rightarrow>
    (string \<times> nat) list option \<Rightarrow> phase \<Rightarrow> stop \<Rightarrow> fs \<Rightarrow> bool" where
  "took m ps p n ok i ob q qn es D ph e s \<longleftrightarrow> course p n i q qn es D ph \<and> keeps i ob s \<and> (ph = Done \<longrightarrow> ok)
     \<and> (case D of None \<Rightarrow> True | Some D' \<Rightarrow> quarantined m p i ob q qn D' s) \<and> fitting (up_path ps) qn D ph e"

definition ended :: "machine \<Rightarrow> unlink_params \<Rightarrow> nat \<Rightarrow> string \<Rightarrow> nat \<Rightarrow> int \<Rightarrow> int \<Rightarrow> effect list \<Rightarrow> stop \<Rightarrow> fs \<Rightarrow> effect list \<Rightarrow> bool" where
  "ended m ps p n mode uid gid L e s l \<longleftrightarrow>
     l = L \<and> (changed_exit e \<longrightarrow> up_check_mode ps)
     \<or> \<not> up_check_mode ps \<and> (\<exists>i ob q qn es D ph. l = L @ es \<and> is_reg (ob_mode ob)
         \<and> took m ps p n (verified_object m ps mode uid gid ob) i ob q qn es D ph e s)"

definition closable :: "machine \<Rightarrow> unlink_params \<Rightarrow> nat \<Rightarrow> string \<Rightarrow> nat \<Rightarrow> int \<Rightarrow> int \<Rightarrow> effect list \<Rightarrow> stop \<Rightarrow> unlink_vars assertion" where
  "closable m ps p n mode uid gid L e s l v \<longleftrightarrow>
     l = L \<and> (changed_exit e \<longrightarrow> up_check_mode ps) \<and> uv_name v = []
     \<or> \<not> up_check_mode ps \<and> (\<exists>i ob q qn es D ph. l = L @ es \<and> is_reg (ob_mode ob)
         \<and> took m ps p n (verified_object m ps mode uid gid ob) i ob q qn es D ph e s \<and> (uv_name v = [] \<or> uv_name v = qn \<and> D \<noteq> None))"

lemma closable_ended: "closable m ps p n mode uid gid L e s l v \<Longrightarrow> ended m ps p n mode uid gid L e s l"
  unfolding closable_def ended_def by blast

lemma stable_took: "peers m \<Longrightarrow> stable m (\<lambda>s l v. took m ps p n ok i ob q qn es D ph e s)"
  unfolding stable_def took_def by (cases D) (auto simp: peers_keeps stable_quarantine [unfolded stable_def])

lemma stable_closable: "peers m \<Longrightarrow> stable m (\<lambda>s l v. closable m ps p n mode uid gid L e s l v \<and> C v)"
  unfolding closable_def by (intro stable_intros stable_took) (auto simp: stable_def)

lemma stable_ended: "peers m \<Longrightarrow> stable m (\<lambda>s l v. ended m ps p n mode uid gid L e s l)"
  unfolding ended_def by (intro stable_intros stable_took) (auto simp: stable_def)

lemma halted_closable:
  "halted m ps p n i ob (verified_object m ps mode uid gid ob) L e s l v \<Longrightarrow> is_reg (ob_mode ob) \<Longrightarrow> \<not> up_check_mode ps \<Longrightarrow>
    closable m ps p n mode uid gid L e s l v"
  unfolding halted_def closable_def took_def by blast

lemma unchanged_closable: "unchanged L e s l v \<Longrightarrow> closable m ps p n mode uid gid L e s l v"
  by (simp add: unchanged_def closable_def)

text \<open>The last attempt to remove the quarantine succeeds only when it is empty.\<close>

lemma course_unmade: "course p n i q qn es (Some []) ph \<Longrightarrow> course p n i q qn (es @ [Removed p qn q]) None ph"
  by (auto elim!: course.cases aborted.cases intro: course.intros)

lemma rmdir_took:
  assumes c: "took m ps p n ok i ob q qn es (Some D) ph e s" and r: "call_rmdir p qn t s = Inr (u, s', es')"
  shows "took m ps p n ok i ob q qn (es @ es') None ph e s' \<and> es' = [Removed p qn q]"
proof -
  from c have q: "quarantined m p i ob q qn D s" by (simp add: took_def)
  with r have e: "D = []" "es' = [Removed p qn q]" "s' = drop_entry p qn s"
    by (auto simp: call_rmdir_def quarantined_def split: if_splits)
  moreover have "fitting (up_path ps) qn None ph e"
    using c by (auto simp: took_def fitting_def)
  ultimately show ?thesis
    using c course_unmade [of p n i q qn es ph] by (simp add: took_def)
qed

lemma removes_quarantine:
  assumes m: "peers m"
  shows "triple (\<lambda>s l v. closable m ps p n mode uid gid L e s l v \<and> v = v0 \<and> uv_name v0 \<noteq> [])
    (ignoring_os (syscall m (call_rmdir p (uv_name v0)))) (\<lambda>_ s l v. ended m ps p n mode uid gid L e s l) R"
proof (rule triple_ignoring, rule triple_syscall)
  show "stable m (\<lambda>s l v. closable m ps p n mode uid gid L e s l v \<and> v = v0 \<and> uv_name v0 \<noteq> [])"
    by (rule stable_closable [OF m])
next
  fix t s l v x s' es'
  assume c: "closable m ps p n mode uid gid L e s l v \<and> v = v0 \<and> uv_name v0 \<noteq> []" and r: "call_rmdir p (uv_name v0) t s = Inr (x, s', es')"
  then obtain i ob q es D ph where "\<not> up_check_mode ps" "l = L @ es" "is_reg (ob_mode ob)"
    "took m ps p n (verified_object m ps mode uid gid ob) i ob q (uv_name v0) es (Some D) ph e s"
    unfolding closable_def by auto
  with rmdir_took [OF this(4) r] show "ended m ps p n mode uid gid L e s' (l @ es')"
    unfolding ended_def by force
qed (auto intro: closable_ended)

lemma closes_all:
  assumes m: "peers m"
  shows "triple (closable m ps p n mode uid gid L e) (close_all m p) (\<lambda>_ s l v. ended m ps p n mode uid gid L e s l)
    (\<lambda>e' s l v. \<exists>x. e' = Os x \<and> ended m ps p n mode uid gid L e s l)" (is "triple ?C _ ?E ?R")
  unfolding close_all_def
proof (rule triple_bind)
  show "triple ?C read_vars (\<lambda>v0 s l v. ?C s l v \<and> v = v0) ?R" by (rule triple_read) simp
next
  fix v0
  let ?V = "\<lambda>s l v. ?C s l v \<and> v = v0"
  have c: "triple ?V (close m fd) (\<lambda>_. ?V) ?R" for fd
    by (intro triple_close stable_closable m) (auto intro: closable_ended)
  have o: "triple ?V (case x of None \<Rightarrow> ret () | Some fd \<Rightarrow> close m fd) (\<lambda>_. ?V) ?R" for x
    by (cases x, simp_all only: option.case) (rule triple_ret, simp, rule c)
  have r: "triple ?V (if uv_name v0 = [] then ret () else ignoring_os (syscall m (call_rmdir p (uv_name v0)))) ?E ?R"
  proof (rule triple_if)
    show "triple ?V (ret ()) ?E ?R" by (rule triple_ret) (auto intro: closable_ended)
    show "triple ?V (ignoring_os (syscall m (call_rmdir p (uv_name v0)))) ?E ?R" if "uv_name v0 \<noteq> []"
      by (rule triple_weaken [OF removes_quarantine [OF m]]) (use that in auto)
  qed
  have e: "triple (?E u) (close m p) ?E ?R" for u
    by (intro triple_close stable_ended m) auto
  show "triple ?V (bindP (case uv_file v0 of None \<Rightarrow> ret () | Some fd \<Rightarrow> close m fd) (\<lambda>_.
     bindP (case uv_quarantine v0 of None \<Rightarrow> ret () | Some fd \<Rightarrow> close m fd) (\<lambda>_.
     bindP (if uv_name v0 = [] then ret () else ignoring_os (syscall m (call_rmdir p (uv_name v0)))) (\<lambda>_.
     close m p)))) ?E ?R"
    by (rule triple_bind [OF o], rule triple_bind [OF o], rule triple_bind [OF r], rule e)
qed

lemma took_fails: "took m ps p n ok i ob q qn es D ph (Os x) s \<Longrightarrow> took m ps p n ok i ob q qn es D ph (Exit (Fail_json msg r)) s"
  by (auto simp: took_def fitting_def)

lemma closable_fails:
  assumes "closable m ps p n mode uid gid L (Os x) s l v" shows "closable m ps p n mode uid gid L (Exit (Fail_json msg r)) s l v"
  using assms unfolding closable_def
proof (elim disjE)
  assume "\<not> up_check_mode ps \<and> (\<exists>i ob q qn es D ph. l = L @ es \<and> is_reg (ob_mode ob)
    \<and> took m ps p n (verified_object m ps mode uid gid ob) i ob q qn es D ph (Os x) s \<and> (uv_name v = [] \<or> uv_name v = qn \<and> D \<noteq> None))"
  then show "l = L \<and> (changed_exit (Exit (Fail_json msg r)) \<longrightarrow> up_check_mode ps) \<and> uv_name v = []
    \<or> \<not> up_check_mode ps \<and> (\<exists>i ob q qn es D ph. l = L @ es \<and> is_reg (ob_mode ob)
      \<and> took m ps p n (verified_object m ps mode uid gid ob) i ob q qn es D ph (Exit (Fail_json msg r)) s
      \<and> (uv_name v = [] \<or> uv_name v = qn \<and> D \<noteq> None))"
    by (intro disjI2) (elim conjE exE, intro conjI exI took_fails; assumption)
qed (simp add: changed_exit_def)

text \<open>The error of a failed \<open>os.close\<close> takes the place of how the run ended.\<close>

definition ended_as :: "machine \<Rightarrow> unlink_params \<Rightarrow> nat \<Rightarrow> string \<Rightarrow> nat \<Rightarrow> int \<Rightarrow> int \<Rightarrow> effect list \<Rightarrow> stop \<Rightarrow> fs \<Rightarrow> effect list \<Rightarrow> bool" where
  "ended_as m ps p n mode uid gid L e' s l \<longleftrightarrow> (\<exists>e. (e' = e \<or> (\<exists>x. e' = Os x)) \<and> ended m ps p n mode uid gid L e s l)"

lemma body_ends:
  assumes m: "peers m" "kernel m"
  shows "triple (\<lambda>s l v. fs_obj s p \<noteq> None \<and> l = L) (unlink_body m ps p n mode uid gid) (\<lambda>_ _ _ _. False)
    (\<lambda>e' s l v. ended_as m ps p n mode uid gid L e' s l)"
proof -
  let ?C = "closable m ps p n mode uid gid L" and ?F = "\<lambda>_ _ _ _. False"
  have remove: "triple (\<lambda>s l v. \<exists>i ob. tg_file tg = i \<and> status_of i ob (tg_stat tg) \<and> is_reg (ob_mode ob) \<and> keeps i ob s \<and> unbound p L s l v)
      (remove_target m ps p n mode uid gid tg) ?F ?C" if c: "\<not> up_check_mode ps" for tg
  proof (intro triple_ex)
    fix i ob
    obtain i' st where tg: "tg = \<lparr>tg_file = i', tg_stat = st\<rparr>" by (cases tg)
    show "triple (\<lambda>s l v. tg_file tg = i \<and> status_of i ob (tg_stat tg) \<and> is_reg (ob_mode ob) \<and> keeps i ob s \<and> unbound p L s l v)
      (remove_target m ps p n mode uid gid tg) ?F ?C"
    proof (cases "i' = i \<and> status_of i ob st \<and> is_reg (ob_mode ob)")
      case True
      then have "tg = \<lparr>tg_file = i, tg_stat = st\<rparr>" by (simp add: tg)
      then show ?thesis
        by (simp only:) (rule triple_weaken [OF removes_target [OF m, of i ob st p L ps n mode uid gid]],
          use True c in \<open>auto intro: halted_closable\<close>)
    qed (auto simp: tg triple_def)
  qed
  have bound: "triple (unbound p L) (bind_target m ps p n mode uid gid)
      (\<lambda>tg s l v. \<exists>i ob. tg_file tg = i \<and> status_of i ob (tg_stat tg) \<and> is_reg (ob_mode ob) \<and> keeps i ob s \<and> unbound p L s l v) ?C"
    by (rule triple_weaken [OF binds_target [OF m(1)]]) (auto intro: unchanged_closable)
  have try_body: "triple (unbound p L) (bindP (bind_target m ps p n mode uid gid) (\<lambda>tg.
      if up_check_mode ps then exit_json True False None else remove_target m ps p n mode uid gid tg)) ?F ?C"
  proof (rule triple_bind [OF bound])
    fix tg
    show "triple (\<lambda>s l v. \<exists>i ob. tg_file tg = i \<and> status_of i ob (tg_stat tg) \<and> is_reg (ob_mode ob) \<and> keeps i ob s \<and> unbound p L s l v)
      (if up_check_mode ps then exit_json True False None else remove_target m ps p n mode uid gid tg) ?F ?C"
    proof (rule triple_if)
      assume "up_check_mode ps"
      then show "triple (\<lambda>s l v. \<exists>i ob. tg_file tg = i \<and> status_of i ob (tg_stat tg) \<and> is_reg (ob_mode ob) \<and> keeps i ob s \<and> unbound p L s l v)
        (exit_json True False None) ?F ?C"
        unfolding exit_json_def by (intro triple_raising) (auto simp: closable_def)
    qed (rule remove)
  qed
  have body: "triple (unbound p L) (except_os (bindP (bind_target m ps p n mode uid gid) (\<lambda>tg.
      if up_check_mode ps then exit_json True False None else remove_target m ps p n mode uid gid tg))
      (\<lambda>_. fail_json ''atomic unlink failed'' None)) ?F ?C"
    by (rule triple_except_os [OF try_body]) (auto simp: fail_json_def intro!: triple_raising intro: closable_fails)
  have start: "triple (\<lambda>s l v. fs_obj s p \<noteq> None \<and> l = L) (update_vars (\<lambda>_. \<lparr>uv_file = None, uv_quarantine = None, uv_name = []\<rparr>))
      (\<lambda>_. unbound p L) (\<lambda>e' s l v. ended_as m ps p n mode uid gid L e' s l)"
    by (rule triple_update) simp
  let ?T = "\<lambda>r s l v. (case r of Inl e \<Rightarrow> ?C e s l v | Inr _ \<Rightarrow> False)"
  have close: "triple (?T r) (close_all m p) (\<lambda>_. case r of Inl e \<Rightarrow> (\<lambda>s l v. ended_as m ps p n mode uid gid L e s l) | Inr x \<Rightarrow> (\<lambda>_ _ _. False))
      (\<lambda>e' s l v. ended_as m ps p n mode uid gid L e' s l)" for r :: "stop + unit"
  proof (cases r)
    case (Inl e)
    have "triple (?C e) (close_all m p) (\<lambda>_ s l v. ended_as m ps p n mode uid gid L e s l) (\<lambda>e' s l v. ended_as m ps p n mode uid gid L e' s l)"
      by (rule triple_weaken [OF closes_all [OF m(1)]]) (auto simp: ended_as_def)
    then show ?thesis by (simp add: Inl)
  qed (simp add: triple_def)
  show ?thesis
    unfolding unlink_body_def
    by (rule triple_bind [OF start], rule triple_ensure [where T = ?T]) (use body close in simp_all)
qed

text \<open>What the caller asks for: the directory, the name, and the mode and owners of the file.\<close>

definition asked_for :: "machine \<Rightarrow> unlink_params \<Rightarrow> nat \<Rightarrow> string \<Rightarrow> nat \<Rightarrow> int \<Rightarrow> int \<Rightarrow> bool" where
  "asked_for m ps p n mode uid gid \<longleftrightarrow> canonical_target (up_path ps) \<and> n = last (path_components (up_path ps))
     \<and> (\<exists>expected dev. map_of (the_items (up_parents ps)) (parent_of (up_path ps)) = Some expected
         \<and> bound_identity m expected = Inr (dev, int p))
     \<and> octal_mode (up_mode ps) = Inr mode \<and> numeric_identity m (up_owner ps) (m_user m) ''owner'' = Inr uid
     \<and> numeric_identity m (up_group ps) (m_group m) ''group'' = Inr gid"

lemma bind_ret: "bindP (ret x) f = f x"
  by (rule ext) (simp add: bindP_def ret_def)

lemma triple_lift:
  assumes "\<And>x. r = Inr x \<Longrightarrow> triple P (f x) Q R" "\<And>e s l v. r = Inl e \<Longrightarrow> P s l v \<Longrightarrow> R (Raised e) s l v"
  shows "triple P (bindP (lift_exn r) f) Q R"
  using assms by (cases r) (auto simp: triple_def meets_def bindP_def lift_exn_def ret_def raising_def)

lemma run_ends:
  assumes m: "peers m" "kernel m"
  shows "triple (\<lambda>s l v. l = L) (atomic_unlink m ps) (\<lambda>_ _ _ _. False) (\<lambda>e' s l v. l = L \<and> \<not> changed_exit e'
     \<or> (\<exists>p n mode uid gid. asked_for m ps p n mode uid gid \<and> ended_as m ps p n mode uid gid L e' s l))"
    (is "triple ?P _ _ ?R")
proof -
  let ?U = "\<lambda>e s l v. l = L \<and> \<not> changed_exit e"
  let ?B = "\<lambda>(p, n, mode, uid, gid) s l v. (fs_obj s p \<noteq> None \<and> l = L)
    \<and> (canonical_target (up_path ps) \<longrightarrow> asked_for m ps p n mode uid gid)"
  have parent: "triple ?P (bindP (open_parent m (up_path ps) (up_parents ps)) (\<lambda>(p, n). ret (p, n, mode, uid, gid))) ?B (\<lambda>_ s l v. l = L)"
    if "octal_mode (up_mode ps) = Inr mode" "numeric_identity m (up_owner ps) (m_user m) ''owner'' = Inr uid"
      "numeric_identity m (up_group ps) (m_group m) ''group'' = Inr gid" for mode uid gid
    by (rule triple_bind [OF opens_parent [OF m(1)]]) (use that in \<open>auto simp: asked_for_def listed_def intro!: triple_ret\<close>)
  have ens: "triple ?P (ensuring b (Os x)) (\<lambda>_. ?P) (\<lambda>_ s l v. l = L)" for b x
    by (simp add: ensuring_def triple_ret triple_raising)
  have caps: "triple ?P (require_capabilities m c) ?B (\<lambda>_ s l v. l = L)" if "triple ?P c ?B (\<lambda>_ s l v. l = L)" for c
    unfolding require_capabilities_def
    by (rule triple_bind [OF ens], rule triple_bind [OF ens], rule triple_bind [OF ens], rule that)
  have bind: "triple ?P (bind_parent m ps) ?B ?U"
    unfolding bind_parent_def
    by (rule triple_handle, rule caps, (rule triple_lift)+, rule parent)
      (auto simp: fail_json_def changed_exit_def intro: triple_raising)
  have body: "triple (\<lambda>s l v. ?B x s l v \<and> canonical_target (up_path ps)) (case x of (p, n, mode, uid, gid) \<Rightarrow> unlink_body m ps p n mode uid gid)
      (\<lambda>_ _ _ _. False) ?R" for x
  proof -
    obtain p n mode uid gid where x: "x = (p, n, mode, uid, gid)" by (cases x)
    show ?thesis
    proof (cases "asked_for m ps p n mode uid gid")
      case True
      show ?thesis unfolding x prod.case
        by (rule triple_weaken [OF body_ends [OF m]]) (use True in auto)
    qed (auto simp: x triple_def)
  qed
  have fail: "triple ?P (fail_json msg r) Q ?R" for msg r Q
    unfolding fail_json_def by (rule triple_raising) (simp add: changed_exit_def)
  show ?thesis
  proof (cases "canonical_target (up_path ps)")
    case True
    have "triple ?P (bind_parent m ps) (\<lambda>x s l v. ?B x s l v \<and> canonical_target (up_path ps)) ?R"
      by (rule triple_weaken [OF triple_frame [OF bind, where C = "canonical_target (up_path ps)"]]) (simp_all add: True)
    from triple_bind [OF this body] have "triple ?P (bindP (bind_parent m ps)
        (\<lambda>(p, n, mode, uid, gid). unlink_body m ps p n mode uid gid)) (\<lambda>_ _ _ _. False) ?R" .
    then show ?thesis unfolding atomic_unlink_def by (simp only: True if_True bind_ret)
  next
    case False
    show ?thesis unfolding atomic_unlink_def by (simp only: False if_False) (rule triple_bind [where Q' = "\<lambda>_ _ _ _. False", OF fail], simp add: triple_def)
  qed
qed

section \<open>Properties\<close>

lemma run_meets:
  assumes "peers m" "kernel m" "atomic_unlink m ps w = Some (r, w')"
  obtains e' where "r = Inl e'" "w_log w' = w_log w" "\<not> changed_exit e'"
    | e' p n mode uid gid where "r = Inl e'" "asked_for m ps p n mode uid gid"
        "ended_as m ps p n mode uid gid (w_log w) e' (w_fs w') (w_log w')"
proof -
  have "meets (atomic_unlink m ps) w (\<lambda>_ _ _ _. False) (\<lambda>e' s l v. l = w_log w \<and> \<not> changed_exit e'
     \<or> (\<exists>p n mode uid gid. asked_for m ps p n mode uid gid \<and> ended_as m ps p n mode uid gid (w_log w) e' s l))"
    by (rule tripleD [OF run_ends [OF assms(1,2)]]) (rule refl)
  then show ?thesis by (cases rule: meets_cases) (use assms(3) that in auto)
qed

lemma course_empty:
  assumes "course p n i q qn es D Done" "D \<in> {None, Some []}" "Moved p' n' q' ''target'' j \<in> set es"
  shows "Removed q' ''verified'' i \<in> set es"
  using assms by (auto elim!: course.cases aborted.cases)

lemma course_done:
  assumes "course p n i q qn es D ph" "ph = Done"
  shows "\<exists>es'. es = [Made p qn q, Linked q ''verified'' i, Moved p n q ''target'' i, Removed q ''target'' i] @ es'
    \<and> es' \<in> {[], [Removed q ''verified'' i], [Removed q ''verified'' i, Removed p qn q]}
    \<and> (D = None \<longrightarrow> es' = [Removed q ''verified'' i, Removed p qn q])"
  using assms by (auto elim!: course.cases)


lemma course_aborted:
  assumes "course p n i q qn es D ph" "Moved p' n' q' ''target'' j \<in> set es" "ph \<noteq> Done"
  shows "ph = Aborted \<and> p' = p \<and> n' = n \<and> q' = q \<and> (D = Some (two_links i j) \<or> D = Some (one_link i) \<and> Linked p n j \<in> set es)"
  using assms by (auto elim!: course.cases aborted.cases)



end
