(* ===== verification/Unlink_Samples.thy ===== *)
theory Unlink_Samples
  imports Unlink_Safety "HOL-Library.Code_Target_Numeral"
begin

text \<open>
  An undisturbed run of \<open>atomic_unlink\<close> removes the file it is asked to. The theorems on the module are applied
  to a machine and a file system with one file, once without a fault and once with a failure after the file
  was moved.
\<close>

section \<open>An undisturbed run\<close>

text \<open>Nothing else acts on the file system, no call fails by itself, and the platform has what the module needs.\<close>

definition quiet :: "machine \<Rightarrow> bool" where
  "quiet m \<longleftrightarrow> (\<forall>k s. m_env m k s = s) \<and> (\<forall>k. \<not> m_fault m k) \<and> m_dir_fd m \<and> m_no_follow m \<and> m_proc_fd m"

lemma triple_quiet:
  assumes "quiet m" "\<And>t s l v. P s l v \<Longrightarrow> \<exists>x s' es. f t s = Inr (x, s', es) \<and> Q x s' (l @ es) v"
  shows "triple P (syscall m f) Q R"
proof (rule tripleI)
  fix w assume "holds P w"
  from assms(2) [OF this, of "m_time m (w_clock w)"] show "meets (syscall m f) w Q R"
    using assms(1) by (auto simp: meets_def syscall_def Let_def quiet_def)
qed

lemma quiet_os: "triple P c Q (\<lambda>_ _ _ _. False) \<Longrightarrow> triple P (except_os c h) Q R"
  by (rule triple_except_os [where R' = "\<lambda>_ _ _ _. False"]) (auto intro: triple_weaken simp: triple_def)

text \<open>A check that what is known of the state decides.\<close>

lemma triple_decide: "(C \<Longrightarrow> b) \<Longrightarrow> triple (\<lambda>s l v. C \<and> P s l v) (if b then ret () else c) (\<lambda>_. P) R"
  by (cases b) (auto simp: triple_def meets_def ret_def)

lemma quiet_checksum:
  assumes q: "quiet m" and k: "\<forall>s l v. P s l v \<longrightarrow> keeps i ob s" and r: "is_reg (ob_mode ob)"
  shows "triple P (checksum_fd m i) (\<lambda>digest s l v. digest = m_sha m (ob_data ob) \<and> P s l v) R"
proof (rule checksum_reads)
  show "\<forall>off. triple P (syscall m (call_read i off CHUNK)) (\<lambda>chunk s l v. chunk = take CHUNK (drop off (ob_data ob)) \<and> P s l v) R"
  proof (intro allI triple_quiet [OF q])
    show "\<exists>x s' es. call_read i off CHUNK t s = Inr (x, s', es) \<and> x = take CHUNK (drop off (ob_data ob)) \<and> P s' (l @ es) v"
      if "P s l v" for off t s l v
      using keeps_fields [OF k [rule_format, OF that]] r that by (auto simp: call_read_def is_reg_def is_directory_def)
  qed
  show "triple P (syscall m call_nothing) (\<lambda>_. P) R" by (intro triple_quiet q) (auto simp: call_nothing_def)
qed

text \<open>The state of the quarantine, and the entry of the file where it is still to be moved.\<close>

abbreviation at_stage :: "machine \<Rightarrow> nat \<Rightarrow> string \<Rightarrow> nat \<Rightarrow> obj \<Rightarrow> nat \<Rightarrow> string \<Rightarrow> (string \<times> nat) list \<Rightarrow> nat option \<Rightarrow> unlink_vars assertion" where
  "at_stage m p n i ob q qn D e s l v \<equiv> quarantined m p i ob q qn D s \<and> entry s p n = e"

lemma own_type: "own_dir m s d \<Longrightarrow> has_type is_directory s d"
  by (auto simp: own_dir_def has_type_def)

lemma quarantine_apart: "quarantined m p i ob q qn D s \<Longrightarrow> is_reg (ob_mode ob) \<Longrightarrow> i \<noteq> q"
  using own_type keeps_file unfolding quarantined_def by blast

lemma quiet_removes:
  assumes q: "quiet m" and st: "status_of i ob st" and ok: "verified_object m ps mode uid gid ob" and n: "qn \<noteq> n"
  shows "triple (at_stage m p n i ob q qn [] (Some i))
    (bindP (preserve_open_file m i q st) (\<lambda>_.
     bindP (except_os (syscall m (call_rename p n q ''target''))
              (\<lambda>_. fail_json ''cannot quarantine the removal target; verified inode preserved in quarantine''
                      (Some (recovery_path_of (up_path ps) qn)))) (\<lambda>_.
     bindP (check_quarantined m ps p n mode uid gid \<lparr>tg_file = i, tg_stat = st\<rparr> q qn) (\<lambda>_.
     remove_quarantined m ps p n q qn))))
    Q (\<lambda>e s l v. e = Exit (Exit_json True False None) \<and> entry s p n = None \<and> uv_name v = [])"
    (is "triple _ _ _ ?R")
proof -
  from ok have r: "is_reg (ob_mode ob)" by (simp add: verified_object_def)
  let ?S = "at_stage m p n i ob q qn"
  have link: "triple (?S [] (Some i)) (syscall m (call_link_object i q ''verified'')) (\<lambda>_. ?S (one_link i) (Some i)) ?R"
    using keeps_file [OF _ r] by (intro triple_quiet q) (auto simp: call_link_object_def quarantined_def entry_def [of _ q])
  have stat: "triple (?S D e) (syscall m (call_stat q n')) (\<lambda>st' s l v. status_of i ob st' \<and> ?S D e s l v) R"
    if "map_of D n' = Some i" for D e n' R
    using that by (intro triple_quiet q) (auto simp: call_stat_def call_fstat_def quarantined_def entry_def [of _ q] status_of_def keeps_def)
  have same: "status_of i ob st' \<Longrightarrow> same_identity st st'" for st' by (rule status_same [OF st])
  have preserve: "triple (?S [] (Some i)) (preserve_open_file m i q st) (\<lambda>_. ?S (one_link i) (Some i)) ?R"
    unfolding preserve_open_file_def
    by (rule triple_bind [OF link], rule triple_bind [OF stat], simp, rule triple_decide, rule same)
  have move: "triple (?S (one_link i) (Some i)) (except_os (syscall m (call_rename p n q ''target'')) h) (\<lambda>_. ?S (two_links i i) None) ?R" for h
  proof (intro quiet_os triple_quiet q)
    fix t s l v assume s: "?S (one_link i) (Some i) s l v"
    then have "quarantined m p i ob q qn (one_link i) s" by simp
    then have "i \<noteq> q" using r by (rule quarantine_apart)
    with s n show "\<exists>x s' es. call_rename p n q ''target'' t s = Inr (x, s', es) \<and> ?S (two_links i i) None s' (l @ es) v"
      by (auto simp: call_rename_def quarantined_def entry_def [of _ q])
  qed
  have check: "triple (?S (two_links i i) None) (check_quarantined m ps p n mode uid gid \<lparr>tg_file = i, tg_stat = st\<rparr> q qn) (\<lambda>_. ?S (two_links i i) None) ?R"
  proof -
    let ?C = "\<lambda>x s l v. (status_of i ob (fst x) \<and> snd x = m_sha m (ob_data ob)) \<and> ?S (two_links i i) None s l v"
    have sum: "triple (\<lambda>s l v. status_of i ob st' \<and> ?S (two_links i i) None s l v) (bindP (checksum_fd m i) (\<lambda>digest. ret (st', digest))) ?C R" for st' R
      by (rule triple_bind [OF quiet_checksum [OF q _ r]]) (auto simp: quarantined_def intro!: triple_ret)
    have again: "triple (?S (two_links i i) None) (except_os (bindP (syscall m (call_stat q ''target'')) (\<lambda>st'.
        bindP (checksum_fd m i) (\<lambda>digest. ret (st', digest)))) h) ?C ?R" for h
      by (rule quiet_os, rule triple_bind [OF stat], simp, rule sum)
    have last: "triple (?C x) (case x of (final_quarantine, digest) \<Rightarrow>
        if same_identity st final_quarantine \<and> expected_file mode uid gid final_quarantine \<and> digest = up_checksum ps then ret ()
        else recover_and_fail m (up_path ps) p n q qn msg) (\<lambda>_. ?S (two_links i i) None) ?R" for x msg
      by (cases x, simp only: prod.case, rule triple_decide) (use same ok expected_status in \<open>auto simp: verified_object_def\<close>)
    show ?thesis
      unfolding check_quarantined_def target.simps
      by (rule triple_bind [OF quiet_os [OF stat]], simp, rule triple_bind [OF triple_decide], rule same, assumption,
          rule triple_bind [OF again], rule last)
  qed
  have remove: "triple (?S (two_links i i) None) (remove_quarantined m ps p n q qn) Q ?R"
  proof -
    let ?V = "\<lambda>s l v. entry s p n = None"
    have target: "triple (?S (two_links i i) None) (except_os (syscall m (call_unlink q ''target'')) h) (\<lambda>_. ?S (one_link i) None) ?R" for h
      using keeps_file [OF _ r] by (intro quiet_os triple_quiet q) (auto simp: call_unlink_def quarantined_def entry_def [of _ q])
    have verified: "triple (?S (one_link i) None) (except_os (syscall m (call_unlink q ''verified'')) h) (\<lambda>_. ?S [] None) ?R" for h
      using keeps_file [OF _ r] by (intro quiet_os triple_quiet q) (auto simp: call_unlink_def quarantined_def entry_def [of _ q])
    have close: "triple (?S [] None) (close m q) (\<lambda>_. ?S [] None) ?R"
      unfolding close_def by (intro triple_quiet q) (auto simp: call_nothing_def)
    have vars: "triple (?S [] None) (update_vars (uv_quarantine_update (\<lambda>_. None))) (\<lambda>_. ?S [] None) ?R"
      by (rule triple_update)
    have rmdir: "triple (?S [] None) (except_os (syscall m (call_rmdir p qn)) h) (\<lambda>_. ?V) ?R" for h
      using n by (intro quiet_os triple_quiet q) (auto simp: call_rmdir_def quarantined_def own_type)
    have named: "triple ?V (update_vars (uv_name_update (\<lambda>_. []))) (\<lambda>_ s l v. entry s p n = None \<and> uv_name v = []) ?R"
      by (rule triple_update) simp
    show ?thesis
      unfolding remove_quarantined_def exit_json_def
      by (rule triple_bind [OF target], rule triple_bind [OF verified], rule triple_bind [OF close], rule triple_bind [OF vars],
          rule triple_bind [OF rmdir], rule triple_bind [OF named], rule triple_raising) simp
  qed
  show ?thesis by (rule triple_bind [OF preserve], rule triple_bind [OF move], rule triple_bind [OF check], rule remove)
qed

text \<open>The directories that a path names, each the one that \<open>parent_identities\<close> gives for it, if it gives one.\<close>

definition vouched :: "machine \<Rightarrow> py \<Rightarrow> fs \<Rightarrow> string \<Rightarrow> nat \<Rightarrow> bool" where
  "vouched m parents s path d \<longleftrightarrow> (case map_of (the_items parents) path of
     None \<Rightarrow> True
   | Some expected \<Rightarrow> (case fs_obj s d of
       None \<Rightarrow> False
     | Some ob \<Rightarrow> bound_identity m expected = Inr (int (ob_dev ob), int d)))"

fun resolves :: "machine \<Rightarrow> py \<Rightarrow> fs \<Rightarrow> nat \<Rightarrow> string \<Rightarrow> string list \<Rightarrow> nat \<Rightarrow> bool" where
  "resolves m parents s d walked [] p \<longleftrightarrow> d = p"
| "resolves m parents s d walked (c # cs) p \<longleftrightarrow> (case entry s d c of
     None \<Rightarrow> False
   | Some i \<Rightarrow> has_type is_directory s i \<and> vouched m parents s (walked @ ''/'' @ c) i
       \<and> resolves m parents s i (walked @ ''/'' @ c) cs p)"

text \<open>A file system in which the file that the parameters ask for is at its path.\<close>

definition in_place :: "machine \<Rightarrow> unlink_params \<Rightarrow> fs \<Rightarrow> nat \<Rightarrow> string \<Rightarrow> nat \<Rightarrow> int \<Rightarrow> int \<Rightarrow> bool" where
  "in_place m ps s p n mode uid gid \<longleftrightarrow>
     asked_for m ps p n mode uid gid
     \<and> resolves m (up_parents ps) s (fs_root s) [] (butlast (path_components (up_path ps))) p
     \<and> fs_obj s p \<noteq> None \<and> vouched m (up_parents ps) s (parent_of (up_path ps)) p
     \<and> hex_id 64 (up_checksum ps) \<and> fs_obj s (m_fresh m s) = None
     \<and> (\<forall>k. entry s p (''.atomic-unlink-'' @ m_pid m @ ''-'' @ m_token m k) = None)
     \<and> (\<exists>i ob. entry s p n = Some i \<and> fs_obj s i = Some ob \<and> verified_object m ps mode uid gid ob)"

lemma quiet_closing: "triple P c Q (\<lambda>_ _ _ _. False) \<Longrightarrow> triple P (closing m fd c) Q R"
  unfolding closing_def by (rule triple_handle [where R' = "\<lambda>_ _ _ _. False"]) (auto intro: triple_weaken simp: triple_def)

lemma quiet_close: "quiet m \<Longrightarrow> triple P (close m fd) (\<lambda>_. P) R"
  unfolding close_def by (intro triple_quiet) (auto simp: call_nothing_def)

lemma quiet_listed:
  assumes q: "quiet m" and v: "vouched m parents s0 path d"
  shows "triple (\<lambda>s l v. s = s0) (check_listed m parents path d) (\<lambda>_ s l v. s = s0) R"
proof (cases "map_of (the_items parents) path")
  case (Some expected)
  with v obtain ob where ob: "fs_obj s0 d = Some ob" "bound_identity m expected = Inr (int (ob_dev ob), int d)"
    by (auto simp: vouched_def split: option.splits)
  have "triple (\<lambda>s l v. s = s0) (syscall m (call_fstat d)) (\<lambda>st s l v. st = stat_of d ob \<and> s = s0) R"
    by (intro triple_quiet q) (auto simp: call_fstat_def ob)
  then show ?thesis
    unfolding check_listed_def check_identity_def Some option.case
    by (rule triple_bind) (auto simp: triple_def meets_def bindP_def lift_exn_def ensuring_def ret_def ob stat_of_def)
qed (simp add: check_listed_def triple_ret)

lemma quiet_walk:
  assumes q: "quiet m"
  shows "resolves m parents s0 d walked cs p \<Longrightarrow>
    triple (\<lambda>s l v. s = s0) (walk_parent m parents d walked cs :: ('v, nat) io) (\<lambda>fd s l v. fd = p \<and> s = s0) (\<lambda>_ _ _ _. False)"
proof (induction cs arbitrary: d walked)
  case (Cons c cs)
  then obtain i where i: "entry s0 d c = Some i" "has_type is_directory s0 i" "vouched m parents s0 (walked @ ''/'' @ c) i"
    "resolves m parents s0 i (walked @ ''/'' @ c) cs p"
    by (auto split: option.splits)
  have "triple (\<lambda>s l v. s = s0) (syscall m (call_open_dir d c)) (\<lambda>fd s l v. fd = i \<and> s = s0) R" for R
    by (intro triple_quiet q) (auto simp: call_open_dir_def i)
  then show ?case
    unfolding walk_parent.simps
  proof (rule triple_bind [OF quiet_closing])
    fix fd
    have "triple (\<lambda>s l v. s = s0) (bindP (closing m d (close m d)) (\<lambda>_.
        bindP (closing m i (check_listed m parents (walked @ ''/'' @ c) i)) (\<lambda>_. walk_parent m parents i (walked @ ''/'' @ c) cs)) :: ('v, nat) io)
        (\<lambda>fd s l v. fd = p \<and> s = s0) (\<lambda>_ _ _ _. False)"
      by (rule triple_bind [OF quiet_closing [OF quiet_close [OF q]]], rule triple_bind [OF quiet_closing [OF quiet_listed [OF q i(3)]]],
          rule Cons.IH [OF i(4)])
    then show "triple (\<lambda>s l v. fd = i \<and> s = s0) (bindP (closing m d (close m d)) (\<lambda>_.
        bindP (closing m fd (check_listed m parents (walked @ ''/'' @ c) fd)) (\<lambda>_. walk_parent m parents fd (walked @ ''/'' @ c) cs)) :: ('v, nat) io)
        (\<lambda>fd s l v. fd = p \<and> s = s0) (\<lambda>_ _ _ _. False)"
      by (cases "fd = i") (simp_all add: triple_def)
  qed
qed (auto intro: triple_ret)

lemma quiet_parent:
  assumes q: "quiet m" and r: "resolves m parents s0 (fs_root s0) [] (butlast (path_components path)) p"
    and v: "vouched m parents s0 (parent_of path) p" and l: "map_of (the_items parents) (parent_of path) \<noteq> None"
  shows "triple (\<lambda>s l v. s = s0) (open_parent m path parents) (\<lambda>x s l v. x = (p, last (path_components path)) \<and> s = s0) (\<lambda>_ _ _ _. False)"
proof -
  let ?parent = "parent_of path"
  have root: "triple (\<lambda>s l v. s = s0) (syscall m call_root) (\<lambda>fd s l v. fd = fs_root s0 \<and> s = s0) (\<lambda>_ _ _ _. False)"
    by (intro triple_quiet q) (auto simp: call_root_def)
  have walk: "triple (\<lambda>s l v. fd = fs_root s0 \<and> s = s0) (walk_parent m parents fd [] (butlast (path_components path)))
      (\<lambda>fd s l v. fd = p \<and> s = s0) (\<lambda>_ _ _ _. False)" for fd
    by (cases "fd = fs_root s0") (use quiet_walk [OF q r] in \<open>simp_all add: triple_def\<close>)
  have "triple (\<lambda>s l v. s = s0) (if ?parent = ''/'' then check_listed m parents ?parent p else ret ()) (\<lambda>_ s l v. s = s0) (\<lambda>_ _ _ _. False)"
    by (rule triple_if, rule quiet_listed [OF q v], rule triple_ret)
  then have "triple (\<lambda>s l v. s = s0) (bindP (ensuring (map_of (the_items parents) ?parent \<noteq> None) (Os EOTHER)) (\<lambda>_.
      if ?parent = ''/'' then check_listed m parents ?parent p else ret ())) (\<lambda>_ s l v. s = s0) (\<lambda>_ _ _ _. False)"
    using l by (simp add: ensuring_def bind_ret)
  note check = triple_bind [OF quiet_closing [OF this] triple_ret]
  have "triple (\<lambda>s l v. fd = p \<and> s = s0) (bindP (closing m fd (bindP (ensuring (map_of (the_items parents) ?parent \<noteq> None) (Os EOTHER)) (\<lambda>_.
      if ?parent = ''/'' then check_listed m parents ?parent fd else ret ()))) (\<lambda>_. ret (fd, last (path_components path))))
      (\<lambda>x s l v. x = (p, last (path_components path)) \<and> s = s0) (\<lambda>_ _ _ _. False)" for fd
  proof (cases "fd = p")
    case True
    then show ?thesis by (simp only:) (rule triple_weaken [OF check [where Q = "\<lambda>x s l v. x = (p, last (path_components path)) \<and> s = s0"]], simp_all)
  qed (simp add: triple_def)
  then show ?thesis
    unfolding open_parent_def Let_def by (rule triple_bind [OF root triple_bind [OF walk]])
qed

lemma quiet_target:
  assumes q: "quiet m" and i: "entry s0 p n = Some i" "fs_obj s0 i = Some ob" and ok: "verified_object m ps mode uid gid ob"
    and h: "hex_id 64 (up_checksum ps)"
  shows "triple (\<lambda>s l v. s = s0 \<and> uv_name v = []) (bind_target m ps p n mode uid gid)
    (\<lambda>tg s l v. tg = \<lparr>tg_file = i, tg_stat = stat_of i ob\<rparr> \<and> s = s0 \<and> uv_name v = []) R"
proof -
  let ?B = "\<lambda>s l v. s = s0 \<and> uv_name v = []"
  from i have e: "entry s0 p n = Some i" "fs_obj s0 i = Some ob" by auto
  from ok have r: "is_reg (ob_mode ob)" "\<not> is_symlink (ob_mode ob)" by (auto simp: verified_object_def is_reg_def is_symlink_def)
  have stat: "triple ?B (syscall m (call_stat p n)) (\<lambda>st s l v. st = stat_of i ob \<and> ?B s l v) R" for R
    by (intro triple_quiet q) (auto simp: call_stat_def call_fstat_def e)
  have fstat: "triple ?B (syscall m (call_fstat i)) (\<lambda>st s l v. st = stat_of i ob \<and> ?B s l v) R" for R
    by (intro triple_quiet q) (auto simp: call_fstat_def e)
  have opened: "triple ?B (syscall m (call_open p n)) (\<lambda>fd s l v. fd = i \<and> ?B s l v) R" for R
    using r by (intro triple_quiet q) (auto simp: call_open_def has_type_def e)
  have sum: "triple ?B (checksum_fd m i) (\<lambda>digest s l v. digest = m_sha m (ob_data ob) \<and> ?B s l v) R" for R
    by (intro quiet_checksum q r) (auto intro: keeps_self e)
  have vars: "triple ?B (update_vars (uv_file_update (\<lambda>_. Some i))) (\<lambda>_. ?B) R" for R
    by (rule triple_update) simp
  have check: "triple ?B (if c then ret () else d) (\<lambda>_. ?B) R" if c for c d R
    using that by (auto intro: triple_ret)
  have x: "expected_file mode uid gid (stat_of i ob)" using ok by (simp add: verified_object_def expected_file_def stat_of_def)
  have s: "same_snapshot (stat_of i ob) (stat_of i ob)" by (simp add: same_snapshot_def same_identity_def)
  show ?thesis
    unfolding bind_target_def
    by (rule triple_bind [OF check], simp add: h, rule triple_bind [OF quiet_os [OF stat]], rule triple_pure, hypsubst,
        rule triple_bind [OF check], use x in \<open>simp add: expected_file_def\<close>, rule triple_bind [OF check], use x in \<open>simp add: expected_file_def\<close>,
        rule triple_bind [OF check], use x in \<open>simp add: expected_file_def\<close>, rule triple_bind [OF opened], rule triple_pure, hypsubst, rule triple_bind [OF vars],
        rule triple_bind [OF fstat], rule triple_pure, hypsubst, rule triple_bind [OF check], rule s, rule triple_bind [OF sum], rule triple_pure, hypsubst,
        rule triple_bind [OF check], use ok in \<open>simp add: verified_object_def\<close>, rule triple_bind [OF fstat], rule triple_pure, hypsubst,
        rule triple_bind [OF stat], rule triple_pure, hypsubst, rule triple_bind [OF check], rule s, rule triple_bind [OF check], rule x, rule triple_ret, simp)
qed

lemma quiet_quarantine:
  assumes q: "quiet m" "kernel m" and p: "fs_obj s0 p \<noteq> None" and f: "fs_obj s0 (m_fresh m s0) = None"
    and t: "\<forall>k. entry s0 p (''.atomic-unlink-'' @ m_pid m @ ''-'' @ m_token m k) = None"
    and i: "entry s0 p n = Some i" "fs_obj s0 i = Some ob"
  shows "triple (\<lambda>s l v. s = s0) (make_private_quarantine m p (Suc k))
    (\<lambda>(q, qn) s l v. qn \<noteq> n \<and> at_stage m p n i ob q qn [] (Some i) s l v) R"
proof -
  let ?Q = "\<lambda>(q, qn) s l v. qn \<noteq> n \<and> at_stage m p n i ob q qn [] (Some i) s l v"
  have made: "triple (\<lambda>s l v. s = s0) (bindP (try_mkdir m p qn 448) (\<lambda>made.
      if \<not> made then make_private_quarantine m p k
      else bindP (except_os (syscall m (call_open_dir p qn)) h) (\<lambda>q. ret (q, qn)))) ?Q R"
    if qn: "entry s0 p qn = None" for qn h
  proof -
    let ?q = "m_fresh m s0"
    have n: "qn \<noteq> n" using qn i by auto
    have "triple (\<lambda>s l v. s = s0) (syscall m (call_mkdir m p qn 448)) (\<lambda>_ s l v. at_stage m p n i ob ?q qn [] (Some i) s l v) (\<lambda>_ _ _ _. False)"
    proof (rule triple_quiet [OF q(1)])
      fix t s l v assume "s = s0"
      moreover obtain s' es where c: "call_mkdir m p qn 448 t s0 = Inr ((), s', es)" using qn f by (auto simp: call_mkdir_def Let_def)
      moreover have "es = [Made p qn ?q]" "entry s' p n = Some i" using c n qn f i p by (auto simp: call_mkdir_def Let_def entry_def update_conv')
      ultimately show "\<exists>x s' es. call_mkdir m p qn 448 t s = Inr (x, s', es) \<and> at_stage m p n i ob ?q qn [] (Some i) s' (l @ es) v"
        using mkdir_quarantine [OF q(2) c p keeps_self [OF i(2)]] by auto
    qed
    then have t: "triple (\<lambda>s l v. s = s0) (try_mkdir m p qn 448) (\<lambda>made s l v. made \<and> at_stage m p n i ob ?q qn [] (Some i) s l v) R"
      unfolding try_mkdir_def by (intro quiet_os triple_bind) (auto intro: triple_ret)
    have "triple (at_stage m p n i ob ?q qn [] (Some i)) (except_os (syscall m (call_open_dir p qn)) h)
        (\<lambda>q s l v. q = ?q \<and> at_stage m p n i ob ?q qn [] (Some i) s l v) R"
      by (intro quiet_os triple_quiet q) (auto simp: call_open_dir_def quarantined_def own_type)
    then have "triple (at_stage m p n i ob ?q qn [] (Some i)) (bindP (except_os (syscall m (call_open_dir p qn)) h) (\<lambda>q. ret (q, qn))) ?Q R"
      by (rule triple_bind) (auto intro: triple_ret simp: n)
    then have "triple (\<lambda>s l v. made \<and> at_stage m p n i ob ?q qn [] (Some i) s l v) (if \<not> made then make_private_quarantine m p k
      else bindP (except_os (syscall m (call_open_dir p qn)) h) (\<lambda>q. ret (q, qn))) ?Q R" for made
      by (cases made) (simp_all add: triple_def)
    then show ?thesis by (rule triple_bind [OF t])
  qed
  have name: "triple (\<lambda>s l v. s = s0) (quarantine_name m) (\<lambda>qn s l v. entry s0 p qn = None \<and> s = s0) R"
    using t by (simp add: quarantine_name_def triple_def meets_def bindP_def fresh_token_def ret_def)
  show ?thesis
    unfolding make_private_quarantine.simps
  proof (rule triple_bind [OF name])
    fix qn
    show "triple (\<lambda>s l v. entry s0 p qn = None \<and> s = s0) (bindP (try_mkdir m p qn 448) (\<lambda>made.
      if \<not> made then make_private_quarantine m p k
      else bindP (except_os (syscall m (call_open_dir p qn))
                   (\<lambda>e. bindP (ignoring_os (syscall m (call_rmdir p qn))) (\<lambda>_. raising (Os e)))) (\<lambda>q. ret (q, qn)))) ?Q R"
      by (rule triple_pure, rule made)
  qed
qed

lemma quiet_parent_bound:
  assumes q: "quiet m" and i: "in_place m ps s0 p n mode uid gid"
  shows "triple (\<lambda>s l v. s = s0) (bind_parent m ps) (\<lambda>x s l v. x = (p, n, mode, uid, gid) \<and> s = s0) R"
proof -
  from i have r: "asked_for m ps p n mode uid gid" and w: "resolves m (up_parents ps) s0 (fs_root s0) [] (butlast (path_components (up_path ps))) p"
    and v: "vouched m (up_parents ps) s0 (parent_of (up_path ps)) p"
    by (auto simp: in_place_def)
  from r have l: "map_of (the_items (up_parents ps)) (parent_of (up_path ps)) \<noteq> None" and n: "n = last (path_components (up_path ps))"
    and e: "numeric_identity m (up_owner ps) (m_user m) ''owner'' = Inr uid" "numeric_identity m (up_group ps) (m_group m) ''group'' = Inr gid"
      "octal_mode (up_mode ps) = Inr mode"
    by (auto simp: asked_for_def)
  have "triple (\<lambda>s l v. s = s0) (bindP (open_parent m (up_path ps) (up_parents ps)) (\<lambda>(parent, n). ret (parent, n, mode, uid, gid)))
      (\<lambda>x s l v. x = (p, n, mode, uid, gid) \<and> s = s0) (\<lambda>_ _ _ _. False)"
    by (rule triple_bind [OF quiet_parent [OF q w v l]]) (auto simp: n intro!: triple_pure triple_ret)
  then have "triple (\<lambda>s l v. s = s0) (require_capabilities m
      (bindP (lift_exn (numeric_identity m (up_owner ps) (m_user m) ''owner'')) (\<lambda>uid.
       bindP (lift_exn (numeric_identity m (up_group ps) (m_group m) ''group'')) (\<lambda>gid.
       bindP (lift_exn (octal_mode (up_mode ps))) (\<lambda>mode.
       bindP (open_parent m (up_path ps) (up_parents ps)) (\<lambda>(parent, n). ret (parent, n, mode, uid, gid)))))))
      (\<lambda>x s l v. x = (p, n, mode, uid, gid) \<and> s = s0) (\<lambda>_ _ _ _. False)"
    using q by (simp add: require_capabilities_def ensuring_def lift_exn_def bind_ret quiet_def e)
  then show ?thesis
    unfolding bind_parent_def by (rule triple_handle) (simp add: triple_def)
qed

lemma quiet_body:
  assumes q: "quiet m" "kernel m" and i: "in_place m ps s0 p n mode uid gid" and c: "\<not> up_check_mode ps"
  shows "triple (\<lambda>s l v. s = s0) (unlink_body m ps p n mode uid gid) (\<lambda>_ _ _ _. False)
    (\<lambda>e s l v. e = Exit (Exit_json True False None) \<and> entry s p n = None)"
proof -
  let ?R = "\<lambda>e s l v. e = Exit (Exit_json True False None) \<and> entry s p n = None \<and> uv_name v = []" and ?F = "\<lambda>_ _ _ _. False"
  from i have d: "fs_obj s0 p \<noteq> None" "fs_obj s0 (m_fresh m s0) = None" "hex_id 64 (up_checksum ps)"
    "\<forall>k. entry s0 p (''.atomic-unlink-'' @ m_pid m @ ''-'' @ m_token m k) = None"
    by (auto simp: in_place_def)
  from i obtain j ob where o: "entry s0 p n = Some j" "fs_obj s0 j = Some ob" and ok: "verified_object m ps mode uid gid ob"
    by (auto simp: in_place_def)
  have st: "status_of j ob (stat_of j ob)" by (auto simp: status_of_def intro: exI [of _ "ob_ctime ob"])
  have removes: "triple (\<lambda>s l v. s = s0 \<and> uv_name v = []) (remove_target m ps p n mode uid gid \<lparr>tg_file = j, tg_stat = stat_of j ob\<rparr>) ?F ?R"
  proof -
    have make: "triple (\<lambda>s l v. s = s0 \<and> uv_name v = []) (make_private_quarantine m p 10)
        (\<lambda>(q, qn) s l v. qn \<noteq> n \<and> at_stage m p n j ob q qn [] (Some j) s l v) ?R"
      using quiet_quarantine [OF q d(1,2,4) o, of 9] by (simp add: triple_def)
    have rest: "triple (at_stage m p n j ob q qn [] (Some j)) (bindP (update_vars (\<lambda>v. v\<lparr>uv_quarantine := Some q, uv_name := qn\<rparr>)) (\<lambda>_.
        bindP (preserve_open_file m j q (stat_of j ob)) (\<lambda>_.
        bindP (except_os (syscall m (call_rename p n q ''target''))
          (\<lambda>_. fail_json ''cannot quarantine the removal target; verified inode preserved in quarantine'' (Some (recovery_path_of (up_path ps) qn)))) (\<lambda>_.
        bindP (check_quarantined m ps p n mode uid gid \<lparr>tg_file = j, tg_stat = stat_of j ob\<rparr> q qn) (\<lambda>_. remove_quarantined m ps p n q qn))))) ?F ?R"
      if n: "qn \<noteq> n" for q qn
      by (rule triple_bind [OF triple_update quiet_removes [OF \<open>quiet m\<close> st ok n]])
    show ?thesis
      unfolding remove_target_def target.simps
    proof (rule triple_bind [OF make])
      fix x :: "nat \<times> string"
      show "triple (case x of (q, qn) \<Rightarrow> \<lambda>s l v. qn \<noteq> n \<and> at_stage m p n j ob q qn [] (Some j) s l v)
        (case x of (q, qn) \<Rightarrow> bindP (update_vars (\<lambda>v. v\<lparr>uv_quarantine := Some q, uv_name := qn\<rparr>)) (\<lambda>_.
          bindP (preserve_open_file m j q (stat_of j ob)) (\<lambda>_.
          bindP (except_os (syscall m (call_rename p n q ''target''))
            (\<lambda>_. fail_json ''cannot quarantine the removal target; verified inode preserved in quarantine'' (Some (recovery_path_of (up_path ps) qn)))) (\<lambda>_.
          bindP (check_quarantined m ps p n mode uid gid \<lparr>tg_file = j, tg_stat = stat_of j ob\<rparr> q qn) (\<lambda>_. remove_quarantined m ps p n q qn))))) ?F ?R"
        by (cases x, simp only: prod.case, rule triple_pure, rule rest)
    qed
  qed
  have body: "triple (\<lambda>s l v. s = s0 \<and> uv_name v = []) (except_os (bindP (bind_target m ps p n mode uid gid) (\<lambda>tg.
      if up_check_mode ps then exit_json True False None else remove_target m ps p n mode uid gid tg))
      (\<lambda>_. fail_json ''atomic unlink failed'' None)) ?F ?R"
  proof (rule triple_except_os [where R' = ?R])
    show "triple (\<lambda>s l v. s = s0 \<and> uv_name v = []) (bindP (bind_target m ps p n mode uid gid) (\<lambda>tg.
      if up_check_mode ps then exit_json True False None else remove_target m ps p n mode uid gid tg)) ?F ?R"
      by (rule triple_bind [OF quiet_target [OF q(1) o ok d(3)]], rule triple_pure, hypsubst) (simp add: c removes)
  qed (simp_all add: triple_def)
  have start: "triple (\<lambda>s l v. s = s0) (update_vars (\<lambda>_. \<lparr>uv_file = None, uv_quarantine = None, uv_name = []\<rparr>))
      (\<lambda>_ s l v. s = s0 \<and> uv_name v = []) (\<lambda>e s l v. e = Exit (Exit_json True False None) \<and> entry s p n = None)"
    by (rule triple_update) simp
  have closes: "triple (\<lambda>s l v. entry s p n = None \<and> uv_name v = []) (close_all m p) (\<lambda>_ s l v. entry s p n = None) R" for R
  proof -
    let ?E = "\<lambda>s l v. entry s p n = None"
    have read: "triple (\<lambda>s l v. entry s p n = None \<and> uv_name v = []) read_vars (\<lambda>v0 s l v. uv_name v0 = [] \<and> ?E s l v) R"
      by (rule triple_read) simp
    have fd: "triple ?E (case x of None \<Rightarrow> ret () | Some fd \<Rightarrow> close m fd) (\<lambda>_. ?E) R" for x
      by (cases x, simp_all only: option.case) (rule triple_ret, assumption, rule quiet_close [OF q(1)])
    have name: "triple ?E (if uv_name v0 = [] then ret () else c) (\<lambda>_. ?E) R" if "uv_name v0 = []" for v0 c
      by (simp add: that triple_ret)
    show ?thesis
      unfolding close_all_def
      by (rule triple_bind [OF read], rule triple_pure, rule triple_bind [OF fd], rule triple_bind [OF fd], rule triple_bind [OF name],
          assumption, rule quiet_close [OF q(1)])
  qed
  show ?thesis
    unfolding unlink_body_def
  proof (rule triple_bind [OF start], rule triple_ensure [where T = "\<lambda>r s l v. (case r of Inl e \<Rightarrow> ?R e s l v | Inr _ \<Rightarrow> False)"])
    show "triple (\<lambda>s l v. case r of Inl e \<Rightarrow> ?R e s l v | Inr _ \<Rightarrow> False) (close_all m p)
        (\<lambda>_. case r of Inl e \<Rightarrow> (\<lambda>s l v. e = Exit (Exit_json True False None) \<and> entry s p n = None) | Inr x \<Rightarrow> (\<lambda>_ _ _. False))
        (\<lambda>e s l v. e = Exit (Exit_json True False None) \<and> entry s p n = None)" for r :: "stop + unit"
    proof (cases r)
      case (Inl e)
      show ?thesis
        unfolding Inl sum.case
        by (rule triple_pure, rule triple_weaken [where R = ?F, OF closes]) simp_all
    qed (simp add: triple_def)
  qed (use body in simp)
qed

lemma quiet_run:
  assumes q: "quiet m" "kernel m" and i: "in_place m ps (w_fs w) p n mode uid gid" and c: "\<not> up_check_mode ps"
  shows "\<exists>w'. atomic_unlink m ps w = Some (Inl (Exit (Exit_json True False None)), w') \<and> entry (w_fs w') p n = None"
proof -
  let ?R = "\<lambda>e s l v. e = Exit (Exit_json True False None) \<and> entry s p n = None"
  have "canonical_target (up_path ps)" using i by (simp add: in_place_def asked_for_def)
  moreover have "triple (\<lambda>s l v. s = w_fs w) (bindP (bind_parent m ps) (\<lambda>(p, n, mode, uid, gid). unlink_body m ps p n mode uid gid)) (\<lambda>_ _ _ _. False) ?R"
  proof (rule triple_bind [OF quiet_parent_bound [OF q(1) i]])
    show "triple (\<lambda>s l v. x = (p, n, mode, uid, gid) \<and> s = w_fs w) (case x of (p, n, mode, uid, gid) \<Rightarrow> unlink_body m ps p n mode uid gid) (\<lambda>_ _ _ _. False) ?R" for x
      by (rule triple_pure) (simp add: quiet_body [OF q i c])
  qed
  ultimately have "triple (\<lambda>s l v. s = w_fs w) (atomic_unlink m ps) (\<lambda>_ _ _ _. False) ?R"
    by (simp add: atomic_unlink_def bind_ret)
  from tripleD [OF this] show ?thesis by (cases rule: meets_cases) auto
qed


section \<open>Samples\<close>

declare read_loop.simps [code]

text \<open>A machine on which the call \<open>fault\<close> fails, and a file system with the file \<open>/etc/a\<close>.\<close>

definition sample_machine :: "nat option \<Rightarrow> machine" where
  "sample_machine fault = \<lparr>m_env = (\<lambda>k s. s), m_fault = (\<lambda>k. fault = Some k), m_time = int, m_fresh = (\<lambda>s. 9), m_umask = (\<lambda>mode. mode),
     m_euid = 0, m_egid = 0, m_pid = ''7'', m_token = (\<lambda>k. ''t''), m_sha = (\<lambda>data. replicate 64 (CHR ''0'')), m_user = (\<lambda>_. None),
     m_group = (\<lambda>_. None), m_decimal = (\<lambda>_. None), m_dir_fd = True, m_no_follow = True, m_proc_fd = True\<rparr>"

definition sample_fs :: fs where
  "sample_fs = \<lparr>fs_root = 2,
     fs_obj = (\<lambda>i. if i = 2 \<or> i = 3 then Some \<lparr>ob_dev = 1, ob_mode = 16877, ob_uid = 0, ob_gid = 0, ob_data = [], ob_mtime = 0, ob_ctime = 0\<rparr>
       else if i = 5 then Some \<lparr>ob_dev = 1, ob_mode = 33188, ob_uid = 0, ob_gid = 0, ob_data = ''x'', ob_mtime = 0, ob_ctime = 0\<rparr> else None),
     fs_dir = (\<lambda>d. if d = 2 then [(''etc'', 3)] else if d = 3 then [(''a'', 5)] else [])\<rparr>"

definition sample_world :: "unlink_vars world" where
  "sample_world = \<lparr>w_fs = sample_fs, w_clock = 0, w_log = [], w_vars = \<lparr>uv_file = None, uv_quarantine = None, uv_name = []\<rparr>\<rparr>"

definition sample_params :: unlink_params where
  "sample_params = \<lparr>up_path = ''/etc/a'', up_checksum = replicate 64 (CHR ''0''), up_mode = ''644'', up_owner = ''0'', up_group = ''0'',
     up_allow_absent = False, up_parents = PDict [(''/etc'', PDict [(''device'', PInt 1), (''inode'', PInt 3)])], up_check_mode = False\<rparr>"


lemma sample_quiet: "quiet (sample_machine None)" "kernel (sample_machine k)" "peers (sample_machine k)"
  by (auto simp: quiet_def kernel_def peers_def sample_machine_def intro: keeps_self)

lemma sample_in_place: "in_place (sample_machine None) sample_params (w_fs sample_world) 3 ''a'' 420 0 0"
proof -
  have c: "canonical_target ''/etc/a''" "path_components ''/etc/a'' = [''etc'', ''a'']" "parent_of ''/etc/a'' = ''/etc''" "octal_mode ''644'' = Inr 420"
    "hex_id 64 (replicate 64 (CHR ''0''))" "decimal (sample_machine None) ''0'' = Some 0"
    "bound_identity (sample_machine None) (PDict [(''device'', PInt 1), (''inode'', PInt 3)]) = Inr (1, 3)"
    "numeric_identity (sample_machine None) ''0'' (m_user (sample_machine None)) ''owner'' = Inr 0"
    "numeric_identity (sample_machine None) ''0'' (m_group (sample_machine None)) ''group'' = Inr 0"
    by code_simp+
  have r: "asked_for (sample_machine None) sample_params 3 ''a'' 420 0 0"
    by (simp add: asked_for_def sample_params_def c)
  have w: "resolves (sample_machine None) (up_parents sample_params) sample_fs (fs_root sample_fs) [] [''etc''] 3"
    "vouched (sample_machine None) (up_parents sample_params) sample_fs ''/etc'' 3"
    by (simp_all add: vouched_def sample_params_def sample_fs_def entry_def has_type_def is_directory_def c)
  have f: "fs_obj sample_fs 3 \<noteq> None" "fs_obj sample_fs (m_fresh (sample_machine None) sample_fs) = None" "entry sample_fs 3 ''a'' = Some 5"
    "\<forall>k. entry sample_fs 3 (''.atomic-unlink-'' @ m_pid (sample_machine None) @ ''-'' @ m_token (sample_machine None) k) = None"
    by (simp_all add: sample_fs_def sample_machine_def entry_def)
  have v: "\<exists>ob. fs_obj sample_fs 5 = Some ob \<and> verified_object (sample_machine None) sample_params 420 0 0 ob"
    by (simp add: sample_fs_def verified_object_def is_reg_def imode_def sample_machine_def sample_params_def)
  have e: "butlast (path_components (up_path sample_params)) = [''etc'']" "parent_of (up_path sample_params) = ''/etc''"
    "hex_id 64 (up_checksum sample_params) = True" "w_fs sample_world = sample_fs"
    by (simp_all add: sample_params_def sample_world_def c)
  show ?thesis unfolding in_place_def e using r w f v by blast
qed

text \<open>The removal of the moved file fails: call 22 of the run.\<close>

definition keeps_verified :: "effect list \<Rightarrow> bool" where
  "keeps_verified es \<longleftrightarrow> list_all (\<lambda>e. case e of Removed d n i \<Rightarrow> n \<noteq> ''verified'' | _ \<Rightarrow> True) es"

fun failed_after_move :: "((stop + unit) \<times> unlink_vars world) option \<Rightarrow> bool" where
  "failed_after_move (Some (Inl (Exit (Fail_json msg p)), w')) \<longleftrightarrow>
     Moved 3 ''a'' 9 ''target'' 5 \<in> set (w_log w') \<and> keeps_verified (w_log w')"
| "failed_after_move _ \<longleftrightarrow> False"

lemma failed_after_moveD:
  "failed_after_move r \<Longrightarrow> \<exists>msg p w'. r = Some (Inl (Exit (Fail_json msg p)), w')
     \<and> Moved 3 ''a'' 9 ''target'' 5 \<in> set (w_log w') \<and> (\<forall>i. Removed 9 ''verified'' i \<notin> set (w_log w'))"
  by (cases r rule: failed_after_move.cases) (auto simp: keeps_verified_def list_all_iff)

lemma sample_fault: "failed_after_move (atomic_unlink (sample_machine (Some 22)) sample_params sample_world)"
  by code_simp

text \<open>
  Closing the quarantine fails, call 24 of the run: both links are removed, and the module reports that the
  unlink failed.
\<close>

lemma close_fault_reported:
  "case atomic_unlink (sample_machine (Some 24)) sample_params sample_world of
     Some (Inl e, w') \<Rightarrow> e = Exit (Fail_json ''atomic unlink failed'' None)
       \<and> w_log w' = [Made 3 ''.atomic-unlink-7-t'' 9, Linked 9 ''verified'' 5, Moved 3 ''a'' 9 ''target'' 5,
           Removed 9 ''target'' 5, Removed 9 ''verified'' 5, Removed 3 ''.atomic-unlink-7-t'' 9]
   | _ \<Rightarrow> False"
  by code_simp

section \<open>Witnesses\<close>





end
