(* ===== verification/Spec2Isabelle.thy ===== *)
theory Spec2Isabelle
  imports Review_Config Semantic_Groups Fake_Vault Keycloak_Migration Rootless_Edge Promotion_Waiter Quality_Impact Version_Samples Stage_Handoff Intake_Samples Unlink_Samples
begin

text \<open>
  Verification of the Python core of the repository \<open>lightning-it/ansible-collection-supplementary\<close>:
  the scripts that decide whether a change is reviewed, tested, classified and released, and the
  plugins that decide about a running service. Each definition is translated from the file its
  theory names; \<open>bindE\<close>, \<open>checks\<close>, \<open>forE\<close>, \<open>mapE\<close> and \<open>foldE\<close> stand for the sequencing of statements
  that may raise, and \<open>Inl\<close> is the exception.

  \<^bold>\<open>Foundations.\<close>
  \<^item> \<open>Prelude\<close>: the exception classes, loops that stop at the first exception, numerals, splitting
    and joining. A \<open>str\<close> is the list of its UTF-8 bytes.
  \<^item> \<open>Py_Value\<close>, \<open>Py_Text\<close>: the dynamically typed values, equality (\<open>True == 1\<close>), dictionaries with
    their order of insertion, deep copies, and the \<open>str\<close> methods that look at code points.
  \<^item> \<open>Json_Text\<close>: \<open>json.loads\<close> with its hooks, and \<open>json.dumps\<close> with sorted keys in both encodings.
    The locale \<open>json_quoting\<close> holds the round trip once for both ways to quote a string.
    \<open>json_value\<close> has fuel; \<open>2 * length text + 1\<close> is proved to be enough.
  \<^item> \<open>File_Tree\<close>: what \<open>pathlib\<close> and \<open>os.open\<close> with \<open>O_NOFOLLOW\<close> report of a tree of directories, files,
    links and special files. \<open>Iso_Time\<close>: timestamps and their instants. \<open>Ip_Address\<close>: the part of
    \<open>ipaddress\<close> the plugins use.
  \<^item> \<open>Refinement\<close>: traces of an abstract step relation and the locale \<open>refines\<close>.

  \<^bold>\<open>Bounded review\<close> (\<open>scripts/bounded_review*.py\<close>). \<open>Diff_Inventory\<close> parses a Git diff, \<open>Partition\<close> cuts a
  payload into at most sixteen units, \<open>Semantic_Groups\<close> and \<open>Bounded_Review\<close> make the manifest and verify it,
  \<open>Admission\<close> holds the serial ledger of the reviews and their aggregation, \<open>Response_Budget\<close> the
  spending gate in front of the provider, \<open>Review_Config\<close> the configuration in force. The locale
  \<open>greedy_cover\<close> carries the completeness of the partition, and \<open>fail_stop_budget\<close> the laws that ledger and
  budget share; both have an interpretation on the modelled operations.

  \<^bold>\<open>Services.\<close> \<open>Fake_Vault\<close> is the Vault server of the test scenarios (\<open>molecule/resources/fake_vault_api.py\<close>),
  with a refinement of a seal/unseal life cycle. \<open>Keycloak_Migration\<close> and \<open>Rootless_Edge\<close> are the filters of
  \<open>plugins/filter\<close>. \<open>Promotion_Waiter\<close> is the inventory of waiting runs
  (\<open>scripts/promotion_waiter_inventory.py\<close>), \<open>Quality_Impact\<close> the selection of quality profiles
  (\<open>scripts/select-quality-impact.py\<close>).

  \<^bold>\<open>Security release chain\<close> (\<open>scripts/security_release_contract.py\<close>). \<open>Release_Constants\<close> has the constants,
  \<open>Release_Contract\<close> the documents, patterns, reads and validators, \<open>Release_Receipt\<close> the result of an
  intake, the receipt, and the binding a release loads from the checked-out tree. \<open>Release_Chain\<close> holds
  what they guarantee, \<open>Release_Samples\<close> a small release that the guarantees are applied to.
  \<open>Release_Version\<close> (\<open>scripts/release-version.py\<close>) derives the next version from the changelog fragments and
  makes and verifies the receipt of its preparation; the theorems compose it with the markers of the chain
  and with the documents of the contract, and \<open>Version_Samples\<close> applies them. \<open>Release_Intake\<close>
  (\<open>scripts/security-release-intake.py\<close>) checks a candidate's range of commits against its request, and the
  one-time recovery against its approved promotions, and writes the patch, the result and the receipt;
  \<open>Intake_Binding\<close> composes it with the contract: what the intake accepted, a later release can load.
  \<open>Intake_Samples\<close> applies both. \<open>Stage_Handoff\<close>
  (\<open>scripts/release-stage-handoff.py\<close>) is the manifest that hands a staged release to the publishing job:
  the loop over the pending directories is a \<open>partial_function\<close>, proved to return for every tree, and the
  manifest is proved to list every file once.

  \<^bold>\<open>Removing a file\<close> (\<open>plugins/modules/atomic_unlink.py\<close>). \<open>Posix_Files\<close> has the file system calls, computations
  that may end with an error of the system, an exception or an exit, and rules for total correctness:
  \<open>triple P c Q R\<close>. A machine (\<open>machine\<close>) acts on the file system before each call (\<open>m_env\<close>) and may let any call
  fail (\<open>m_fault\<close>); \<open>peers\<close> says what the module relies on of the other processes: they leave the objects as
  they are, and stay out of a private directory of the effective user and its name. \<open>Atomic_Unlink\<close> is the module, its loop over the
  content a \<open>partial_function\<close>, whose end is part of every theorem. \<open>Unlink_Safety\<close> shows that a run that
  reports a change removed the verified file, in the directory the caller bound, that a failed run keeps
  it, and that every run ends; the inductive predicate \<open>course\<close> lists what a run can have done. \<open>Unlink_Samples\<close> shows that an undisturbed run succeeds,
  applies the theorems to a small file system, and evaluates a run whose last \<open>close\<close> fails.

  \<^bold>\<open>Parameters.\<close> Code that is not part of the repository is an argument: the SHA-256 digest (\<open>sha\<close>), the value
  of a floating-point literal (\<open>flt\<close>), answers of the GitHub API (\<open>fetch\<close>), the output of Git (in \<open>Release_Intake\<close> a record
  that gives one answer to each command), parsed YAML, and, where it is not the subject, the JSON decoder (\<open>loads\<close>).

  \<^bold>\<open>Conventions.\<close> Messages of exceptions are kept where the code has a constant text; the part of a message
  that renders another exception, or a value only for the reader, is left out. A consecutive run of tests
  that raise is one \<open>checks\<close>; its conditions are evaluated in order and may use earlier ones. Reading a
  missing key, comparing unordered values and the other raises of the language are branches where the code
  can reach them.

  \<^bold>\<open>Not modelled.\<close> Running subprocesses, HTTP clients, argument parsing and printing; the scripts listed as
  such in the manifest; \<open>RecursionError\<close>, which depends on the interpreter's stack; changes that other
  processes make to a file tree while a script of \<open>scripts\<close> runs, except that a file may grow between \<open>fstat\<close>
  and \<open>read\<close>. \<open>Posix_Files\<close> has no permissions of its own: that a call is refused is a failure of \<open>m_fault\<close>.
\<close>

end
